(* ===== verification/Prelude.thy ===== *)
theory Prelude
  imports Complex_Main "HOL-Library.Multiset" "HOL-Library.Sublist"
begin

text \<open>
  Shared vocabulary of the development: the types every component uses, the suffix
  operation behind every bounded buffer of the program, a comparator-driven stable sort,
  and three interfaces stated as locales: a loop over a Go map (whose iteration order the
  language leaves open), a bounded buffer, and a comparator that a sort may rely on.
\<close>

named_theorems wf_simps \<open>definitions of the well-formedness predicates\<close>
named_theorems go_map \<open>lookup-after-loop facts of the range-over-map loops\<close>

section \<open>Types\<close>

text \<open>
  A float64 is an exact rational (rounding is not modelled; NaN and infinities do not
  occur, the one parser that could let them in rejects them). A time is a number of
  nanoseconds, a duration an integer number of nanoseconds.
\<close>

type_synonym f64 = rat
type_synonym time = int
type_synonym duration = int

abbreviation millisecond :: duration where "millisecond \<equiv> 1000000"
abbreviation second :: duration where "second \<equiv> 1000000000"
abbreviation minute :: duration where "minute \<equiv> 60000000000"
abbreviation hour :: duration where "hour \<equiv> 3600000000000"

section \<open>Suffixes: the last n elements of a slice\<close>

text \<open>Go's \<open>s[len(s)-n:]\<close> for \<open>n \<le> len(s)\<close>; the whole slice otherwise.\<close>

definition last_n :: "nat \<Rightarrow> 'a list \<Rightarrow> 'a list" where
  "last_n n xs = drop (length xs - n) xs"

lemma length_last_n [simp]: "length (last_n n xs) = min n (length xs)"
  by (simp add: last_n_def)

lemma last_n_all [simp]: "length xs \<le> n \<Longrightarrow> last_n n xs = xs"
  by (simp add: last_n_def)

lemma last_n_0 [simp]: "last_n 0 xs = []"
  by (simp add: last_n_def)

lemma last_n_suffix [intro]: "suffix (last_n n xs) xs"
  by (simp add: last_n_def suffix_drop)

lemma set_last_n: "set (last_n n xs) \<subseteq> set xs"
  by (simp add: last_n_def set_drop_subset)

lemma last_n_append:
  "last_n n (xs @ ys) = last_n (n - length ys) xs @ last_n n ys"
  by (cases "length ys \<le> n") (auto simp: last_n_def)

lemma last_n_last_n: "last_n m (last_n n xs) = last_n (min m n) xs"
  by (cases "n \<le> length xs") (auto simp: last_n_def min_def)

lemma last_n_absorb: "last_n n (last_n n xs @ ys) = last_n n (xs @ ys)"
  by (simp add: last_n_append last_n_last_n min_def)

lemma last_n_Suc_snoc: "last_n (Suc n) (xs @ [x]) = last_n n xs @ [x]"
  by (simp add: last_n_append)

lemma last_last_n: "0 < n \<Longrightarrow> xs \<noteq> [] \<Longrightarrow> last (last_n n xs) = last xs"
  by (simp add: last_n_def last_drop)

section \<open>Bounded buffers\<close>

text \<open>
  The program keeps every history bounded by appending and then slicing off the front:
  the alert log, the sparkline rings, the packet-loss window, the victims of the OOM
  killer. The interface says what one push keeps; its consequences for a run of pushes
  are proved once.
\<close>

locale bounded_buffer =
  fixes push :: "'a \<Rightarrow> 'a list \<Rightarrow> 'a list" and bound :: nat
  assumes push_eq: "push x xs = last_n bound (xs @ [x])"
begin

lemma push_length: "length (push x xs) \<le> bound"
  by (simp add: push_eq)

lemma pushes_eq: "last_n bound (fold push ys xs) = last_n bound (xs @ ys)"
  by (induction ys arbitrary: xs) (simp_all add: push_eq last_n_absorb)

lemma pushes_length:
  "length xs \<le> bound \<Longrightarrow> length (fold push ys xs) \<le> bound"
  by (induction ys arbitrary: xs) (simp_all add: push_length)

lemma pushes_suffix:
  assumes "length xs \<le> bound"
  shows "fold push ys xs = last_n bound (xs @ ys)"
  using pushes_eq [of ys xs] pushes_length [OF assms, of ys] by simp

lemma push_newest: "0 < bound \<Longrightarrow> push x xs \<noteq> [] \<and> last (push x xs) = x"
  by (cases bound) (simp_all add: push_eq last_n_Suc_snoc)

end

section \<open>Loops over a map\<close>

text \<open>
  Go's \<open>for k, v := range m\<close> visits every key once, in an order the language does not
  fix. A loop is modelled as a fold over a list of keys, the order being an argument; the
  interface is what makes the order irrelevant: the body for a key reads and writes the
  entry of that key only. \<open>map_loop\<close> is the plain form, \<open>range_loop\<close> also appends to
  a list of outputs.
\<close>

locale map_loop =
  fixes mbody :: "'k \<Rightarrow> ('k \<rightharpoonup> 'v) \<Rightarrow> ('k \<rightharpoonup> 'v)"
    and mstep :: "'k \<Rightarrow> 'v option \<Rightarrow> 'v option"
  assumes mbody_eq: "mbody k m = m(k := mstep k (m k))"
begin

lemma loop_lookup:
  "distinct ks \<Longrightarrow> fold mbody ks m k = (if k \<in> set ks then mstep k (m k) else m k)"
  by (induction ks arbitrary: m) (auto simp: mbody_eq)

lemma loop_order:
  assumes "distinct ks" "distinct ks'" "set ks = set ks'"
  shows "fold mbody ks m = fold mbody ks' m"
  by (rule ext) (simp add: loop_lookup assms)

end

locale range_loop =
  fixes body :: "'k \<Rightarrow> ('k \<rightharpoonup> 'v) \<times> 'e list \<Rightarrow> ('k \<rightharpoonup> 'v) \<times> 'e list"
    and step :: "'k \<Rightarrow> 'v option \<Rightarrow> 'v option"
    and emit :: "'k \<Rightarrow> 'v option \<Rightarrow> 'e list"
  assumes body_eq: "body k (m, es) = (m(k := step k (m k)), es @ emit k (m k))"
begin

sublocale proj: map_loop "\<lambda>k m. fst (body k (m, []))" step
  by unfold_locales (simp add: body_eq)

lemma loop_fst: "fst (fold body ks (m, es)) = fold (\<lambda>k m. fst (body k (m, []))) ks m"
  by (induction ks arbitrary: m es) (simp_all add: body_eq)

lemma loop_snd:
  "distinct ks \<Longrightarrow>
   snd (fold body ks (m, es)) = es @ concat (map (\<lambda>k. emit k (m k)) ks)"
proof (induction ks arbitrary: m es)
  case Nil
  then show ?case by simp
next
  case (Cons k ks)
  then have "map (\<lambda>k'. emit k' ((m(k := step k (m k))) k')) ks = map (\<lambda>k'. emit k' (m k')) ks"
    by (intro map_cong) auto
  with Cons.IH [of "m(k := step k (m k))"] Cons.prems show ?case
    by (simp add: body_eq del: fun_upd_apply)
qed

lemma range_lookup:
  "distinct ks \<Longrightarrow>
   fst (fold body ks (m, es)) k = (if k \<in> set ks then step k (m k) else m k)"
  by (simp add: loop_fst proj.loop_lookup)

end

section \<open>Sorting with a comparator\<close>

text \<open>
  \<open>sort.SliceStable(xs, less)\<close>: a stable sort that only asks \<open>less\<close>. A comparator a
  sort may rely on is a strict weak order.
\<close>

fun insert_by :: "('a \<Rightarrow> 'a \<Rightarrow> bool) \<Rightarrow> 'a \<Rightarrow> 'a list \<Rightarrow> 'a list" where
  "insert_by lt x [] = [x]"
| "insert_by lt x (y # ys) = (if lt y x then y # insert_by lt x ys else x # y # ys)"

fun sort_by :: "('a \<Rightarrow> 'a \<Rightarrow> bool) \<Rightarrow> 'a list \<Rightarrow> 'a list" where
  "sort_by lt [] = []"
| "sort_by lt (x # xs) = insert_by lt x (sort_by lt xs)"

lemma mset_insert_by [simp]: "mset (insert_by lt x xs) = add_mset x (mset xs)"
  by (induction xs) auto

lemma mset_sort_by [simp]: "mset (sort_by lt xs) = mset xs"
  by (induction xs) auto

lemma set_sort_by [simp]: "set (sort_by lt xs) = set xs"
  by (metis mset_sort_by set_mset_mset)

lemma length_sort_by [simp]: "length (sort_by lt xs) = length xs"
  by (metis mset_sort_by size_mset)

lemma sort_by_Nil_iff [simp]: "sort_by lt xs = [] \<longleftrightarrow> xs = []"
  by (metis length_0_conv length_sort_by)

locale weak_order =
  fixes lt :: "'a \<Rightarrow> 'a \<Rightarrow> bool"
  assumes lt_asym: "lt x y \<Longrightarrow> \<not> lt y x"
    and not_lt_trans: "\<not> lt y x \<Longrightarrow> \<not> lt z y \<Longrightarrow> \<not> lt z x"
begin

lemma insert_by_sorted:
  "sorted_wrt (\<lambda>a b. \<not> lt b a) xs \<Longrightarrow> sorted_wrt (\<lambda>a b. \<not> lt b a) (insert_by lt x xs)"
proof (induction xs)
  case Nil
  then show ?case by simp
next
  case (Cons y ys)
  have "set (insert_by lt x ys) = insert x (set ys)"
    by (metis mset_insert_by set_mset_add_mset_insert set_mset_mset)
  with Cons show ?case
    by (auto dest: lt_asym) (metis not_lt_trans)
qed

lemma sort_by_sorted: "sorted_wrt (\<lambda>a b. \<not> lt b a) (sort_by lt xs)"
  by (induction xs) (simp_all add: insert_by_sorted)

end

text \<open>
  When elements the comparator does not separate are equal, the sorted list is determined
  by the multiset of elements alone, whatever order they came in.
\<close>

lemma sorted_wrt_unique:
  assumes antisym: "\<And>x y. R x y \<Longrightarrow> R y x \<Longrightarrow> x = y"
  shows "sorted_wrt R xs \<Longrightarrow> sorted_wrt R ys \<Longrightarrow> mset xs = mset ys \<Longrightarrow> xs = ys"
proof (induction xs arbitrary: ys)
  case Nil
  then show ?case by simp
next
  case (Cons x xs)
  then obtain y ys' where ys: "ys = y # ys'" by (cases ys) auto
  have "x \<in> set ys" "y \<in> set (x # xs)"
    using Cons.prems(3) ys by (metis list.set_intros(1) set_mset_mset)+
  then have "x = y" using Cons.prems(1,2) ys antisym by auto
  with Cons ys show ?case by auto
qed

locale total_comparator = weak_order +
  assumes separates: "\<not> lt x y \<Longrightarrow> \<not> lt y x \<Longrightarrow> x = y"
begin

lemma sort_by_unique: "mset xs = mset ys \<Longrightarrow> sort_by lt xs = sort_by lt ys"
  by (rule sorted_wrt_unique [where R = "\<lambda>a b. \<not> lt b a"])
    (simp_all add: separates sort_by_sorted)

lemma hd_sort_by:
  assumes "x \<in> set xs" and "\<And>y. y \<in> set xs \<Longrightarrow> \<not> lt y x"
  shows "hd (sort_by lt xs) = x"
proof -
  obtain y ys where e: "sort_by lt xs = y # ys"
    using assms(1) by (cases "sort_by lt xs") auto
  then have "x = y \<or> x \<in> set ys" "y \<in> set xs"
    using assms(1) by (metis set_ConsD set_sort_by, metis list.set_intros(1) set_sort_by)
  with sort_by_sorted [of xs] e assms(2) show ?thesis by (auto intro: separates)
qed

end

section \<open>Small facts\<close>

lemma fold_map_upd_notin:
  "k \<notin> set ks \<Longrightarrow> (\<And>k' m. k' \<noteq> k \<Longrightarrow> f k' m k = m k) \<Longrightarrow> fold f ks m k = m k"
  by (induction ks arbitrary: m) auto

lemma filter_fold_set: "x \<in> set (filter P xs) \<longleftrightarrow> x \<in> set xs \<and> P x"
  by auto

lemma find_map: "find P (map f xs) = map_option f (find (P \<circ> f) xs)"
  by (induction xs) auto

end
