(* ===== verification/Alerts.thy ===== *)
theory Alerts
  imports Prelude "HOL-Library.Char_ord" "HOL-Library.List_Lexorder"
begin

text \<open>
  The alert engine of \<open>internal/ui/alerts.go\<close>: the set of active conditions with their
  flap-damping counters, the bounded log of changes, and the update that diffs the
  conditions of one tick against the active set. Both loops of the update range over a Go
  map, so the orders in which they visit their keys are arguments (\<open>ks\<close>, \<open>as\<close>). Counters
  and capacities are Go \<open>int\<close>s.
\<close>

section \<open>Types\<close>

datatype alertSeverity = SevWarn | SevCrit

instantiation alertSeverity :: linorder
begin

definition less_eq_alertSeverity :: "alertSeverity \<Rightarrow> alertSeverity \<Rightarrow> bool" where
  "less_eq_alertSeverity a b \<longleftrightarrow> a = SevWarn \<or> b = SevCrit"

definition less_alertSeverity :: "alertSeverity \<Rightarrow> alertSeverity \<Rightarrow> bool" where
  "less_alertSeverity a b \<longleftrightarrow> a = SevWarn \<and> b = SevCrit"

instance
proof
  fix x y z :: alertSeverity
  show "(x < y) = (x \<le> y \<and> \<not> y \<le> x)"
    by (cases x; cases y) (simp_all add: less_eq_alertSeverity_def less_alertSeverity_def)
  show "x \<le> x"
    by (cases x) (simp_all add: less_eq_alertSeverity_def)
  show "x \<le> y \<Longrightarrow> y \<le> z \<Longrightarrow> x \<le> z"
    by (cases x; cases y; cases z) (simp_all add: less_eq_alertSeverity_def)
  show "x \<le> y \<Longrightarrow> y \<le> x \<Longrightarrow> x = y"
    by (cases x; cases y) (simp_all add: less_eq_alertSeverity_def)
  show "x \<le> y \<or> y \<le> x"
    by (cases x; cases y) (simp_all add: less_eq_alertSeverity_def)
qed

end

lemma sev_less_simps [simp]:
  "(SevWarn < SevCrit) = True" "(SevCrit < s) = False" "(s < SevWarn) = False"
  by (simp_all add: less_alertSeverity_def)

definition label :: "alertSeverity \<Rightarrow> string" where
  "label s = (if s = SevCrit then ''CRIT'' else ''WARN'')"

record alertCond =
  ac_sev :: alertSeverity
  ac_msg :: string

record alertEntry =
  en_when :: time
  en_sev :: alertSeverity
  en_msg :: string
  en_cleared :: bool

record activeCond =
  av_cond :: alertCond
  av_missing :: int
  av_lower :: int

record alertEngine =
  ae_active :: "string \<rightharpoonup> activeCond"
  ae_log :: "alertEntry list"
  ae_cap :: int
  ae_clearTicks :: int
  ae_muted :: bool

section \<open>Operations\<close>

definition newAlertEngine :: "int \<Rightarrow> int \<Rightarrow> alertEngine" where
  "newAlertEngine capN clearTicks =
     \<lparr>ae_active = Map.empty, ae_log = [],
      ae_cap = (if capN < 16 then 16 else capN),
      ae_clearTicks = (if clearTicks < 1 then 1 else clearTicks),
      ae_muted = False\<rparr>"

definition push_log :: "int \<Rightarrow> alertEntry \<Rightarrow> alertEntry list \<Rightarrow> alertEntry list" where
  "push_log cap en lg =
     (let lg' = lg @ [en]
      in if int (length lg') > cap then drop (nat (int (length lg') - cap)) lg' else lg')"

definition push :: "alertEngine \<Rightarrow> alertEntry \<Rightarrow> alertEngine" where
  "push e en = e\<lparr>ae_log := push_log (ae_cap e) en (ae_log e)\<rparr>"

definition raise_entry :: "time \<Rightarrow> alertCond \<Rightarrow> alertEntry" where
  "raise_entry now c = \<lparr>en_when = now, en_sev = ac_sev c, en_msg = ac_msg c, en_cleared = False\<rparr>"

definition clear_entry :: "time \<Rightarrow> alertCond \<Rightarrow> alertEntry" where
  "clear_entry now c = \<lparr>en_when = now, en_sev = ac_sev c, en_msg = ac_msg c, en_cleared = True\<rparr>"

definition fresh :: "alertCond \<Rightarrow> activeCond" where
  "fresh c = \<lparr>av_cond = c, av_missing = 0, av_lower = 0\<rparr>"

text \<open>The body of the loop over the conditions of this tick.\<close>

fun present_body ::
  "int \<Rightarrow> time \<Rightarrow> (string \<rightharpoonup> alertCond) \<Rightarrow> string \<Rightarrow>
   (string \<rightharpoonup> activeCond) \<times> alertEntry list \<Rightarrow> (string \<rightharpoonup> activeCond) \<times> alertEntry list" where
  "present_body clearTicks now conds k (active, events) =
     (case conds k of
        None \<Rightarrow> (active, events)
      | Some c \<Rightarrow>
          (case active k of
             None \<Rightarrow> (active(k \<mapsto> fresh c), events @ [raise_entry now c])
           | Some prev \<Rightarrow>
               if ac_sev c > ac_sev (av_cond prev)
               then (active(k \<mapsto> fresh c), events @ [raise_entry now c])
               else if ac_sev c < ac_sev (av_cond prev)
               then if av_lower prev + 1 < clearTicks
                    then (active(k \<mapsto> prev\<lparr>av_lower := av_lower prev + 1, av_missing := 0\<rparr>), events)
                    else (active(k \<mapsto> fresh c), events @ [raise_entry now c])
               else (active(k \<mapsto> fresh c), events)))"

text \<open>The body of the loop over the active conditions.\<close>

fun absent_body ::
  "int \<Rightarrow> time \<Rightarrow> (string \<rightharpoonup> alertCond) \<Rightarrow> string \<Rightarrow>
   (string \<rightharpoonup> activeCond) \<times> alertEntry list \<Rightarrow> (string \<rightharpoonup> activeCond) \<times> alertEntry list" where
  "absent_body clearTicks now conds k (active, events) =
     (if conds k \<noteq> None then (active, events)
      else case active k of
        None \<Rightarrow> (active, events)
      | Some prev \<Rightarrow>
          let prev' = prev\<lparr>av_missing := av_missing prev + 1\<rparr>
          in if av_missing prev' \<ge> clearTicks
             then (active(k := None), events @ [clear_entry now (av_cond prev)])
             else (active(k \<mapsto> prev'), events))"

definition update ::
  "alertEngine \<Rightarrow> (string \<rightharpoonup> alertCond) \<Rightarrow> time \<Rightarrow> string list \<Rightarrow> string list \<Rightarrow>
   alertEngine \<times> alertEntry list" where
  "update e conds now ks as =
     (let (a1, ev1) = fold (present_body (ae_clearTicks e) now conds) ks (ae_active e, []);
          (a2, ev2) = fold (absent_body (ae_clearTicks e) now conds) as (a1, ev1)
      in (fold (\<lambda>ev e. push e ev) ev2 (e\<lparr>ae_active := a2\<rparr>), ev2))"

text \<open>
  The iteration orders Go may choose: the first loop visits the keys of \<open>conds\<close>, the second
  the keys of the active set as the first loop left it, each exactly once.
\<close>

definition orders_ok :: "alertEngine \<Rightarrow> (string \<rightharpoonup> alertCond) \<Rightarrow> string list \<Rightarrow> string list \<Rightarrow> bool" where
  "orders_ok e conds ks as \<longleftrightarrow>
     distinct ks \<and> set ks = dom conds \<and> distinct as \<and> set as = dom (ae_active e) \<union> dom conds"

definition better :: "alertCond \<Rightarrow> alertCond \<Rightarrow> bool" where
  "better c t \<longleftrightarrow> ac_sev c > ac_sev t \<or> ac_sev c = ac_sev t \<and> ac_msg c < ac_msg t"

fun summary_loop :: "alertCond list \<Rightarrow> alertCond \<Rightarrow> alertCond" where
  "summary_loop [] t = t"
| "summary_loop (c # cs) t = summary_loop cs (if better c t then c else t)"

text \<open>\<open>summary\<close> and \<open>activeList\<close> also range over the active set; \<open>ks\<close> is that order.\<close>

definition active_conds :: "alertEngine \<Rightarrow> string list \<Rightarrow> alertCond list" where
  "active_conds e ks = map (\<lambda>k. av_cond (the (ae_active e k))) ks"

definition summary :: "alertEngine \<Rightarrow> string list \<Rightarrow> (alertCond \<times> nat) option" where
  "summary e ks =
     (case active_conds e ks of [] \<Rightarrow> None | c # cs \<Rightarrow> Some (summary_loop cs c, length ks))"

definition activeList :: "alertEngine \<Rightarrow> string list \<Rightarrow> alertCond list" where
  "activeList e ks = sort_by better (active_conds e ks)"

definition clearLog :: "alertEngine \<Rightarrow> alertEngine" where
  "clearLog e = e\<lparr>ae_log := []\<rparr>"

section \<open>What one update does to one key\<close>

text \<open>
  The contract of the engine, one key at a time: a four-way automaton on what the key was
  and what this tick says about it.
\<close>

fun key_step :: "int \<Rightarrow> alertCond option \<Rightarrow> activeCond option \<Rightarrow> activeCond option" where
  "key_step ct None None = None"
| "key_step ct (Some c) None = Some (fresh c)"
| "key_step ct None (Some p) =
     (if av_missing p + 1 \<ge> ct then None else Some (p\<lparr>av_missing := av_missing p + 1\<rparr>))"
| "key_step ct (Some c) (Some p) =
     (if ac_sev c < ac_sev (av_cond p) \<and> av_lower p + 1 < ct
      then Some (p\<lparr>av_lower := av_lower p + 1, av_missing := 0\<rparr>) else Some (fresh c))"

fun key_events :: "int \<Rightarrow> time \<Rightarrow> alertCond option \<Rightarrow> activeCond option \<Rightarrow> alertEntry list" where
  "key_events ct now None None = []"
| "key_events ct now (Some c) None = [raise_entry now c]"
| "key_events ct now None (Some p) =
     (if av_missing p + 1 \<ge> ct then [clear_entry now (av_cond p)] else [])"
| "key_events ct now (Some c) (Some p) =
     (if ac_sev c = ac_sev (av_cond p) \<or> ac_sev c < ac_sev (av_cond p) \<and> av_lower p + 1 < ct
      then [] else [raise_entry now c])"

interpretation pres: range_loop "present_body ct now conds"
    "\<lambda>k p. if conds k = None then p else key_step ct (conds k) p"
    "\<lambda>k p. if conds k = None then [] else key_events ct now (conds k) p"
  for ct now conds
proof
  fix k m es
  show "present_body ct now conds k (m, es) =
    (m(k := if conds k = None then m k else key_step ct (conds k) (m k)),
     es @ (if conds k = None then [] else key_events ct now (conds k) (m k)))"
    by (auto split: option.splits elim: linorder_neqE)
qed

interpretation absn: range_loop "absent_body ct now conds"
    "\<lambda>k p. if conds k = None then key_step ct None p else p"
    "\<lambda>k p. if conds k = None then key_events ct now None p else []"
  for ct now conds
proof
  fix k m es
  show "absent_body ct now conds k (m, es) =
    (m(k := if conds k = None then key_step ct None (m k) else m k),
     es @ (if conds k = None then key_events ct now None (m k) else []))"
    by (auto split: option.splits simp: Let_def)
qed

interpretation alog: bounded_buffer "push_log cap" "nat cap" for cap
proof
  fix x xs
  show "push_log cap x xs = last_n (nat cap) (xs @ [x])"
  proof (cases "cap \<ge> 0")
    case True
    then have "nat (int (length (xs @ [x])) - cap) = length (xs @ [x]) - nat cap"
      by (simp add: nat_diff_distrib del: length_append)
    then show ?thesis
      by (simp add: push_log_def last_n_def Let_def del: length_append drop_append)
  next
    case False
    then have "nat (int (length (xs @ [x])) - cap) \<ge> length (xs @ [x])" by linarith
    with False show ?thesis by (auto simp: push_log_def last_n_def Let_def)
  qed
qed

section \<open>Lemmas of the engine\<close>

definition engine_wf :: "alertEngine \<Rightarrow> bool" where
  [wf_simps]: "engine_wf e \<longleftrightarrow>
     16 \<le> ae_cap e \<and> 1 \<le> ae_clearTicks e \<and> int (length (ae_log e)) \<le> ae_cap e \<and>
     finite (dom (ae_active e)) \<and>
     (\<forall>k p. ae_active e k = Some p \<longrightarrow>
        0 \<le> av_missing p \<and> av_missing p < ae_clearTicks e \<and>
        0 \<le> av_lower p \<and> av_lower p < ae_clearTicks e)"

lemma engine_wf_new: "engine_wf (newAlertEngine c t)"
  by (auto simp: engine_wf_def newAlertEngine_def)

lemma fold_push:
  "fold (\<lambda>ev e. push e ev) evs e = e\<lparr>ae_log := fold (push_log (ae_cap e)) evs (ae_log e)\<rparr>"
  by (induction evs arbitrary: e) (simp_all add: push_def)

lemma update_unfold:
  "update e conds now ks as =
     (e\<lparr>ae_active := fst (fold (absent_body (ae_clearTicks e) now conds) as
          (fold (present_body (ae_clearTicks e) now conds) ks (ae_active e, []))),
        ae_log := fold (push_log (ae_cap e))
          (snd (fold (absent_body (ae_clearTicks e) now conds) as
            (fold (present_body (ae_clearTicks e) now conds) ks (ae_active e, [])))) (ae_log e)\<rparr>,
      snd (fold (absent_body (ae_clearTicks e) now conds) as
            (fold (present_body (ae_clearTicks e) now conds) ks (ae_active e, []))))"
  by (simp add: update_def fold_push case_prod_unfold Let_def)

lemma update_frame:
  assumes "update e conds now ks as = (e', evs)"
  shows "ae_cap e' = ae_cap e" "ae_clearTicks e' = ae_clearTicks e" "ae_muted e' = ae_muted e"
    "ae_log e' = fold (push_log (ae_cap e)) evs (ae_log e)"
  using assms by (auto simp: update_unfold)

lemma after_present:
  assumes "orders_ok e conds ks as"
  shows "fst (fold (present_body ct now conds) ks (ae_active e, [])) k =
    (if conds k = None then ae_active e k else key_step ct (conds k) (ae_active e k))"
  using assms by (auto simp: orders_ok_def pres.range_lookup)

lemma update_key:
  assumes "update e conds now ks as = (e', evs)" and "orders_ok e conds ks as"
  shows "ae_active e' k = key_step (ae_clearTicks e) (conds k) (ae_active e k)"
proof -
  let ?p = "fold (present_body (ae_clearTicks e) now conds) ks (ae_active e, [])"
  have "ae_active e' k = fst (fold (absent_body (ae_clearTicks e) now conds) as (fst ?p, snd ?p)) k"
    using assms(1) by (auto simp: update_unfold)
  also have "\<dots> = key_step (ae_clearTicks e) (conds k) (ae_active e k)"
    using assms(2) by (subst absn.range_lookup)
      (auto simp: orders_ok_def after_present [OF assms(2)] domIff)
  finally show ?thesis .
qed

lemma update_events:
  assumes "update e conds now ks as = (e', evs)" and "orders_ok e conds ks as"
  shows "evs = concat (map (\<lambda>k. key_events (ae_clearTicks e) now (conds k) (ae_active e k)) ks) @
    concat (map (\<lambda>k. if conds k = None
      then key_events (ae_clearTicks e) now None (ae_active e k) else []) as)"
proof -
  let ?p = "fold (present_body (ae_clearTicks e) now conds) ks (ae_active e, [])"
  have "evs = snd (fold (absent_body (ae_clearTicks e) now conds) as (fst ?p, snd ?p))"
    using assms(1) by (auto simp: update_unfold)
  also have "\<dots> = snd ?p @ concat (map (\<lambda>k. if conds k = None
      then key_events (ae_clearTicks e) now None (ae_active e k) else []) as)"
    using assms(2) by (subst absn.loop_snd)
      (auto simp: orders_ok_def after_present [OF assms(2)] intro!: arg_cong [where f = concat])
  also have "snd ?p = concat (map (\<lambda>k. key_events (ae_clearTicks e) now (conds k) (ae_active e k)) ks)"
    using assms(2) by (subst pres.loop_snd)
      (auto simp: orders_ok_def domIff intro!: arg_cong [where f = concat])
  finally show ?thesis .
qed

lemma engine_wf_log: "engine_wf e \<Longrightarrow> length (ae_log e) \<le> nat (ae_cap e)"
  unfolding engine_wf_def by linarith

lemma update_log:
  assumes "update e conds now ks as = (e', evs)" and "engine_wf e"
  shows "ae_log e' = last_n (nat (ae_cap e)) (ae_log e @ evs)"
  using alog.pushes_suffix [OF engine_wf_log [OF assms(2)]] update_frame(4) [OF assms(1)] by simp

lemma key_step_bounds:
  assumes "1 \<le> ct" and "\<And>p. st = Some p \<Longrightarrow>
    0 \<le> av_missing p \<and> av_missing p < ct \<and> 0 \<le> av_lower p \<and> av_lower p < ct"
    and "key_step ct c st = Some q"
  shows "0 \<le> av_missing q \<and> av_missing q < ct \<and> 0 \<le> av_lower q \<and> av_lower q < ct"
  using assms by (cases c; cases st) (auto simp: fresh_def split: if_splits)

lemma update_wf:
  assumes "update e conds now ks as = (e', evs)" "orders_ok e conds ks as" "engine_wf e"
  shows "engine_wf e'"
proof -
  note frame = update_frame [OF assms(1)] and key = update_key [OF assms(1,2)]
  have "dom (ae_active e') \<subseteq> set as"
    using assms(2) by (auto simp: key orders_ok_def dom_def split: option.splits)
  then have "finite (dom (ae_active e'))" by (rule finite_subset) simp
  moreover have "length (ae_log e') \<le> nat (ae_cap e)"
    using assms(3) unfolding frame(4) by (intro alog.pushes_length) (auto simp: engine_wf_def)
  moreover have "\<forall>k q. ae_active e' k = Some q \<longrightarrow>
      0 \<le> av_missing q \<and> av_missing q < ae_clearTicks e \<and> 0 \<le> av_lower q \<and> av_lower q < ae_clearTicks e"
    using assms(3) unfolding key by (intro allI impI, elim key_step_bounds [rotated 2])
      (auto simp: engine_wf_def)
  ultimately show ?thesis using assms(3) by (auto simp: engine_wf_def frame)
qed

section \<open>Runs of updates\<close>

record tick =
  tk_conds :: "string \<rightharpoonup> alertCond"
  tk_now :: time
  tk_ks :: "string list"
  tk_as :: "string list"

text \<open>
  A run feeds ticks to the engine one after another, each with iteration orders Go may
  choose; the trace pairs each tick with the events it logged.
\<close>

inductive engine_run :: "alertEngine \<Rightarrow> (tick \<times> alertEntry list) list \<Rightarrow> alertEngine \<Rightarrow> bool" where
  run_nil: "engine_run e [] e"
| run_tick: "engine_run e tr e1 \<Longrightarrow> orders_ok e1 (tk_conds t) (tk_ks t) (tk_as t) \<Longrightarrow>
    update e1 (tk_conds t) (tk_now t) (tk_ks t) (tk_as t) = (e2, evs) \<Longrightarrow>
    engine_run e (tr @ [(t, evs)]) e2"

inductive_cases engine_run_emptyE: "engine_run e [] e'"

text \<open>What a run says about one key: the inputs it saw, folded through the automaton.\<close>

definition key_inputs :: "string \<Rightarrow> (tick \<times> alertEntry list) list \<Rightarrow> (time \<times> alertCond option) list" where
  "key_inputs k tr = map (\<lambda>(t, _). (tk_now t, tk_conds t k)) tr"

definition key_run ::
  "int \<Rightarrow> (time \<times> alertCond option) list \<Rightarrow> activeCond option \<times> alertEntry list \<Rightarrow>
   activeCond option \<times> alertEntry list" where
  "key_run ct ins st = fold (\<lambda>(now, c) (p, es). (key_step ct c p, es @ key_events ct now c p)) ins st"

lemma key_run_simps [simp]:
  "key_run ct [] st = st"
  "key_run ct (ins @ [(now, c)]) st =
     (key_step ct c (fst (key_run ct ins st)),
      snd (key_run ct ins st) @ key_events ct now c (fst (key_run ct ins st)))"
  by (simp_all add: key_run_def case_prod_unfold)

lemma key_inputs_simps [simp]:
  "key_inputs k [] = []"
  "key_inputs k (tr @ [(t, evs)]) = key_inputs k tr @ [(tk_now t, tk_conds t k)]"
  by (simp_all add: key_inputs_def)

lemma engine_run_wf: "engine_run e tr e' \<Longrightarrow> engine_wf e \<Longrightarrow>
    engine_wf e' \<and> ae_cap e' = ae_cap e \<and> ae_clearTicks e' = ae_clearTicks e"
  by (induction rule: engine_run.induct) (auto intro: update_wf dest: update_frame)

lemma engine_run_key:
  "engine_run e tr e' \<Longrightarrow> engine_wf e \<Longrightarrow>
   ae_active e' k = fst (key_run (ae_clearTicks e) (key_inputs k tr) (ae_active e k, []))"
proof (induction rule: engine_run.induct)
  case (run_nil e)
  then show ?case by simp
next
  case (run_tick e tr e1 t e2 evs)
  then show ?case
    using update_key [OF run_tick.hyps(3,2), of k] engine_run_wf [OF run_tick.hyps(1)] by simp
qed

lemma engine_run_log:
  "engine_run e tr e' \<Longrightarrow> engine_wf e \<Longrightarrow>
   ae_log e' = last_n (nat (ae_cap e)) (ae_log e @ concat (map snd tr))"
proof (induction rule: engine_run.induct)
  case (run_nil e)
  then show ?case by (simp add: engine_wf_log)
next
  case (run_tick e tr e1 t e2 evs)
  have wf: "engine_wf e1" "ae_cap e1 = ae_cap e"
    using engine_run_wf [OF run_tick.hyps(1) run_tick.prems] by auto
  have "ae_log e2 = last_n (nat (ae_cap e)) (ae_log e1 @ evs)"
    using update_log [OF run_tick.hyps(3)] wf by simp
  with run_tick show ?case by (simp add: last_n_absorb flip: append_assoc)
qed

section \<open>What the log says about one key\<close>

text \<open>
  The announced history of a key: it starts with a raise, a clear answers the entry before
  it at the same severity, and a raise never repeats the severity still announced.
\<close>

definition announces :: "alertEntry \<Rightarrow> alertEntry \<Rightarrow> bool" where
  "announces a b \<longleftrightarrow>
     (if en_cleared b then \<not> en_cleared a \<and> en_sev a = en_sev b
      else en_cleared a \<or> en_sev a \<noteq> en_sev b)"

definition well_announced :: "activeCond option \<Rightarrow> alertEntry list \<Rightarrow> bool" where
  "well_announced st es \<longleftrightarrow>
     successively announces es \<and> (es \<noteq> [] \<longrightarrow> \<not> en_cleared (hd es)) \<and>
     (case st of
        None \<Rightarrow> es = [] \<or> en_cleared (last es)
      | Some p \<Rightarrow> es \<noteq> [] \<and> \<not> en_cleared (last es) \<and> en_sev (last es) = ac_sev (av_cond p))"

lemma well_announced_step:
  assumes "well_announced p es"
  shows "well_announced (key_step ct c p) (es @ key_events ct now c p)"
  using assms
  by (cases c; cases p)
    (auto simp: well_announced_def successively_append_iff announces_def raise_entry_def
      clear_entry_def fresh_def hd_append split: if_splits)

lemma key_run_announced:
  "well_announced (fst (key_run ct ins (None, []))) (snd (key_run ct ins (None, [])))"
proof (induction ins rule: rev_induct)
  case Nil
  then show ?case by (simp add: well_announced_def)
next
  case (snoc x ins)
  then show ?case by (cases x) (simp add: well_announced_step)
qed

lemma key_run_absent:
  assumes "av_missing p = 0" "1 \<le> ct" "\<forall>(now, c) \<in> set ins. c = None"
  shows "key_run ct ins (Some p, []) =
    (if int (length ins) < ct then (Some (p\<lparr>av_missing := int (length ins)\<rparr>), [])
     else (None, [clear_entry (fst (ins ! nat (ct - 1))) (av_cond p)]))"
  using assms(3)
proof (induction ins rule: rev_induct)
  case Nil
  then show ?case using assms(1,2) by simp
next
  case (snoc x ins)
  obtain now where x: "x = (now, None)" using snoc.prems by (cases x) auto
  have IH: "key_run ct ins (Some p, []) =
    (if int (length ins) < ct then (Some (p\<lparr>av_missing := int (length ins)\<rparr>), [])
     else (None, [clear_entry (fst (ins ! nat (ct - 1))) (av_cond p)]))"
    using snoc by auto
  consider "int (length ins) + 1 < ct" | "int (length ins) + 1 = ct" | "int (length ins) \<ge> ct"
    by linarith
  then show ?case
  proof cases
    case 2
    then have "nat (ct - 1) = length ins" by linarith
    with 2 show ?thesis by (simp add: x IH)
  next
    case 3
    then have "nat (ct - 1) < length ins" using assms(2) by linarith
    with 3 show ?thesis by (simp add: x IH nth_append)
  qed (simp add: x IH)
qed

lemma better_comparator: "total_comparator better"
proof
  fix x y z :: alertCond
  show "better x y \<Longrightarrow> \<not> better y x" by (auto simp: better_def)
  show "\<not> better y x \<Longrightarrow> \<not> better z y \<Longrightarrow> \<not> better z x" by (auto simp: better_def)
  show "\<not> better x y \<Longrightarrow> \<not> better y x \<Longrightarrow> x = y"
    by (auto simp: better_def intro!: alertCond.equality)
qed

interpretation banner: total_comparator better
  by (rule better_comparator)

lemma summary_loop_best:
  "summary_loop cs t \<in> insert t (set cs) \<and>
   (\<forall>c \<in> insert t (set cs). \<not> better c (summary_loop cs t))"
proof (induction cs arbitrary: t)
  case Nil
  then show ?case by (simp add: banner.lt_asym better_def)
next
  case (Cons c cs)
  show ?case
    using Cons [of c] Cons [of t] banner.lt_asym [of c t] banner.not_lt_trans
    by (auto split: if_splits)
qed

text \<open>
  The events of a tick with the keys they are about. An event tells its tick's word on its key: a clear
  when the condition is gone, else its severity and message.
\<close>

definition of_key :: "string \<Rightarrow> (string \<times> alertEntry) list \<Rightarrow> alertEntry list" where
  "of_key k es = map snd (filter (\<lambda>e. fst e = k) es)"

definition tells :: "tick \<Rightarrow> string \<times> alertEntry \<Rightarrow> bool" where
  "tells t e \<longleftrightarrow> en_when (snd e) = tk_now t \<and>
     (case tk_conds t (fst e) of
        None \<Rightarrow> en_cleared (snd e)
      | Some c \<Rightarrow> \<not> en_cleared (snd e) \<and> en_sev (snd e) = ac_sev c \<and> en_msg (snd e) = ac_msg c)"

lemma of_key_simps [simp]:
  "of_key k [] = []" "of_key k (xs @ ys) = of_key k xs @ of_key k ys"
  "of_key k (map (Pair k') evs) = (if k' = k then evs else [])"
  by (simp_all add: of_key_def filter_map comp_def)

lemma of_key_concat:
  "distinct ks \<Longrightarrow> of_key k (concat (map (\<lambda>k. map (Pair k) (f k)) ks)) = (if k \<in> set ks then f k else [])"
  by (induction ks) auto

lemma key_events_tell: "ev \<in> set (key_events ct (tk_now t) (tk_conds t k) p) \<Longrightarrow> tells t (k, ev)"
  by (cases "tk_conds t k"; cases p) (auto simp: tells_def raise_entry_def clear_entry_def split: if_splits)

lemma update_named:
  assumes "update e (tk_conds t) (tk_now t) (tk_ks t) (tk_as t) = (e', evs)" "orders_ok e (tk_conds t) (tk_ks t) (tk_as t)"
  shows "\<exists>es. map snd es = evs \<and> list_all (tells t) es \<and>
    (\<forall>k. of_key k es = key_events (ae_clearTicks e) (tk_now t) (tk_conds t k) (ae_active e k))"
proof (intro exI conjI allI)
  let ?f = "\<lambda>k. key_events (ae_clearTicks e) (tk_now t) (tk_conds t k) (ae_active e k)"
  let ?g = "\<lambda>k. if tk_conds t k = None then ?f k else []"
  let ?es = "concat (map (\<lambda>k. map (Pair k) (?f k)) (tk_ks t)) @ concat (map (\<lambda>k. map (Pair k) (?g k)) (tk_as t))"
  show "map snd ?es = evs"
    unfolding update_events [OF assms] by (simp add: map_concat comp_def if_distrib cong: if_cong)
  show "list_all (tells t) ?es"
    by (auto simp: list_all_iff key_events_tell split: if_splits)
  show "of_key k ?es = ?f k" for k
    using assms(2) by (cases "tk_conds t k"; cases "ae_active e k") (auto simp: of_key_concat orders_ok_def domIff)
qed

lemma engine_run_named:
  "engine_run e tr e' \<Longrightarrow> engine_wf e \<Longrightarrow> \<exists>named. map (map snd) named = map snd tr \<and>
     list_all2 (\<lambda>t es. list_all (tells t) es) (map fst tr) named \<and>
     (\<forall>k. of_key k (concat named) = snd (key_run (ae_clearTicks e) (key_inputs k tr) (ae_active e k, [])))"
proof (induction rule: engine_run.induct)
  case (run_nil e)
  then show ?case by simp
next
  case (run_tick e tr e1 t e2 evs)
  obtain named where n: "map (map snd) named = map snd tr" "list_all2 (\<lambda>t es. list_all (tells t) es) (map fst tr) named"
    "\<And>k. of_key k (concat named) = snd (key_run (ae_clearTicks e) (key_inputs k tr) (ae_active e k, []))"
    using run_tick.IH run_tick.prems by auto
  obtain es where es: "map snd es = evs" "list_all (tells t) es"
    "\<And>k. of_key k es = key_events (ae_clearTicks e1) (tk_now t) (tk_conds t k) (ae_active e1 k)"
    using update_named [OF run_tick.hyps(3,2)] by auto
  have "ae_clearTicks e1 = ae_clearTicks e"
    using engine_run_wf [OF run_tick.hyps(1) run_tick.prems] by simp
  with n es show ?case
    by (intro exI [of _ "named @ [es]"])
      (simp add: list_all2_appendI engine_run_key [OF run_tick.hyps(1) run_tick.prems, symmetric])
qed

section \<open>Properties\<close>

text \<open>C5: One update of the alert engine does to every key exactly what the per-key automaton
  says, whatever orders Go picks for its two map loops; the logged events are those the
  automaton emits for the keys, as a multiset, so no order loses, repeats or invents one,
  and the log keeps the newest \<open>cap\<close> entries of itself followed by them.\<close>

theorem update_refines_keys:
  assumes "update e conds now ks as = (e', evs)" and "orders_ok e conds ks as" and "engine_wf e"
  shows "engine_wf e' \<and>
    ae_active e' = (\<lambda>k. key_step (ae_clearTicks e) (conds k) (ae_active e k)) \<and>
    mset evs = (\<Sum>k\<in>dom (ae_active e) \<union> dom conds.
      mset (key_events (ae_clearTicks e) now (conds k) (ae_active e k))) \<and>
    ae_log e' = last_n (nat (ae_cap e)) (ae_log e @ evs)"
proof (intro conjI)
  let ?ev = "\<lambda>k. mset (key_events (ae_clearTicks e) now (conds k) (ae_active e k))"
  show "engine_wf e'" by (rule update_wf [OF assms])
  show "ae_active e' = (\<lambda>k. key_step (ae_clearTicks e) (conds k) (ae_active e k))"
    by (rule ext) (rule update_key [OF assms(1,2)])
  show "ae_log e' = last_n (nat (ae_cap e)) (ae_log e @ evs)"
    by (rule update_log [OF assms(1,3)])
  have fin: "finite (dom (ae_active e) \<union> dom conds)"
    using assms(2) unfolding orders_ok_def by (metis List.finite_set)
  have sum_list: "distinct xs \<Longrightarrow> mset (concat (map f xs)) = (\<Sum>x\<in>set xs. mset (f x))"
    for xs :: "string list" and f :: "string \<Rightarrow> alertEntry list"
    by (induction xs) auto
  have "mset evs = (\<Sum>k\<in>dom conds. ?ev k) +
      (\<Sum>k\<in>dom (ae_active e) \<union> dom conds. if conds k = None then ?ev k else {#})"
    using assms(2) unfolding update_events [OF assms(1,2)]
    by (simp add: orders_ok_def sum_list) (rule sum.cong; simp)
  also have "(\<Sum>k\<in>dom conds. ?ev k) =
      (\<Sum>k\<in>dom (ae_active e) \<union> dom conds. if conds k = None then {#} else ?ev k)"
    by (rule sum.mono_neutral_cong_left) (use fin in \<open>auto split: option.splits\<close>)
  also have "\<dots> + (\<Sum>k\<in>dom (ae_active e) \<union> dom conds. if conds k = None then ?ev k else {#}) =
      (\<Sum>k\<in>dom (ae_active e) \<union> dom conds. ?ev k)"
    by (subst sum.distrib [symmetric], rule sum.cong) auto
  finally show "mset evs = (\<Sum>k\<in>dom (ae_active e) \<union> dom conds. ?ev k)" .
qed

lemma update_refines_keys_witness:
  "\<exists>e' evs. update (newAlertEngine 16 1)
      [''mem'' \<mapsto> \<lparr>ac_sev = SevWarn, ac_msg = ''RAM''\<rparr>] 5 [''mem''] [''mem''] = (e', evs) \<and>
    engine_wf e' \<and> ae_log e' = evs \<and> length evs = 1"
proof -
  let ?e = "newAlertEngine 16 1" and ?c = "[''mem'' \<mapsto> \<lparr>ac_sev = SevWarn, ac_msg = ''RAM''\<rparr>]"
  obtain e' evs where u: "update ?e ?c 5 [''mem''] [''mem''] = (e', evs)" by force
  have o: "orders_ok ?e ?c [''mem''] [''mem'']" by (simp add: orders_ok_def newAlertEngine_def)
  have l: "length evs = 1" using u by (auto simp: update_def newAlertEngine_def)
  from update_refines_keys [OF u o engine_wf_new] l u show ?thesis
    by (auto simp: newAlertEngine_def)
qed

text \<open>C6: From a new engine, whatever the ticks and iteration orders, every event the engine logs can be
  put down to a key of its tick: a clear to a key whose condition is gone, a raise, with the severity and
  the message of the condition, to a key that has one. Read this way, the events of each key are well
  announced: they start with a raise, each clear answers the announcement before it at the same severity,
  no raise repeats a severity still announced, and a key is active exactly when it was last announced and
  not cleared, at the severity it is shown with. The log is the newest part of all events and never longer
  than its capacity.\<close>

theorem engine_announces:
  assumes "engine_run (newAlertEngine c t) tr e"
  shows "(\<exists>named. map (map snd) named = map snd tr \<and>
      list_all2 (\<lambda>t es. list_all (tells t) es) (map fst tr) named \<and>
      (\<forall>k. well_announced (ae_active e k) (of_key k (concat named)))) \<and>
    ae_log e = last_n (nat (ae_cap e)) (concat (map snd tr)) \<and>
    int (length (ae_log e)) \<le> ae_cap e"
proof -
  have wf: "engine_wf e" "ae_cap e = ae_cap (newAlertEngine c t)"
    using engine_run_wf [OF assms engine_wf_new] by auto
  have none: "ae_active (newAlertEngine c t) k = None" for k by (simp add: newAlertEngine_def)
  show ?thesis
    using engine_run_named [OF assms engine_wf_new] engine_run_key [OF assms engine_wf_new]
      engine_run_log [OF assms engine_wf_new] wf key_run_announced
    by (fastforce simp: none engine_wf_def newAlertEngine_def)
qed

text \<open>A condition that comes and goes: one raise, one clear, nothing left active.\<close>

lemma engine_announces_witness:
  "let hot = \<lparr>ac_sev = SevCrit, ac_msg = ''hot''\<rparr>;
       on = \<lparr>tk_conds = [''temp'' \<mapsto> hot], tk_now = 1, tk_ks = [''temp''], tk_as = [''temp'']\<rparr>;
       off = \<lparr>tk_conds = Map.empty, tk_now = 2, tk_ks = [], tk_as = [''temp'']\<rparr>
   in \<exists>e named. engine_run (newAlertEngine 16 1) [(on, [raise_entry 1 hot]), (off, [clear_entry 2 hot])] e \<and>
     ae_log e = [raise_entry 1 hot, clear_entry 2 hot] \<and>
     map (map snd) named = [[raise_entry 1 hot], [clear_entry 2 hot]] \<and>
     well_announced (ae_active e ''temp'') (of_key ''temp'' (concat named))"
proof -
  let ?hot = "\<lparr>ac_sev = SevCrit, ac_msg = ''hot''\<rparr>"
  let ?on = "\<lparr>tk_conds = [''temp'' \<mapsto> ?hot], tk_now = 1, tk_ks = [''temp''], tk_as = [''temp'']\<rparr>"
  let ?off = "\<lparr>tk_conds = Map.empty, tk_now = 2, tk_ks = [], tk_as = [''temp'']\<rparr>"
  let ?e0 = "newAlertEngine 16 1"
  define e1 where "e1 = fst (update ?e0 (tk_conds ?on) (tk_now ?on) (tk_ks ?on) (tk_as ?on))"
  define e2 where "e2 = fst (update e1 (tk_conds ?off) (tk_now ?off) (tk_ks ?off) (tk_as ?off))"
  have u1: "update ?e0 (tk_conds ?on) (tk_now ?on) (tk_ks ?on) (tk_as ?on) = (e1, [raise_entry 1 ?hot])"
    by (simp add: e1_def update_def newAlertEngine_def)
  have e1: "ae_active e1 = [''temp'' \<mapsto> fresh ?hot]" "ae_clearTicks e1 = 1"
    by (simp_all add: e1_def update_def newAlertEngine_def push_def)
  have u2: "update e1 (tk_conds ?off) (tk_now ?off) (tk_ks ?off) (tk_as ?off) = (e2, [clear_entry 2 ?hot])"
    by (simp add: e2_def update_def e1 fresh_def)
  have "engine_run ?e0 ([] @ [(?on, [raise_entry 1 ?hot])]) e1"
    by (rule run_tick [OF run_nil _ u1]) (simp add: orders_ok_def newAlertEngine_def)
  then have "engine_run ?e0 (([] @ [(?on, [raise_entry 1 ?hot])]) @ [(?off, [clear_entry 2 ?hot])]) e2"
    by (rule run_tick [OF _ _ u2]) (simp add: orders_ok_def e1)
  then have r: "engine_run ?e0 [(?on, [raise_entry 1 ?hot]), (?off, [clear_entry 2 ?hot])] e2" by simp
  have cap: "ae_cap e2 = 16" using engine_run_wf [OF r engine_wf_new] by (simp add: newAlertEngine_def)
  obtain named where "map (map snd) named = [[raise_entry 1 ?hot], [clear_entry 2 ?hot]]"
    "\<forall>k. well_announced (ae_active e2 k) (of_key k (concat named))"
    using engine_announces [OF r] unfolding list.map snd_conv by (elim conjE exE) (rule that)
  moreover have "ae_log e2 = [raise_entry 1 ?hot, clear_entry 2 ?hot]"
    using engine_announces [OF r] cap by (simp add: last_n_def)
  ultimately show ?thesis
    unfolding Let_def using r by (intro exI [of _ e2] exI [of _ named] conjI) simp_all
qed

text \<open>C16: Flap damping counts exactly: a condition that has just been seen and then stays away
  is kept, silently and unchanged, for fewer than \<open>clearTicks\<close> updates, and at update
  number \<open>clearTicks\<close> it is dropped.\<close>

theorem absent_condition_clears:
  assumes "engine_run e tr e'" "engine_wf e" "ae_active e k = Some p" "av_missing p = 0"
    and "\<forall>(t, evs) \<in> set tr. tk_conds t k = None"
  shows "ae_active e' k =
    (if int (length tr) < ae_clearTicks e then Some (p\<lparr>av_missing := int (length tr)\<rparr>) else None)"
proof -
  have "\<forall>(now, c) \<in> set (key_inputs k tr). c = None"
    using assms(5) by (auto simp: key_inputs_def)
  then show ?thesis
    using engine_run_key [OF assms(1,2), of k] assms(2-4)
      key_run_absent [of p "ae_clearTicks e" "key_inputs k tr"]
    by (simp add: engine_wf_def key_inputs_def)
qed

lemma absent_condition_clears_witness:
  "let p = \<lparr>av_cond = \<lparr>ac_sev = SevCrit, ac_msg = ''hot''\<rparr>, av_missing = 0, av_lower = 0\<rparr>;
       e = (newAlertEngine 16 2)\<lparr>ae_active := [''temp'' \<mapsto> p]\<rparr>;
       t = \<lparr>tk_conds = Map.empty, tk_now = 1, tk_ks = [], tk_as = [''temp'']\<rparr>;
       (e1, evs) = update e (tk_conds t) (tk_now t) (tk_ks t) (tk_as t)
   in ae_active e1 ''temp'' = Some (p\<lparr>av_missing := 1\<rparr>)"
proof -
  let ?p = "\<lparr>av_cond = \<lparr>ac_sev = SevCrit, ac_msg = ''hot''\<rparr>, av_missing = 0, av_lower = 0\<rparr>"
  let ?e = "(newAlertEngine 16 2)\<lparr>ae_active := [''temp'' \<mapsto> ?p]\<rparr>"
  let ?t = "\<lparr>tk_conds = Map.empty, tk_now = 1, tk_ks = [], tk_as = [''temp'']\<rparr>"
  obtain e1 evs where u: "update ?e (tk_conds ?t) (tk_now ?t) (tk_ks ?t) (tk_as ?t) = (e1, evs)"
    by force
  have o: "orders_ok ?e (tk_conds ?t) (tk_ks ?t) (tk_as ?t)"
    by (simp add: orders_ok_def newAlertEngine_def)
  have r: "engine_run ?e [(?t, evs)] e1" using run_tick [OF run_nil o u] by simp
  have wf: "engine_wf ?e" by (auto simp: engine_wf_def newAlertEngine_def)
  show ?thesis
    using absent_condition_clears [OF r wf, of "''temp''" ?p] u
    by (simp add: newAlertEngine_def)
qed

text \<open>The banner names the condition the Alerts tab lists first, and the list itself, the
  banner and the count do not depend on the order Go ranges over the active map.\<close>

theorem summary_is_first_of_list:
  assumes "distinct ks" "set ks = dom (ae_active e)" "distinct ks'" "set ks' = dom (ae_active e)"
    and "ks \<noteq> []"
  shows "summary e ks = Some (hd (activeList e ks'), card (dom (ae_active e))) \<and>
    activeList e ks = activeList e ks'"
proof -
  let ?f = "\<lambda>k. av_cond (the (ae_active e k))"
  have "mset ks = mset ks'" using assms by (metis set_eq_iff_mset_eq_distinct)
  then have "mset (active_conds e ks) = mset (active_conds e ks')"
    by (simp add: active_conds_def)
  then have lists: "activeList e ks = activeList e ks'"
    unfolding activeList_def by (rule banner.sort_by_unique)
  obtain k ks1 where ks: "ks = k # ks1" using assms(5) by (cases ks) auto
  have "hd (activeList e ks) = summary_loop (map ?f ks1) (?f k)"
    using summary_loop_best [of "map ?f ks1" "?f k"] unfolding activeList_def
    by (intro banner.hd_sort_by) (auto simp: active_conds_def ks)
  moreover have "length ks = card (dom (ae_active e))"
    using assms(1,2) by (metis distinct_card)
  ultimately show ?thesis using lists by (simp add: summary_def active_conds_def ks)
qed

lemma summary_is_first_of_list_witness:
  "let e = (newAlertEngine 16 1)\<lparr>ae_active :=
      [''a'' \<mapsto> fresh \<lparr>ac_sev = SevWarn, ac_msg = ''x''\<rparr>, ''b'' \<mapsto> fresh \<lparr>ac_sev = SevCrit, ac_msg = ''y''\<rparr>]\<rparr>
   in summary e [''a'', ''b''] = Some (hd (activeList e [''b'', ''a'']), card (dom (ae_active e)))"
  unfolding Let_def
  by (rule summary_is_first_of_list [THEN conjunct1]) (auto simp: newAlertEngine_def)

end
