(* ===== verification/Go_Std.thy ===== *)
theory Go_Std
  imports Prelude "HOL-Library.Char_ord" "HOL-Library.List_Lexorder" "HOL-Library.Word"
    "HOL-Library.Signed_Division"
begin

text \<open>
  The parts of Go's standard library the program calls, on byte strings: \<open>strings\<close>
  (searching, trimming, splitting, case), \<open>strconv\<close> (integers and floats), \<open>time\<close>
  (saturating differences, durations) and the verbs of \<open>fmt\<close> the messages use.
  Upper-case letters outside ASCII are left alone by \<open>toLower\<close>.
\<close>

section \<open>Bytes\<close>

abbreviation NL :: char where "NL \<equiv> CHR 0x0A"
abbreviation TAB :: char where "TAB \<equiv> CHR 0x09"
abbreviation BACKSLASH :: char where "BACKSLASH \<equiv> CHR 0x5C"
abbreviation SQUOTE :: char where "SQUOTE \<equiv> CHR 0x27"
abbreviation DQUOTE :: char where "DQUOTE \<equiv> CHR 0x22"
abbreviation ESC :: char where "ESC \<equiv> CHR 0x1B"

abbreviation code :: "char \<Rightarrow> nat" where "code \<equiv> of_char"

definition is_digit :: "char \<Rightarrow> bool" where
  "is_digit c \<longleftrightarrow> 48 \<le> code c \<and> code c \<le> 57"

definition lower_char :: "char \<Rightarrow> char" where
  "lower_char c = (if 65 \<le> code c \<and> code c \<le> 90 then char_of (code c + 32) else c)"

definition toLower :: "string \<Rightarrow> string" where
  "toLower s = map lower_char s"

section \<open>strings: searching\<close>

definition hasPrefix :: "string \<Rightarrow> string \<Rightarrow> bool" where
  "hasPrefix s p \<longleftrightarrow> take (length p) s = p"

definition hasSuffix :: "string \<Rightarrow> string \<Rightarrow> bool" where
  "hasSuffix s p \<longleftrightarrow> length p \<le> length s \<and> drop (length s - length p) s = p"

definition trimPrefix :: "string \<Rightarrow> string \<Rightarrow> string" where
  "trimPrefix s p = (if hasPrefix s p then drop (length p) s else s)"

definition trimSuffix :: "string \<Rightarrow> string \<Rightarrow> string" where
  "trimSuffix s p = (if hasSuffix s p then take (length s - length p) s else s)"

text \<open>\<open>strings.Index\<close>: the first position where \<open>sub\<close> starts.\<close>

fun index :: "string \<Rightarrow> string \<Rightarrow> nat option" where
  "index [] sub = (if sub = [] then Some 0 else None)"
| "index (c # s) sub =
     (if hasPrefix (c # s) sub then Some 0 else map_option Suc (index s sub))"

definition contains :: "string \<Rightarrow> string \<Rightarrow> bool" where
  "contains s sub \<longleftrightarrow> index s sub \<noteq> None"

fun indexByte :: "string \<Rightarrow> char \<Rightarrow> nat option" where
  "indexByte [] b = None"
| "indexByte (c # s) b = (if c = b then Some 0 else map_option Suc (indexByte s b))"

fun lastIndexByte :: "string \<Rightarrow> char \<Rightarrow> nat option" where
  "lastIndexByte [] b = None"
| "lastIndexByte (c # s) b =
     (case lastIndexByte s b of Some i \<Rightarrow> Some (Suc i) | None \<Rightarrow> if c = b then Some 0 else None)"

text \<open>\<open>strings.Cut\<close> and \<open>strings.Split\<close> at a one-byte separator.\<close>

definition cut :: "string \<Rightarrow> char \<Rightarrow> (string \<times> string) option" where
  "cut s b = map_option (\<lambda>i. (take i s, drop (Suc i) s)) (indexByte s b)"

fun split :: "string \<Rightarrow> char \<Rightarrow> string list" where
  "split [] b = [[]]"
| "split (c # s) b =
     (if c = b then [] # split s b
      else case split s b of [] \<Rightarrow> [[c]] | p # ps \<Rightarrow> (c # p) # ps)"

fun join :: "string list \<Rightarrow> string \<Rightarrow> string" where
  "join [] sep = []"
| "join [p] sep = p"
| "join (p # q # ps) sep = p @ sep @ join (q # ps) sep"

section \<open>strings: white space\<close>

text \<open>
  \<open>unicode.IsSpace\<close> on UTF-8: the byte sequences of the white-space runes. \<open>TrimSpace\<close> and
  \<open>Fields\<close> cut at exactly these sequences; an invalid byte is no white space.
\<close>

definition space_runes :: "string list" where
  "space_runes =
     [[CHR 0x09], [CHR 0x0A], [CHR 0x0B], [CHR 0x0C], [CHR 0x0D], [CHR 0x20],
      [CHR 0xC2, CHR 0x85], [CHR 0xC2, CHR 0xA0], [CHR 0xE1, CHR 0x9A, CHR 0x80]] @
     map (\<lambda>b. [CHR 0xE2, CHR 0x80, b])
       [CHR 0x80, CHR 0x81, CHR 0x82, CHR 0x83, CHR 0x84, CHR 0x85, CHR 0x86, CHR 0x87,
        CHR 0x88, CHR 0x89, CHR 0x8A, CHR 0xA8, CHR 0xA9, CHR 0xAF] @
     [[CHR 0xE2, CHR 0x81, CHR 0x9F], [CHR 0xE3, CHR 0x80, CHR 0x80]]"

definition space_at :: "string \<Rightarrow> nat" where
  "space_at s = (case find (hasPrefix s) space_runes of None \<Rightarrow> 0 | Some r \<Rightarrow> length r)"

lemma space_at_le: "space_at s \<le> length s"
proof (cases "find (hasPrefix s) space_runes")
  case (Some r)
  then have "hasPrefix s r" by (auto simp: find_Some_iff)
  then have "length (take (length r) s) = length r" by (simp add: hasPrefix_def)
  with Some show ?thesis by (simp add: space_at_def)
qed (simp add: space_at_def)

function trimLeft :: "string \<Rightarrow> string" where
  "trimLeft s = (if space_at s = 0 then s else trimLeft (drop (space_at s) s))"
  by pat_completeness auto
termination
proof (relation "measure length")
  fix s :: string
  assume "space_at s \<noteq> 0"
  with space_at_le [of s] show "(drop (space_at s) s, s) \<in> measure length"
    by (cases s) auto
qed simp

declare trimLeft.simps [simp del]

definition space_before :: "string \<Rightarrow> nat" where
  "space_before s = (case find (hasSuffix s) space_runes of None \<Rightarrow> 0 | Some r \<Rightarrow> length r)"

lemma space_before_le: "space_before s \<le> length s"
proof (cases "find (hasSuffix s) space_runes")
  case (Some r)
  then have "hasSuffix s r" by (auto simp: find_Some_iff)
  with Some show ?thesis by (simp add: space_before_def hasSuffix_def)
qed (simp add: space_before_def)

function trimRight :: "string \<Rightarrow> string" where
  "trimRight s =
     (if space_before s = 0 then s else trimRight (take (length s - space_before s) s))"
  by pat_completeness auto
termination
proof (relation "measure length")
  fix s :: string
  assume "space_before s \<noteq> 0"
  with space_before_le [of s] show "(take (length s - space_before s) s, s) \<in> measure length"
    by (cases s) auto
qed simp

declare trimRight.simps [simp del]

definition trimSpace :: "string \<Rightarrow> string" where
  "trimSpace s = trimRight (trimLeft s)"

text \<open>\<open>strings.Fields\<close>: the runs between white space; \<open>cur\<close> is the field being read.\<close>

function strFields_from :: "string \<Rightarrow> string \<Rightarrow> string list" where
  "strFields_from cur [] = (if cur = [] then [] else [cur])"
| "strFields_from cur (c # s) =
     (if space_at (c # s) = 0 then strFields_from (cur @ [c]) s
      else (if cur = [] then [] else [cur]) @ strFields_from [] (drop (space_at (c # s)) (c # s)))"
  by pat_completeness auto
termination
  by (relation "measure (\<lambda>(cur, s). length s)") auto

definition strFields :: "string \<Rightarrow> string list" where
  "strFields s = strFields_from [] s"

section \<open>Facts on trimming\<close>

lemma hasPrefix_Nil [simp]: "hasPrefix s []"
  by (simp add: hasPrefix_def)

lemma hasPrefix_Cons [simp]: "hasPrefix (c # s) (d # p) \<longleftrightarrow> c = d \<and> hasPrefix s p"
  by (simp add: hasPrefix_def)

lemma hasPrefix_empty [simp]: "hasPrefix [] p \<longleftrightarrow> p = []"
  by (auto simp: hasPrefix_def)

lemma hasPrefix_iff: "hasPrefix s p \<longleftrightarrow> (\<exists>t. s = p @ t)"
  unfolding hasPrefix_def by (metis append_eq_conv_conj append_take_drop_id)

lemma hasSuffix_iff: "hasSuffix s p \<longleftrightarrow> (\<exists>t. s = t @ p)"
proof
  assume "hasSuffix s p"
  then have "s = take (length s - length p) s @ p"
    unfolding hasSuffix_def by (metis append_take_drop_id)
  then show "\<exists>t. s = t @ p" ..
qed (auto simp: hasSuffix_def)

lemma hasSuffix_rev: "hasSuffix s p \<longleftrightarrow> hasPrefix (rev s) (rev p)"
  unfolding hasSuffix_iff hasPrefix_iff by (metis rev_append rev_rev_ident)

text \<open>A printable ASCII character other than the blank is no white space, a blank or tab is.\<close>

definition graphic :: "char \<Rightarrow> bool" where
  "graphic c \<longleftrightarrow> 33 \<le> code c \<and> code c \<le> 126"

lemma find_mem: "find P xs = Some x \<Longrightarrow> x \<in> set xs \<and> P x"
  by (auto simp: find_Some_iff)

abbreviation blank :: "char \<Rightarrow> bool" where
  "blank c \<equiv> c = CHR 0x20 \<or> c = TAB"

lemma space_runes_ends:
  "\<forall>r \<in> set space_runes. r \<noteq> [] \<and> \<not> graphic (hd r) \<and> \<not> graphic (last r) \<and>
     (blank (hd r) \<or> blank (last r) \<longrightarrow> r = [hd r])"
  "[CHR 0x20] \<in> set space_runes" "[TAB] \<in> set space_runes"
  by code_simp+

lemma hasPrefix_hd: "hasPrefix (c # s) r \<Longrightarrow> r \<noteq> [] \<Longrightarrow> hd r = c"
  by (cases r) simp_all

lemma hasSuffix_last: "hasSuffix (s @ [c]) r \<Longrightarrow> r \<noteq> [] \<Longrightarrow> last r = c"
  by (cases r rule: rev_cases) (simp_all add: hasSuffix_rev)

lemma space_at_graphic: "graphic c \<Longrightarrow> space_at (c # s) = 0"
  using space_runes_ends(1)
  by (auto simp: space_at_def split: option.splits dest!: find_mem dest: hasPrefix_hd)

lemma space_before_graphic: "graphic c \<Longrightarrow> space_before (s @ [c]) = 0"
  using space_runes_ends(1)
  by (auto simp: space_before_def split: option.splits dest!: find_mem dest: hasSuffix_last)

lemma space_at_blank:
  assumes "blank c" shows "space_at (c # s) = 1"
proof -
  have "[c] \<in> set space_runes" using assms by (metis space_runes_ends(2,3))
  moreover have "hasPrefix (c # s) [c]" by simp
  ultimately have "find (hasPrefix (c # s)) space_runes \<noteq> None" unfolding find_None_iff by blast
  then obtain r where r: "find (hasPrefix (c # s)) space_runes = Some r" by auto
  then have "r \<in> set space_runes" "hasPrefix (c # s) r" using find_mem by fast+
  then have "r = [hd r]" using assms space_runes_ends(1) hasPrefix_hd by metis
  then have "length r = 1" by (metis length_Cons list.size(3) One_nat_def)
  with r show ?thesis by (simp add: space_at_def)
qed

lemma space_before_blank:
  assumes "blank c" shows "space_before (s @ [c]) = 1"
proof -
  have "[c] \<in> set space_runes" using assms by (metis space_runes_ends(2,3))
  moreover have "hasSuffix (s @ [c]) [c]" by (simp add: hasSuffix_rev)
  ultimately have "find (hasSuffix (s @ [c])) space_runes \<noteq> None" unfolding find_None_iff by blast
  then obtain r where r: "find (hasSuffix (s @ [c])) space_runes = Some r" by auto
  then have "r \<in> set space_runes" "hasSuffix (s @ [c]) r" using find_mem by fast+
  then have "r = [hd r]" using assms space_runes_ends(1) hasSuffix_last by metis
  then have "length r = 1" by (metis length_Cons list.size(3) One_nat_def)
  with r show ?thesis by (simp add: space_before_def)
qed

lemma trimLeft_graphic: "graphic c \<Longrightarrow> trimLeft (c # s) = c # s"
  by (simp add: trimLeft.simps space_at_graphic)

lemma trimRight_graphic: "graphic c \<Longrightarrow> trimRight (s @ [c]) = s @ [c]"
  by (simp add: trimRight.simps space_before_graphic)

lemma trimLeft_blanks: "list_all blank ws \<Longrightarrow> trimLeft (ws @ s) = trimLeft s"
proof (induction ws)
  case (Cons c ws)
  then have "space_at (c # ws @ s) = 1" by (intro space_at_blank) simp
  then have "trimLeft (c # ws @ s) = trimLeft (ws @ s)" by (subst trimLeft.simps) simp
  with Cons show ?case by simp
qed simp

lemma trimRight_blanks: "list_all blank ws \<Longrightarrow> trimRight (s @ ws) = trimRight s"
proof (induction ws rule: rev_induct)
  case (snoc c ws)
  then have "space_before ((s @ ws) @ [c]) = 1" by (intro space_before_blank) simp
  then have "trimRight ((s @ ws) @ [c]) = trimRight (s @ ws)" by (subst trimRight.simps) simp
  with snoc show ?case by simp
qed simp

lemma trimSpace_blanks:
  assumes "list_all blank ws" "list_all blank ws'" "graphic c" "graphic d"
  shows "trimSpace (ws @ c # s @ d # ws') = c # s @ [d]"
proof -
  have "trimSpace (ws @ c # s @ d # ws') = trimRight (((c # s) @ [d]) @ ws')"
    unfolding trimSpace_def by (simp add: trimLeft_blanks assms trimLeft_graphic)
  also have "\<dots> = (c # s) @ [d]" by (simp only: trimRight_blanks trimRight_graphic assms)
  finally show ?thesis by simp
qed

lemma trimSpace_pad:
  assumes "list_all blank ws" "list_all blank ws'" "s \<noteq> []" "graphic (hd s)" "graphic (last s)"
  shows "trimSpace (ws @ s @ ws') = s"
proof -
  have "trimLeft (s @ ws') = s @ ws'" using assms(3,4) by (cases s) (simp_all add: trimLeft_graphic)
  moreover have "trimRight s = s"
    using assms(3,5) by (cases s rule: rev_cases) (simp_all add: trimRight_graphic)
  ultimately show ?thesis
    using assms(1,2) by (simp add: trimSpace_def trimLeft_blanks trimRight_blanks)
qed

lemma trimSpace_graphic:
  assumes "s \<noteq> []" "graphic (hd s)" "graphic (last s)"
  shows "trimSpace s = s"
proof -
  have "trimLeft s = s" using assms(1,2) by (cases s) (simp_all add: trimLeft_graphic)
  moreover have "trimRight s = s"
    using assms(1,3) by (cases s rule: rev_cases) (simp_all add: trimRight_graphic)
  ultimately show ?thesis by (simp add: trimSpace_def)
qed

section \<open>strconv: integers\<close>

datatype numError = ErrSyntax | ErrRange

fun digit_val :: "nat \<Rightarrow> char \<Rightarrow> nat option" where
  "digit_val base c =
     (let n = code c;
          d = (if 48 \<le> n \<and> n \<le> 57 then Some (n - 48)
               else if 97 \<le> n \<and> n \<le> 122 then Some (n - 87)
               else if 65 \<le> n \<and> n \<le> 90 then Some (n - 55) else None)
      in case d of None \<Rightarrow> None | Some v \<Rightarrow> if v < base then Some v else None)"

fun digits_val :: "nat \<Rightarrow> nat \<Rightarrow> string \<Rightarrow> nat option" where
  "digits_val base acc [] = Some acc"
| "digits_val base acc (c # s) =
     (case digit_val base c of None \<Rightarrow> None | Some d \<Rightarrow> digits_val base (acc * base + d) s)"

text \<open>
  \<open>ParseUint(s, base, bits)\<close> for an explicit base: the value Go returns beside the error
  (the largest value on a range error, 0 on a syntax error) and the error.
\<close>

definition parseUint :: "string \<Rightarrow> nat \<Rightarrow> nat \<Rightarrow> nat \<times> numError option" where
  "parseUint s base bits =
     (if s = [] then (0, Some ErrSyntax)
      else case digits_val base 0 s of
        None \<Rightarrow> (0, Some ErrSyntax)
      | Some v \<Rightarrow> if v < 2 ^ bits then (v, None) else (2 ^ bits - 1, Some ErrRange))"

definition parseInt :: "string \<Rightarrow> nat \<Rightarrow> nat \<Rightarrow> int \<times> numError option" where
  "parseInt s base bits =
     (if s = [] then (0, Some ErrSyntax)
      else
        let neg = (hd s = CHR ''-'');
            body = (if hd s = CHR ''+'' \<or> neg then tl s else s)
        in if body = [] then (0, Some ErrSyntax)
           else case digits_val base 0 body of
             None \<Rightarrow> (0, Some ErrSyntax)
           | Some v \<Rightarrow>
               if \<not> neg \<and> v \<ge> 2 ^ (bits - 1) then (2 ^ (bits - 1) - 1, Some ErrRange)
               else if neg \<and> v > 2 ^ (bits - 1) then (- (2 ^ (bits - 1)), Some ErrRange)
               else (if neg then - int v else int v, None))"

text \<open>\<open>strconv.Atoi\<close> on a 64-bit platform, with the error as \<open>None\<close>.\<close>

definition ok_of :: "'a \<times> numError option \<Rightarrow> 'a option" where
  "ok_of r = (case snd r of None \<Rightarrow> Some (fst r) | Some _ \<Rightarrow> None)"

definition atoi :: "string \<Rightarrow> int option" where
  "atoi s = ok_of (parseInt s 10 64)"

fun nat_digits :: "nat \<Rightarrow> string" where
  "nat_digits n =
     (if n < 10 then [char_of (48 + n)] else nat_digits (n div 10) @ [char_of (48 + n mod 10)])"

declare nat_digits.simps [simp del]

definition itoa :: "int \<Rightarrow> string" where
  "itoa i = (if i < 0 then CHR ''-'' # nat_digits (nat (- i)) else nat_digits (nat i))"

section \<open>strconv: floats\<close>

text \<open>
  \<open>strconv.ParseFloat(s, 64)\<close>: optional sign, then a decimal or \<open>0x\<close> mantissa with an optional
  point and exponent (mandatory \<open>p\<close> exponent for hex), underscores only between digits;
  or one of the spelled-out non-finite values. A finite result is its exact value.
\<close>

datatype floatParse = PF_finite f64 | PF_nonfinite | PF_range | PF_syntax

fun underscore_scan :: "bool \<Rightarrow> char \<Rightarrow> string \<Rightarrow> bool" where
  "underscore_scan hex prev [] = (prev \<noteq> CHR ''_'')"
| "underscore_scan hex prev (c # s) =
     (if is_digit c \<or> hex \<and> digit_val 16 c \<noteq> None then underscore_scan hex (CHR ''0'') s
      else if c = CHR ''_'' then prev = CHR ''0'' \<and> underscore_scan hex (CHR ''_'') s
      else prev \<noteq> CHR ''_'' \<and> underscore_scan hex (CHR ''!'') s)"

text \<open>
  \<open>read_mant\<close> reads the mantissa: the value of its digits, how many stood behind the point,
  whether a point and a digit were seen, and the unread rest.
\<close>

fun read_mant ::
  "nat \<Rightarrow> nat \<Rightarrow> nat \<Rightarrow> bool \<Rightarrow> bool \<Rightarrow> string \<Rightarrow> nat \<times> nat \<times> bool \<times> string" where
  "read_mant base v fd dot digs [] = (v, fd, digs, [])"
| "read_mant base v fd dot digs (c # s) =
     (if c = CHR ''_'' then read_mant base v fd dot digs s
      else if c = CHR ''.'' then
        (if dot then (v, fd, digs, c # s) else read_mant base v fd True digs s)
      else case digit_val base c of
        Some d \<Rightarrow> read_mant base (v * base + d) (if dot then fd + 1 else fd) dot True s
      | None \<Rightarrow> (v, fd, digs, c # s))"

text \<open>The exponent, capped at 10000 as Go caps it; \<open>None\<close> is a syntax error.\<close>

definition read_exp :: "string \<Rightarrow> int option" where
  "read_exp s =
     (let neg = (s \<noteq> [] \<and> hd s = CHR ''-'');
          body = (if s \<noteq> [] \<and> (hd s = CHR ''+'' \<or> neg) then tl s else s);
          ds = filter (\<lambda>c. c \<noteq> CHR ''_'') body
      in if body = [] \<or> \<not> is_digit (hd body) \<or> (\<exists>c \<in> set body. \<not> is_digit c \<and> c \<noteq> CHR ''_'') then None
         else case digits_val 10 0 ds of
           None \<Rightarrow> None
         | Some e \<Rightarrow> Some ((if neg then -1 else 1) * int (min e 10000)))"

definition pow_int :: "rat \<Rightarrow> int \<Rightarrow> rat" where
  "pow_int b e = (if e \<ge> 0 then b ^ nat e else 1 / b ^ nat (- e))"

text \<open>Values from half way between the largest float64 and \<open>2^1024\<close> on do not fit.\<close>

definition f64_limit :: rat where
  "f64_limit = 2 ^ 1024 - 2 ^ 970"

definition parseFloat :: "string \<Rightarrow> floatParse" where
  "parseFloat s =
     (let neg = (s \<noteq> [] \<and> hd s = CHR ''-'');
          body = (if s \<noteq> [] \<and> (hd s = CHR ''+'' \<or> neg) then tl s else s);
          low = toLower body;
          hex = hasPrefix low ''0x'';
          base = (if hex then 16 else 10);
          (v, fd, digs, rest) = read_mant base 0 0 False False (if hex then drop 2 body else body);
          echr = (if hex then CHR ''p'' else CHR ''e'');
          ex = (if rest = [] then (if hex then None else Some 0)
                else if lower_char (hd rest) = echr then read_exp (tl rest) else None);
          scale = (if hex then pow_int 2 (- (4 * int fd)) else pow_int 10 (- int fd));
          uok = (CHR ''_'' \<notin> set body \<or>
                 underscore_scan hex (if hex then CHR ''0'' else CHR ''^'') (if hex then drop 2 body else body))
      in if low \<in> {''inf'', ''infinity''} \<or> s \<noteq> [] \<and> toLower s = ''nan'' then PF_nonfinite
         else if \<not> digs \<or> \<not> uok then PF_syntax
         else case ex of
           None \<Rightarrow> PF_syntax
         | Some e \<Rightarrow>
             let x = rat_of_nat v * scale * pow_int (if hex then 2 else 10) e
             in if x \<ge> f64_limit then PF_range else PF_finite (if neg then - x else x))"

text \<open>A number whose failure to parse is answered with 0. Spelled-out infinities and NaN, which
  parse, are outside the model and read as 0 too.\<close>

definition float_or_zero :: "string \<Rightarrow> f64" where
  "float_or_zero s = (case parseFloat s of PF_finite x \<Rightarrow> x | _ \<Rightarrow> 0)"

section \<open>Conversions of floats\<close>

text \<open>Go's conversion of a float to an integer type truncates towards zero.\<close>

definition trunc :: "f64 \<Rightarrow> int" where
  "trunc x = (if x \<ge> 0 then \<lfloor>x\<rfloor> else - \<lfloor>- x\<rfloor>)"

text \<open>\<open>math.Round\<close>: half away from zero. \<open>fmt\<close>'s \<open>%.nf\<close>: half to even.\<close>

definition round_away :: "f64 \<Rightarrow> int" where
  "round_away x = (if x \<ge> 0 then \<lfloor>x + 1/2\<rfloor> else - \<lfloor>- x + 1/2\<rfloor>)"

definition round_even :: "f64 \<Rightarrow> int" where
  "round_even x =
     (let f = \<lfloor>x\<rfloor>; d = x - of_int f
      in if d < 1/2 then f else if d > 1/2 then f + 1 else if even f then f else f + 1)"

definition pad_left :: "char \<Rightarrow> nat \<Rightarrow> string \<Rightarrow> string" where
  "pad_left c n s = replicate (n - length s) c @ s"

definition fmt_f :: "nat \<Rightarrow> f64 \<Rightarrow> string" where
  "fmt_f prec x =
     (let r = nat \<bar>round_even (\<bar>x\<bar> * 10 ^ prec)\<bar>;
          ds = pad_left (CHR ''0'') (prec + 1) (nat_digits r);
          n = length ds - prec
      in (if x < 0 then ''-'' else []) @ take n ds @
         (if prec = 0 then [] else CHR ''.'' # drop n ds))"

lemma trunc_of_int [simp]: "trunc (of_int i) = i"
  by (simp add: trunc_def)

lemma trunc_nonneg: "0 \<le> x \<Longrightarrow> 0 \<le> trunc x"
  by (simp add: trunc_def)

lemma trunc_mono: "x \<le> y \<Longrightarrow> trunc x \<le> trunc y"
proof (cases "0 \<le> x \<or> y < 0")
  case True
  then show "x \<le> y \<Longrightarrow> trunc x \<le> trunc y" by (auto simp: trunc_def intro: floor_mono)
next
  case False
  then have "0 \<le> \<lfloor>- x\<rfloor>" "0 \<le> \<lfloor>y\<rfloor>" by simp_all
  moreover have "trunc x = - \<lfloor>- x\<rfloor>" "trunc y = \<lfloor>y\<rfloor>"
    using False by (simp_all add: trunc_def)
  ultimately show ?thesis by linarith
qed

section \<open>64-bit integers\<close>

text \<open>64-bit signed arithmetic wraps.\<close>

definition wrap64 :: "int \<Rightarrow> int" where
  "wrap64 i = (i + 2 ^ 63) mod 2 ^ 64 - 2 ^ 63"

text \<open>
  A float outside the range of \<open>int64\<close> converts to something the language leaves open: the
  least value on amd64, the nearest representable one on arm64.
\<close>

datatype goarch = AMD64 | ARM64

definition f2i :: "goarch \<Rightarrow> f64 \<Rightarrow> int" where
  "f2i arch x =
     (let i = trunc x
      in if - (2 ^ 63) \<le> i \<and> i < 2 ^ 63 then i
         else case arch of AMD64 \<Rightarrow> - (2 ^ 63) | ARM64 \<Rightarrow> if x < 0 then - (2 ^ 63) else 2 ^ 63 - 1)"

lemma wrap64_id: "- (2 ^ 63) \<le> i \<Longrightarrow> i < 2 ^ 63 \<Longrightarrow> wrap64 i = i"
  by (simp add: wrap64_def)

lemma f2i_id: "0 \<le> x \<Longrightarrow> x < 2 ^ 63 \<Longrightarrow> f2i arch x = \<lfloor>x\<rfloor>"
  by (simp add: f2i_def Let_def trunc_def floor_less_iff)

section \<open>time\<close>

text \<open>
  The zero \<open>time.Time\<close> is 1 January of year 1; \<open>Sub\<close> saturates at the range of a 64-bit
  duration.
\<close>

definition zeroTime :: time where
  "zeroTime = -62135596800 * second"

definition isZero :: "time \<Rightarrow> bool" where
  "isZero t \<longleftrightarrow> t = zeroTime"

definition maxDuration :: duration where "maxDuration = 2 ^ 63 - 1"
definition minDuration :: duration where "minDuration = - (2 ^ 63)"

definition timeSub :: "time \<Rightarrow> time \<Rightarrow> duration" where
  "timeSub t u = max minDuration (min maxDuration (t - u))"

lemma timeSub_mono: "t \<le> t' \<Longrightarrow> timeSub t u \<le> timeSub t' u"
  by (simp add: timeSub_def)

lemma timeSub_le: "u \<le> t \<Longrightarrow> timeSub t u \<le> t - u"
  by (simp add: timeSub_def minDuration_def)

lemma timeSub_less_iff: "minDuration < w \<Longrightarrow> w \<le> maxDuration \<Longrightarrow> timeSub t u < w \<longleftrightarrow> t - u < w"
  by (auto simp: timeSub_def minDuration_def maxDuration_def)

lemma timeSub_gr_iff: "minDuration \<le> w \<Longrightarrow> w < maxDuration \<Longrightarrow> w < timeSub t u \<longleftrightarrow> w < t - u"
  by (auto simp: timeSub_def minDuration_def maxDuration_def)

definition hours :: "duration \<Rightarrow> f64" where "hours d = of_int d / of_int hour"
definition minutes :: "duration \<Rightarrow> f64" where "minutes d = of_int d / of_int minute"
definition seconds :: "duration \<Rightarrow> f64" where "seconds d = of_int d / of_int second"

section \<open>time: ParseDuration\<close>

abbreviation MU1 :: string where "MU1 \<equiv> [CHR 0xC2, CHR 0xB5, CHR ''s'']"
abbreviation MU2 :: string where "MU2 \<equiv> [CHR 0xCE, CHR 0xBC, CHR ''s'']"

definition unit_map :: "string \<rightharpoonup> nat" where
  "unit_map u = map_of
     [(''ns'', 1), (''us'', 1000), (MU1, 1000), (MU2, 1000), (''ms'', 1000000),
      (''s'', 1000000000), (''m'', 60000000000), (''h'', 3600000000000)] u"

fun leading_int :: "nat \<Rightarrow> string \<Rightarrow> (nat \<times> string) option" where
  "leading_int x [] = Some (x, [])"
| "leading_int x (c # s) =
     (if \<not> is_digit c then Some (x, c # s)
      else if x > 2 ^ 63 div 10 then None
      else let y = x * 10 + (code c - 48) in if y > 2 ^ 63 then None else leading_int y s)"

fun leading_fraction :: "nat \<Rightarrow> nat \<Rightarrow> bool \<Rightarrow> string \<Rightarrow> nat \<times> nat \<times> string" where
  "leading_fraction x scale over [] = (x, scale, [])"
| "leading_fraction x scale over (c # s) =
     (if \<not> is_digit c then (x, scale, c # s)
      else if over \<or> x > (2 ^ 63 - 1) div 10 then leading_fraction x scale True s
      else let y = x * 10 + (code c - 48)
           in if y > 2 ^ 63 then leading_fraction x scale True s
              else leading_fraction y (scale * 10) False s)"

lemma leading_int_length: "leading_int x s = Some (v, r) \<Longrightarrow> length r \<le> length s"
  by (induction s arbitrary: x) (auto simp: Let_def le_SucI split: if_splits)

lemma leading_fraction_length:
  "leading_fraction x sc ov s = (f, sc', r) \<Longrightarrow> length r \<le> length s"
  by (induction s arbitrary: x sc ov) (auto simp: Let_def le_SucI split: if_splits)

text \<open>The fraction after a point, when there is one: its digits, scale, rest, and whether it has digits.\<close>

definition dur_frac :: "string \<Rightarrow> nat \<times> nat \<times> string \<times> bool" where
  "dur_frac s =
     (if s \<noteq> [] \<and> hd s = CHR ''.'' then
        let (f, scale, r) = leading_fraction 0 1 False (tl s) in (f, scale, r, r \<noteq> tl s)
      else (0, 1, s, False))"

lemma dur_frac_length: "dur_frac s = (f, sc, r, p) \<Longrightarrow> length r \<le> length s"
  by (cases s)
    (auto simp: dur_frac_def Let_def split: if_splits prod.splits dest: leading_fraction_length)

definition unit_char :: "char \<Rightarrow> bool" where
  "unit_char c \<longleftrightarrow> c \<noteq> CHR ''.'' \<and> \<not> is_digit c"

function dur_loop :: "nat \<Rightarrow> string \<Rightarrow> nat option" where
  "dur_loop d s =
     (if s = [] then Some d
      else if unit_char (hd s) then None
      else case leading_int 0 s of
        None \<Rightarrow> None
      | Some (v, s1) \<Rightarrow>
          let (f, scale, s2, post) = dur_frac s1;
              u = takeWhile unit_char s2;
              s3 = dropWhile unit_char s2
          in if s1 = s \<and> \<not> post then None
             else if u = [] then None
             else case unit_map u of
               None \<Rightarrow> None
             | Some un \<Rightarrow>
                 if v > 2 ^ 63 div un then None
                 else let v2 = v * un + nat \<lfloor>of_nat f * (of_nat un / of_nat scale) :: rat\<rfloor>
                      in if v2 > 2 ^ 63 \<or> d + v2 > 2 ^ 63 then None
                         else dur_loop (d + v2) s3)"
  by pat_completeness auto
termination
proof (relation "measure (\<lambda>(d, s). length s)", goal_cases)
  case 1
  then show ?case by simp
next
  case (2 d s z v s1 y f y2 scale y3 s2 post u s3 un v2)
  then have "length s1 \<le> length s" "length s2 \<le> length s1"
    using leading_int_length dur_frac_length by metis+
  moreover have "length s3 < length s2"
    using 2 by (cases s2) (auto simp: length_dropWhile_le le_imp_less_Suc split: if_splits)
  ultimately show ?case by simp
qed

declare dur_loop.simps [simp del]

definition parseDuration :: "string \<Rightarrow> duration option" where
  "parseDuration s =
     (let neg = (s \<noteq> [] \<and> hd s = CHR ''-'');
          body = (if s \<noteq> [] \<and> (hd s = CHR ''+'' \<or> neg) then tl s else s)
      in if body = ''0'' then Some 0
         else if body = [] then None
         else case dur_loop 0 body of
           None \<Rightarrow> None
         | Some d \<Rightarrow> if neg then Some (- int d) else if d > 2 ^ 63 - 1 then None else Some (int d))"

section \<open>path/filepath\<close>

text \<open>\<open>Clean\<close> on Unix, one path element at a time, and \<open>Join\<close>.\<close>

fun clean_elems :: "bool \<Rightarrow> string list \<Rightarrow> string list \<Rightarrow> string list" where
  "clean_elems rooted out [] = out"
| "clean_elems rooted out (e # es) =
     (if e = [] \<or> e = ''.'' then clean_elems rooted out es
      else if e = ''..'' then
        clean_elems rooted
          (if out \<noteq> [] \<and> last out \<noteq> ''..'' then butlast out
           else if rooted then out else out @ [e]) es
      else clean_elems rooted (out @ [e]) es)"

definition cleanPath :: "string \<Rightarrow> string" where
  "cleanPath p =
     (let rooted = hasPrefix p ''/'';
          body = join (clean_elems rooted [] (split p (CHR ''/''))) ''/''
      in if rooted then CHR ''/'' # body else if body = [] then ''.'' else body)"

definition joinPath :: "string list \<Rightarrow> string" where
  "joinPath es =
     (let ps = dropWhile (\<lambda>e. e = []) es in if ps = [] then [] else cleanPath (join ps ''/''))"

text \<open>\<open>Base\<close>: the last element, trailing slashes aside.\<close>

definition filepathBase :: "string \<Rightarrow> string" where
  "filepathBase p =
     (if p = [] then ''.''
      else
        let q = rev (dropWhile (\<lambda>c. c = CHR ''/'') (rev p))
        in if q = [] then ''/'' else last (split q (CHR ''/'')))"

section \<open>bufio: reading lines\<close>

text \<open>
  A \<open>Scanner\<close> splitting lines: a trailing carriage return is dropped, an empty last line is
  no line, and the scan stops for good at a line that does not fit its buffer.
\<close>

definition dropCR :: "string \<Rightarrow> string" where
  "dropCR l = (if l \<noteq> [] \<and> last l = CHR 0x0D then butlast l else l)"

definition scan_lines :: "nat \<Rightarrow> string \<Rightarrow> string list" where
  "scan_lines cap s =
     (let ls = split s NL;
          ls' = (if last ls = [] then butlast ls else ls)
      in map dropCR (takeWhile (\<lambda>l. length l < cap) ls'))"

section \<open>unicode/utf8\<close>

definition byte_in :: "nat \<Rightarrow> nat \<Rightarrow> char \<Rightarrow> bool" where
  "byte_in lo hi c \<longleftrightarrow> lo \<le> code c \<and> code c \<le> hi"

abbreviation cont :: "char \<Rightarrow> bool" where "cont \<equiv> byte_in 0x80 0xBF"

abbreviation RuneError :: nat where "RuneError \<equiv> 0xFFFD"

text \<open>The first rune of a non-empty string and its width; an invalid byte is \<open>RuneError\<close>, width 1.\<close>

definition decode2 :: "string \<Rightarrow> (nat \<times> nat) option" where
  "decode2 s = (case s of
     b0 # b1 # _ \<Rightarrow>
       if byte_in 0xC2 0xDF b0 \<and> cont b1 then Some ((code b0 - 0xC0) * 64 + (code b1 - 0x80), 2)
       else None
   | _ \<Rightarrow> None)"

definition decode3 :: "string \<Rightarrow> (nat \<times> nat) option" where
  "decode3 s = (case s of
     b0 # b1 # b2 # _ \<Rightarrow>
       if byte_in 0xE0 0xEF b0 \<and>
          byte_in (if code b0 = 0xE0 then 0xA0 else 0x80) (if code b0 = 0xED then 0x9F else 0xBF) b1 \<and>
          cont b2
       then Some ((code b0 - 0xE0) * 4096 + (code b1 - 0x80) * 64 + (code b2 - 0x80), 3)
       else None
   | _ \<Rightarrow> None)"

definition decode4 :: "string \<Rightarrow> (nat \<times> nat) option" where
  "decode4 s = (case s of
     b0 # b1 # b2 # b3 # _ \<Rightarrow>
       if byte_in 0xF0 0xF4 b0 \<and>
          byte_in (if code b0 = 0xF0 then 0x90 else 0x80) (if code b0 = 0xF4 then 0x8F else 0xBF) b1 \<and>
          cont b2 \<and> cont b3
       then Some ((code b0 - 0xF0) * 262144 + (code b1 - 0x80) * 4096 + (code b2 - 0x80) * 64 +
         (code b3 - 0x80), 4)
       else None
   | _ \<Rightarrow> None)"

definition decodeRune :: "string \<Rightarrow> nat \<times> nat" where
  "decodeRune s =
     (if s \<noteq> [] \<and> code (hd s) < 0x80 then (code (hd s), 1)
      else case decode2 s of Some r \<Rightarrow> r | None \<Rightarrow>
        (case decode3 s of Some r \<Rightarrow> r | None \<Rightarrow>
          (case decode4 s of Some r \<Rightarrow> r | None \<Rightarrow> (RuneError, 1))))"

definition encodeRune :: "nat \<Rightarrow> string" where
  "encodeRune r =
     (let r = (if r > 0x10FFFF \<or> 0xD800 \<le> r \<and> r \<le> 0xDFFF then RuneError else r)
      in if r < 0x80 then [char_of r]
         else if r < 0x800 then [char_of (0xC0 + r div 64), char_of (0x80 + r mod 64)]
         else if r < 0x10000 then
           [char_of (0xE0 + r div 4096), char_of (0x80 + r div 64 mod 64), char_of (0x80 + r mod 64)]
         else
           [char_of (0xF0 + r div 262144), char_of (0x80 + r div 4096 mod 64),
            char_of (0x80 + r div 64 mod 64), char_of (0x80 + r mod 64)])"

definition valid_rune :: "nat \<Rightarrow> bool" where
  "valid_rune r \<longleftrightarrow> r \<le> 0x10FFFF \<and> \<not> (0xD800 \<le> r \<and> r \<le> 0xDFFF)"

lemma decodeRune_width: "0 < snd (decodeRune s)"
  by (auto simp: decodeRune_def decode2_def decode3_def decode4_def split: option.splits list.splits if_splits)

text \<open>\<open>for _, r := range s\<close>: the runes of a string.\<close>

function runes :: "string \<Rightarrow> nat list" where
  "runes s = (if s = [] then [] else let (r, w) = decodeRune s in r # runes (drop w s))"
  by pat_completeness auto
termination
proof (relation "measure length", goal_cases)
  case (2 s x r w)
  then have "w = snd (decodeRune s)" by (metis snd_conv)
  then have "0 < w" by (simp add: decodeRune_width)
  with 2 show ?case by (cases s) auto
qed simp

declare runes.simps [simp del]

lemma runes_Nil [simp]: "runes [] = []"
  by (simp add: runes.simps)

lemma code_char_of [simp]: "n < 256 \<Longrightarrow> code (char_of n) = n"
  by simp

lemma radix64_3: "r div 4096 * 4096 + r div 64 mod 64 * 64 + r mod 64 = (r :: nat)"
proof -
  have "r div 4096 = r div 64 div 64" by (simp add: div_mult2_eq)
  moreover have "r div 64 div 64 * 64 + r div 64 mod 64 = r div 64" "r div 64 * 64 + r mod 64 = r"
    by simp_all
  ultimately show ?thesis by linarith
qed

lemma radix64_4:
  "r div 262144 * 262144 + r div 4096 mod 64 * 4096 + r div 64 mod 64 * 64 + r mod 64 = (r :: nat)"
proof -
  have "r div 262144 = r div 4096 div 64" by (simp add: div_mult2_eq)
  moreover have "r div 4096 div 64 * 64 + r div 4096 mod 64 = r div 4096" by simp
  ultimately show ?thesis using radix64_3 [of r] by linarith
qed

lemma decode_encode:
  assumes "valid_rune r"
  shows "decodeRune (encodeRune r @ s) = (r, length (encodeRune r))"
proof -
  have v: "r \<le> 0x10FFFF" "r < 0xD800 \<or> 0xDFFF < r"
    using assms by (auto simp: valid_rune_def)
  consider "r < 0x80" | "0x80 \<le> r" "r < 0x800" | "0x800 \<le> r" "r < 0x10000" | "0x10000 \<le> r"
    by linarith
  then show ?thesis
  proof cases
    case 1
    then show ?thesis by (simp add: encodeRune_def decodeRune_def)
  next
    case 2
    define a b where abc: "a = r div 64" "b = r mod 64"
    have r: "a * 64 + b = r" unfolding abc by presburger
    have b: "b < 64" by (simp add: abc)
    then have a: "2 \<le> a" "a < 32" using r 2 by linarith+
    have d: "decodeRune ([char_of (0xC0 + a), char_of (0x80 + b)] @ s) = (a * 64 + b, 2)"
      using a b by (simp add: decodeRune_def decode2_def byte_in_def)
    have e: "encodeRune r = [char_of (0xC0 + a), char_of (0x80 + b)]"
      using 2 by (simp add: encodeRune_def abc)
    show ?thesis unfolding e d r by simp
  next
    case 3
    define a b c where abc: "a = r div 4096" "b = r div 64 mod 64" "c = r mod 64"
    have r: "a * 4096 + b * 64 + c = r" unfolding abc by (rule radix64_3)
    have b: "b < 64" "c < 64" "a < 16" using 3 by (simp_all add: abc less_mult_imp_div_less)
    have e: "encodeRune r = [char_of (0xE0 + a), char_of (0x80 + b), char_of (0x80 + c)]"
      using 3 v unfolding abc by (auto simp: encodeRune_def Let_def)
    have "a = 0 \<Longrightarrow> 0x20 \<le> b" "a = 0xD \<Longrightarrow> b \<le> 31" using r b 3 v by linarith+
    then show ?thesis using b r unfolding e
      by (simp add: decodeRune_def decode2_def decode3_def byte_in_def)
  next
    case 4
    define a b c d where abc: "a = r div 262144" "b = r div 4096 mod 64" "c = r div 64 mod 64" "d = r mod 64"
    have r: "a * 262144 + b * 4096 + c * 64 + d = r" unfolding abc by (rule radix64_4)
    have b: "b < 64" "c < 64" "d < 64" by (simp_all add: abc)
    have a: "a \<le> 4" using r v by linarith
    have e: "encodeRune r =
        [char_of (0xF0 + a), char_of (0x80 + b), char_of (0x80 + c), char_of (0x80 + d)]"
      using 4 v by (simp add: encodeRune_def abc)
    have "a = 0 \<Longrightarrow> 0x10 \<le> b" "a = 4 \<Longrightarrow> b \<le> 15" using r b 4 v by linarith+
    then show ?thesis using a b r unfolding e
      by (simp add: decodeRune_def decode2_def decode3_def decode4_def byte_in_def)
  qed
qed

lemma encodeRune_nonempty [simp]: "encodeRune r \<noteq> []"
  by (simp add: encodeRune_def Let_def)

lemma runes_encode: "list_all valid_rune rs \<Longrightarrow> runes (concat (map encodeRune rs)) = rs"
proof (induction rs)
  case (Cons r rs)
  then show ?case
    using decode_encode [of r "concat (map encodeRune rs)"]
    by (subst runes.simps) simp
qed simp

lemma radix_digits: "b < 64 \<Longrightarrow> (a * 64 + b) div 64 = a" "b < 64 \<Longrightarrow> (a * 64 + b) mod 64 = (b :: nat)"
  by simp_all

lemma byte_in_offset:
  assumes "byte_in lo hi c" "m \<le> lo"
  obtains a where "c = char_of (m + a)" "lo \<le> m + a" "m + a \<le> hi"
proof -
  have "c = char_of (m + (code c - m))" using assms by (simp add: byte_in_def)
  then show thesis using assms that [of "code c - m"] by (simp add: byte_in_def)
qed

lemma decode2_cases:
  assumes "decode2 s = Some x"
  obtains a b t where "s = char_of (0xC0 + a) # char_of (0x80 + b) # t" "2 \<le> a" "a < 32" "b < 64"
    "x = (a * 64 + b, 2)"
proof -
  obtain b0 b1 t where s: "s = b0 # b1 # t" and b: "byte_in 0xC2 0xDF b0" "cont b1"
      and x: "x = ((code b0 - 0xC0) * 64 + (code b1 - 0x80), 2)"
    using assms by (auto simp: decode2_def split: list.splits if_splits)
  obtain a :: nat where a: "b0 = char_of (0xC0 + a)" "0xC2 \<le> 0xC0 + a" "0xC0 + a \<le> 0xDF"
    by (rule byte_in_offset [OF b(1), of "0xC0"]) simp_all
  obtain c :: nat where c: "b1 = char_of (0x80 + c)" "0x80 + c \<le> 0xBF"
    by (rule byte_in_offset [OF b(2), of "0x80"]) simp_all
  have "code b0 = 0xC0 + a" "code b1 = 0x80 + c" using a c by simp_all
  then show thesis using that [of a c t] a c s x by simp
qed

lemma decode3_cases:
  assumes "decode3 s = Some x"
  obtains a b c t where "s = char_of (0xE0 + a) # char_of (0x80 + b) # char_of (0x80 + c) # t"
    "a < 16" "b < 64" "c < 64" "a = 0 \<Longrightarrow> 32 \<le> b" "a = 13 \<Longrightarrow> b < 32"
    "x = (a * 4096 + b * 64 + c, 3)"
proof -
  obtain b0 b1 b2 t where s: "s = b0 # b1 # b2 # t" and b: "byte_in 0xE0 0xEF b0"
      "byte_in (if code b0 = 0xE0 then 0xA0 else 0x80) (if code b0 = 0xED then 0x9F else 0xBF) b1"
      "cont b2"
      and x: "x = ((code b0 - 0xE0) * 4096 + (code b1 - 0x80) * 64 + (code b2 - 0x80), 3)"
    using assms by (auto simp: decode3_def split: list.splits if_splits)
  obtain a :: nat where a: "b0 = char_of (0xE0 + a)" "0xE0 + a \<le> 0xEF"
    by (rule byte_in_offset [OF b(1), of "0xE0"]) simp_all
  then have c0: "code b0 = 0xE0 + a" by simp
  have b': "byte_in (if a = 0 then 0xA0 else 0x80) (if a = 13 then 0x9F else 0xBF) b1"
    using b(2) by (simp add: c0)
  obtain c :: nat where c: "b1 = char_of (0x80 + c)" "(if a = 0 then 0xA0 else 0x80) \<le> 0x80 + c"
      "0x80 + c \<le> (if a = 13 then 0x9F else 0xBF)"
    by (rule byte_in_offset [OF b', of "0x80"]) simp_all
  obtain d :: nat where d: "b2 = char_of (0x80 + d)" "0x80 + d \<le> 0xBF"
    by (rule byte_in_offset [OF b(3), of "0x80"]) simp_all
  have "c < 64" using c(3) by (simp split: if_splits)
  then have "code b1 = 0x80 + c" "code b2 = 0x80 + d" using c d by simp_all
  then show thesis using that [of a c d t] a c d s x c0 \<open>c < 64\<close> by (simp split: if_splits)
qed

lemma decode4_cases:
  assumes "decode4 s = Some x"
  obtains a b c d t where
    "s = char_of (0xF0 + a) # char_of (0x80 + b) # char_of (0x80 + c) # char_of (0x80 + d) # t"
    "a < 5" "b < 64" "c < 64" "d < 64" "a = 0 \<Longrightarrow> 16 \<le> b" "a = 4 \<Longrightarrow> b < 16"
    "x = (a * 262144 + b * 4096 + c * 64 + d, 4)"
proof -
  obtain b0 b1 b2 b3 t where s: "s = b0 # b1 # b2 # b3 # t" and b: "byte_in 0xF0 0xF4 b0"
      "byte_in (if code b0 = 0xF0 then 0x90 else 0x80) (if code b0 = 0xF4 then 0x8F else 0xBF) b1"
      "cont b2" "cont b3"
      and x: "x = ((code b0 - 0xF0) * 262144 + (code b1 - 0x80) * 4096 + (code b2 - 0x80) * 64 +
        (code b3 - 0x80), 4)"
    using assms by (auto simp: decode4_def split: list.splits if_splits)
  obtain a :: nat where a: "b0 = char_of (0xF0 + a)" "0xF0 + a \<le> 0xF4"
    by (rule byte_in_offset [OF b(1), of "0xF0"]) simp_all
  then have c0: "code b0 = 0xF0 + a" by simp
  have b': "byte_in (if a = 0 then 0x90 else 0x80) (if a = 4 then 0x8F else 0xBF) b1"
    using b(2) by (simp add: c0)
  obtain c :: nat where c: "b1 = char_of (0x80 + c)" "(if a = 0 then 0x90 else 0x80) \<le> 0x80 + c"
      "0x80 + c \<le> (if a = 4 then 0x8F else 0xBF)"
    by (rule byte_in_offset [OF b', of "0x80"]) simp_all
  obtain d :: nat where d: "b2 = char_of (0x80 + d)" "0x80 + d \<le> 0xBF"
    by (rule byte_in_offset [OF b(3), of "0x80"]) simp_all
  obtain e :: nat where e: "b3 = char_of (0x80 + e)" "0x80 + e \<le> 0xBF"
    by (rule byte_in_offset [OF b(4), of "0x80"]) simp_all
  have "c < 64" using c(3) by (simp split: if_splits)
  then have "code b1 = 0x80 + c" "code b2 = 0x80 + d" "code b3 = 0x80 + e" using c d e by simp_all
  then show thesis using that [of a c d e t] a c d e s x c0 \<open>c < 64\<close> by (simp split: if_splits)
qed

text \<open>What a decoded rune looks like: one byte, two, three, four, or an invalid byte.\<close>

lemma decodeRune_some_cases:
  assumes "decodeRune s = (r, n)" "s \<noteq> []" "\<not> (r = RuneError \<and> n = 1)"
  obtains (one) "code (hd s) < 0x80" "r = code (hd s)" "n = 1"
  | (two) "decode2 s = Some (r, n)"
  | (three) "decode3 s = Some (r, n)"
  | (four) "decode4 s = Some (r, n)"
  using assms by (auto simp: decodeRune_def split: option.splits if_splits)

lemma encode_decode:
  assumes "decodeRune s = (r, n)" "s \<noteq> []" "\<not> (r = RuneError \<and> n = 1)"
  shows "encodeRune r = take n s \<and> valid_rune r"
  using assms
proof (cases rule: decodeRune_some_cases)
  case one
  then show ?thesis using assms(2) by (cases s) (auto simp: encodeRune_def valid_rune_def)
next
  case two
  then show ?thesis
    by (rule decode2_cases) (simp add: encodeRune_def valid_rune_def)
next
  case three
  then show ?thesis
  proof (rule decode3_cases)
    fix a b c t
    assume s: "s = char_of (0xE0 + a) # char_of (0x80 + b) # char_of (0x80 + c) # t"
      and b: "a < 16" "b < 64" "c < 64" "a = 0 \<Longrightarrow> 32 \<le> b" "a = 13 \<Longrightarrow> b < 32"
      and x: "(r, n) = (a * 4096 + b * 64 + c, 3)"
    have r: "r = (a * 64 + b) * 64 + c" using x by simp
    have d: "r div 64 = a * 64 + b" "r mod 64 = c" unfolding r by (rule radix_digits [OF b(3)])+
    have d': "r div 4096 = a" using d(1) b(2) by (simp add: div_mult2_eq [of r 64 64, simplified])
    have "r < 0x10000" "0x800 \<le> r" using b r by (cases "a = 0"; simp)+
    moreover have "\<not> (0xD800 \<le> r \<and> r \<le> 0xDFFF)"
      using b r by (cases "a = 13"; cases "a < 13"; simp)
    ultimately show ?thesis using s x d d' b(2) by (simp add: encodeRune_def valid_rune_def)
  qed
next
  case four
  then show ?thesis
  proof (rule decode4_cases)
    fix a b c d t
    assume s: "s = char_of (0xF0 + a) # char_of (0x80 + b) # char_of (0x80 + c) # char_of (0x80 + d) # t"
      and b: "a < 5" "b < 64" "c < 64" "d < 64" "a = 0 \<Longrightarrow> 16 \<le> b" "a = 4 \<Longrightarrow> b < 16"
      and x: "(r, n) = (a * 262144 + b * 4096 + c * 64 + d, 4)"
    have r: "r = ((a * 64 + b) * 64 + c) * 64 + d" using x by simp
    have d: "r div 64 = (a * 64 + b) * 64 + c" "r mod 64 = d" unfolding r by (rule radix_digits [OF b(4)])+
    have d': "r div 4096 = a * 64 + b" using d(1) b(3) by (simp add: div_mult2_eq [of r 64 64, simplified])
    have d'': "r div 262144 = a" using d' b(2) by (simp add: div_mult2_eq [of r 4096 64, simplified])
    have "r \<le> 0x10FFFF" "0x10000 \<le> r" using b r by (cases "a = 0"; cases "a = 4"; simp)+
    moreover have "r div 64 mod 64 = c" "r div 4096 mod 64 = b" "n = 4"
      unfolding d(1) d' using x by (simp_all only: radix_digits b prod.inject)
    ultimately show ?thesis unfolding s using d(2) d'' by (simp add: encodeRune_def valid_rune_def)
  qed
qed

lemma decodeRune_valid:
  assumes "s \<noteq> []"
  shows "valid_rune (fst (decodeRune s))"
proof (cases "decodeRune s")
  case (Pair r n)
  with encode_decode [OF Pair assms] show ?thesis
    by (cases "r = RuneError \<and> n = 1") (auto simp: valid_rune_def)
qed

lemma decodeRune_length: "s \<noteq> [] \<Longrightarrow> snd (decodeRune s) \<le> length s"
  by (auto simp: decodeRune_def decode2_def decode3_def decode4_def split: option.splits list.splits if_splits)

lemma runes_valid: "list_all valid_rune (runes s)"
proof (induction s rule: runes.induct)
  case (1 s)
  then show ?case
    using decodeRune_valid [of s] by (subst runes.simps) (auto split: prod.splits)
qed

section \<open>Printing and parsing numbers\<close>

lemma digit_val_digit [simp]: "d < 10 \<Longrightarrow> digit_val 10 (char_of (48 + d)) = Some d"
  by simp

declare digit_val.simps [simp del]

lemma digits_val_append:
  "digits_val b acc (s @ [c]) =
   (case digits_val b acc s of None \<Rightarrow> None
    | Some v \<Rightarrow> map_option (\<lambda>d. v * b + d) (digit_val b c))"
  by (induction s arbitrary: acc) (auto split: option.splits)

lemma digits_val_nat_digits: "digits_val 10 0 (nat_digits n) = Some n"
proof (induction n rule: nat_digits.induct)
  case (1 n)
  show ?case
  proof (cases "n < 10")
    case True
    then show ?thesis by (simp add: nat_digits.simps [of n])
  next
    case False
    then show ?thesis using 1 by (subst nat_digits.simps) (simp add: digits_val_append)
  qed
qed

lemma nat_digits_inject [simp]: "nat_digits m = nat_digits n \<longleftrightarrow> m = n"
  by (metis digits_val_nat_digits option.inject)

lemma nat_digits_all_digits: "list_all is_digit (nat_digits n)"
proof (induction n rule: nat_digits.induct)
  case (1 n)
  have d: "m < 10 \<Longrightarrow> is_digit (char_of (48 + m))" for m :: nat
    by (simp add: is_digit_def)
  show ?case using 1 by (subst nat_digits.simps) (simp add: d)
qed

lemma nat_digits_not_Nil [simp]: "nat_digits n \<noteq> []"
  by (subst nat_digits.simps) simp

section \<open>Splitting\<close>

lemma split_Cons_not [simp]: "split s b \<noteq> []"
  by (induction s) (auto split: list.splits)

lemma split_none: "b \<notin> set s \<Longrightarrow> split s b = [s]"
  by (induction s) (auto split: list.splits)

lemma split_append: "split (s @ t) b = butlast (split s b) @ split (last (split s b) @ t) b"
proof (induction s)
  case (Cons c s)
  obtain q qs where qs: "split s b = q # qs" by (meson list.exhaust split_Cons_not)
  show ?case
  proof (cases "c = b")
    case True
    then show ?thesis using Cons qs by simp
  next
    case False
    then show ?thesis using Cons qs by (cases qs) auto
  qed
qed simp

lemma split_last_no: "b \<notin> set (last (split s b))"
proof (induction s)
  case (Cons c s)
  obtain q qs where qs: "split s b = q # qs" by (meson list.exhaust split_Cons_not)
  then show ?case using Cons by (cases qs) auto
qed simp

lemma split_mem: "p \<in> set (split s b) \<Longrightarrow> b \<notin> set p"
  by (induction s arbitrary: p) (auto split: list.splits if_splits)

lemma hd_split_append: "b \<notin> set c \<Longrightarrow> hd (split (c @ x) b) = c @ hd (split x b)"
proof (induction c)
  case (Cons a c)
  then show ?case by (cases "split (c @ x) b") auto
qed simp

lemma lastIndexByte_split:
  "lastIndexByte s b = None \<longleftrightarrow> b \<notin> set s"
  "lastIndexByte s b = Some i \<Longrightarrow>
   split (take i s) b = butlast (split s b) \<and> drop (i + 1) s = last (split s b)"
proof (induction s arbitrary: i)
  case (Cons c s)
  {
    case 1
    show ?case using Cons(1) by (auto split: option.splits)
  next
    case 2
    show ?case
    proof (cases "lastIndexByte s b")
      case None
      then have "b \<notin> set s" using Cons(1) by simp
      then have "split s b = [s]" by (induction s) (auto split: list.splits)
      then show ?thesis using 2 None by (auto split: if_splits)
    next
      case (Some j)
      then have j: "split (take j s) b = butlast (split s b)" "drop (j + 1) s = last (split s b)"
        using Cons(2) by blast+
      have i: "i = Suc j" using 2 Some by simp
      obtain q qs where qs: "split s b = q # qs" by (meson list.exhaust split_Cons_not)
      have "qs \<noteq> []" using j(1) qs by (metis butlast.simps(2) split_Cons_not)
      then show ?thesis using j i qs by (auto split: list.splits)
    qed
  }
qed auto

lemma lastIndexByte_append:
  "b \<notin> set t \<Longrightarrow> lastIndexByte (s @ b # t) b = Some (length s)"
  by (induction s) (auto simp: lastIndexByte_split(1) split: option.splits)

lemma indexByte_append: "b \<notin> set s \<Longrightarrow> indexByte (s @ b # t) b = Some (length s)"
  by (induction s) auto

lemma split_sep: "b \<notin> set x \<Longrightarrow> split (x @ b # y) b = x # split y b"
  by (induction x) auto

lemma cut_append: "b \<notin> set x \<Longrightarrow> cut (x @ b # y) b = Some (x, y)"
proof -
  assume "b \<notin> set x"
  then have "indexByte (x @ b # y) b = Some (length x)" by (induction x) auto
  then show ?thesis by (simp add: cut_def)
qed

lemma nat_digits_no: "\<not> is_digit c \<Longrightarrow> c \<notin> set (nat_digits n)"
  using nat_digits_all_digits [of n] by (auto simp: list_all_iff)

lemma nat_digits_hd: "is_digit (hd (nat_digits n))"
  using nat_digits_all_digits [of n] by (cases "nat_digits n") auto

lemma parseInt_nat_digits: "n < 2 ^ 63 \<Longrightarrow> parseInt (nat_digits n) 10 64 = (int n, None)"
  using nat_digits_hd [of n]
  by (auto simp: parseInt_def Let_def digits_val_nat_digits is_digit_def)

lemma atoi_nat_digits: "n < 2 ^ 63 \<Longrightarrow> atoi (nat_digits n) = Some (int n)"
  by (simp add: atoi_def ok_of_def parseInt_nat_digits)

lemma atoi_itoa: "- (2 ^ 63) \<le> i \<Longrightarrow> i < 2 ^ 63 \<Longrightarrow> atoi (itoa i) = Some i"
proof (cases "i < 0")
  case True
  then show "- (2 ^ 63) \<le> i \<Longrightarrow> atoi (itoa i) = Some i"
    by (auto simp: atoi_def ok_of_def itoa_def parseInt_def Let_def digits_val_nat_digits)
next
  case False
  then show "i < 2 ^ 63 \<Longrightarrow> atoi (itoa i) = Some i"
    using atoi_nat_digits [of "nat i"] by (simp add: itoa_def)
qed

section \<open>Joining paths\<close>

text \<open>A plain file name joined to a directory stays the end of the path.\<close>

definition plain_name :: "string \<Rightarrow> bool" where
  "plain_name e \<longleftrightarrow> e \<noteq> [] \<and> e \<noteq> ''.'' \<and> e \<noteq> ''..'' \<and> CHR ''/'' \<notin> set e"

lemma clean_elems_snoc:
  "plain_name e \<Longrightarrow> clean_elems rooted out (es @ [e]) = clean_elems rooted out es @ [e]"
  by (induction rooted out es rule: clean_elems.induct) (auto simp: plain_name_def)

lemma join_snoc: "join (ps @ [e]) sep = (if ps = [] then e else join ps sep @ sep @ e)"
  by (induction ps rule: induct_list012) auto

lemma joinPath_leaf:
  assumes "dir \<noteq> []"
  shows "\<exists>p. \<forall>e. plain_name e \<longrightarrow> joinPath [dir, e] = p @ e"
proof -
  let ?es = "clean_elems (hasPrefix dir ''/'') [] (split dir (CHR ''/''))"
  let ?p = "(if hasPrefix dir ''/'' then ''/'' else []) @ (if ?es = [] then [] else join ?es ''/'' @ ''/'')"
  have "joinPath [dir, e] = ?p @ e" if e: "plain_name e" for e
  proof -
    have e': "CHR ''/'' \<notin> set e" "e \<noteq> []" using e by (auto simp: plain_name_def)
    have "split (dir @ CHR ''/'' # e) (CHR ''/'') =
      butlast (split dir (CHR ''/'')) @ last (split dir (CHR ''/'')) # [e]"
      using split_append [of dir "CHR ''/'' # e" "CHR ''/''"]
        split_sep [OF split_last_no, of dir "CHR ''/''" e] split_none [OF e'(1)] by simp
    then have "split (dir @ CHR ''/'' # e) (CHR ''/'') = split dir (CHR ''/'') @ [e]"
      by (metis append_butlast_last_id append_Cons append_Nil append_assoc split_Cons_not)
    moreover have "hasPrefix (dir @ CHR ''/'' # e) ''/'' = hasPrefix dir ''/''"
      using assms by (cases dir) auto
    ultimately show ?thesis
      using assms e'(2)
      by (simp add: joinPath_def Let_def cleanPath_def clean_elems_snoc [OF e] join_snoc)
  qed
  then show ?thesis by blast
qed

lemma joinPath_leaf_inject:
  assumes "dir \<noteq> []" "plain_name a" "plain_name b"
  shows "joinPath [dir, a] = joinPath [dir, b] \<longleftrightarrow> a = b"
  using joinPath_leaf [OF assms(1)] assms(2,3) by (metis same_append_eq)

lemma contains_char: "contains s [c] \<longleftrightarrow> c \<in> set s"
proof (induction s)
  case (Cons d s)
  then show ?case by (cases s) (auto simp: contains_def)
qed (simp add: contains_def)

end
