(* ===== verification/Ignore.thy ===== *)
theory Ignore
  imports Go_Std
begin

text \<open>
  The ignore lists of \<open>internal/config/ignore.go\<close>: the comma-separated pattern list and the
  wildcard match. The match splits the pattern at its stars and looks for the pieces from
  left to right, taking each at its first occurrence; the reference semantics below tries
  every way to read a star.
\<close>

section \<open>Operations\<close>

text \<open>The loop over the inner pieces: what is left of the string, or no match.\<close>

fun glob_mids :: "string list \<Rightarrow> string \<Rightarrow> string option" where
  "glob_mids [] rest = Some rest"
| "glob_mids (mid # mids) rest =
     (case index rest mid of
        None \<Rightarrow> None
      | Some i \<Rightarrow> glob_mids mids (drop (i + length mid) rest))"

definition globMatch :: "string \<Rightarrow> string \<Rightarrow> bool" where
  "globMatch pattern s =
     (let parts = split pattern (CHR ''*'')
      in if length parts = 1 then pattern = s
         else if \<not> hasPrefix s (hd parts) then False
         else case glob_mids (butlast (tl parts)) (drop (length (hd parts)) s) of
           None \<Rightarrow> False
         | Some rest \<Rightarrow> hasSuffix rest (last parts))"

definition anyGlob :: "string list \<Rightarrow> string \<Rightarrow> bool" where
  "anyGlob patterns s = list_ex (\<lambda>p. globMatch p s) patterns"

definition splitList :: "string \<Rightarrow> string list" where
  "splitList val = filter (\<lambda>p. p \<noteq> []) (map trimSpace (split val (CHR '','')))"

section \<open>The reference semantics of a pattern\<close>

fun matches :: "string \<Rightarrow> string \<Rightarrow> bool" where
  "matches [] s = (s = [])"
| "matches (c # p) [] = (c = CHR ''*'' \<and> matches p [])"
| "matches (c # p) (d # s) =
     (if c = CHR ''*'' then matches p (d # s) \<or> matches (c # p) s else c = d \<and> matches p s)"

section \<open>Lemmas\<close>

lemma index_Some:
  "index s sub = Some i \<Longrightarrow>
   s = take i s @ sub @ drop (i + length sub) s \<and> (\<forall>u v. s = u @ sub @ v \<longrightarrow> i \<le> length u)"
proof (induction s arbitrary: i)
  case Nil
  then show ?case by (auto split: if_splits)
next
  case (Cons c s)
  show ?case
  proof (cases "hasPrefix (c # s) sub")
    case True
    then have "c # s = sub @ drop (length sub) (c # s)"
      unfolding hasPrefix_def by (metis append_take_drop_id)
    moreover have "i = 0" using True Cons.prems by simp
    ultimately show ?thesis by simp
  next
    case False
    with Cons.prems obtain j where j: "index s sub = Some j" "i = Suc j" by auto
    have "i \<le> length u" if eq: "c # s = u @ sub @ v" for u v
    proof (cases u)
      case Nil
      with eq False show ?thesis by (auto simp: hasPrefix_iff)
    next
      case (Cons d u')
      with eq have "s = u' @ sub @ v" by simp
      with Cons.IH [OF j(1)] have "j \<le> length u'" by blast
      with Cons j(2) show ?thesis by simp
    qed
    with Cons.IH [OF j(1)] j(2) show ?thesis by simp
  qed
qed

lemma index_None: "index s sub = None \<Longrightarrow> s \<noteq> u @ sub @ v"
proof (induction s arbitrary: u)
  case Nil
  then show ?case by (auto split: if_splits)
next
  case (Cons c s)
  then show ?case by (cases u) (auto simp: hasPrefix_iff split: if_splits)
qed

text \<open>
  The pieces of a pattern in a string, stars as arbitrary gaps: \<open>after_gap\<close> is what may
  follow a star.
\<close>

fun pieces :: "string list \<Rightarrow> string \<Rightarrow> bool" where
  "pieces [] s = False"
| "pieces [q] s = (s = q)"
| "pieces (q # r # rs) s = (\<exists>u v. s = q @ u @ v \<and> pieces (r # rs) v)"

definition after_gap :: "string list \<Rightarrow> string \<Rightarrow> bool" where
  "after_gap qs s \<longleftrightarrow> (\<exists>u v. s = u @ v \<and> pieces qs v)"

lemma pieces_Cons: "qs \<noteq> [] \<Longrightarrow> pieces (q # qs) s \<longleftrightarrow> (\<exists>w. s = q @ w \<and> after_gap qs w)"
  by (cases qs) (auto simp: after_gap_def)

lemma pieces_char:
  "pieces ((c # q) # qs) s \<longleftrightarrow> (\<exists>s'. s = c # s' \<and> pieces (q # qs) s')"
  by (cases qs) (auto simp: pieces_Cons)

lemma matches_star: "matches (CHR ''*'' # p) s \<longleftrightarrow> (\<exists>u v. s = u @ v \<and> matches p v)"
proof (induction s)
  case Nil
  then show ?case by simp
next
  case (Cons d s)
  show ?case
    by (simp add: Cons) (metis append_Cons append_Nil list.exhaust list.sel(3))
qed

lemma matches_pieces: "matches p s \<longleftrightarrow> pieces (split p (CHR ''*'')) s"
proof (induction p arbitrary: s)
  case Nil
  then show ?case by simp
next
  case (Cons c p)
  obtain q qs where split: "split p (CHR ''*'') = q # qs"
    by (meson list.exhaust split_Cons_not)
  show ?case
  proof (cases "c = CHR ''*''")
    case True
    then show ?thesis
      by (simp add: matches_star Cons split pieces_Cons after_gap_def del: matches.simps)
  next
    case False
    then have "matches (c # p) s \<longleftrightarrow> (\<exists>s'. s = c # s' \<and> matches p s')" by (cases s) auto
    with False show ?thesis by (simp add: Cons split pieces_char)
  qed
qed

text \<open>Taking each piece at its first occurrence loses nothing.\<close>

lemma after_gap_greedy:
  assumes "qs \<noteq> []" "index s q = Some i"
  shows "after_gap (q # qs) s \<longleftrightarrow> after_gap qs (drop (i + length q) s)"
proof
  assume "after_gap (q # qs) s"
  then obtain u w v where s: "s = u @ q @ w @ v" and v: "pieces qs v"
    using assms(1) by (auto simp: after_gap_def pieces_Cons)
  then have "i \<le> length u" using index_Some [OF assms(2)] by blast
  then have "drop (i + length q) s = drop (i + length q) (u @ q @ w) @ v" using s by simp
  with v show "after_gap qs (drop (i + length q) s)" unfolding after_gap_def by blast
next
  assume g: "after_gap qs (drop (i + length q) s)"
  have "s = take i s @ q @ drop (i + length q) s" using index_Some [OF assms(2)] by blast
  with g assms(1) show "after_gap (q # qs) s" unfolding after_gap_def [of "q # qs"]
    by (metis pieces_Cons)
qed

lemma glob_mids_correct:
  "(case glob_mids mids s of None \<Rightarrow> False | Some rest \<Rightarrow> hasSuffix rest lst) \<longleftrightarrow>
   after_gap (mids @ [lst]) s"
proof (induction mids arbitrary: s)
  case Nil
  then show ?case by (auto simp: after_gap_def hasSuffix_iff)
next
  case (Cons q mids)
  show ?case
  proof (cases "index s q")
    case None
    then have "\<not> after_gap (q # mids @ [lst]) s"
      by (auto simp: after_gap_def pieces_Cons dest: index_None)
    with None show ?thesis by simp
  next
    case (Some i)
    with Cons after_gap_greedy [OF _ Some, of "mids @ [lst]"] show ?thesis by simp
  qed
qed

lemma split_single: "length (split p b) = 1 \<Longrightarrow> split p b = [p]"
  by (induction p) (auto split: list.splits if_splits)

section \<open>Properties\<close>

text \<open>C29: The wildcard match accepts exactly the strings the pattern denotes, every star standing
  for any run of bytes (the slash included): looking for the pieces greedily, each at its
  first occurrence, misses no match and invents none.\<close>

theorem globMatch_correct: "globMatch pattern s \<longleftrightarrow> matches pattern s"
proof -
  let ?ps = "split pattern (CHR ''*'')"
  show ?thesis
  proof (cases "length ?ps = 1")
    case True
    then show ?thesis by (auto simp: globMatch_def matches_pieces split_single)
  next
    case False
    then obtain q qs where ps: "?ps = q # qs" "qs \<noteq> []"
      by (cases ?ps) auto
    have lst: "last (q # qs) = last qs" using ps(2) by simp
    have "qs = butlast qs @ [last qs]" using ps(2) by simp
    then have "matches pattern s \<longleftrightarrow> (\<exists>w. s = q @ w \<and> after_gap (butlast qs @ [last qs]) w)"
      using ps by (simp add: matches_pieces pieces_Cons)
    also have "\<dots> \<longleftrightarrow> globMatch pattern s"
    proof (cases "\<exists>w. s = q @ w")
      case True
      then obtain w where s: "s = q @ w" ..
      then have "hasPrefix s q" by (auto simp: hasPrefix_iff)
      with s False ps(1) lst glob_mids_correct [where mids = "butlast qs" and s = w and lst = "last qs"] show ?thesis
        by (simp add: globMatch_def Let_def cong: option.case_cong)
    next
      case no: False
      then have "\<not> hasPrefix s q" by (simp add: hasPrefix_iff)
      with no False ps(1) show ?thesis by (simp add: globMatch_def Let_def)
    qed
    finally show ?thesis by simp
  qed
qed

end
