(* ===== verification/Config.thy ===== *)
theory Config
  imports Ignore
begin

text \<open>
  \<open>internal/config/config.go\<close>: the settings record with its defaults, the parser of the flat
  TOML subset (\<open>splitValue\<close>, the key table of \<open>apply\<close>, \<open>LoadFrom\<close> with its list of
  unrecognised keys) and \<open>Sanitize\<close>. The file's content and the user's home directory are
  arguments. The lemmas give the well-formedness a sanitised configuration has, which
  \<open>Sanitize\<close> establishes from any record and leaves alone once it holds.
\<close>

section \<open>The settings\<close>

record unknownKey =
  uk_Key :: string
  uk_Line :: nat

record Config =
  StartTab :: string
  FastInterval :: duration
  ProcInterval :: duration
  SlowInterval :: duration
  TempWarn :: f64
  TempHot :: f64
  TempCrit :: f64
  TempExplicit :: bool
  TempFromTripPoints :: bool
  BacklightStep :: int
  BacklightDevice :: string
  NetIgnore :: "string list"
  DiskIgnore :: "string list"
  TempIgnore :: "string list"
  AlertsEnabled :: bool
  MemWarnPct :: f64
  SwapWarnPct :: f64
  DiskWarnPct :: f64
  BattLowPct :: int
  BattCritPct :: int
  LoadWarnFactor :: f64
  AlertLogCap :: int
  AlertClearTicks :: int
  AlertBell :: bool
  AlertCmd :: string
  AlertLogFile :: string
  WifiLowDBm :: int
  PingEnabled :: bool
  PingTarget :: string
  PingLossWarnPct :: f64
  PSIWarnPct :: f64
  BattDrainWarnPctH :: f64
  DiskFullWarnHours :: f64
  TempRiseWarnCPerMin :: f64
  EventAlertMinutes :: f64
  KernelLogEnabled :: bool
  ModemEnabled :: bool
  HistoryLen :: int
  ProcsCap :: int
  ReportDir :: string
  HistoryFile :: string
  MetricsListen :: string
  Unknown :: "unknownKey list"

definition UnknownKeyNames :: "Config \<Rightarrow> string list" where
  "UnknownKeyNames c = map uk_Key (Unknown c)"

definition Default :: Config where
  "Default = \<lparr>
     StartTab = ''cpu'',
     FastInterval = 1 * second, ProcInterval = 3 * second, SlowInterval = 5 * second,
     TempWarn = 50, TempHot = 65, TempCrit = 80,
     TempExplicit = False, TempFromTripPoints = True,
     BacklightStep = 10, BacklightDevice = [],
     NetIgnore = [], DiskIgnore = [], TempIgnore = [],
     AlertsEnabled = True, MemWarnPct = 90, SwapWarnPct = 50, DiskWarnPct = 90,
     BattLowPct = 15, BattCritPct = 5, LoadWarnFactor = 2, AlertLogCap = 200,
     AlertClearTicks = 3, AlertBell = True, AlertCmd = [], AlertLogFile = [],
     WifiLowDBm = 0, PingEnabled = True, PingTarget = [], PingLossWarnPct = 0,
     PSIWarnPct = 0,
     BattDrainWarnPctH = 25, DiskFullWarnHours = 6, TempRiseWarnCPerMin = 3,
     EventAlertMinutes = 10, KernelLogEnabled = True, ModemEnabled = False,
     HistoryLen = 200, ProcsCap = 200,
     ReportDir = [], HistoryFile = [], MetricsListen = [], Unknown = []\<rparr>"

definition HideIface :: "Config \<Rightarrow> string \<Rightarrow> bool" where
  "HideIface c name = anyGlob (NetIgnore c) name"

definition HideMount :: "Config \<Rightarrow> string \<Rightarrow> bool" where
  "HideMount c mount = anyGlob (DiskIgnore c) mount"

definition HideSensor :: "Config \<Rightarrow> string \<Rightarrow> bool" where
  "HideSensor c lbl = anyGlob (TempIgnore c) lbl"

section \<open>Parsing\<close>

text \<open>
  The scan of the text after the equals sign: it stops before a \<open>#\<close> outside quotes; inside
  quotes a backslash shields the next byte.
\<close>

fun scan_value :: "char option \<Rightarrow> string \<Rightarrow> string" where
  "scan_value quote [] = []"
| "scan_value None (c # s) =
     (if c = DQUOTE \<or> c = SQUOTE then c # scan_value (Some c) s
      else if c = CHR ''#'' then [] else c # scan_value None s)"
| "scan_value (Some q) [c] = [c]"
| "scan_value (Some q) (c # d # s) =
     (if c = BACKSLASH then c # d # scan_value (Some q) s
      else if c = q then c # scan_value None (d # s)
      else c # scan_value (Some q) (d # s))"

definition unquote :: "string \<Rightarrow> string" where
  "unquote val =
     (if length val \<ge> 2 \<and> (hd val = DQUOTE \<or> hd val = SQUOTE) \<and> last val = hd val
      then butlast (tl val) else val)"

definition splitValue :: "string \<Rightarrow> string" where
  "splitValue raw = unquote (trimSpace (scan_value None raw))"

definition parseFinite :: "string \<Rightarrow> f64 option" where
  "parseFinite val = (case parseFloat val of PF_finite x \<Rightarrow> Some x | _ \<Rightarrow> None)"

definition parseBool :: "string \<Rightarrow> bool \<Rightarrow> bool" where
  "parseBool val def =
     (let v = toLower val
      in if v \<in> set [''1'', ''true'', ''yes'', ''on''] then True
         else if v \<in> set [''0'', ''false'', ''no'', ''off''] then False else def)"

definition maxInterval :: duration where "maxInterval = hour"

definition parseInterval :: "string \<Rightarrow> duration option" where
  "parseInterval val =
     (let bare =
        (case parseFinite val of
           Some f \<Rightarrow>
             if f > 0 then
               (if f \<ge> seconds maxInterval then Some maxInterval else Some (trunc (f * of_int second)))
             else None
         | None \<Rightarrow> None)
      in case parseDuration val of
           Some d \<Rightarrow> if d > 0 then Some (min d maxInterval) else bare
         | None \<Rightarrow> bare)"

text \<open>\<open>home\<close> is what \<open>os.UserHomeDir\<close> returns, \<open>None\<close> on an error.\<close>

definition expandHome :: "string option \<Rightarrow> string \<Rightarrow> string" where
  "expandHome home path =
     (if path = ''~'' \<or> hasPrefix path ''~/'' then
        (case home of
           Some h \<Rightarrow> if h \<noteq> [] then joinPath [h, trimPrefix (tl path) ''/''] else path
         | None \<Rightarrow> path)
      else path)"

text \<open>
  The switch of \<open>apply\<close>: one row per case, its spellings and what the case does with the
  value; a value that does not parse leaves the record alone.
\<close>

definition on_ok :: "'a option \<Rightarrow> ('a \<Rightarrow> Config \<Rightarrow> Config) \<Rightarrow> Config \<Rightarrow> Config" where
  "on_ok r upd c = (case r of Some x \<Rightarrow> upd x c | None \<Rightarrow> c)"

definition settings :: "string option \<Rightarrow> (string list \<times> (string \<Rightarrow> Config \<Rightarrow> Config)) list" where
  "settings home = [
    ([''start_tab'', ''starttab'', ''tab''],
      \<lambda>v c. c\<lparr>StartTab := toLower v\<rparr>),
    ([''fast_interval'', ''fastinterval'', ''cpu_interval''],
      \<lambda>v. on_ok (parseInterval v) (\<lambda>d c. c\<lparr>FastInterval := d\<rparr>)),
    ([''proc_interval'', ''procinterval'', ''process_interval''],
      \<lambda>v. on_ok (parseInterval v) (\<lambda>d c. c\<lparr>ProcInterval := d\<rparr>)),
    ([''slow_interval'', ''slowinterval'', ''disk_interval''],
      \<lambda>v. on_ok (parseInterval v) (\<lambda>d c. c\<lparr>SlowInterval := d\<rparr>)),
    ([''temp_warn'', ''tempwarn''],
      \<lambda>v. on_ok (parseFinite v) (\<lambda>f c. c\<lparr>TempWarn := f, TempExplicit := True\<rparr>)),
    ([''temp_hot'', ''temphot''],
      \<lambda>v. on_ok (parseFinite v) (\<lambda>f c. c\<lparr>TempHot := f, TempExplicit := True\<rparr>)),
    ([''temp_crit'', ''tempcrit''],
      \<lambda>v. on_ok (parseFinite v) (\<lambda>f c. c\<lparr>TempCrit := f, TempExplicit := True\<rparr>)),
    ([''temp_from_trip_points'', ''tempfromtrippoints'', ''temp_auto''],
      \<lambda>v c. c\<lparr>TempFromTripPoints := parseBool v (TempFromTripPoints c)\<rparr>),
    ([''backlight_step'', ''backlightstep''],
      \<lambda>v. on_ok (atoi v) (\<lambda>n c. c\<lparr>BacklightStep := n\<rparr>)),
    ([''backlight_device'', ''backlightdevice''],
      \<lambda>v c. c\<lparr>BacklightDevice := v\<rparr>),
    ([''net_ignore'', ''netignore'', ''iface_ignore''],
      \<lambda>v c. c\<lparr>NetIgnore := splitList v\<rparr>),
    ([''disk_ignore'', ''diskignore'', ''mount_ignore''],
      \<lambda>v c. c\<lparr>DiskIgnore := splitList v\<rparr>),
    ([''temp_ignore'', ''tempignore'', ''sensor_ignore''],
      \<lambda>v c. c\<lparr>TempIgnore := splitList v\<rparr>),
    ([''alerts_enabled'', ''alertsenabled'', ''alerts''],
      \<lambda>v c. c\<lparr>AlertsEnabled := parseBool v (AlertsEnabled c)\<rparr>),
    ([''mem_warn_pct'', ''memwarnpct'', ''mem_warn''],
      \<lambda>v. on_ok (parseFinite v) (\<lambda>f c. c\<lparr>MemWarnPct := f\<rparr>)),
    ([''swap_warn_pct'', ''swapwarnpct'', ''swap_warn''],
      \<lambda>v. on_ok (parseFinite v) (\<lambda>f c. c\<lparr>SwapWarnPct := f\<rparr>)),
    ([''disk_warn_pct'', ''diskwarnpct'', ''disk_warn''],
      \<lambda>v. on_ok (parseFinite v) (\<lambda>f c. c\<lparr>DiskWarnPct := f\<rparr>)),
    ([''batt_low_pct'', ''battlowpct'', ''batt_low''],
      \<lambda>v. on_ok (atoi v) (\<lambda>n c. c\<lparr>BattLowPct := n\<rparr>)),
    ([''batt_crit_pct'', ''battcritpct'', ''batt_crit''],
      \<lambda>v. on_ok (atoi v) (\<lambda>n c. c\<lparr>BattCritPct := n\<rparr>)),
    ([''load_warn_factor'', ''loadwarnfactor'', ''load_warn''],
      \<lambda>v. on_ok (parseFinite v) (\<lambda>f c. c\<lparr>LoadWarnFactor := f\<rparr>)),
    ([''alert_log_cap'', ''alertlogcap''],
      \<lambda>v. on_ok (atoi v) (\<lambda>n c. c\<lparr>AlertLogCap := n\<rparr>)),
    ([''alert_clear_ticks'', ''alertclearticks''],
      \<lambda>v. on_ok (atoi v) (\<lambda>n c. c\<lparr>AlertClearTicks := n\<rparr>)),
    ([''alert_bell'', ''alertbell''],
      \<lambda>v c. c\<lparr>AlertBell := parseBool v (AlertBell c)\<rparr>),
    ([''alert_cmd'', ''alertcmd''],
      \<lambda>v c. c\<lparr>AlertCmd := v\<rparr>),
    ([''alert_log_file'', ''alertlogfile''],
      \<lambda>v c. c\<lparr>AlertLogFile := expandHome home v\<rparr>),
    ([''wifi_low_dbm'', ''wifilowdbm'', ''wifi_low''],
      \<lambda>v. on_ok (atoi v) (\<lambda>n c. c\<lparr>WifiLowDBm := n\<rparr>)),
    ([''ping_enabled'', ''pingenabled'', ''ping''],
      \<lambda>v c. c\<lparr>PingEnabled := parseBool v (PingEnabled c)\<rparr>),
    ([''ping_target'', ''pingtarget''],
      \<lambda>v c. c\<lparr>PingTarget := v\<rparr>),
    ([''ping_loss_warn_pct'', ''pinglosswarnpct'', ''ping_loss_warn''],
      \<lambda>v. on_ok (parseFinite v) (\<lambda>f c. c\<lparr>PingLossWarnPct := f\<rparr>)),
    ([''psi_warn_pct'', ''psiwarnpct'', ''psi_warn''],
      \<lambda>v. on_ok (parseFinite v) (\<lambda>f c. c\<lparr>PSIWarnPct := f\<rparr>)),
    ([''batt_drain_warn_pct_h'', ''battdrainwarnpcth'', ''batt_drain_warn''],
      \<lambda>v. on_ok (parseFinite v) (\<lambda>f c. c\<lparr>BattDrainWarnPctH := f\<rparr>)),
    ([''disk_full_warn_hours'', ''diskfullwarnhours'', ''disk_full_warn''],
      \<lambda>v. on_ok (parseFinite v) (\<lambda>f c. c\<lparr>DiskFullWarnHours := f\<rparr>)),
    ([''temp_rise_warn_c_per_min'', ''temprisewarncpermin'', ''temp_rise_warn''],
      \<lambda>v. on_ok (parseFinite v) (\<lambda>f c. c\<lparr>TempRiseWarnCPerMin := f\<rparr>)),
    ([''event_alert_minutes'', ''eventalertminutes'', ''event_alert''],
      \<lambda>v. on_ok (parseFinite v) (\<lambda>f c. c\<lparr>EventAlertMinutes := f\<rparr>)),
    ([''kernel_log_enabled'', ''kernellogenabled'', ''kernel_log''],
      \<lambda>v c. c\<lparr>KernelLogEnabled := parseBool v (KernelLogEnabled c)\<rparr>),
    ([''modem_enabled'', ''modemenabled'', ''modem''],
      \<lambda>v c. c\<lparr>ModemEnabled := parseBool v (ModemEnabled c)\<rparr>),
    ([''history_len'', ''historylen'', ''spark_history''],
      \<lambda>v. on_ok (atoi v) (\<lambda>n c. c\<lparr>HistoryLen := n\<rparr>)),
    ([''procs_cap'', ''procscap'', ''proc_display_cap''],
      \<lambda>v. on_ok (atoi v) (\<lambda>n c. c\<lparr>ProcsCap := n\<rparr>)),
    ([''report_dir'', ''reportdir'', ''snapshot_dir''],
      \<lambda>v c. c\<lparr>ReportDir := expandHome home v\<rparr>),
    ([''history_file'', ''historyfile''],
      \<lambda>v c. c\<lparr>HistoryFile := expandHome home v\<rparr>),
    ([''metrics_listen'', ''metricslisten'', ''metrics''],
      \<lambda>v c. c\<lparr>MetricsListen := v\<rparr>)]"

definition apply_setting :: "string option \<Rightarrow> Config \<Rightarrow> string \<Rightarrow> string \<Rightarrow> Config \<times> bool" where
  "apply_setting home cfg key val =
     (case find (\<lambda>(names, _). key \<in> set names) (settings home) of
        Some (_, set_field) \<Rightarrow> (set_field val cfg, True)
      | None \<Rightarrow> (cfg, False))"

text \<open>One line of the file: the key and the raw value, unless the line is no setting.\<close>

definition setting_line :: "nat \<Rightarrow> string \<Rightarrow> (string \<times> string) option" where
  "setting_line n text =
     (let text = (if n = 1 then trimPrefix text [CHR 0xEF, CHR 0xBB, CHR 0xBF] else text);
          line = trimSpace text
      in if line = [] \<or> hasPrefix line ''#'' \<or> hasPrefix line '';'' then None
         else if hasPrefix line ''['' then None
         else case cut line (CHR ''='') of
           None \<Rightarrow> None
         | Some (k, v) \<Rightarrow> Some (toLower (trimSpace k), splitValue v))"

fun load_loop :: "string option \<Rightarrow> nat \<Rightarrow> string set \<Rightarrow> Config \<Rightarrow> string list \<Rightarrow> Config" where
  "load_loop home n seen cfg [] = cfg"
| "load_loop home n seen cfg (text # ls) =
     (case setting_line n text of
        None \<Rightarrow> load_loop home (n + 1) seen cfg ls
      | Some (key, val) \<Rightarrow>
          let (cfg', known) = apply_setting home cfg key val
          in if known then load_loop home (n + 1) seen cfg' ls
             else if key = [] \<or> key \<in> seen then load_loop home (n + 1) seen cfg' ls
             else load_loop home (n + 1) (insert key seen)
               (cfg'\<lparr>Unknown := Unknown cfg' @ [\<lparr>uk_Key = key, uk_Line = n\<rparr>]\<rparr>) ls)"

text \<open>\<open>content\<close> is what opening and reading the file gives, \<open>None\<close> when it cannot be opened.\<close>

definition LoadFrom :: "string option \<Rightarrow> string option \<Rightarrow> string \<Rightarrow> Config" where
  "LoadFrom home content path =
     (if path = [] then Default
      else case content of
        None \<Rightarrow> Default
      | Some s \<Rightarrow> load_loop home 1 {} Default (scan_lines (1024 * 1024) s))"

section \<open>Sanitising\<close>

definition pctOr :: "f64 \<Rightarrow> f64 \<Rightarrow> f64" where
  "pctOr v def = (if v \<le> 0 \<or> v > 100 then def else v)"

definition clampPctInt :: "int \<Rightarrow> int" where
  "clampPctInt v = (if v < 0 then 0 else if v > 100 then 100 else v)"

text \<open>A bound from below and then from above, as the pairs of conditionals write it.\<close>

definition clamp :: "'a::linorder \<Rightarrow> 'a \<Rightarrow> 'a \<Rightarrow> 'a" where
  "clamp lo hi v = (let v' = (if v < lo then lo else v) in if v' > hi then hi else v')"

definition Sanitize :: "Config \<Rightarrow> Config" where
  "Sanitize c =
     (let fast = (if FastInterval c < 200 * millisecond then 200 * millisecond else FastInterval c);
          low = clampPctInt (BattLowPct c);
          crit = clampPctInt (BattCritPct c);
          hot = (if TempHot c > TempCrit c then TempCrit c else TempHot c);
          warn = (if TempWarn c > hot then hot else TempWarn c)
      in c\<lparr>
        FastInterval := fast,
        ProcInterval := (if ProcInterval c < fast then fast else ProcInterval c),
        SlowInterval := (if SlowInterval c < fast then fast else SlowInterval c),
        BacklightStep := clamp 1 100 (BacklightStep c),
        AlertLogCap := (if AlertLogCap c < 16 then 16 else AlertLogCap c),
        LoadWarnFactor := (if LoadWarnFactor c \<le> 0 then 2 else LoadWarnFactor c),
        MemWarnPct := pctOr (MemWarnPct c) (MemWarnPct Default),
        SwapWarnPct := pctOr (SwapWarnPct c) (SwapWarnPct Default),
        DiskWarnPct := pctOr (DiskWarnPct c) (DiskWarnPct Default),
        BattLowPct := low,
        BattCritPct := (if crit > low then low else crit),
        TempHot := hot,
        TempWarn := warn,
        AlertClearTicks := clamp 1 60 (AlertClearTicks c),
        WifiLowDBm := (if WifiLowDBm c > 0 then - WifiLowDBm c else WifiLowDBm c),
        PingLossWarnPct := clamp 0 100 (PingLossWarnPct c),
        PSIWarnPct := clamp 0 100 (PSIWarnPct c),
        BattDrainWarnPctH := (if BattDrainWarnPctH c < 0 then 0 else BattDrainWarnPctH c),
        DiskFullWarnHours := (if DiskFullWarnHours c < 0 then 0 else DiskFullWarnHours c),
        TempRiseWarnCPerMin := (if TempRiseWarnCPerMin c < 0 then 0 else TempRiseWarnCPerMin c),
        EventAlertMinutes := max 0 (min (EventAlertMinutes c) (24 * 60)),
        HistoryLen := clamp 10 5000 (HistoryLen c),
        ProcsCap := clamp 10 10000 (ProcsCap c)\<rparr>)"

section \<open>Lemmas\<close>

definition config_wf :: "Config \<Rightarrow> bool" where
  [wf_simps]: "config_wf c \<longleftrightarrow>
     200 * millisecond \<le> FastInterval c \<and>
     FastInterval c \<le> ProcInterval c \<and> FastInterval c \<le> SlowInterval c \<and>
     TempWarn c \<le> TempHot c \<and> TempHot c \<le> TempCrit c \<and>
     BacklightStep c \<in> {1..100} \<and> 16 \<le> AlertLogCap c \<and> 0 < LoadWarnFactor c \<and>
     MemWarnPct c \<in> {0<..100} \<and> SwapWarnPct c \<in> {0<..100} \<and> DiskWarnPct c \<in> {0<..100} \<and>
     0 \<le> BattCritPct c \<and> BattCritPct c \<le> BattLowPct c \<and> BattLowPct c \<le> 100 \<and>
     AlertClearTicks c \<in> {1..60} \<and> WifiLowDBm c \<le> 0 \<and>
     PingLossWarnPct c \<in> {0..100} \<and> PSIWarnPct c \<in> {0..100} \<and>
     0 \<le> BattDrainWarnPctH c \<and> 0 \<le> DiskFullWarnHours c \<and> 0 \<le> TempRiseWarnCPerMin c \<and>
     EventAlertMinutes c \<in> {0..1440} \<and>
     HistoryLen c \<in> {10..5000} \<and> ProcsCap c \<in> {10..10000}"

lemma clamp_mem: "lo \<le> hi \<Longrightarrow> clamp lo hi v \<in> {lo..hi}"
  by (auto simp: clamp_def)

lemma clamp_id [simp]: "v \<in> {lo..hi} \<Longrightarrow> clamp lo hi v = v"
  by (auto simp: clamp_def)

lemma clamp_le [simp]:
  "lo \<le> hi \<Longrightarrow> clamp lo hi v \<le> hi" "lo \<le> hi \<Longrightarrow> lo \<le> clamp lo hi v"
  by (auto simp: clamp_def)

lemma pctOr_bounds: "0 < d \<Longrightarrow> d \<le> 100 \<Longrightarrow> 0 < pctOr v d \<and> pctOr v d \<le> 100"
  by (auto simp: pctOr_def)

lemma Sanitize_wf: "config_wf (Sanitize c)"
  unfolding config_wf_def
  by (intro conjI)
    (simp_all add: Sanitize_def Let_def clampPctInt_def Default_def pctOr_bounds clamp_mem)

lemma Sanitize_id: "config_wf c \<Longrightarrow> Sanitize c = c"
  by (cases c) (simp add: config_wf_def Sanitize_def Let_def clampPctInt_def pctOr_def)

text \<open>Every row of the key table leaves the unknown keys alone, and the intervals within the hour.\<close>

lemma parseInterval_bounds: "parseInterval v = Some d \<Longrightarrow> 0 \<le> d \<and> d \<le> hour"
proof -
  have *: "f < 3600 \<Longrightarrow> trunc (f * 1000000000) \<le> hour" for f :: rat
  proof -
    assume "f < 3600"
    then have "f * 1000000000 \<le> of_int 3600000000000" by simp
    then have "trunc (f * 1000000000) \<le> trunc (of_int 3600000000000)" by (rule trunc_mono)
    then show ?thesis by (simp only: trunc_of_int)
  qed
  assume "parseInterval v = Some d"
  then show ?thesis
    using * by (auto simp: parseInterval_def Let_def maxInterval_def seconds_def not_le trunc_nonneg
        split: option.splits if_splits)
qed

definition intervals_ok :: "Config \<Rightarrow> bool" where
  [wf_simps]: "intervals_ok c \<longleftrightarrow>
     FastInterval c \<le> hour \<and> ProcInterval c \<le> hour \<and> SlowInterval c \<le> hour"

lemma settings_preserve:
  "list_all (\<lambda>(names, h). Unknown (h v c) = Unknown c \<and> (intervals_ok c \<longrightarrow> intervals_ok (h v c)))
     (settings home)"
  by (auto simp: settings_def on_ok_def wf_simps dest: parseInterval_bounds split: option.splits)

lemma apply_setting_preserves:
  "Unknown (fst (apply_setting home c k v)) = Unknown c"
  "intervals_ok c \<Longrightarrow> intervals_ok (fst (apply_setting home c k v))"
  using settings_preserve [of v c home]
  by (auto simp: apply_setting_def list_all_iff split: option.splits dest!: find_mem)

definition known_key :: "string \<Rightarrow> bool" where
  "known_key k \<longleftrightarrow> (\<exists>r \<in> set (settings None). k \<in> set (fst r))"

lemma settings_names: "map fst (settings home) = map fst (settings None)"
  by (simp add: settings_def)

lemma apply_setting_known: "snd (apply_setting home c k v) \<longleftrightarrow> known_key k"
proof -
  have "known_key k \<longleftrightarrow> (\<exists>ns \<in> set (map fst (settings home)). k \<in> set ns)"
    unfolding settings_names [of home] by (simp add: known_key_def)
  also have "\<dots> \<longleftrightarrow> find (\<lambda>(names, _). k \<in> set names) (settings home) \<noteq> None"
    by (auto simp: find_None_iff) force
  finally show ?thesis by (auto simp: apply_setting_def split: option.splits)
qed

lemma apply_setting_unknown: "\<not> known_key k \<Longrightarrow> apply_setting home c k v = (c, False)"
  using apply_setting_known [of home c k v]
  by (auto simp: apply_setting_def split: option.splits)

text \<open>The keys on the lines that the table does not know, and the first mention of each.\<close>

fun bad_keys :: "nat \<Rightarrow> string list \<Rightarrow> (string \<times> nat) list" where
  "bad_keys n [] = []"
| "bad_keys n (t # ls) =
     (case setting_line n t of
        Some (k, v) \<Rightarrow> if k \<noteq> [] \<and> \<not> known_key k then [(k, n)] else []
      | None \<Rightarrow> []) @ bad_keys (n + 1) ls"

fun firsts :: "string set \<Rightarrow> (string \<times> nat) list \<Rightarrow> (string \<times> nat) list" where
  "firsts S [] = []"
| "firsts S ((k, n) # xs) = (if k \<in> S then firsts S xs else (k, n) # firsts (insert k S) xs)"

lemma load_loop_unknown:
  "Unknown (load_loop home n seen c ls) =
   Unknown c @ map (\<lambda>(k, i). \<lparr>uk_Key = k, uk_Line = i\<rparr>) (firsts seen (bad_keys n ls))"
proof (induction ls arbitrary: n seen c)
  case Nil
  then show ?case by simp
next
  case (Cons t ls)
  show ?case
  proof (cases "setting_line n t")
    case None
    then show ?thesis by (simp add: Cons)
  next
    case (Some kv)
    obtain k v where kv: "kv = (k, v)" by (cases kv)
    show ?thesis
    proof (cases "known_key k")
      case True
      obtain c' where "apply_setting home c k v = (c', True)"
        using True apply_setting_known [of home c k v] by (cases "apply_setting home c k v") auto
      moreover from this have "Unknown c' = Unknown c"
        using apply_setting_preserves(1) [of home c k v] by simp
      ultimately show ?thesis using Some kv True by (simp add: Cons)
    next
      case False
      then show ?thesis using Some kv by (auto simp: Cons apply_setting_unknown)
    qed
  qed
qed

lemma bad_keys_mem:
  "(k, i) \<in> set (bad_keys n ls) \<longleftrightarrow>
   n \<le> i \<and> i < n + length ls \<and> k \<noteq> [] \<and> \<not> known_key k \<and> (\<exists>v. setting_line i (ls ! (i - n)) = Some (k, v))"
proof (induction ls arbitrary: n)
  case Nil
  then show ?case by simp
next
  case (Cons t ls)
  have "(k, i) \<in> set (bad_keys n (t # ls)) \<longleftrightarrow>
    (i = n \<and> k \<noteq> [] \<and> \<not> known_key k \<and> (\<exists>v. setting_line n t = Some (k, v))) \<or>
    (k, i) \<in> set (bad_keys (n + 1) ls)"
    by (cases "setting_line n t") auto
  also have "\<dots> \<longleftrightarrow> n \<le> i \<and> i < n + length (t # ls) \<and> k \<noteq> [] \<and> \<not> known_key k \<and>
    (\<exists>v. setting_line i ((t # ls) ! (i - n)) = Some (k, v))"
  proof (cases "i \<le> n")
    case True
    then show ?thesis by (auto simp: Cons)
  next
    case False
    then have "i - n = Suc (i - (n + 1))" by simp
    then show ?thesis unfolding Cons using False by auto
  qed
  finally show ?case .
qed

lemma bad_keys_sorted: "sorted_wrt (<) (map snd (bad_keys n ls))"
proof (induction ls arbitrary: n)
  case (Cons t ls)
  have "\<forall>p \<in> set (bad_keys (n + 1) ls). n < snd p"
    using bad_keys_mem by fastforce
  with Cons show ?case by (auto split: option.splits)
qed simp

lemma firsts_subset: "set (firsts S xs) \<subseteq> set xs"
  by (induction S xs rule: firsts.induct) auto

lemma firsts_sorted: "sorted_wrt (<) (map snd xs) \<Longrightarrow> sorted_wrt (<) (map snd (firsts S xs))"
  by (induction S xs rule: firsts.induct) (auto dest: subsetD [OF firsts_subset])

lemma firsts_notin: "k \<in> S \<Longrightarrow> (k, i) \<notin> set (firsts S xs)"
  by (induction S xs rule: firsts.induct) auto

lemma firsts_mem:
  "sorted_wrt (<) (map snd xs) \<Longrightarrow>
   (k, i) \<in> set (firsts S xs) \<longleftrightarrow> (k, i) \<in> set xs \<and> k \<notin> S \<and> (\<forall>j < i. (k, j) \<notin> set xs)"
proof (induction S xs rule: firsts.induct)
  case (2 S k' n xs)
  have later: "n < i" if "(k, i) \<in> set xs" for k i using 2(3) that by force
  show ?case
  proof (cases "k' \<in> S")
    case True
    with 2 show ?thesis by auto
  next
    case False
    with 2 have "(k, i) \<in> set (firsts (insert k' S) xs) \<longleftrightarrow>
      (k, i) \<in> set xs \<and> k \<notin> insert k' S \<and> (\<forall>j < i. (k, j) \<notin> set xs)" by simp
    moreover have "i = n" if "(k, i) \<in> set ((k', n) # xs)" "\<forall>j < i. (k, j) \<notin> set ((k', n) # xs)" "k = k'"
      using that later [of k i] by auto
    ultimately show ?thesis using False later by (auto dest: less_asym)
  qed
qed simp

lemma firsts_distinct: "distinct (map fst (firsts S xs))"
  by (induction S xs rule: firsts.induct) (auto simp: firsts_notin)

lemma load_loop_intervals: "intervals_ok c \<Longrightarrow> intervals_ok (load_loop home n seen c ls)"
proof (induction ls arbitrary: n seen c)
  case (Cons t ls)
  have upd: "intervals_ok (c'\<lparr>Unknown := us\<rparr>) \<longleftrightarrow> intervals_ok c'" for c' us
    by (simp add: intervals_ok_def)
  show ?case
  proof (cases "setting_line n t")
    case None
    with Cons show ?thesis by simp
  next
    case (Some kv)
    obtain k v where kv: "kv = (k, v)" by (cases kv)
    obtain c' b where a: "apply_setting home c k v = (c', b)" by fastforce
    then have "intervals_ok c'"
      using apply_setting_preserves(2) [OF Cons.prems, of home k v] by simp
    with a Some kv show ?thesis by (simp add: Cons.IH upd)
  qed
qed simp

lemma Default_intervals: "intervals_ok Default"
  by (simp add: intervals_ok_def Default_def)

lemma LoadFrom_intervals: "intervals_ok (LoadFrom home content path)"
  by (simp add: LoadFrom_def Default_intervals load_loop_intervals split: option.split)

lemma Sanitize_intervals: "intervals_ok c \<Longrightarrow> intervals_ok (Sanitize c)"
  by (simp add: intervals_ok_def Sanitize_def Let_def)

text \<open>The scan over blanks, a quoted stretch, and a comment.\<close>

lemma scan_blanks: "list_all blank ws \<Longrightarrow> scan_value None (ws @ s) = ws @ scan_value None s"
  by (induction ws) auto

lemma scan_comment: "rest = [] \<or> hd rest = CHR ''#'' \<Longrightarrow> scan_value None rest = []"
  by (cases rest) auto

lemma scan_close: "q \<noteq> BACKSLASH \<Longrightarrow> scan_value (Some q) (q # s) = q # scan_value None s"
  by (cases s) auto

lemma scan_inside:
  "q \<notin> set v \<Longrightarrow> v = [] \<or> last v \<noteq> BACKSLASH \<Longrightarrow> q \<noteq> BACKSLASH \<Longrightarrow>
   scan_value (Some q) (v @ q # s) = v @ q # scan_value None s"
proof (induction v rule: induct_list012)
  case (3 c d v)
  then show ?case by (cases "c = BACKSLASH") (auto split: if_splits)
qed (auto simp: scan_close)

section \<open>Properties\<close>

text \<open>C30: A sanitised configuration is well-formed whatever the file said: every interval at least
  200 ms and none faster than the base tick, the temperature tiers ordered, percentages in
  range, battery tiers ordered, counts within their limits. And the settings that are already
  well-formed are exactly those the sanitiser leaves untouched, so it is idempotent and never
  alters a valid choice.\<close>

theorem Sanitize_retracts:
  "config_wf (Sanitize c) \<and> (config_wf c \<longleftrightarrow> Sanitize c = c) \<and> Sanitize (Sanitize c) = Sanitize c"
  by (metis Sanitize_id Sanitize_wf)

definition key_at :: "string list \<Rightarrow> string \<Rightarrow> nat \<Rightarrow> bool" where
  "key_at ls k n \<longleftrightarrow>
     1 \<le> n \<and> n \<le> length ls \<and> (\<exists>v. setting_line n (ls ! (n - 1)) = Some (k, v))"

text \<open>C31: The unknown keys reported for a file are, in the order of their lines, exactly the
  non-empty keys of its setting lines that the key table does not list, each at the first line
  that mentions it and once only.\<close>

theorem LoadFrom_unknown_keys:
  fixes content path home
  defines "ls \<equiv> scan_lines (1024 * 1024) content"
    and "u \<equiv> Unknown (LoadFrom home (Some content) path)"
  assumes "path \<noteq> []"
  shows "sorted_wrt (<) (map uk_Line u) \<and> distinct (UnknownKeyNames (LoadFrom home (Some content) path)) \<and>
    (\<forall>k n. \<lparr>uk_Key = k, uk_Line = n\<rparr> \<in> set u \<longleftrightarrow>
       k \<noteq> [] \<and> \<not> known_key k \<and> key_at ls k n \<and> (\<forall>m < n. \<not> key_at ls k m))"
proof -
  let ?bad = "bad_keys 1 ls"
  have u: "u = map (\<lambda>(k, i). \<lparr>uk_Key = k, uk_Line = i\<rparr>) (firsts {} ?bad)"
    using assms by (simp add: LoadFrom_def load_loop_unknown) (simp add: Default_def)
  have lines: "map uk_Line u = map snd (firsts {} ?bad)" and
    keys: "map uk_Key u = map fst (firsts {} ?bad)"
    by (auto simp: u split: prod.splits)
  have bad: "(k, i) \<in> set ?bad \<longleftrightarrow> k \<noteq> [] \<and> \<not> known_key k \<and> key_at ls k i" for k i
    by (auto simp: bad_keys_mem key_at_def)
  have mem: "\<lparr>uk_Key = k, uk_Line = i\<rparr> \<in> set u \<longleftrightarrow> (k, i) \<in> set (firsts {} ?bad)" for k i
    by (force simp: u)
  show ?thesis
  proof (intro conjI)
    show "sorted_wrt (<) (map uk_Line u)"
      unfolding lines by (intro firsts_sorted bad_keys_sorted)
    show "distinct (UnknownKeyNames (LoadFrom home (Some content) path))"
      using firsts_distinct [of "{}" ?bad] keys by (simp add: UnknownKeyNames_def u_def)
    show "\<forall>k n. \<lparr>uk_Key = k, uk_Line = n\<rparr> \<in> set u \<longleftrightarrow>
        k \<noteq> [] \<and> \<not> known_key k \<and> key_at ls k n \<and> (\<forall>m < n. \<not> key_at ls k m)"
      unfolding mem firsts_mem [OF bad_keys_sorted] bad by blast
  qed
qed

lemma LoadFrom_unknown_keys_witness:
  "\<lparr>uk_Key = ''x'', uk_Line = 2\<rparr> \<in> set (Unknown (LoadFrom None (Some (''tab=net'' @ [NL] @ ''x=1'')) ''c''))"
proof -
  let ?s = "(''tab=net'' @ [NL] @ ''x=1'')"
  have ls: "scan_lines (1024 * 1024) ?s = [''tab=net'', ''x=1'']"
    by (simp add: scan_lines_def Let_def dropCR_def)
  have l1: "setting_line 1 ''tab=net'' = Some (''tab'', ''net'')"
    and l2: "setting_line 2 ''x=1'' = Some (''x'', ''1'')" and unk: "\<not> known_key ''x''"
    by code_simp+
  have "key_at [''tab=net'', ''x=1''] ''x'' 2" using l2 by (simp add: key_at_def)
  moreover have "\<not> key_at [''tab=net'', ''x=1''] ''x'' m" if "m < 2" for m :: nat
    using that l1 by (auto simp: key_at_def numeral_2_eq_2 le_less_Suc_eq)
  ultimately show ?thesis
    using LoadFrom_unknown_keys [of "''c''" None ?s] unk unfolding ls by simp
qed

text \<open>A value written between quotes comes back as written: whatever it contains but its own quote
  (a hash, the other quote, blanks at its ends), as long as it does not end in a backslash,
  with any blanks around it and any comment after it.\<close>

theorem splitValue_quoted:
  assumes "q = DQUOTE \<or> q = SQUOTE" "q \<notin> set v" "v = [] \<or> last v \<noteq> BACKSLASH"
    and "list_all blank ws" "list_all blank ws'" "rest = [] \<or> hd rest = CHR ''#''"
  shows "splitValue (ws @ q # v @ q # ws' @ rest) = v"
proof -
  have q: "graphic q" "q \<noteq> BACKSLASH" using assms(1) by (auto simp: graphic_def)
  have "scan_value None (ws @ q # v @ q # ws' @ rest) = ws @ q # v @ q # ws'"
    using assms q by (simp add: scan_blanks scan_inside scan_comment)
  then have "splitValue (ws @ q # v @ q # ws' @ rest) = unquote (q # v @ [q])"
    unfolding splitValue_def using trimSpace_blanks [OF assms(4,5) q(1) q(1)] by simp
  also have "\<dots> = v" using assms(1) by (auto simp: unquote_def)
  finally show ?thesis .
qed

lemma splitValue_quoted_witness:
  "splitValue (''  '' @ SQUOTE # ''printf #1 '' @ SQUOTE # '' '' @ ''# note'') = ''printf #1 ''"
  by (rule splitValue_quoted) simp_all

text \<open>The intervals a configuration file can lead to lie between 200 ms and one hour once
  sanitised, whatever the file holds; the base tick is never slower than the others.\<close>

theorem loaded_intervals_bounded:
  fixes home content path
  defines "c \<equiv> Sanitize (LoadFrom home content path)"
  shows "200 * millisecond \<le> FastInterval c \<and>
    FastInterval c \<le> ProcInterval c \<and> ProcInterval c \<le> hour \<and>
    FastInterval c \<le> SlowInterval c \<and> SlowInterval c \<le> hour"
  using Sanitize_wf [of "LoadFrom home content path"]
    Sanitize_intervals [OF LoadFrom_intervals, of home content path]
  by (simp add: c_def wf_simps)

end
