(* ===== verification/Util.thy ===== *)
theory Util
  imports Go_Std
begin

text \<open>
  \<open>internal/probe/util.go\<close>: the sysfs name order, byte counts for people, counter rates, the
  history clamp, and the filter that keeps control characters out of the terminal.
\<close>

section \<open>Operations\<close>

definition suffixIndex :: "string \<Rightarrow> string \<Rightarrow> int" where
  "suffixIndex name pre =
     (case atoi (trimPrefix name pre) of None \<Rightarrow> 2 ^ 30 | Some n \<Rightarrow> n)"

text \<open>
  The loop that picks the unit. A \<open>uint64\<close> is its value here, below \<open>2^64\<close>; the divisor
  stops at \<open>2^60\<close> and never wraps.
\<close>

function unit_loop :: "nat \<Rightarrow> nat \<Rightarrow> nat \<Rightarrow> nat \<times> nat" where
  "unit_loop n dv ex =
     (if n \<ge> 1024 \<and> ex < 5 then unit_loop (n div 1024) (dv * 1024) (ex + 1) else (dv, ex))"
  by pat_completeness auto
termination by (relation "measure (\<lambda>(n, dv, ex). 5 - ex)") auto

declare unit_loop.simps [simp del]

definition HumanBytes :: "nat \<Rightarrow> string" where
  "HumanBytes b =
     (if b < 1024 then nat_digits b @ '' B''
      else
        let (dv, ex) = unit_loop (b div 1024) 1024 0;
            suff = [''KiB'', ''MiB'', ''GiB'', ''TiB'', ''PiB'', ''EiB''] ! ex
        in fmt_f 1 (of_nat b / of_nat dv) @ '' '' @ suff)"

function unit_loop_f :: "f64 \<Rightarrow> f64 \<Rightarrow> nat \<Rightarrow> f64 \<times> nat" where
  "unit_loop_f n dv ex =
     (if n \<ge> 1024 \<and> ex < 5 then unit_loop_f (n / 1024) (dv * 1024) (ex + 1) else (dv, ex))"
  by pat_completeness auto
termination by (relation "measure (\<lambda>(n, dv, ex). 5 - ex)") auto

declare unit_loop_f.simps [simp del]

definition HumanBytesPerSec :: "f64 \<Rightarrow> string" where
  "HumanBytesPerSec bps =
     (if bps < 1024 then fmt_f 0 bps @ '' B/s''
      else
        let (dv, ex) = unit_loop_f (bps / 1024) 1024 0;
            suff = [''KiB/s'', ''MiB/s'', ''GiB/s'', ''TiB/s'', ''PiB/s'', ''EiB/s''] ! ex
        in fmt_f 1 (bps / dv) @ '' '' @ suff)"

text \<open>The subtraction is the unsigned one of a \<open>uint64\<close>; the guard is what keeps it from wrapping.\<close>

definition CounterRate :: "64 word \<Rightarrow> 64 word \<Rightarrow> f64 \<Rightarrow> f64" where
  "CounterRate cur prev dt = (if dt \<le> 0 \<or> cur < prev then 0 else of_nat (unat (cur - prev)) / dt)"

lemma CounterRate_nonneg: "0 \<le> CounterRate a b dt"
  by (simp add: CounterRate_def del: of_nat_unat)

lemma CounterRate_exact:
  "p \<le> c \<Longrightarrow> 0 < dt \<Longrightarrow> CounterRate c p dt * dt = of_nat (unat c - unat p)"
  by (simp add: CounterRate_def unat_sub not_less del: of_nat_unat)

definition ClampHistory :: "'a list \<Rightarrow> int \<Rightarrow> 'a list" where
  "ClampHistory s cap =
     (if cap \<le> 0 then []
      else if int (length s) \<le> cap then s
      else drop (length s - nat cap) s)"

definition isControl :: "nat \<Rightarrow> bool" where
  "isControl r \<longleftrightarrow> r < 0x20 \<or> 0x7F \<le> r \<and> r \<le> 0x9F"

definition Printable :: "string \<Rightarrow> string" where
  "Printable s =
     (if list_all (\<lambda>r. \<not> isControl r) (runes s) then s
      else concat (map (\<lambda>r. encodeRune (if isControl r then 63 else r)) (runes s)))"

section \<open>Lemmas\<close>

lemma ClampHistory_last_n: "ClampHistory s n = last_n (nat n) s"
  by (auto simp: ClampHistory_def last_n_def)

lemma unit_loop_spec:
  "ex \<le> 5 \<Longrightarrow> unit_loop n dv ex = (dv', ex') \<Longrightarrow>
   \<exists>k. dv' = dv * 1024 ^ k \<and> ex' = ex + k \<and> ex' \<le> 5 \<and> (k = 0 \<or> 1024 ^ k \<le> n) \<and>
       (ex' = 5 \<or> n < 1024 ^ (k + 1))"
proof (induction n dv ex rule: unit_loop.induct)
  case (1 n dv ex)
  show ?case
  proof (cases "n \<ge> 1024 \<and> ex < 5")
    case True
    then obtain k where k: "dv' = dv * 1024 * 1024 ^ k" "ex' = ex + 1 + k" "ex' \<le> 5"
      "k = 0 \<or> 1024 ^ k \<le> n div 1024" "ex' = 5 \<or> n div 1024 < 1024 ^ (k + 1)"
      using 1 by (auto simp: unit_loop.simps [of n])
    have "1024 ^ (k + 1) \<le> n"
      using k(4) True by (auto simp: less_eq_div_iff_mult_less_eq mult.commute)
    moreover have "ex' = 5 \<or> n < 1024 ^ (k + 1 + 1)"
      using k(5) by (auto simp: div_less_iff_less_mult mult.commute)
    ultimately show ?thesis using k by (intro exI [of _ "k + 1"]) simp
  next
    case False
    then show ?thesis using 1 by (intro exI [of _ 0]) (auto simp: unit_loop.simps [of n])
  qed
qed

section \<open>Properties\<close>

text \<open>A byte count is shown in the unit it belongs to: the divisor is the power of 1024 the
  suffix names, and for every 64-bit count the number in front of it is at least 1 and
  below 1024.\<close>

theorem HumanBytes_unit:
  assumes "1024 \<le> b" "b < 2 ^ 64"
  shows "\<exists>e < 6. HumanBytes b = fmt_f 1 (of_nat b / 1024 ^ (e + 1)) @ '' '' @
      [''KiB'', ''MiB'', ''GiB'', ''TiB'', ''PiB'', ''EiB''] ! e \<and>
    1 \<le> (of_nat b / 1024 ^ (e + 1) :: rat) \<and> (of_nat b / 1024 ^ (e + 1) :: rat) < 1024"
proof -
  obtain dv ex where u: "unit_loop (b div 1024) 1024 0 = (dv, ex)" by fastforce
  then obtain k where k: "dv = 1024 * 1024 ^ k" "ex = k" "k \<le> 5" "k = 0 \<or> 1024 ^ k \<le> b div 1024"
    "k = 5 \<or> b div 1024 < 1024 ^ (k + 1)" using unit_loop_spec [OF _ u] by auto
  have "b < 1024 ^ (5 + 2)" using assms(2) by simp
  with k(5) have "b < 1024 ^ (k + 2)" by (auto simp: div_less_iff_less_mult mult.commute)
  then have "(of_nat b :: rat) < of_nat (1024 ^ (k + 2))" by (simp only: of_nat_less_iff)
  moreover have "1024 ^ (k + 1) \<le> b"
    using k(4) assms(1) by (auto simp: less_eq_div_iff_mult_less_eq mult.commute)
  then have "of_nat (1024 ^ (k + 1)) \<le> (of_nat b :: rat)" by (simp only: of_nat_le_iff)
  ultimately have "1 \<le> (of_nat b / 1024 ^ (k + 1) :: rat) \<and> (of_nat b / 1024 ^ (k + 1) :: rat) < 1024"
    by (simp add: divide_less_eq le_divide_eq mult.commute)
  then show ?thesis using u k assms(1) by (intro exI [of _ k]) (simp add: HumanBytes_def)
qed

lemma HumanBytes_unit_witness: "\<exists>e < 6. HumanBytes 3000000 = fmt_f 1 (of_nat 3000000 / 1024 ^ (e + 1)) @ '' '' @
      [''KiB'', ''MiB'', ''GiB'', ''TiB'', ''PiB'', ''EiB''] ! e \<and>
    1 \<le> (of_nat 3000000 / 1024 ^ (e + 1) :: rat) \<and> (of_nat 3000000 / 1024 ^ (e + 1) :: rat) < 1024"
  by (rule HumanBytes_unit) simp_all

lemma Printable_runes: "list_all (\<lambda>r. \<not> isControl r) (runes (Printable s))"
proof -
  define f where "f = (\<lambda>r. if isControl r then 63 else r)"
  have f: "list_all (\<lambda>r. \<not> isControl r) (map f rs)" for rs
    by (induction rs) (auto simp: f_def isControl_def)
  have "list_all valid_rune (map f (runes s))"
    using runes_valid [of s] by (auto simp: list_all_iff f_def valid_rune_def)
  then have "runes (concat (map (\<lambda>r. encodeRune (f r)) (runes s))) = map f (runes s)"
    using runes_encode [of "map f (runes s)"] by (simp add: comp_def)
  then show ?thesis using f [of "runes s"] unfolding Printable_def f_def by simp
qed

text \<open>What the filter lets through to the terminal holds no control character, C0, DEL or C1,
  whatever bytes it was given, and text that held none is left as it is.\<close>

theorem Printable_safe:
  "list_all (\<lambda>r. \<not> isControl r) (runes (Printable s)) \<and>
   (list_all (\<lambda>r. \<not> isControl r) (runes s) \<longleftrightarrow> Printable s = s)"
  using Printable_runes [of s] by (auto simp: Printable_def)

text \<open>A counter rate is never negative and never above the newer reading over the elapsed
  time: a counter that went backwards reports zero, not the unsigned wrap-around.\<close>

theorem CounterRate_bounded:
  "0 \<le> CounterRate cur prev dt \<and>
   (0 < dt \<longrightarrow> CounterRate cur prev dt = of_nat (unat cur - unat prev) / dt)"
proof (cases "unat cur < unat prev")
  case True
  then show ?thesis by (simp add: CounterRate_def word_less_nat_alt)
next
  case False
  then have "unat (cur - prev) = unat cur - unat prev"
    by (simp add: unat_sub word_le_nat_alt)
  with False show ?thesis by (simp add: CounterRate_def word_less_nat_alt del: of_nat_unat)
qed

lemma CounterRate_bounded_witness: "CounterRate 5 7 2 = 0 \<and> CounterRate 11 7 2 = 2"
  using CounterRate_bounded [of 5 7 2] CounterRate_bounded [of 11 7 2] by simp

end
