(* ===== verification/Trend.thy ===== *)
theory Trend
  imports Go_Std
begin

text \<open>
  \<open>internal/ui/trend.go\<close>: the short history kept per reading and the rates, sustained rates and
  times-to-target drawn from it. The lemmas give the shape of a series fed in time order:
  sorted, without a gap longer than the window, and reaching at most one reading behind it.
\<close>

section \<open>State\<close>

definition trendWindow :: duration where "trendWindow = 2 * minute"
definition trendMinSpan :: duration where "trendMinSpan = 45 * second"
definition battTrendWindow :: duration where "battTrendWindow = 10 * minute"
definition battTrendMinSpan :: duration where "battTrendMinSpan = 5 * minute"
definition trendMaxHours :: f64 where "trendMaxHours = 100000"
definition tempTrendWindow :: duration where "tempTrendWindow = 3 * minute"
definition tempTrendMinSpan :: duration where "tempTrendMinSpan = 90 * second"

lemmas trend_consts = trendWindow_def trendMinSpan_def battTrendWindow_def battTrendMinSpan_def
  tempTrendWindow_def tempTrendMinSpan_def

definition trendSpans :: "string \<Rightarrow> duration \<times> duration" where
  "trendSpans key =
     (if key = ''batt'' then (battTrendWindow, battTrendMinSpan)
      else if hasPrefix key ''temp:'' then (tempTrendWindow, tempTrendMinSpan)
      else (trendWindow, trendMinSpan))"

record trendPoint =
  tp_at :: time
  tp_v :: f64

text \<open>\<open>t.series[key]\<close> of a key not in the map is the empty slice.\<close>

type_synonym trendTracker = "string \<rightharpoonup> trendPoint list"

definition newTrendTracker :: trendTracker where
  "newTrendTracker = Map.empty"

definition series :: "trendTracker \<Rightarrow> string \<Rightarrow> trendPoint list" where
  "series t key = (case t key of None \<Rightarrow> [] | Some pts \<Rightarrow> pts)"

section \<open>Operations\<close>

definition observe :: "string \<Rightarrow> f64 \<Rightarrow> time \<Rightarrow> trendTracker \<Rightarrow> trendTracker" where
  "observe key v now t =
     (let window = fst (trendSpans key);
          pts = series t key;
          pts = (if pts \<noteq> [] \<and> timeSub now (tp_at (last pts)) > window then [] else pts);
          pts = pts @ [\<lparr>tp_at = now, tp_v = v\<rparr>];
          cut = now - window;
          first = length (takeWhile (\<lambda>p. tp_at p < cut) pts);
          first = (if first > 0 then first - 1 else first)
      in t(key \<mapsto> drop first pts))"

text \<open>\<open>keys\<close> is the order in which the loop over the map visits them.\<close>

definition evict_body :: "time \<Rightarrow> string \<Rightarrow> trendTracker \<Rightarrow> trendTracker" where
  "evict_body now key t =
     (case t key of
        None \<Rightarrow> t
      | Some pts \<Rightarrow>
          if pts = [] \<or> timeSub now (tp_at (last pts)) > fst (trendSpans key) then t(key := None)
          else t)"

definition evict :: "string list \<Rightarrow> time \<Rightarrow> trendTracker \<Rightarrow> trendTracker" where
  "evict keys now t = fold (evict_body now) keys t"

definition rate :: "trendTracker \<Rightarrow> string \<Rightarrow> f64 option" where
  "rate t key =
     (let pts = series t key
      in if length pts < 2 then None
         else
           let span = timeSub (tp_at (last pts)) (tp_at (hd pts))
           in if span < snd (trendSpans key) then None
              else Some ((tp_v (last pts) - tp_v (hd pts)) / hours span))"

text \<open>The latest reading at or before \<open>mid\<close>, the first one when there is none.\<close>

fun recent_base :: "time \<Rightarrow> trendPoint \<Rightarrow> trendPoint list \<Rightarrow> trendPoint" where
  "recent_base mid base [] = base"
| "recent_base mid base (p # ps) = (if tp_at p > mid then base else recent_base mid p ps)"

definition sustainedRate :: "trendTracker \<Rightarrow> string \<Rightarrow> f64 option" where
  "sustainedRate t key =
     (case rate t key of
        None \<Rightarrow> None
      | Some whole \<Rightarrow>
          let pts = series t key;
              lst = last pts;
              mid = tp_at lst + (- timeSub (tp_at lst) (tp_at (hd pts))) sdiv 2;
              base = recent_base mid (hd pts) pts;
              span = timeSub (tp_at lst) (tp_at base);
              recent = (tp_v lst - tp_v base) / hours span
          in if span > 0 \<and> \<bar>recent\<bar> < \<bar>whole\<bar> then Some recent else Some whole)"

definition etaTo :: "trendTracker \<Rightarrow> string \<Rightarrow> f64 \<Rightarrow> f64 \<Rightarrow> duration option" where
  "etaTo t key current target =
     (case rate t key of
        None \<Rightarrow> None
      | Some perHour \<Rightarrow>
          if perHour = 0 then None
          else
            let remaining = target - current
            in if remaining = 0 then None
               else if (remaining > 0) \<noteq> (perHour > 0) then None
               else
                 let h = remaining / perHour
                 in if h \<le> 0 \<or> h > trendMaxHours then None
                    else Some (trunc (h * of_int hour)))"

definition reset :: "trendTracker \<Rightarrow> trendTracker" where
  "reset t = Map.empty"

definition humanETA :: "duration \<Rightarrow> string" where
  "humanETA d =
     (if d < minute then ''<1 min''
      else if d < hour then fmt_f 0 (minutes d) @ '' min''
      else if d < 48 * hour then fmt_f 1 (hours d) @ '' h''
      else fmt_f 0 (hours d / 24) @ '' days'')"

section \<open>Lemmas\<close>

interpretation evict: map_loop "evict_body now"
  "\<lambda>key e. case e of None \<Rightarrow> None
    | Some pts \<Rightarrow> if pts = [] \<or> timeSub now (tp_at (last pts)) > fst (trendSpans key) then None
                  else Some pts"
  for now
  by unfold_locales (auto simp: evict_body_def fun_eq_iff split: option.splits)

lemma window_bounds: "0 < fst (trendSpans key)" "fst (trendSpans key) < maxDuration"
  and minSpan_bounds: "0 < snd (trendSpans key)"
  by (auto simp: trendSpans_def trend_consts maxDuration_def)

lemma series_observe:
  "series (observe key v now t) k =
   (if k = key then series (observe key v now t) key else series t k)"
  by (simp add: observe_def series_def Let_def)

text \<open>The shape of a series whose readings were fed in time order.\<close>

definition series_ok :: "duration \<Rightarrow> trendPoint list \<Rightarrow> bool" where
  [wf_simps]: "series_ok w pts \<longleftrightarrow>
     sorted (map tp_at pts) \<and> successively (\<lambda>p q. tp_at q - tp_at p \<le> w) pts \<and>
     (pts \<noteq> [] \<longrightarrow> list_all (\<lambda>p. tp_at (last pts) - w \<le> tp_at p) (tl pts))"

lemma successively_drop: "successively P xs \<Longrightarrow> successively P (drop n xs)"
  by (metis append_take_drop_id successively_append_iff)

lemma sorted_map_last: "sorted (map f xs) \<Longrightarrow> x \<in> set xs \<Longrightarrow> f x \<le> f (last xs)"
  by (induction xs) auto

lemma tl_drop_takeWhile:
  assumes "sorted (map f xs)" "n = length (takeWhile (\<lambda>x. f x < c) xs)"
  shows "list_all (\<lambda>x. c \<le> f x) (tl (drop (if n > 0 then n - 1 else n) xs))"
proof -
  have d: "drop n xs = dropWhile (\<lambda>x. f x < c) xs"
    unfolding assms(2) by (rule dropWhile_eq_drop [symmetric])
  have all: "list_all (\<lambda>x. c \<le> f x) (drop n xs)"
  proof (cases "drop n xs")
    case (Cons y ys)
    then have "\<not> f y < c" using d by (metis dropWhile_eq_Cons_conv)
    moreover have "sorted (map f (y # ys))"
      using assms(1) Cons by (metis drop_map sorted_wrt_drop)
    ultimately show ?thesis using Cons by (auto simp: list_all_iff)
  qed simp
  show ?thesis
  proof (cases "n = 0")
    case True
    then show ?thesis using all by (cases xs) auto
  next
    case False
    then have "tl (drop (n - 1) xs) = drop n xs"
      by (cases n) (simp_all add: drop_Suc tl_drop)
    then show ?thesis using all False by simp
  qed
qed

lemma observe_series_ok:
  assumes ok: "series_ok (fst (trendSpans key)) (series t key)"
    and order: "series t key \<noteq> [] \<Longrightarrow> tp_at (last (series t key)) \<le> now"
  shows "series_ok (fst (trendSpans key)) (series (observe key v now t) key)"
    and "series (observe key v now t) key \<noteq> []"
    and "last (series (observe key v now t) key) = \<lparr>tp_at = now, tp_v = v\<rparr>"
proof -
  define w where "w = fst (trendSpans key)"
  define old where "old = series t key"
  define kept where
    "kept = (if old \<noteq> [] \<and> timeSub now (tp_at (last old)) > w then [] else old)"
  define pts where "pts = kept @ [\<lparr>tp_at = now, tp_v = v\<rparr>]"
  define n where "n = length (takeWhile (\<lambda>p. tp_at p < now - w) pts)"
  define k where "k = (if n > 0 then n - 1 else n)"
  have s: "series (observe key v now t) key = drop k pts"
    by (simp add: observe_def series_def [of "t(key \<mapsto> _)"] Let_def k_def n_def pts_def kept_def
        old_def w_def)
  have w: "0 < w" "w < maxDuration" using window_bounds by (simp_all add: w_def)
  have gap: "kept \<noteq> [] \<Longrightarrow> now - tp_at (last kept) \<le> w"
    using timeSub_gr_iff [of w now "tp_at (last old)"] w
    by (auto simp: kept_def minDuration_def split: if_splits)
  have kept: "sorted (map tp_at kept)" "successively (\<lambda>p q. tp_at q - tp_at p \<le> w) kept"
    "kept \<noteq> [] \<Longrightarrow> tp_at (last kept) \<le> now"
    using ok order by (auto simp: kept_def old_def w_def wf_simps)
  have "tp_at p \<le> now" if "p \<in> set kept" for p
  proof -
    have "tp_at p \<le> tp_at (last kept)"
      using kept(1) that by (rule sorted_map_last)
    moreover have "kept \<noteq> []" using that by auto
    ultimately show ?thesis using kept(3) by simp
  qed
  then have sorted: "sorted (map tp_at pts)" using kept(1) by (auto simp: pts_def sorted_append)
  have succ: "successively (\<lambda>p q. tp_at q - tp_at p \<le> w) pts"
    using kept(2) gap by (auto simp: pts_def successively_append_iff)
  have "n < length pts"
    using w by (auto simp: n_def pts_def takeWhile_append) (metis length_takeWhile_le le_imp_less_Suc)
  then have k: "k < length pts" by (auto simp: k_def)
  then have lst: "last (drop k pts) = \<lparr>tp_at = now, tp_v = v\<rparr>" by (simp add: pts_def last_drop)
  show "series (observe key v now t) key \<noteq> []" "last (series (observe key v now t) key) = \<lparr>tp_at = now, tp_v = v\<rparr>"
    using s k lst by simp_all
  show "series_ok (fst (trendSpans key)) (series (observe key v now t) key)"
    unfolding series_ok_def s w_def [symmetric]
    using sorted succ lst tl_drop_takeWhile [OF sorted n_def]
    by (simp add: k_def [symmetric] successively_drop drop_map [symmetric] sorted_wrt_drop)
qed

text \<open>A tracker fed and evicted at times that never go back.\<close>

inductive trend_run :: "time \<Rightarrow> trendTracker \<Rightarrow> bool" where
  start: "trend_run now newTrendTracker"
| obs: "trend_run now t \<Longrightarrow> now \<le> now' \<Longrightarrow> trend_run now' (observe key v now' t)"
| evict: "trend_run now t \<Longrightarrow> now \<le> now' \<Longrightarrow> distinct keys \<Longrightarrow> set keys = dom t \<Longrightarrow>
    trend_run now' (evict keys now' t)"

lemma series_evict:
  "distinct keys \<Longrightarrow> series (evict keys now t) key = series t key \<or> series (evict keys now t) key = []"
  by (auto simp: series_def evict_def evict.loop_lookup split: option.splits)

lemma trend_run_series:
  "trend_run now t \<Longrightarrow> series_ok (fst (trendSpans key)) (series t key) \<and>
   (series t key \<noteq> [] \<longrightarrow> tp_at (last (series t key)) \<le> now)"
proof (induction rule: trend_run.induct)
  case (start now)
  then show ?case by (simp add: newTrendTracker_def series_def wf_simps)
next
  case (obs now t now' k v)
  show ?case
  proof (cases "k = key")
    case True
    then show ?thesis using observe_series_ok [of key t now' v] obs by fastforce
  next
    case False
    then have "series (observe k v now' t) key = series t key" by (simp add: series_observe)
    then show ?thesis using obs by fastforce
  qed
next
  case (evict now t now' keys)
  then show ?case
    using series_evict [of keys now' t key] by (auto simp: series_ok_def)
qed

lemma series_span:
  assumes "series_ok w (p # q # ps)" "0 \<le> w" "2 * w \<le> maxDuration"
  shows "0 \<le> tp_at (last (q # ps)) - tp_at p" "tp_at (last (q # ps)) - tp_at p \<le> 2 * w"
proof -
  have "tp_at p \<le> tp_at (last (q # ps))" and "tp_at (last (q # ps)) - w \<le> tp_at q"
    and "tp_at q - tp_at p \<le> w"
    using assms(1) sorted_map_last [of tp_at "p # q # ps" p] by (auto simp: wf_simps)
  then show "0 \<le> tp_at (last (q # ps)) - tp_at p" "tp_at (last (q # ps)) - tp_at p \<le> 2 * w" by linarith+
qed

lemma series_timeSub:
  assumes ok: "series_ok (fst (trendSpans key)) pts" and p: "p \<in> set pts"
  shows "timeSub (tp_at (last pts)) (tp_at p) = tp_at (last pts) - tp_at p"
    "0 \<le> tp_at (last pts) - tp_at p" "tp_at (last pts) - tp_at p \<le> 2 * fst (trendSpans key)"
proof -
  define w where "w = fst (trendSpans key)"
  have w: "0 \<le> w" "2 * w \<le> maxDuration"
    by (auto simp: w_def trendSpans_def trend_consts maxDuration_def)
  have le: "0 \<le> tp_at (last pts) - tp_at p"
    using ok p sorted_map_last [of tp_at pts p] by (simp add: wf_simps)
  moreover have "tp_at (last pts) - tp_at p \<le> tp_at (last pts) - tp_at (hd pts)"
    using ok p by (cases pts) (auto simp: wf_simps)
  moreover have "tp_at (last pts) - tp_at (hd pts) \<le> 2 * w"
  proof (cases pts)
    case (Cons a as)
    then show ?thesis
    proof (cases as)
      case (Cons b bs)
      then show ?thesis using \<open>pts = a # as\<close> series_span(2) [of w a b bs] ok w
        by (simp add: w_def)
    qed (use w in simp)
  qed (use p in simp)
  ultimately have "tp_at (last pts) - tp_at p \<le> 2 * w" by linarith
  with le w show "timeSub (tp_at (last pts)) (tp_at p) = tp_at (last pts) - tp_at p"
    "0 \<le> tp_at (last pts) - tp_at p" "tp_at (last pts) - tp_at p \<le> 2 * fst (trendSpans key)"
    by (simp_all add: timeSub_def w_def maxDuration_def minDuration_def)
qed

lemma recent_base_mem: "recent_base mid b ps \<in> insert b (set ps)"
  by (induction ps arbitrary: b) auto

lemma rate_Some:
  assumes "rate t key = Some r"
  shows "2 \<le> length (series t key)"
    "snd (trendSpans key) \<le> timeSub (tp_at (last (series t key))) (tp_at (hd (series t key)))"
    "r = (tp_v (last (series t key)) - tp_v (hd (series t key))) /
         hours (timeSub (tp_at (last (series t key))) (tp_at (hd (series t key))))"
  using assms by (auto simp: rate_def Let_def split: if_splits)

section \<open>Properties\<close>

text \<open>C27: Whatever readings come in, at times that never go back, and whatever is evicted between
  them, every series stays sorted, holds no gap longer than its window, reaches at most one
  reading behind the window, and a rate is only ever measured over a baseline between its
  minimal span and twice its window.\<close>

theorem trend_run_invariant:
  assumes "trend_run now t"
  shows "series_ok (fst (trendSpans key)) (series t key) \<and>
    (rate t key \<noteq> None \<longrightarrow>
       snd (trendSpans key) \<le> tp_at (last (series t key)) - tp_at (hd (series t key)) \<and>
       tp_at (last (series t key)) - tp_at (hd (series t key)) \<le> 2 * fst (trendSpans key))"
proof -
  have ok: "series_ok (fst (trendSpans key)) (series t key)"
    using trend_run_series [OF assms] by blast
  moreover have "hd (series t key) \<in> set (series t key)" if "rate t key = Some r" for r
    using rate_Some(1) [OF that] by (cases "series t key") auto
  ultimately show ?thesis
    using rate_Some(2) [of t key] series_timeSub [OF ok] by fastforce
qed

lemma trend_run_invariant_witness:
  "series_ok trendWindow (series (observe ''mem'' 7 minute (observe ''mem'' 5 0 newTrendTracker)) ''mem'')"
proof -
  have "trend_run minute (observe ''mem'' 7 minute (observe ''mem'' 5 0 newTrendTracker))"
    by (intro trend_run.obs [of 0] trend_run.start) simp_all
  from trend_run_invariant [OF this, of "''mem''"] show ?thesis
    by (simp add: trendSpans_def hasPrefix_def)
qed

text \<open>C28: A reading that drifts at a constant pace is measured exactly: whenever a rate is
  reported for it, the rate and the sustained rate both are that pace. And for any reading
  the sustained rate never exceeds the plain one.\<close>

theorem linear_drift_exact:
  assumes run: "trend_run now t" and r: "rate t key = Some r"
  shows "(\<exists>s. sustainedRate t key = Some s \<and> \<bar>s\<bar> \<le> \<bar>r\<bar>) \<and>
    ((\<forall>p \<in> set (series t key). tp_v p = a + b * hours (tp_at p)) \<longrightarrow>
       r = b \<and> sustainedRate t key = Some b)"
proof -
  define pts where "pts = series t key"
  have ok: "series_ok (fst (trendSpans key)) pts" and ne: "pts \<noteq> []"
    using trend_run_series [OF run] rate_Some(1) [OF r] by (auto simp: pts_def)
  then have hd: "hd pts \<in> set pts" by simp
  have slope: "(tp_v (last pts) - tp_v p) / hours (timeSub (tp_at (last pts)) (tp_at p)) = b"
    if lin: "\<forall>p \<in> set pts. tp_v p = a + b * hours (tp_at p)" and p: "p \<in> set pts"
      and pos: "0 < timeSub (tp_at (last pts)) (tp_at p)" for p
  proof -
    have "last pts \<in> set pts" using ne by simp
    then have "tp_v (last pts) - tp_v p = b * hours (tp_at (last pts) - tp_at p)"
      using lin p by (simp add: hours_def algebra_simps diff_divide_distrib)
    then show ?thesis using pos series_timeSub(1) [OF ok p] by (simp add: hours_def)
  qed
  have span: "0 < timeSub (tp_at (last pts)) (tp_at (hd pts))"
    using rate_Some(2) [OF r] minSpan_bounds [of key] by (simp add: pts_def)
  have rr: "r = (tp_v (last pts) - tp_v (hd pts)) / hours (timeSub (tp_at (last pts)) (tp_at (hd pts)))"
    using rate_Some(3) [OF r] by (simp add: pts_def)
  let ?mid = "tp_at (last pts) + (- timeSub (tp_at (last pts)) (tp_at (hd pts))) sdiv 2"
  let ?base = "recent_base ?mid (hd pts) pts"
  have base: "?base \<in> set pts" using recent_base_mem [of ?mid "hd pts" pts] hd by auto
  have "\<exists>s. sustainedRate t key = Some s \<and> \<bar>s\<bar> \<le> \<bar>r\<bar>"
    using r by (simp add: sustainedRate_def Let_def)
  moreover have "r = b \<and> sustainedRate t key = Some b"
    if lin: "\<forall>p \<in> set pts. tp_v p = a + b * hours (tp_at p)"
    using slope [OF lin hd span] slope [OF lin base] rr r
    by (auto simp: sustainedRate_def Let_def pts_def [symmetric])
  ultimately show ?thesis by (simp add: pts_def)
qed

lemma linear_drift_exact_witness:
  "let t = observe ''mem'' 7 minute (observe ''mem'' 5 0 newTrendTracker)
   in rate t ''mem'' = Some 120 \<and> (\<exists>s. sustainedRate t ''mem'' = Some s \<and> \<bar>s\<bar> \<le> 120)"
proof -
  let ?t = "observe ''mem'' 7 minute (observe ''mem'' 5 0 newTrendTracker)"
  have run: "trend_run minute ?t" by (intro trend_run.obs [of 0] trend_run.start) simp_all
  have r: "rate ?t ''mem'' = Some 120"
    by (simp add: rate_def observe_def newTrendTracker_def series_def trendSpans_def hasPrefix_def
        trend_consts timeSub_def maxDuration_def minDuration_def hours_def Let_def)
  show ?thesis using linear_drift_exact [OF run r] r by simp
qed

text \<open>A time to target is given only when the reading moves towards it, lies between zero and
  a hundred thousand hours (so the conversion to a duration cannot overflow), and is, to the
  nanosecond below, the distance divided by the rate.\<close>

theorem etaTo_meaning:
  assumes "etaTo t key current target = Some d"
  shows "\<exists>r. rate t key = Some r \<and> 0 < (target - current) * r \<and>
    0 \<le> d \<and> d \<le> 100000 * hour \<and>
    \<bar>r\<bar> * hours d \<le> \<bar>target - current\<bar> \<and> \<bar>target - current\<bar> < \<bar>r\<bar> * hours (d + 1)"
proof -
  obtain r where r: "rate t key = Some r" "r \<noteq> 0" "target - current \<noteq> 0"
    "(target - current > 0) = (r > 0)" "0 < (target - current) / r" "(target - current) / r \<le> 100000"
    and d: "d = trunc ((target - current) / r * of_int hour)"
    using assms by (auto simp: etaTo_def Let_def trendMaxHours_def not_le split: option.splits if_splits)
  define h where "h = (target - current) / r"
  have "target - current = r * h" using r(2) by (simp add: h_def)
  moreover have h0: "0 < h" "h \<le> 100000" using r(5,6) unfolding h_def .
  ultimately have h: "0 < h" "h \<le> 100000" "\<bar>target - current\<bar> = \<bar>r\<bar> * h"
    by (simp_all add: abs_mult)
  have fl: "d = \<lfloor>h * 3600000000000\<rfloor>"
    using h(1) unfolding d h_def [symmetric] by (simp add: trunc_def)
  then have "of_int d \<le> h * 3600000000000" "h * 3600000000000 < of_int d + 1" by linarith+
  then have "hours d \<le> h" "h < hours (d + 1)" by (simp_all add: hours_def divide_le_eq less_divide_eq)
  moreover have "0 \<le> d" using h(1) fl by simp
  moreover have "d \<le> 100000 * hour"
    using h(2) fl by (simp add: floor_le_iff)
  ultimately show ?thesis using r(1-4) h(3)
    by (intro exI [of _ r]) (auto simp: zero_less_mult_iff not_less le_less mult_left_mono)
qed

lemma etaTo_meaning_witness:
  "let t = observe ''mem'' 7 minute (observe ''mem'' 5 0 newTrendTracker)
   in etaTo t ''mem'' 7 13 = Some (3 * minute) \<and>
      (\<exists>r. rate t ''mem'' = Some r \<and> \<bar>r\<bar> * hours (3 * minute) \<le> 6)"
proof -
  let ?t = "observe ''mem'' 7 minute (observe ''mem'' 5 0 newTrendTracker)"
  have e: "etaTo ?t ''mem'' 7 13 = Some (3 * minute)"
    by (simp add: etaTo_def rate_def observe_def newTrendTracker_def series_def trendSpans_def
        hasPrefix_def trend_consts timeSub_def maxDuration_def minDuration_def hours_def Let_def
        trendMaxHours_def trunc_def)
  show ?thesis using etaTo_meaning [OF e] e by auto
qed

end
