(* ===== verification/Oom.thy ===== *)
theory Oom
  imports Go_Std Alerts
begin

text \<open>
  \<open>internal/ui/oom.go\<close>: the tracker that turns the kernel's cumulative kill counter, and the
  victims the kernel log names, into one critical condition per kill. Counters are 64-bit
  words; \<open>hms\<close> is the local-time format \<open>15:04:05\<close>.
\<close>

section \<open>State\<close>

record oomVictim =
  ov_at :: time
  ov_pid :: int
  ov_comm :: string

record oomEvent =
  oe_at :: time
  oe_n :: "64 word"
  oe_key :: string

record oomTracker =
  ot_primed :: bool
  ot_last :: "64 word"
  ot_session :: "64 word"
  ot_events :: "oomEvent list"
  ot_victims :: "oomVictim list"
  ot_logged :: int

definition newOomTracker :: oomTracker where
  "newOomTracker = \<lparr>ot_primed = False, ot_last = 0, ot_session = 0, ot_events = [],
     ot_victims = [], ot_logged = 0\<rparr>"

definition oomVictimMatch :: duration where "oomVictimMatch = 10 * second"
definition oomEventKeep :: nat where "oomEventKeep = 32"

section \<open>Operations\<close>

definition prune :: "time \<Rightarrow> duration \<Rightarrow> oomTracker \<Rightarrow> oomTracker" where
  "prune now window o' =
     (let keep = filter (\<lambda>e. timeSub now (oe_at e) < window) (ot_events o')
      in o'\<lparr>ot_events := (if length keep > oomEventKeep then drop (length keep - oomEventKeep) keep
                          else keep)\<rparr>)"

definition counter_key :: "64 word \<Rightarrow> string" where
  "counter_key cnt = ''oom:'' @ nat_digits (unat cnt)"

definition observe :: "64 word \<Rightarrow> time \<Rightarrow> duration \<Rightarrow> oomTracker \<Rightarrow> oomTracker" where
  "observe cnt now window o' =
     (let o1 =
        (if ot_primed o' \<and> cnt > ot_last o' then
           let n = cnt - ot_last o'
           in o'\<lparr>ot_session := ot_session o' + n,
                 ot_events := ot_events o' @ [\<lparr>oe_at = now, oe_n = n, oe_key = counter_key cnt\<rparr>]\<rparr>
         else o')
      in prune now window (o1\<lparr>ot_primed := True, ot_last := cnt\<rparr>))"

definition addVictim :: "time \<Rightarrow> int \<Rightarrow> string \<Rightarrow> bool \<Rightarrow> duration \<Rightarrow> oomTracker \<Rightarrow> oomTracker" where
  "addVictim when pid comm counted window o' =
     (let vs = ot_victims o' @ [\<lparr>ov_at = when, ov_pid = pid, ov_comm = comm\<rparr>];
          o1 = o'\<lparr>ot_victims := (if length vs > oomEventKeep then drop (length vs - oomEventKeep) vs
                                 else vs)\<rparr>
      in if counted then o1
         else
           let lg = ot_logged o1 + 1
           in prune when window
                (o1\<lparr>ot_logged := lg, ot_session := ot_session o1 + 1,
                    ot_events := ot_events o1 @
                      [\<lparr>oe_at = when, oe_n = 1, oe_key = ''oom:log'' @ itoa lg\<rparr>]\<rparr>))"

text \<open>The event nearest a victim in time, the first of equals, within the matching distance.\<close>

fun nearest :: "time \<Rightarrow> oomEvent option \<Rightarrow> duration \<Rightarrow> oomEvent list \<Rightarrow> oomEvent option" where
  "nearest when best bestD [] = best"
| "nearest when best bestD (e # es) =
     (let d = timeSub when (oe_at e);
          d = (if d < 0 then - d else d)
      in if d < bestD then nearest when (Some e) d es else nearest when best bestD es)"

fun named_loop :: "oomEvent list \<Rightarrow> oomEvent \<Rightarrow> string list \<Rightarrow> oomVictim list \<Rightarrow> string list" where
  "named_loop events e out [] = out"
| "named_loop events e out (v # vs) =
     (case nearest (ov_at v) None oomVictimMatch events of
        Some ev \<Rightarrow>
          if oe_key ev = oe_key e \<and> length out < unat (oe_n e)
          then named_loop events e (out @ [ov_comm v @ '' (pid '' @ itoa (ov_pid v) @ '')'']) vs
          else named_loop events e out vs
      | None \<Rightarrow> named_loop events e out vs)"

definition named :: "oomTracker \<Rightarrow> oomEvent \<Rightarrow> string list" where
  "named o' e = named_loop (ot_events o') e [] (ot_victims o')"

definition oom_what :: "string list \<Rightarrow> 64 word \<Rightarrow> string" where
  "oom_what names n =
     (if names \<noteq> [] \<and> length names = unat n then join names '', ''
      else if names \<noteq> [] then
        join names '', '' @ '' and '' @ nat_digits (unat (n - of_nat (length names))) @
        '' more (dmesg names them)''
      else if n > 1 then nat_digits (unat n) @ '' processes (dmesg names them)''
      else ''a process (dmesg names it)'')"

definition oom_cond :: "(time \<Rightarrow> string) \<Rightarrow> oomTracker \<Rightarrow> oomEvent \<Rightarrow> alertCond" where
  "oom_cond hms o' e =
     \<lparr>ac_sev = SevCrit,
      ac_msg = ''out of memory: the kernel killed '' @ oom_what (named o' e) (oe_n e) @ '' at '' @
        hms (oe_at e)\<rparr>"

definition conds ::
  "(time \<Rightarrow> string) \<Rightarrow> oomTracker \<Rightarrow> time \<Rightarrow> duration \<Rightarrow> (string \<rightharpoonup> alertCond) \<Rightarrow> (string \<rightharpoonup> alertCond)" where
  "conds hms o' now window cs =
     fold (\<lambda>e cs. if timeSub now (oe_at e) \<ge> window then cs else cs(oe_key e \<mapsto> oom_cond hms o' e))
       (ot_events o') cs"

section \<open>Lemmas\<close>

interpretation victims: bounded_buffer
  "\<lambda>v vs. (if length (vs @ [v]) > oomEventKeep then drop (length (vs @ [v]) - oomEventKeep) (vs @ [v])
           else vs @ [v])" oomEventKeep
  by unfold_locales (auto simp: last_n_def)

lemma prune_events:
  "ot_events (prune now window o') =
   last_n oomEventKeep (filter (\<lambda>e. timeSub now (oe_at e) < window) (ot_events o'))"
  by (auto simp: prune_def Let_def last_n_def)

lemma prune_rest [simp]:
  "ot_primed (prune now w o') = ot_primed o'" "ot_last (prune now w o') = ot_last o'"
  "ot_session (prune now w o') = ot_session o'" "ot_victims (prune now w o') = ot_victims o'"
  "ot_logged (prune now w o') = ot_logged o'"
  by (simp_all add: prune_def Let_def)

lemma counter_key_inject [simp]: "counter_key a = counter_key b \<longleftrightarrow> a = b"
  by (simp add: counter_key_def word_unat_eq_iff)

text \<open>
  One victim names at most one event, and an event takes at most as many names as it killed:
  the victims of an event are those whose nearest event it is.
\<close>

lemma named_loop_length:
  "length out \<le> unat (oe_n e) \<Longrightarrow> length (named_loop events e out vs) \<le> unat (oe_n e)"
  by (induction vs arbitrary: out) (auto split: option.splits)

lemma named_loop_claims:
  "length (named_loop events e out vs) \<le> length out +
   length (filter (\<lambda>v. map_option oe_key (nearest (ov_at v) None oomVictimMatch events) = Some (oe_key e)) vs)"
proof (induction vs arbitrary: out)
  case (Cons v vs)
  show ?case
    using Cons [of out] Cons [of "out @ [ov_comm v @ '' (pid '' @ itoa (ov_pid v) @ '')'']"]
    by (auto split: option.splits)
qed simp

lemma conds_lookup:
  "distinct (map oe_key es) \<Longrightarrow>
   fold (\<lambda>e cs. if timeSub now (oe_at e) \<ge> window then cs else cs(oe_key e \<mapsto> f e)) es cs k =
   (case find (\<lambda>e. oe_key e = k \<and> timeSub now (oe_at e) < window) es of
      None \<Rightarrow> cs k | Some e \<Rightarrow> Some (f e))"
proof (induction es arbitrary: cs)
  case (Cons e es)
  show ?case
  proof (cases "oe_key e = k \<and> timeSub now (oe_at e) < window")
    case True
    have "\<forall>e' \<in> set es. oe_key e' \<noteq> k"
    proof (intro ballI notI)
      fix e' assume "e' \<in> set es" "oe_key e' = k"
      then have "oe_key e \<in> oe_key ` set es" using True by (metis imageI)
      with Cons.prems show False by simp
    qed
    then have "find (\<lambda>e. oe_key e = k \<and> timeSub now (oe_at e) < window) es = None"
      by (auto simp: find_None_iff)
    then show ?thesis using True Cons by simp
  next
    case False
    then show ?thesis using Cons by (auto split: option.splits)
  qed
qed simp

text \<open>A run of samples of a counter that never goes backwards.\<close>

fun sample :: "duration \<Rightarrow> (64 word \<times> time) list \<Rightarrow> oomTracker \<Rightarrow> oomTracker" where
  "sample window [] o' = o'"
| "sample window ((c, now) # xs) o' = sample window xs (observe c now window o')"

definition oom_ok :: "64 word \<Rightarrow> oomTracker \<Rightarrow> bool" where
  [wf_simps]: "oom_ok base o' \<longleftrightarrow>
     ot_primed o' \<and> base \<le> ot_last o' \<and> ot_session o' = ot_last o' - base \<and>
     length (ot_events o') \<le> oomEventKeep \<and>
     (\<exists>cs. sorted_wrt (<) cs \<and> list_all (\<lambda>c. c \<le> ot_last o') cs \<and>
        map oe_key (ot_events o') = map counter_key cs)"

lemma sublist_keys:
  assumes "map oe_key es = map counter_key cs" "sorted_wrt (<) (cs :: 64 word list)"
  shows "\<exists>cs'. map oe_key (filter P es) = map counter_key cs' \<and> sorted_wrt (<) cs' \<and> set cs' \<subseteq> set cs"
  using assms
proof (induction es arbitrary: cs)
  case Nil
  then show ?case by (intro exI [of _ "[]"]) simp
next
  case (Cons e es)
  then obtain c cs1 where cs: "cs = c # cs1" by (cases cs) auto
  with Cons obtain cs' where cs': "map oe_key (filter P es) = map counter_key cs'"
    "sorted_wrt (<) cs'" "set cs' \<subseteq> set cs1" by fastforce
  show ?case
  proof (cases "P e")
    case True
    then show ?thesis using cs cs' Cons.prems by (intro exI [of _ "c # cs'"]) auto
  next
    case False
    then show ?thesis using cs cs' by (intro exI [of _ cs']) auto
  qed
qed

lemma observe_ok:
  assumes "oom_ok base o'" "ot_last o' \<le> c"
  shows "oom_ok base (observe c now w o')"
proof -
  obtain cs where cs: "sorted_wrt (<) cs" "list_all (\<lambda>c. c \<le> ot_last o') cs"
    "map oe_key (ot_events o') = map counter_key cs" using assms(1) by (auto simp: wf_simps)
  define evs where "evs = (if c > ot_last o'
    then ot_events o' @ [\<lparr>oe_at = now, oe_n = c - ot_last o', oe_key = counter_key c\<rparr>] else ot_events o')"
  define ds where "ds = (if c > ot_last o' then cs @ [c] else cs)"
  have ds: "sorted_wrt (<) ds" "set ds \<subseteq> {..c}" "map oe_key evs = map counter_key ds"
    using cs assms(2) by (auto simp: ds_def evs_def sorted_wrt_append list_all_iff intro: order.trans)
  have ev: "ot_events (observe c now w o') =
      last_n oomEventKeep (filter (\<lambda>e. timeSub now (oe_at e) < w) evs)"
    using assms(1) by (auto simp: observe_def Let_def prune_events evs_def wf_simps)
  obtain ks where ks: "map oe_key (filter (\<lambda>e. timeSub now (oe_at e) < w) evs) = map counter_key ks"
    "sorted_wrt (<) ks" "set ks \<subseteq> set ds" using sublist_keys [OF ds(3,1)] by blast
  have len: "length ks = length (filter (\<lambda>e. timeSub now (oe_at e) < w) evs)"
    by (metis ks(1) length_map)
  have "map oe_key (ot_events (observe c now w o')) = map counter_key (last_n oomEventKeep ks)"
    unfolding ev by (simp add: last_n_def drop_map [symmetric] ks(1) len)
  moreover have "sorted_wrt (<) (last_n oomEventKeep ks)"
    unfolding last_n_def by (intro sorted_wrt_drop ks)
  moreover have "list_all (\<lambda>x. x \<le> c) (last_n oomEventKeep ks)"
    using ks(3) ds(2) set_last_n [of oomEventKeep ks] by (auto simp: list_all_iff)
  moreover have "ot_primed (observe c now w o') \<and> ot_last (observe c now w o') = c"
    by (simp add: observe_def Let_def)
  moreover have "ot_session (observe c now w o') = c - base" "base \<le> c"
    using assms by (auto simp: observe_def Let_def wf_simps dest: order.antisym)
  moreover have "length (ot_events (observe c now w o')) \<le> oomEventKeep" by (simp add: ev)
  ultimately show ?thesis unfolding oom_ok_def by auto
qed

lemma sample_ok:
  "oom_ok base o' \<Longrightarrow> sorted (ot_last o' # map fst xs) \<Longrightarrow>
   oom_ok base (sample w xs o') \<and> ot_last (sample w xs o') = last (ot_last o' # map fst xs)"
proof (induction xs arbitrary: o')
  case (Cons x xs)
  obtain c now where x: "x = (c, now)" by (cases x)
  have last: "ot_last (observe c now w o') = c" by (simp add: observe_def Let_def)
  have "oom_ok base (observe c now w o')" using Cons.prems x by (intro observe_ok) auto
  then show ?case using Cons.IH [of "observe c now w o'"] Cons.prems x last by auto
qed simp

lemma oom_ok_distinct: "oom_ok base o' \<Longrightarrow> distinct (map oe_key (ot_events o'))"
proof -
  assume "oom_ok base o'"
  then obtain cs where cs: "sorted_wrt (<) cs" "map oe_key (ot_events o') = map counter_key cs"
    by (auto simp: wf_simps)
  have "distinct cs" using cs(1) by (simp add: strict_sorted_iff)
  then show ?thesis unfolding cs(2) by (simp add: distinct_map inj_on_def)
qed

lemma find_distinct_key:
  "distinct (map f xs) \<Longrightarrow> x \<in> set xs \<Longrightarrow> P x \<Longrightarrow> find (\<lambda>y. f y = f x \<and> P y) xs = Some x"
  by (induction xs) (auto simp: image_iff)

lemma case_option_Some_iff:
  "(case r of None \<Rightarrow> Map.empty k | Some e \<Rightarrow> Some (g e)) = Some c \<longleftrightarrow> (\<exists>e. r = Some e \<and> c = g e)"
  by (auto split: option.splits)

lemma sum_claims:
  "distinct (map oe_key es) \<Longrightarrow>
   (\<Sum>e\<leftarrow>es. length (filter (\<lambda>v. g v = Some (oe_key e)) vs)) \<le> length vs"
proof (induction vs)
  case (Cons v vs)
  have "(\<Sum>e\<leftarrow>es. length (filter (\<lambda>v. g v = Some (oe_key e)) (v # vs))) =
    (\<Sum>e\<leftarrow>es. if g v = Some (oe_key e) then 1 else 0) +
    (\<Sum>e\<leftarrow>es. length (filter (\<lambda>v. g v = Some (oe_key e)) vs))"
    by (simp add: sum_list_addf [symmetric]) (intro arg_cong [of _ _ sum_list] map_cong, auto)
  moreover have "(\<Sum>e\<leftarrow>es. if g v = Some (oe_key e) then 1 else (0 :: nat)) \<le> 1"
    using Cons.prems
  proof (induction es)
    case (Cons e es)
    have "(\<Sum>e\<leftarrow>es. if g v = Some (oe_key e) then 1 else (0 :: nat)) = 0"
      if "g v = Some (oe_key e)" using that Cons.prems by (auto simp: sum_list_eq_0_iff image_iff)
    with Cons show ?case by auto
  qed simp
  ultimately show ?case using Cons by simp
qed simp

text \<open>
  What a run of samples should remember: every rise of the counter is one kill, seen at its sample;
  of these the ones the window has not passed, and of these the newest.
\<close>

fun kills :: "64 word \<Rightarrow> (64 word \<times> time) list \<Rightarrow> oomEvent list" where
  "kills prev [] = []"
| "kills prev ((c, now) # xs) =
     (if c > prev then [\<lparr>oe_at = now, oe_n = c - prev, oe_key = counter_key c\<rparr>] else []) @ kills c xs"

definition recent :: "time \<Rightarrow> duration \<Rightarrow> oomEvent list \<Rightarrow> oomEvent list" where
  "recent now w es = filter (\<lambda>e. timeSub now (oe_at e) < w) es"

lemma last_n_filter_absorb:
  assumes "sorted_wrt (\<lambda>a b. P a \<longrightarrow> P b) (xs @ ys)"
  shows "last_n n (filter P (last_n n xs @ ys)) = last_n n (filter P (xs @ ys))"
proof (cases "filter P (take (length xs - n) xs) = []")
  case True
  have "filter P xs = filter P (take (length xs - n) xs) @ filter P (last_n n xs)"
    unfolding last_n_def filter_append [symmetric] by simp
  then show ?thesis using True by simp
next
  case False
  let ?a = "take (length xs - n) xs" and ?b = "last_n n xs"
  have xs: "?a @ ?b @ ys = xs @ ys" by (simp add: last_n_def)
  obtain x where "x \<in> set ?a" "P x" using False by (auto simp: filter_empty_conv)
  then have all: "filter P (?b @ ys) = ?b @ ys"
    using assms unfolding xs [symmetric] sorted_wrt_append [of _ ?a] by (auto simp: filter_id_conv)
  have "length xs > n" using False by (cases "length xs > n") auto
  then have "n \<le> length (?b @ ys)" by simp
  then have "last_n n (filter P ?a @ ?b @ ys) = last_n n (?b @ ys)"
    by (simp add: last_n_def)
  moreover have "filter P (xs @ ys) = filter P ?a @ filter P (?b @ ys)"
    unfolding xs [symmetric] by simp
  ultimately show ?thesis using all by simp
qed

lemma sample_events:
  assumes "ot_primed o'" "ot_events o' = last_n oomEventKeep (recent t0 w ks)" "sorted_wrt (\<le>) (map oe_at ks)"
    "\<forall>k \<in> set ks. oe_at k \<le> t0" "sorted (t0 # map snd xs)"
  shows "ot_events (sample w xs o') =
    last_n oomEventKeep (recent (last (t0 # map snd xs)) w (ks @ kills (ot_last o') xs))"
  using assms
proof (induction xs arbitrary: o' t0 ks)
  case (Cons x xs)
  obtain c now where x: "x = (c, now)" by (cases x)
  define new where "new = (if c > ot_last o' then [\<lparr>oe_at = now, oe_n = c - ot_last o', oe_key = counter_key c\<rparr>] else [])"
  have t: "t0 \<le> now" using Cons.prems(5) x by simp
  have absorb: "recent now w (recent t0 w es) = recent now w es" for es
    unfolding recent_def filter_filter
    by (intro filter_cong refl) (use timeSub_mono [OF t] in \<open>auto intro: order.strict_trans1\<close>)
  have sorted: "sorted_wrt (\<le>) (map oe_at (ks @ new))" "\<forall>k \<in> set (ks @ new). oe_at k \<le> now"
    using Cons.prems(3,4) t by (auto simp: new_def sorted_wrt_append)
  have sort: "sorted_wrt (\<lambda>a b. timeSub now (oe_at a) < w \<longrightarrow> timeSub now (oe_at b) < w) (recent t0 w ks @ new)"
  proof -
    have "sorted_wrt (\<lambda>a b. oe_at a \<le> oe_at b) (recent t0 w ks @ new)"
      using Cons.prems(3,4) t unfolding recent_def
      by (auto simp: new_def sorted_wrt_append sorted_wrt_map sorted_wrt_filter)
    then show ?thesis by (rule sorted_wrt_mono_rel [rotated]) (auto simp: timeSub_def)
  qed
  have "ot_events (observe c now w o') = last_n oomEventKeep (recent now w (ot_events o' @ new))"
    using Cons.prems(1) by (auto simp: observe_def Let_def prune_events recent_def new_def)
  also have "\<dots> = last_n oomEventKeep (recent now w (recent t0 w ks @ new))"
    unfolding Cons.prems(2) using last_n_filter_absorb [OF sort] by (simp add: recent_def)
  also have "\<dots> = last_n oomEventKeep (recent now w (ks @ new))"
    using absorb [of ks] by (simp add: recent_def)
  finally have ev: "ot_events (observe c now w o') = last_n oomEventKeep (recent now w (ks @ new))" .
  have "ot_events (sample w xs (observe c now w o')) =
      last_n oomEventKeep (recent (last (now # map snd xs)) w ((ks @ new) @ kills c xs))"
    using Cons.IH [OF _ ev sorted] Cons.prems(5) x by (simp add: observe_def Let_def)
  then show ?case by (simp add: x new_def)
qed simp

section \<open>Properties\<close>

text \<open>C15: Along any run of samples of a counter that does not go backwards, the session total is
  exactly what the counter rose by since the first sample. Taken by a clock that does not go backwards
  either, what is remembered is exactly the newest 32 of the rises the window has not yet passed, each
  with the time of its sample and the number of processes it killed. Their keys are pairwise distinct, and
  each remembered kill inside the alert window is a critical condition of its own under its key, with
  nothing else added.\<close>

theorem oom_run:
  fixes xs hms now w
  defines "t \<equiv> sample w xs newOomTracker"
  assumes "xs \<noteq> []" "sorted (map fst xs)"
  shows "ot_session t = fst (last xs) - fst (hd xs) \<and>
    (sorted (map snd xs) \<longrightarrow>
      ot_events t = last_n 32 (recent (snd (last xs)) w (kills (fst (hd xs)) (tl xs)))) \<and>
    length (ot_events t) \<le> 32 \<and> distinct (map oe_key (ot_events t)) \<and>
    (\<forall>k c. conds hms t now w Map.empty k = Some c \<longleftrightarrow>
       (\<exists>e. e \<in> set (ot_events t) \<and> oe_key e = k \<and> timeSub now (oe_at e) < w \<and> c = oom_cond hms t e))"
proof -
  obtain c0 t0 ys where xs: "xs = (c0, t0) # ys" using assms(2) by (cases xs) auto
  define o1 where "o1 = observe c0 t0 w newOomTracker"
  have o1: "oom_ok c0 o1" "ot_last o1 = c0"
    by (auto simp: o1_def observe_def newOomTracker_def wf_simps prune_events Let_def)
  have run: "oom_ok c0 t" "ot_last t = last (c0 # map fst ys)"
    using sample_ok [OF o1(1), of ys w] o1(2) assms(3) xs by (simp_all add: t_def o1_def)
  have d: "distinct (map oe_key (ot_events t))" using run(1) by (rule oom_ok_distinct)
  have "ot_session t = fst (last xs) - fst (hd xs)"
    using run xs by (auto simp: wf_simps last_map)
  moreover have "ot_events t = last_n 32 (recent (snd (last xs)) w (kills (fst (hd xs)) (tl xs)))"
    if "sorted (map snd xs)"
  proof -
    have "ot_primed o1" "ot_events o1 = last_n oomEventKeep (recent t0 w [])"
      by (simp_all add: o1_def observe_def newOomTracker_def prune_events Let_def recent_def)
    from sample_events [OF this, of ys] that show ?thesis
      by (simp add: xs t_def o1_def [symmetric] o1(2) oomEventKeep_def last_map split: if_splits)
  qed
  moreover have "length (ot_events t) \<le> 32" using run(1) by (simp add: wf_simps oomEventKeep_def)
  moreover have "conds hms t now w Map.empty k = Some c \<longleftrightarrow>
      (\<exists>e. e \<in> set (ot_events t) \<and> oe_key e = k \<and> timeSub now (oe_at e) < w \<and> c = oom_cond hms t e)"
    for k c
  proof -
    let ?P = "\<lambda>e. timeSub now (oe_at e) < w"
    have f: "find (\<lambda>e. oe_key e = k \<and> ?P e) (ot_events t) = Some e \<longleftrightarrow>
        e \<in> set (ot_events t) \<and> oe_key e = k \<and> ?P e" for e
      using find_distinct_key [OF d, of e ?P] by (auto dest: find_mem)
    show ?thesis unfolding conds_def conds_lookup [OF d]
      by (simp add: case_option_Some_iff f)
  qed
  ultimately show ?thesis using d by blast
qed

text \<open>Two kills an hour's window apart from a third: the old one is forgotten, the new ones are there.\<close>

lemma oom_run_witness:
  "let t = sample hour [(3, 0), (5, second), (6, hour), (9, hour + second)] newOomTracker
   in ot_session t = 6 \<and> map oe_n (ot_events t) = [1, 3] \<and>
      conds (\<lambda>_. ''12:00:00'') t (hour + second) hour Map.empty ''oom:9'' \<noteq> None"
proof -
  let ?xs = "[(3, 0), (5, second), (6, hour), (9, hour + second)] :: (64 word \<times> time) list"
  let ?t = "sample hour ?xs newOomTracker"
  note run = oom_run [of ?xs hour "\<lambda>_. ''12:00:00''" "hour + second"]
  have ev: "ot_events ?t = [\<lparr>oe_at = hour, oe_n = 1, oe_key = counter_key 6\<rparr>,
      \<lparr>oe_at = hour + second, oe_n = 3, oe_key = counter_key 9\<rparr>]"
    using run by (simp add: recent_def timeSub_def minDuration_def maxDuration_def last_n_def)
  have k: "counter_key 9 = ''oom:9''" by code_simp
  have "conds (\<lambda>_. ''12:00:00'') ?t (hour + second) hour Map.empty ''oom:9'' \<noteq> None"
    using run ev k by (auto simp: timeSub_def minDuration_def maxDuration_def)
  then show ?thesis using run ev by (simp add: Let_def)
qed

text \<open>A kill is never given more names than it has victims, and no victim is named by two
  kills: over all remembered kills together there are at most as many names as victims.\<close>

theorem oom_names_bounded:
  assumes "distinct (map oe_key (ot_events t))"
  shows "length (named t e) \<le> unat (oe_n e) \<and>
    (\<Sum>e \<leftarrow> ot_events t. length (named t e)) \<le> length (ot_victims t)"
proof -
  have "(\<Sum>e \<leftarrow> ot_events t. length (named t e)) \<le>
    (\<Sum>e \<leftarrow> ot_events t. length (filter (\<lambda>v. map_option oe_key
       (nearest (ov_at v) None oomVictimMatch (ot_events t)) = Some (oe_key e)) (ot_victims t)))"
    unfolding named_def
    by (intro sum_list_mono) (use named_loop_claims [where out = "[]"] in simp)
  also have "\<dots> \<le> length (ot_victims t)" by (rule sum_claims [OF assms])
  finally show ?thesis using named_loop_length [of "[]" e] by (simp add: named_def)
qed

lemma oom_names_bounded_witness:
  "let t = addVictim second 7 ''a'' True hour (sample hour [(3, 0), (4, second)] newOomTracker)
   in (\<Sum>e \<leftarrow> ot_events t. length (named t e)) \<le> 1"
proof -
  let ?t = "addVictim second 7 ''a'' True hour (sample hour [(3, 0), (4, second)] newOomTracker)"
  have "length (ot_victims ?t) = 1"
    by (simp add: addVictim_def Let_def observe_def newOomTracker_def oomEventKeep_def)
  moreover have "distinct (map oe_key (ot_events ?t))"
    by (simp add: addVictim_def Let_def observe_def newOomTracker_def oomEventKeep_def prune_events
        timeSub_def maxDuration_def minDuration_def)
  ultimately show ?thesis using oom_names_bounded [of ?t] by (simp add: Let_def)
qed

end
