(* ===== verification/Regex.thy ===== *)
theory Regex
  imports Go_Std
begin

text \<open>
  The part of Go's \<open>regexp\<close> the program uses: leftmost-first matching with submatches for
  expressions built from classes, sequences, ordered alternatives, greedy class
  repetition, anchors and word boundaries. The matcher backtracks over a list of things
  still to match; its first success is the match Go reports.
\<close>

datatype rx =
    REps
  | RCls "char \<Rightarrow> bool"
  | RSeq rx rx
  | RAlt rx rx
  | RMany "char \<Rightarrow> bool"
  | RBol
  | REol
  | RWordB
  | RCap rx

fun lit :: "string \<Rightarrow> rx" where
  "lit [] = REps"
| "lit (c # s) = RSeq (RCls (\<lambda>d. d = c)) (lit s)"

fun rseq :: "rx list \<Rightarrow> rx" where
  "rseq [] = REps"
| "rseq [r] = r"
| "rseq (r # s # rs) = RSeq r (rseq (s # rs))"

fun ralt :: "rx list \<Rightarrow> rx" where
  "ralt [] = REps"
| "ralt [r] = r"
| "ralt (r # s # rs) = RAlt r (ralt (s # rs))"

definition rplus :: "(char \<Rightarrow> bool) \<Rightarrow> rx" where
  "rplus p = RSeq (RCls p) (RMany p)"

definition ropt :: "rx \<Rightarrow> rx" where
  "ropt r = RAlt r REps"

definition word_char :: "char \<Rightarrow> bool" where
  "word_char c \<longleftrightarrow>
     is_digit c \<or> 65 \<le> code c \<and> code c \<le> 90 \<or> 97 \<le> code c \<and> code c \<le> 122 \<or> c = CHR ''_''"

text \<open>What is left to match: an expression, or the end of a group opened at a suffix.\<close>

datatype item = IRx rx | IClose string

fun rsize :: "rx \<Rightarrow> nat" where
  "rsize (RSeq a b) = Suc (rsize a + rsize b)"
| "rsize (RAlt a b) = Suc (rsize a + rsize b)"
| "rsize (RCap a) = Suc (Suc (rsize a))"
| "rsize _ = 1"

fun isize :: "item \<Rightarrow> nat" where
  "isize (IRx r) = rsize r"
| "isize (IClose s) = 1"

definition is_word :: "char option \<Rightarrow> bool" where
  "is_word c = (case c of None \<Rightarrow> False | Some c \<Rightarrow> word_char c)"

definition next_char :: "string \<Rightarrow> char option" where
  "next_char s = (case s of [] \<Rightarrow> None | c # _ \<Rightarrow> Some c)"

function (sequential) rmatch ::
  "item list \<Rightarrow> char option \<Rightarrow> string \<Rightarrow> string list \<Rightarrow> string list option" where
  "rmatch [] pre s caps = Some caps"
| "rmatch (IClose s0 # is) pre s caps =
     rmatch is pre s (caps @ [take (length s0 - length s) s0])"
| "rmatch (IRx REps # is) pre s caps = rmatch is pre s caps"
| "rmatch (IRx (RCls p) # is) pre s caps =
     (case s of [] \<Rightarrow> None | c # s' \<Rightarrow> if p c then rmatch is (Some c) s' caps else None)"
| "rmatch (IRx (RSeq a b) # is) pre s caps = rmatch (IRx a # IRx b # is) pre s caps"
| "rmatch (IRx (RAlt a b) # is) pre s caps =
     (case rmatch (IRx a # is) pre s caps of
        Some r \<Rightarrow> Some r | None \<Rightarrow> rmatch (IRx b # is) pre s caps)"
| "rmatch (IRx (RMany p) # is) pre s caps =
     (case s of
        [] \<Rightarrow> rmatch is pre s caps
      | c # s' \<Rightarrow>
          if p c then
            (case rmatch (IRx (RMany p) # is) (Some c) s' caps of
               Some r \<Rightarrow> Some r | None \<Rightarrow> rmatch is pre s caps)
          else rmatch is pre s caps)"
| "rmatch (IRx RBol # is) pre s caps = (if pre = None then rmatch is pre s caps else None)"
| "rmatch (IRx REol # is) pre s caps = (if s = [] then rmatch is pre s caps else None)"
| "rmatch (IRx RWordB # is) pre s caps =
     (if is_word pre \<noteq> is_word (next_char s) then rmatch is pre s caps else None)"
| "rmatch (IRx (RCap a) # is) pre s caps = rmatch (IRx a # IClose s # is) pre s caps"
  by pat_completeness auto
termination
  by (relation "measures [\<lambda>(is, pre, s, caps). length s, \<lambda>(is, pre, s, caps). \<Sum>i\<leftarrow>is. isize i]") auto

text \<open>\<open>FindStringSubmatch\<close>: the groups of the leftmost match.\<close>

fun rsearch :: "rx \<Rightarrow> char option \<Rightarrow> string \<Rightarrow> string list option" where
  "rsearch r pre [] = rmatch [IRx r] pre [] []"
| "rsearch r pre (c # s) =
     (case rmatch [IRx r] pre (c # s) [] of
        Some caps \<Rightarrow> Some caps | None \<Rightarrow> rsearch r (Some c) s)"

definition findSubmatch :: "rx \<Rightarrow> string \<Rightarrow> string list option" where
  "findSubmatch r s = rsearch r None s"

definition matchString :: "rx \<Rightarrow> string \<Rightarrow> bool" where
  "matchString r s \<longleftrightarrow> findSubmatch r s \<noteq> None"

end
