(* ===== verification/Kmsg.thy ===== *)
theory Kmsg
  imports Regex
begin

text \<open>
  \<open>internal/probe/kmsg.go\<close>: the classification of kernel log lines, the record header, the
  record's time, and the drain of \<open>/dev/kmsg\<close>. What the read system call returns is an
  argument, one result per call; so is the lookup of the block device behind an MMC host.
\<close>

section \<open>Events\<close>

datatype KernelEventKind = KernelUnderVoltage | KernelStorageError | KernelOOMKill

record KernelEvent =
  ke_Kind :: KernelEventKind
  ke_At :: time
  ke_Device :: string
  ke_Partition :: string
  ke_PID :: int
  ke_Comm :: string
  ke_Text :: string

definition noEvent :: KernelEvent where
  "noEvent = \<lparr>ke_Kind = KernelUnderVoltage, ke_At = zeroTime, ke_Device = [], ke_Partition = [],
     ke_PID = 0, ke_Comm = [], ke_Text = []\<rparr>"

definition kmsgMaxPerRead :: nat where "kmsgMaxPerRead = 2000"
definition kmsgBuf :: nat where "kmsgBuf = 8192"

section \<open>The expressions\<close>

abbreviation rdigit :: "char \<Rightarrow> bool" where "rdigit \<equiv> is_digit"

definition dev_char :: "char \<Rightarrow> bool" where
  "dev_char c \<longleftrightarrow> word_char c \<or> c = CHR ''.'' \<or> c = CHR ''-''"

definition not_nl :: "char \<Rightarrow> bool" where "not_nl c \<longleftrightarrow> c \<noteq> NL"

definition lower_az :: "char \<Rightarrow> bool" where "lower_az c \<longleftrightarrow> 97 \<le> code c \<and> code c \<le> 122"

definition reOOMVictim :: rx where
  "reOOMVictim = rseq
     [ralt [RBol, RSeq (RCls (\<lambda>c. c = CHR ''O'' \<or> c = CHR ''o'')) (lit ''ut of memory: '')],
      lit ''Killed process '', RCap (rplus rdigit), lit '' ('',
      RCap (RMany (\<lambda>c. c \<noteq> CHR '')'')), lit '')'']"

definition reBlockIOErr :: rx where
  "reBlockIOErr = rseq
     [ralt [lit ''I/O'', lit ''critical medium'', lit ''critical target''], lit '' error'',
      ropt (lit '',''), lit '' '', ropt (lit ''on ''), lit ''dev '', RCap (rplus dev_char)]"

definition reBufferErr :: rx where
  "reBufferErr = rseq
     [lit ''Buffer I/O error on '', ropt (rseq [lit ''dev'', ropt (lit ''ice''), lit '' '']),
      RCap (rplus dev_char)]"

definition reMMCErr :: rx where
  "reMMCErr = rseq
     [RBol, RCap (rseq [lit ''mmcblk'', rplus rdigit, ropt (rseq [lit ''p'', rplus rdigit])]),
      lit '': error -'', rplus rdigit]"

definition reMMCHost :: rx where
  "reMMCHost = rseq
     [RBol, RCap (rseq [lit ''mmc'', rplus rdigit]), lit '': '',
      ralt [lit ''Timeout waiting for hardware'', lit ''Card stuck'', lit ''cache flush error'']]"

definition ext_fs :: rx where
  "ext_fs = rseq [lit ''EXT'', RCls (\<lambda>c. c \<in> set ''234''), lit ''-fs'']"

definition error_word :: rx where
  "error_word = rseq [RMany not_nl, RWordB, lit ''error'', RWordB]"

definition reFSDevErr :: rx where
  "reFSDevErr = rseq
     [RBol, ralt [ext_fs, lit ''BTRFS''], lit '' '',
      ralt [lit ''error'', lit ''critical'', lit ''warning''], lit '' (device '',
      RCap (rplus dev_char), lit '')'', ralt [rseq [lit '': '', error_word], REps]]"

definition reFSParenErr :: rx where
  "reFSParenErr = rseq
     [RBol, ralt [ext_fs, lit ''FAT-fs'', lit ''F2FS-fs'', lit ''XFS''], lit '' ('',
      RCap (rplus dev_char), lit ''): '', error_word]"

definition reFSErrSummary :: rx where
  "reFSErrSummary = ralt
     [lit ''error count since last fsck'',
      RSeq (ralt [lit ''initial'', lit ''last'']) (lit '' error at time'')]"

definition rePPartition :: rx where
  "rePPartition = rseq
     [RBol,
      RCap (RSeq (ralt [lit ''mmcblk'', rseq [lit ''nvme'', rplus rdigit, lit ''n''], lit ''loop'',
                        lit ''md'', lit ''nbd'']) (rplus rdigit)),
      lit ''p'', rplus rdigit, REol]"

definition reDigitPartition :: rx where
  "reDigitPartition = rseq
     [RBol, RCap (RSeq (ralt [lit ''sd'', lit ''vd'', lit ''hd'', lit ''xvd'']) (rplus lower_az)),
      rplus rdigit, REol]"

definition reVirtualDisk :: rx where
  "reVirtualDisk = rseq
     [RBol, ralt [lit ''loop'', lit ''sr'', lit ''zram'', lit ''ram'', lit ''nbd''], rplus rdigit]"

section \<open>Operations\<close>

definition WholeDisk :: "string \<Rightarrow> string" where
  "WholeDisk dev =
     (case findSubmatch rePPartition dev of
        Some m \<Rightarrow> hd m
      | None \<Rightarrow> (case findSubmatch reDigitPartition dev of Some m \<Rightarrow> hd m | None \<Rightarrow> dev))"

fun storage_loop :: "rx list \<Rightarrow> string \<Rightarrow> KernelEvent option" where
  "storage_loop [] txt = None"
| "storage_loop (re # res) txt =
     (case findSubmatch re txt of
        None \<Rightarrow> storage_loop res txt
      | Some m \<Rightarrow>
          if matchString reVirtualDisk (hd m) then None
          else Some (noEvent\<lparr>ke_Kind := KernelStorageError, ke_Device := WholeDisk (hd m),
            ke_Partition := hd m, ke_Text := txt\<rparr>))"

definition ClassifyKernelLine :: "string \<Rightarrow> KernelEvent option" where
  "ClassifyKernelLine txt =
     (let low = toLower txt
      in if contains low ''under-voltage detected'' \<or> contains low ''undervoltage detected'' then
           Some (noEvent\<lparr>ke_Kind := KernelUnderVoltage, ke_Text := txt\<rparr>)
         else case findSubmatch reOOMVictim txt of
           Some m \<Rightarrow>
             Some (noEvent\<lparr>ke_Kind := KernelOOMKill, ke_PID := fst (parseInt (m ! 0) 10 64),
               ke_Comm := m ! 1, ke_Text := txt\<rparr>)
         | None \<Rightarrow>
             if matchString reFSErrSummary txt then None
             else storage_loop
               [reBlockIOErr, reBufferErr, reMMCErr, reMMCHost, reFSDevErr, reFSParenErr] txt)"

text \<open>\<open>slots\<close> is what the glob for the host's block devices finds.\<close>

definition mmcHostDisk :: "(string \<Rightarrow> string list) \<Rightarrow> string \<Rightarrow> string option" where
  "mmcHostDisk slots host = (case slots host of [] \<Rightarrow> None | s # _ \<Rightarrow> Some (filepathBase s))"

definition parseKmsgRecord :: "string \<Rightarrow> (int \<times> string) option" where
  "parseKmsgRecord line =
     (if line = [] \<or> hd line = CHR '' '' then None
      else case cut line (CHR '';'') of
        None \<Rightarrow> None
      | Some (head, txt) \<Rightarrow>
          let f = split head (CHR '','')
          in if length f < 3 then None
             else case atoi (f ! 0) of
               None \<Rightarrow> None
             | Some prio \<Rightarrow>
                 if prio div 8 \<noteq> 0 then None else Some (fst (parseInt (f ! 2) 10 64), txt))"

text \<open>64-bit signed arithmetic wraps.\<close>

definition wrap64 :: "int \<Rightarrow> int" where
  "wrap64 i = (i + 2 ^ 63) mod 2 ^ 64 - 2 ^ 63"

definition recordTime :: "int \<Rightarrow> time \<Rightarrow> duration \<Rightarrow> time" where
  "recordTime usec now mclock =
     (let age = wrap64 (mclock - wrap64 (usec * 1000))
      in if usec \<le> 0 \<or> age < 0 then now else now - age)"

text \<open>One line of the log, from header to event.\<close>

definition kmsg_line ::
  "(string \<Rightarrow> string list) \<Rightarrow> time \<Rightarrow> duration \<Rightarrow> string \<Rightarrow> KernelEvent option" where
  "kmsg_line slots now mclock line =
     (case parseKmsgRecord line of
        None \<Rightarrow> None
      | Some (usec, txt) \<Rightarrow>
          (case ClassifyKernelLine txt of
             None \<Rightarrow> None
           | Some ev \<Rightarrow>
               let at' = recordTime usec now mclock
               in if ke_Kind ev = KernelStorageError \<and> hasPrefix (ke_Device ev) ''mmc'' \<and>
                     \<not> hasPrefix (ke_Device ev) ''mmcblk''
                  then (case mmcHostDisk slots (ke_Device ev) of
                          None \<Rightarrow> None
                        | Some disk \<Rightarrow> Some (ev\<lparr>ke_Device := disk, ke_At := at'\<rparr>))
                  else Some (ev\<lparr>ke_At := at'\<rparr>)))"

datatype readResult = RR_again | RR_eof | RR_pipe | RR_intr | RR_err string | RR_data string

text \<open>
  The drain, on the results of its reads in order (running out of them is having caught up):
  the events, the partial line carried over, and the error it stopped at.
\<close>

fun read_loop ::
  "(string \<Rightarrow> KernelEvent option) \<Rightarrow> nat \<Rightarrow> readResult list \<Rightarrow> string \<Rightarrow> KernelEvent list \<Rightarrow>
   KernelEvent list \<times> string \<times> string option" where
  "read_loop f 0 rs carry events = (events, carry, None)"
| "read_loop f (Suc n) [] carry events = (events, carry, None)"
| "read_loop f (Suc n) (r # rs) carry events =
     (case r of
        RR_again \<Rightarrow> (events, carry, None)
      | RR_eof \<Rightarrow> (events, carry, None)
      | RR_pipe \<Rightarrow> read_loop f n rs carry events
      | RR_intr \<Rightarrow> read_loop f n rs carry events
      | RR_err e \<Rightarrow> (events, carry, Some e)
      | RR_data d \<Rightarrow>
          let buf = carry @ d
          in case lastIndexByte buf NL of
               None \<Rightarrow>
                 read_loop f n rs
                   (if length buf > kmsgBuf then drop (length buf - kmsgBuf) buf else buf) events
             | Some i \<Rightarrow>
                 read_loop f n rs (drop (i + 1) buf)
                   (events @ List.map_filter f (split (take i buf) NL)))"

definition Read ::
  "(string \<Rightarrow> string list) \<Rightarrow> time \<Rightarrow> duration \<Rightarrow> string \<Rightarrow> readResult list \<Rightarrow>
   KernelEvent list \<times> string \<times> string option" where
  "Read slots now mclock carry rs = read_loop (kmsg_line slots now mclock) kmsgMaxPerRead rs carry []"

section \<open>Lemmas\<close>

lemma step_split:
  assumes "length (last (split (carry @ d) NL)) \<le> kmsgBuf"
  shows "read_loop f (Suc n) (RR_data d # rs) carry events =
    read_loop f n rs (last (split (carry @ d) NL))
      (events @ List.map_filter f (butlast (split (carry @ d) NL)))"
proof (cases "lastIndexByte (carry @ d) NL")
  case None
  then have "split (carry @ d) NL = [carry @ d]" by (intro split_none) (simp add: lastIndexByte_split)
  then show ?thesis using None assms by (simp add: map_filter_simps)
next
  case (Some i)
  then show ?thesis using lastIndexByte_split(2) [OF Some] by (simp add: Let_def)
qed

lemma read_chunks:
  assumes "\<forall>l \<in> set (split (carry @ concat chunks) NL). length l \<le> kmsgBuf"
    and "NL \<notin> set carry" "length chunks \<le> n"
  shows "read_loop f n (map RR_data chunks) carry events =
    (events @ List.map_filter f (butlast (split (carry @ concat chunks) NL)),
     last (split (carry @ concat chunks) NL), None)"
  using assms
proof (induction chunks arbitrary: n carry events)
  case Nil
  then show ?case by (cases n) (simp_all add: split_none map_filter_simps)
next
  case (Cons d ds)
  then obtain m where n: "n = Suc m" by (cases n) auto
  let ?ps = "split (carry @ d) NL"
  have s: "split (carry @ concat (d # ds)) NL = butlast ?ps @ split (last ?ps @ concat ds) NL"
    using split_append [of "carry @ d" "concat ds" NL] by simp
  have "hd (split (last ?ps @ concat ds) NL) \<in> set (split (carry @ concat (d # ds)) NL)"
    unfolding s by (simp add: hd_in_set)
  then have "length (last ?ps) \<le> kmsgBuf"
    using Cons.prems(1) hd_split_append [OF split_last_no, of "carry @ d" NL "concat ds"] by fastforce
  then have "read_loop f n (map RR_data (d # ds)) carry events =
    read_loop f m (map RR_data ds) (last ?ps) (events @ List.map_filter f (butlast ?ps))"
    using step_split n by simp
  also have "\<dots> = ((events @ List.map_filter f (butlast ?ps)) @
      List.map_filter f (butlast (split (last ?ps @ concat ds) NL)),
      last (split (last ?ps @ concat ds) NL), None)"
    using Cons.prems s n by (intro Cons.IH) (auto simp: split_last_no)
  finally show ?case unfolding s by (simp add: butlast_append List.map_filter_def)
qed

section \<open>Properties\<close>

text \<open>C32: How the kernel's log is cut into reads does not matter: for any chunking of the stream
  whose lines fit the buffer, one drain yields the events of the complete lines in order,
  each once, and carries exactly the unfinished last line over to the next drain.\<close>

theorem kmsg_drain_chunking:
  assumes "\<forall>l \<in> set (split (carry @ concat chunks) NL). length l \<le> kmsgBuf"
    and "NL \<notin> set carry" "length chunks \<le> kmsgMaxPerRead"
  shows "Read slots now mclock carry (map RR_data chunks) =
    (List.map_filter (kmsg_line slots now mclock) (butlast (split (carry @ concat chunks) NL)),
     last (split (carry @ concat chunks) NL), None)"
  unfolding Read_def using read_chunks [OF assms] by simp

lemma kmsg_drain_chunking_witness:
  "Read (\<lambda>_. []) 0 0 ''6,1,5,-;Un'' (map RR_data [''der-voltage detected!'' @ [NL], ''4,2''])  =
   (List.map_filter (kmsg_line (\<lambda>_. []) 0 0) [''6,1,5,-;Under-voltage detected!''], ''4,2'', None)"
  using kmsg_drain_chunking [of "''6,1,5,-;Un''" "[''der-voltage detected!'' @ [NL], ''4,2'']"]
  by (simp add: kmsgBuf_def kmsgMaxPerRead_def)

text \<open>A record the kernel wrote comes back with its timestamp and its message as written, and a
  record user space wrote into the log (a facility above 0) is not the kernel's word and is
  dropped.\<close>

theorem kmsg_record_roundtrip:
  assumes "prio < 2 ^ 63" "usec < 2 ^ 63"
  shows "parseKmsgRecord (nat_digits prio @ '','' @ nat_digits sq @ '','' @ nat_digits usec @ '',-;'' @ txt) =
    (if prio < 8 then Some (int usec, txt) else None)"
proof -
  let ?head = "nat_digits prio @ CHR '','' # nat_digits sq @ CHR '','' # nat_digits usec @ '',-''"
  have line: "nat_digits prio @ '','' @ nat_digits sq @ '','' @ nat_digits usec @ '',-;'' @ txt =
    ?head @ CHR '';'' # txt" by simp
  have "CHR '';'' \<notin> set ?head"
    using nat_digits_no [of "CHR '';''"] by (simp add: is_digit_def)
  then have cut: "cut (?head @ CHR '';'' # txt) (CHR '';'') = Some (?head, txt)" by (rule cut_append)
  have "CHR '','' \<notin> set (nat_digits m)" for m by (rule nat_digits_no) (simp add: is_digit_def)
  then have f: "split ?head (CHR '','') = [nat_digits prio, nat_digits sq, nat_digits usec, ''-'']"
    by (simp add: split_sep)
  have "hd (?head @ CHR '';'' # txt) \<noteq> CHR '' ''"
    using nat_digits_all_digits [of prio] by (cases "nat_digits prio") (auto simp: is_digit_def)
  then show ?thesis
    unfolding line parseKmsgRecord_def using cut f assms
    by (auto simp: atoi_nat_digits parseInt_nat_digits Let_def)
qed

lemma kmsg_record_roundtrip_witness:
  "parseKmsgRecord ''3,17,250,-;mmc0: Card stuck'' = Some (250, ''mmc0: Card stuck'') \<and>
   parseKmsgRecord ''30,17,250,-;mmc0: Card stuck'' = None"
proof -
  have d: "nat_digits 3 = ''3''" "nat_digits 30 = ''30''" "nat_digits 17 = ''17''" "nat_digits 250 = ''250''"
    by code_simp+
  show ?thesis
    using kmsg_record_roundtrip [of 3 250 17 "''mmc0: Card stuck''"]
      kmsg_record_roundtrip [of 30 250 17 "''mmc0: Card stuck''"] by (simp add: d)
qed

text \<open>An event is never dated in the future, whatever timestamp its record claims, and a
  plausible timestamp (not ahead of the kernel's clock) is turned into exactly that age.\<close>

theorem recordTime_sound:
  "recordTime usec now mclock \<le> now \<and>
   (0 < usec \<and> usec * 1000 \<le> mclock \<and> mclock < 2 ^ 63 \<longrightarrow>
      recordTime usec now mclock = now - (mclock - usec * 1000))"
proof -
  have "wrap64 i = i" if "0 \<le> i" "i < 2 ^ 63" for i using that by (simp add: wrap64_def)
  then show ?thesis by (auto simp: recordTime_def Let_def)
qed

lemma recordTime_sound_witness: "recordTime 4000 100000000 9000000 = 95000000"
  using recordTime_sound [of 4000 100000000 9000000] by simp

end
