(* ===== verification/Host.thy ===== *)
theory Host
  imports Go_Std
begin

text \<open>
  What the probes ask of the machine, and \<open>internal/probe/capability.go\<close>. A host is a record of
  functions: reading a file, listing a directory (in name order, as \<open>os.ReadDir\<close> does), opening
  for reading or writing, finding and running a program. Writes return the updated host.
\<close>

section \<open>The host\<close>

datatype openRes = O_ok | O_denied string | O_absent string
datatype writeRes = W_ok | W_denied | W_error string

record host =
  h_read :: "string \<Rightarrow> string option"
  h_dir :: "string \<Rightarrow> string list option"
  h_open :: "string \<Rightarrow> openRes"
  h_canWrite :: "string \<Rightarrow> writeRes"
  h_stat :: "string \<Rightarrow> bool"
  h_look :: "string \<Rightarrow> string option"
  h_exec :: "string \<Rightarrow> string list \<Rightarrow> string option"

definition write_file :: "host \<Rightarrow> string \<Rightarrow> string \<Rightarrow> writeRes \<times> host" where
  "write_file h path s =
     (case h_canWrite h path of
        W_ok \<Rightarrow> (W_ok, h\<lparr>h_read := (h_read h)(path \<mapsto> s)\<rparr>)
      | r \<Rightarrow> (r, h))"

abbreviation EMDASH :: string where "EMDASH \<equiv> [CHR 0xE2, CHR 0x80, CHR 0x94]"
abbreviation ELLIPSIS :: string where "ELLIPSIS \<equiv> [CHR 0xE2, CHR 0x80, CHR 0xA6]"
abbreviation DEGREE :: string where "DEGREE \<equiv> [CHR 0xC2, CHR 0xB0]"

section \<open>Reading sysfs\<close>

definition sysReadStr :: "host \<Rightarrow> string \<Rightarrow> string option" where
  "sysReadStr h path = map_option trimSpace (h_read h path)"

definition sysReadInt :: "host \<Rightarrow> string \<Rightarrow> int option" where
  "sysReadInt h path =
     (case sysReadStr h path of None \<Rightarrow> None | Some s \<Rightarrow> ok_of (parseInt s 10 64))"

definition writable :: "host \<Rightarrow> string \<Rightarrow> bool" where
  "writable h path \<longleftrightarrow> h_canWrite h path = W_ok"

section \<open>Capabilities\<close>

datatype CapStatus = CapAbsent | CapPresent | CapDenied | CapReadOnly

definition cap_string :: "CapStatus \<Rightarrow> string" where
  "cap_string s =
     (case s of CapPresent \<Rightarrow> ''present'' | CapDenied \<Rightarrow> ''denied''
      | CapReadOnly \<Rightarrow> ''read-only'' | CapAbsent \<Rightarrow> ''absent'')"

record Capability =
  cap_Name :: string
  cap_Source :: string
  cap_Status :: CapStatus
  cap_Detail :: string
  cap_Affects :: string
  cap_Fix :: string

definition cap :: "string \<Rightarrow> string \<Rightarrow> string \<Rightarrow> Capability" where
  "cap name source affects =
     \<lparr>cap_Name = name, cap_Source = source, cap_Status = CapAbsent, cap_Detail = [],
      cap_Affects = affects, cap_Fix = []\<rparr>"

definition cap_OK :: "Capability \<Rightarrow> bool" where
  "cap_OK c \<longleftrightarrow> cap_Status c = CapPresent"

definition pathStatus :: "host \<Rightarrow> string \<Rightarrow> CapStatus \<times> string" where
  "pathStatus h path =
     (case h_open h path of
        O_ok \<Rightarrow> (CapPresent, [])
      | O_denied e \<Rightarrow> (CapDenied, e)
      | O_absent e \<Rightarrow> (CapAbsent, e))"

definition plural :: "int \<Rightarrow> string \<Rightarrow> string \<Rightarrow> string" where
  "plural n one many = (if n = 1 then itoa n @ '' '' @ one else itoa n @ '' '' @ many)"

definition firstN :: "string list \<Rightarrow> nat \<Rightarrow> string" where
  "firstN names n =
     (if length names \<le> n then join names '', ''
      else join (take n names) '', '' @ '', '' @ ELLIPSIS)"

section \<open>Lemmas\<close>

lemma sysReadInt_itoa:
  assumes "h_read h path = Some (itoa i)" "- (2 ^ 63) \<le> i" "i < 2 ^ 63"
  shows "sysReadInt h path = Some i"
proof -
  obtain c s where cs: "itoa i = c # s" "graphic c"
  proof (cases "i < 0")
    case True
    then show ?thesis using that by (simp add: itoa_def graphic_def)
  next
    case False
    then show ?thesis using that nat_digits_hd [of "nat i"]
      by (cases "nat_digits (nat i)") (auto simp: itoa_def graphic_def is_digit_def)
  qed
  have "last (itoa i) \<in> set (nat_digits (nat \<bar>i\<bar>))"
    by (auto simp: itoa_def last_ConsR)
  then have l: "graphic (last (itoa i))"
    using nat_digits_all_digits [of "nat \<bar>i\<bar>"] by (auto simp: list_all_iff graphic_def is_digit_def)
  have "trimSpace (itoa i) = itoa i" by (rule trimSpace_graphic) (use cs l in auto)
  then show ?thesis
    using atoi_itoa [OF assms(2,3)] assms(1) by (simp add: sysReadInt_def sysReadStr_def atoi_def)
qed

end
