(* ===== verification/Backlight.thy ===== *)
theory Backlight
  imports Host
begin

text \<open>
  \<open>internal/probe/backlight.go\<close>: picking, reading and setting the panel brightness. The facts
  are about rounding: what is set is what is read back, the screen is never blanked by a
  positive percentage, and the brightness-up key makes progress.
\<close>

definition backlightBase :: string where "backlightBase = ''/sys/class/backlight''"

record BacklightInfo =
  bl_Present :: bool
  bl_Device :: string
  bl_Brightness :: int
  bl_Max :: int
  bl_Percent :: int
  bl_Writable :: bool

definition noBacklight :: BacklightInfo where
  "noBacklight = \<lparr>bl_Present = False, bl_Device = [], bl_Brightness = 0, bl_Max = 0,
     bl_Percent = 0, bl_Writable = False\<rparr>"

section \<open>Operations\<close>

definition backlight_rank :: "string \<Rightarrow> nat" where
  "backlight_rank name =
     (if hasPrefix name ''acpi_video'' then 2
      else if name \<in> set [''intel_backlight'', ''amdgpu_bl0'', ''nv_backlight''] then 0
      else 1)"

definition pickBacklight :: "string list \<Rightarrow> string" where
  "pickBacklight entries =
     fold (\<lambda>e best. if backlight_rank e < backlight_rank best then e else best)
       (tl entries) (hd entries)"

definition bl_dir :: "string \<Rightarrow> string" where
  "bl_dir device = joinPath [backlightBase, device]"

definition read_pct :: "int \<Rightarrow> int \<Rightarrow> int" where
  "read_pct cur maxB =
     (let pct = round_away (of_int cur / of_int maxB * 100);
          pct = (if pct < 0 then 0 else pct)
      in if pct > 100 then 100 else pct)"

definition ReadBacklight :: "host \<Rightarrow> string \<Rightarrow> BacklightInfo" where
  "ReadBacklight h override =
     (let dev =
        (if override = [] then
           (case h_dir h backlightBase of
              None \<Rightarrow> None
            | Some es \<Rightarrow> if es = [] then None else Some (pickBacklight es))
         else Some override)
      in case dev of
           None \<Rightarrow> noBacklight
         | Some d \<Rightarrow>
             (case (sysReadInt h (joinPath [bl_dir d, ''brightness'']),
                    sysReadInt h (joinPath [bl_dir d, ''max_brightness''])) of
                (Some cur, Some maxB) \<Rightarrow>
                  if maxB \<le> 0 then noBacklight
                  else \<lparr>bl_Present = True, bl_Device = d, bl_Brightness = cur, bl_Max = maxB,
                        bl_Percent = read_pct cur maxB,
                        bl_Writable = writable h (joinPath [bl_dir d, ''brightness''])\<rparr>
              | _ \<Rightarrow> noBacklight))"

definition set_val :: "int \<Rightarrow> int \<Rightarrow> int" where
  "set_val pct maxB =
     (let val = round_away (of_int pct / 100 * of_int maxB)
      in if val < 1 \<and> pct > 0 then 1 else val)"

definition SetBacklightPercent :: "host \<Rightarrow> string \<Rightarrow> int \<Rightarrow> string option \<times> host" where
  "SetBacklightPercent h device pct =
     (if device = [] then (Some ''no backlight device'', h)
      else
        let pct = (if pct < 0 then 0 else pct);
            pct = (if pct > 100 then 100 else pct)
        in case sysReadInt h (joinPath [bl_dir device, ''max_brightness'']) of
             None \<Rightarrow> (Some ''cannot read max_brightness'', h)
           | Some maxB \<Rightarrow>
               if maxB \<le> 0 then (Some ''cannot read max_brightness'', h)
               else
                 let path = joinPath [bl_dir device, ''brightness'']
                 in case write_file h path (itoa (set_val pct maxB)) of
                      (W_ok, h') \<Rightarrow> (None, h')
                    | (W_denied, h') \<Rightarrow>
                        (Some (''permission denied (needs root or a udev rule on '' @ path @ '')''), h')
                    | (W_error e, h') \<Rightarrow> (Some e, h'))"

definition BacklightUdevRule :: string where
  "BacklightUdevRule =
     ''# /etc/udev/rules.d/90-ucmon-backlight.rules'' @ [NL] @
     ''ACTION=='' @ [DQUOTE] @ ''add'' @ [DQUOTE] @ '', SUBSYSTEM=='' @ [DQUOTE] @ ''backlight'' @ [DQUOTE] @
     '', RUN+='' @ [DQUOTE] @ ''/bin/chgrp video /sys/class/backlight/%k/brightness'' @ [DQUOTE] @
     '', RUN+='' @ [DQUOTE] @ ''/bin/chmod g+w /sys/class/backlight/%k/brightness'' @ [DQUOTE] @ [NL, NL] @
     ''sudo usermod -aG video '' @ [DQUOTE] @ ''$USER'' @ [DQUOTE] @ ''   # then log out and back in'' @ [NL] @
     ''sudo udevadm control --reload && sudo udevadm trigger --subsystem-match=backlight''"

definition CheckBacklightWrite :: "host \<Rightarrow> string \<Rightarrow> Capability" where
  "CheckBacklightWrite h override =
     (let c = cap ''backlight brightness'' backlightBase
                ''the GPU tab's +/- keys (and the brightness row)'';
          bl = ReadBacklight h override
      in if \<not> bl_Present bl then
           (let (st, why) = pathStatus h backlightBase
            in if st = CapPresent then
                 c\<lparr>cap_Status := CapAbsent,
                   cap_Detail := ''no device under '' @ backlightBase @ '' reports brightness/max_brightness''\<rparr>
               else
                 c\<lparr>cap_Status := st,
                   cap_Detail := why @ '' '' @ EMDASH @ '' headless host, or a panel with no sysfs backlight''\<rparr>)
         else
           let c = c\<lparr>cap_Source := joinPath [bl_dir (bl_Device bl), ''brightness'']\<rparr>
           in if \<not> bl_Writable bl then
                c\<lparr>cap_Status := CapReadOnly,
                  cap_Detail := bl_Device bl @ '' reads '' @ itoa (bl_Percent bl) @
                    ''% but is not writable by this user'',
                  cap_Fix := BacklightUdevRule\<rparr>
              else
                c\<lparr>cap_Status := CapPresent,
                  cap_Detail := bl_Device bl @ '' at '' @ itoa (bl_Percent bl) @ ''% ('' @
                    itoa (bl_Brightness bl) @ ''/'' @ itoa (bl_Max bl) @ ''), writable''\<rparr>)"

section \<open>Lemmas\<close>

lemma round_away_nonneg: "0 \<le> x \<Longrightarrow> round_away x = \<lfloor>x + 1/2\<rfloor>"
  by (simp add: round_away_def)

text \<open>Rounding is within a half on either side.\<close>

lemma round_away_bounds:
  assumes "0 \<le> x"
  shows "x - 1/2 < of_int (round_away x)" "of_int (round_away x) \<le> x + 1/2" "0 \<le> round_away x"
proof -
  have "of_int \<lfloor>x + 1/2\<rfloor> \<le> x + 1/2" "x + 1/2 < of_int \<lfloor>x + 1/2\<rfloor> + 1" by linarith+
  then show "x - 1/2 < of_int (round_away x)" "of_int (round_away x) \<le> x + 1/2"
    using assms by (simp_all add: round_away_nonneg)
  show "0 \<le> round_away x" using assms by (simp add: round_away_nonneg)
qed

lemma set_val_bounds:
  assumes "0 \<le> pct" "pct \<le> 100" "0 < maxB"
  shows "0 \<le> set_val pct maxB" "set_val pct maxB \<le> maxB" "0 < pct \<Longrightarrow> 1 \<le> set_val pct maxB"
proof -
  let ?x = "of_int pct / 100 * of_int maxB :: rat"
  have x: "0 \<le> ?x" "?x \<le> of_int maxB"
    using assms by (simp_all add: divide_le_eq mult.commute)
  have "round_away ?x \<le> maxB"
    using x by (simp add: round_away_nonneg floor_le_iff)
  then show "0 \<le> set_val pct maxB" "set_val pct maxB \<le> maxB" "0 < pct \<Longrightarrow> 1 \<le> set_val pct maxB"
    using round_away_bounds(3) [OF x(1)] assms by (auto simp: set_val_def Let_def)
qed

lemma read_pct_range: "0 \<le> read_pct cur maxB \<and> read_pct cur maxB \<le> 100"
  by (simp add: read_pct_def Let_def)

lemma read_pct_eq:
  assumes "0 \<le> k" "k \<le> m" "0 < m"
  shows "read_pct k m = round_away (of_int k / of_int m * 100)"
proof -
  let ?x = "of_int k / of_int m * 100 :: rat"
  have x: "0 \<le> ?x" "?x \<le> 100" using assms by (simp_all add: divide_le_eq)
  have "0 \<le> round_away ?x" "round_away ?x \<le> 100"
    using x by (simp_all add: round_away_nonneg floor_le_iff)
  then show ?thesis by (simp add: read_pct_def Let_def)
qed

lemma names_plain: "plain_name ''brightness''" "plain_name ''max_brightness''"
  by (simp_all add: plain_name_def)

lemma bl_dir_nonempty: "bl_dir device \<noteq> []"
proof -
  have "hasPrefix (join [backlightBase, device] ''/'') ''/''" by (simp add: backlightBase_def)
  then show ?thesis
    by (simp add: bl_dir_def joinPath_def Let_def cleanPath_def backlightBase_def)
qed

lemma ReadBacklight_after_set:
  assumes dev: "device \<noteq> []" and pct: "0 \<le> pct" "pct \<le> 100"
    and mx: "sysReadInt h (joinPath [bl_dir device, ''max_brightness'']) = Some m" "0 < m" "m < 2 ^ 63"
    and ok: "h_canWrite h (joinPath [bl_dir device, ''brightness'']) = W_ok"
  shows "fst (SetBacklightPercent h device pct) = None \<and>
    ReadBacklight (snd (SetBacklightPercent h device pct)) device =
      \<lparr>bl_Present = True, bl_Device = device, bl_Brightness = set_val pct m, bl_Max = m,
       bl_Percent = read_pct (set_val pct m) m, bl_Writable = True\<rparr>"
proof -
  let ?b = "joinPath [bl_dir device, ''brightness'']" and ?m = "joinPath [bl_dir device, ''max_brightness'']"
  have ne: "?b \<noteq> ?m"
    using joinPath_leaf_inject [OF bl_dir_nonempty names_plain, of device] by simp
  define h' where "h' = h\<lparr>h_read := (h_read h)(?b \<mapsto> itoa (set_val pct m))\<rparr>"
  have v: "0 \<le> set_val pct m" "set_val pct m \<le> m" using set_val_bounds pct mx(2) by blast+
  have s: "SetBacklightPercent h device pct = (None, h')"
    using dev pct mx ok by (simp add: SetBacklightPercent_def Let_def write_file_def h'_def)
  have "sysReadInt h' ?b = Some (set_val pct m)"
    by (rule sysReadInt_itoa) (use v mx(3) in \<open>auto simp: h'_def\<close>)
  moreover have "sysReadInt h' ?m = Some m"
    using mx(1) ne by (simp add: sysReadInt_def sysReadStr_def h'_def)
  ultimately show ?thesis
    using dev mx(2) ok s by (simp add: ReadBacklight_def writable_def) (simp add: h'_def)
qed

section \<open>Properties\<close>

text \<open>A brightness that could be written is what the next reading shows: the raw value is in
  range, at least 1 for any positive percentage (the screen is never blanked), and the
  percentage read back is the one asked for wherever the panel has at least 100 levels.\<close>

theorem backlight_set_then_read:
  assumes "device \<noteq> []" "0 \<le> pct" "pct \<le> 100"
    and "sysReadInt h (joinPath [bl_dir device, ''max_brightness'']) = Some m" "0 < m" "m < 2 ^ 63"
    and "h_canWrite h (joinPath [bl_dir device, ''brightness'']) = W_ok"
  shows "fst (SetBacklightPercent h device pct) = None \<and>
    (let bl = ReadBacklight (snd (SetBacklightPercent h device pct)) device
     in bl_Present bl \<and> 0 \<le> bl_Brightness bl \<and> bl_Brightness bl \<le> m \<and>
        (0 < pct \<longrightarrow> 1 \<le> bl_Brightness bl) \<and> (100 \<le> m \<longrightarrow> bl_Percent bl = pct))"
proof -
  have v: "0 \<le> set_val pct m" "set_val pct m \<le> m" "0 < pct \<Longrightarrow> 1 \<le> set_val pct m"
    using set_val_bounds assms(2,3,5) by blast+
  have "read_pct (set_val pct m) m = pct" if m: "100 \<le> m"
  proof -
    let ?x = "of_int pct / 100 * of_int m :: rat" and ?k = "set_val pct m"
    have m100: "(100 :: rat) \<le> of_int m" using m by simp
    have "?k = round_away ?x"
    proof (cases "0 < pct")
      case True
      have "1 * 100 \<le> (of_int pct * of_int m :: rat)"
        using m100 True by (intro mult_mono) simp_all
      then have "1 \<le> ?x" by simp
      then have "1 \<le> round_away ?x" by (simp add: round_away_nonneg le_floor_iff)
      then show ?thesis by (simp add: set_val_def Let_def)
    next
      case False
      then show ?thesis by (simp add: set_val_def Let_def)
    qed
    moreover have "0 \<le> ?x" using assms(2,5) by simp
    ultimately have k: "?x - 1/2 < of_int ?k" "of_int ?k \<le> ?x + 1/2"
      using round_away_bounds [of ?x] by simp_all
    have "?k = pct" if "m = 100" using that k by (simp add: set_val_def Let_def round_away_def)
    moreover have "round_away (of_int ?k / of_int m * 100) = pct" if "100 < m"
    proof -
      have m: "(100 :: rat) < of_int m" using that by simp
      have "of_int ?k * 100 < (of_int pct + 1/2) * (of_int m :: rat)"
        "(of_int pct - 1/2) * (of_int m :: rat) < of_int ?k * 100"
        using k m by (simp_all add: algebra_simps)
      then have "of_int ?k / of_int m * 100 < (of_int pct + 1/2 :: rat)"
        "(of_int pct - 1/2 :: rat) < of_int ?k / of_int m * 100"
        using m by (simp_all add: divide_less_eq less_divide_eq)
      moreover have "0 \<le> (of_int ?k / of_int m * 100 :: rat)" using v(1) m by simp
      ultimately show ?thesis by (simp add: round_away_nonneg floor_eq_iff)
    qed
    moreover have "read_pct ?k m = round_away (of_int ?k / of_int m * 100)"
      using read_pct_eq v assms(5) by blast
    ultimately show ?thesis using m by (cases "m = 100") (simp_all add: round_away_def floor_eq_iff)
  qed
  then show ?thesis
    using ReadBacklight_after_set [OF assms] v by (simp add: Let_def)
qed

lemma backlight_set_then_read_witness:
  "let h = \<lparr>h_read = (\<lambda>p. if p = ''/sys/class/backlight/p/max_brightness'' then Some ''200'' else None),
     h_dir = (\<lambda>_. None), h_open = (\<lambda>_. O_ok), h_canWrite = (\<lambda>_. W_ok), h_stat = (\<lambda>_. True),
     h_look = (\<lambda>_. None), h_exec = (\<lambda>_ _. None)\<rparr>
   in bl_Percent (ReadBacklight (snd (SetBacklightPercent h ''p'' 35)) ''p'') = 35"
proof -
  let ?h = "\<lparr>h_read = (\<lambda>p. if p = ''/sys/class/backlight/p/max_brightness'' then Some ''200'' else None),
     h_dir = (\<lambda>_. None), h_open = (\<lambda>_. O_ok), h_canWrite = (\<lambda>_. W_ok), h_stat = (\<lambda>_. True),
     h_look = (\<lambda>_. None), h_exec = (\<lambda>_ _. None)\<rparr> :: host"
  have p: "joinPath [bl_dir ''p'', ''max_brightness''] = ''/sys/class/backlight/p/max_brightness''"
    by code_simp
  have "nat_digits 200 = ''200''" by code_simp
  then have "sysReadInt ?h (joinPath [bl_dir ''p'', ''max_brightness'']) = Some 200"
    by (intro sysReadInt_itoa) (simp_all add: p itoa_def)
  then show ?thesis
    using backlight_set_then_read [of "''p''" 35 ?h 200] by (simp add: Let_def)
qed

text \<open>The brightness-up key never sticks: from any level below the top, asking for a step more
  than the percentage shown sets a strictly higher raw level, provided the step is at least
  half a percentage point more than half a level (for the uConsole's nine levels, 6 per
  cent).\<close>

theorem brightness_up_advances:
  assumes "0 \<le> k" "k < m" "1 \<le> step" "100 \<le> (2 * step - 1) * m"
  shows "k < set_val (min 100 (read_pct k m + step)) m"
proof (cases "100 \<le> read_pct k m + step")
  case True
  moreover have "\<lfloor>1/2 :: rat\<rfloor> = 0" by (simp add: floor_eq_iff)
  ultimately show ?thesis using assms by (simp add: set_val_def Let_def round_away_def min_def)
next
  case False
  let ?p = "read_pct k m"
  have m: "0 < (of_int m :: rat)" using assms by simp
  have "of_int k / of_int m * 100 - 1/2 < (of_int ?p :: rat)"
    using round_away_bounds(1) [of "of_int k / of_int m * 100"] assms read_pct_eq [of k m] by simp
  then have "of_int k * 100 - of_int m / 2 < (of_int ?p * of_int m :: rat)"
    using m by (simp add: field_simps)
  moreover have "of_int 100 \<le> (of_int ((2 * step - 1) * m) :: rat)"
    using assms(4) by (simp only: of_int_le_iff)
  then have "100 \<le> (2 * of_int step - 1) * (of_int m :: rat)" by simp
  ultimately have "of_int k + 1/2 \<le> (of_int (?p + step) / 100 * of_int m :: rat)"
    by (simp add: field_simps)
  then have "k + 1 \<le> round_away (of_int (?p + step) / 100 * of_int m)"
    using assms(1) by (simp add: round_away_def le_floor_iff)
  then show ?thesis using False assms(1) by (simp add: set_val_def Let_def min_def)
qed

lemma brightness_up_advances_witness:
  "1 < set_val (min 100 (read_pct 1 9 + 10)) 9 \<and> \<not> 1 < set_val (min 100 (read_pct 1 9 + 5)) 9"
proof -
  have p: "read_pct 1 9 = 11" by (simp add: read_pct_def Let_def round_away_def floor_eq_iff)
  have "set_val 16 9 = 1" by (simp add: set_val_def Let_def round_away_def floor_eq_iff)
  with p show ?thesis using brightness_up_advances [of 1 9 10] by simp
qed

end
