(* ===== verification/PowerSupply.thy ===== *)
theory PowerSupply
  imports Host Util
begin

text \<open>
  \<open>internal/probe/power.go\<close> and \<open>internal/probe/cpufreq.go\<close>: batteries and mains supplies, the
  time left, the firmware's throttling flags, and the frequency policies with their
  governors. The load average, the number of CPUs and the clock come from outside and are
  arguments.
\<close>

section \<open>power.go: data\<close>

record LoadInfo =
  ld_Load1 :: f64
  ld_Load5 :: f64
  ld_Load15 :: f64
  ld_CPUCount :: int

record BatteryInfo =
  ba_Present :: bool
  ba_Name :: string
  ba_Capacity :: int
  ba_Status :: string
  ba_VoltageV :: f64
  ba_PowerW :: f64
  ba_TimeLeft :: duration
  ba_Technology :: string
  ba_HealthPct :: f64

record ThrottleInfo =
  th_Available :: bool
  th_Raw :: "64 word"
  th_UnderVoltageNow :: bool
  th_FreqCappedNow :: bool
  th_ThrottledNow :: bool
  th_SoftTempLimitNow :: bool
  th_UnderVoltageOccurred :: bool
  th_FreqCappedOccurred :: bool
  th_ThrottledOccurred :: bool
  th_SoftTempLimitOccurred :: bool

record PowerSnapshot =
  pw_Load :: LoadInfo
  pw_ACKnown :: bool
  pw_ACOnline :: bool
  pw_Battery :: BatteryInfo
  pw_Throttle :: ThrottleInfo
  pw_TakenAt :: time

definition noBattery :: BatteryInfo where
  "noBattery = \<lparr>ba_Present = False, ba_Name = [], ba_Capacity = -1, ba_Status = [], ba_VoltageV = 0,
     ba_PowerW = 0, ba_TimeLeft = 0, ba_Technology = [], ba_HealthPct = 0\<rparr>"

definition noThrottle :: ThrottleInfo where
  "noThrottle = \<lparr>th_Available = False, th_Raw = 0, th_UnderVoltageNow = False, th_FreqCappedNow = False,
     th_ThrottledNow = False, th_SoftTempLimitNow = False, th_UnderVoltageOccurred = False,
     th_FreqCappedOccurred = False, th_ThrottledOccurred = False, th_SoftTempLimitOccurred = False\<rparr>"

section \<open>power.go: operations\<close>

definition powerSupplyBase :: string where "powerSupplyBase = ''/sys/class/power_supply''"

definition absI64 :: "int \<Rightarrow> int" where
  "absI64 v = (if v < 0 then wrap64 (- v) else v)"

definition estimate ::
  "goarch \<Rightarrow> string \<Rightarrow> int option \<Rightarrow> int option \<Rightarrow> f64 \<Rightarrow> duration" where
  "estimate arch status now full rate =
     (if rate \<le> 0 then 0
      else if status = ''Discharging'' then
        (case now of
           Some n \<Rightarrow> if n > 0 then f2i arch (of_int n / rate * of_int hour) else 0
         | None \<Rightarrow> 0)
      else if status = ''Charging'' then
        (case (now, full) of
           (Some n, Some fu) \<Rightarrow>
             if fu > n \<and> n \<ge> 0 then f2i arch (of_int (fu - n) / rate * of_int hour) else 0
         | _ \<Rightarrow> 0)
      else 0)"

definition current_rate :: "goarch \<Rightarrow> (string \<Rightarrow> int option) \<Rightarrow> string \<Rightarrow> f64 \<times> duration" where
  "current_rate arch attr status =
     (case attr ''current_now'' of
        None \<Rightarrow> (0, 0)
      | Some currentNow \<Rightarrow>
          if currentNow = 0 then (0, 0)
          else
            let i = of_int (absI64 currentNow)
            in ((case attr ''voltage_now'' of
                   None \<Rightarrow> 0 | Some v \<Rightarrow> (i / 1000000) * (of_int v / 1000000)),
                estimate arch status (attr ''charge_now'') (attr ''charge_full'') i))"

definition batteryRate :: "goarch \<Rightarrow> host \<Rightarrow> string \<Rightarrow> string \<Rightarrow> f64 \<times> duration" where
  "batteryRate arch h dir status =
     (let attr = (\<lambda>n. sysReadInt h (joinPath [dir, n]))
      in case attr ''power_now'' of
           None \<Rightarrow> current_rate arch attr status
         | Some powerNow \<Rightarrow>
             if powerNow = 0 then current_rate arch attr status
             else
               let p = of_int (absI64 powerNow)
               in (p / 1000000, estimate arch status (attr ''energy_now'') (attr ''energy_full'') p))"

definition batteryHealth :: "host \<Rightarrow> string \<Rightarrow> f64" where
  "batteryHealth h dir =
     (let attr = (\<lambda>n. sysReadInt h (joinPath [dir, n]));
          (full, design) =
            (case (attr ''energy_full'', attr ''energy_full_design'') of
               (Some f, Some d) \<Rightarrow> (Some f, Some d)
             | _ \<Rightarrow> (attr ''charge_full'', attr ''charge_full_design''))
      in case (full, design) of
           (Some f, Some d) \<Rightarrow> if d \<le> 0 \<or> f \<le> 0 then 0 else of_int f / of_int d * 100
         | _ \<Rightarrow> 0)"

text \<open>One entry of the power-supply directory, on the battery and the mains state so far.\<close>

definition supply_body ::
  "goarch \<Rightarrow> host \<Rightarrow> string \<Rightarrow> BatteryInfo \<times> bool \<times> bool \<Rightarrow> BatteryInfo \<times> bool \<times> bool" where
  "supply_body arch h name st =
     (let (bat, acKnown, acOnline) = st;
          dir = joinPath [powerSupplyBase, name];
          typ = (case sysReadStr h (joinPath [dir, ''type'']) of None \<Rightarrow> [] | Some s \<Rightarrow> s);
          attr = (\<lambda>n. sysReadInt h (joinPath [dir, n]));
          txt = (\<lambda>n. case sysReadStr h (joinPath [dir, n]) of None \<Rightarrow> [] | Some s \<Rightarrow> s)
      in if typ = ''Mains'' \<or> typ = ''USB'' then
           (case attr ''online'' of
              None \<Rightarrow> st
            | Some v \<Rightarrow> (bat, True, if v = 1 then True else acOnline))
         else if typ = ''Battery'' then
           (if ba_Present bat then st
            else if sysReadStr h (joinPath [dir, ''scope'']) = Some ''Device'' then st
            else
              let status = txt ''status'';
                  (powerW, left) = batteryRate arch h dir status
              in (\<lparr>ba_Present = True, ba_Name = name,
                   ba_Capacity = (case attr ''capacity'' of None \<Rightarrow> ba_Capacity bat | Some v \<Rightarrow> v),
                   ba_Status = status,
                   ba_VoltageV = (case attr ''voltage_now'' of None \<Rightarrow> 0 | Some v \<Rightarrow> of_int v / 1000000),
                   ba_PowerW = powerW, ba_TimeLeft = left,
                   ba_Technology = txt ''technology'',
                   ba_HealthPct = batteryHealth h dir\<rparr>, acKnown, acOnline))
         else st)"

definition readPowerSupply :: "goarch \<Rightarrow> host \<Rightarrow> BatteryInfo \<times> bool \<times> bool" where
  "readPowerSupply arch h =
     (case h_dir h powerSupplyBase of
        None \<Rightarrow> (noBattery, False, False)
      | Some entries \<Rightarrow> fold (supply_body arch h) entries (noBattery, False, False))"

definition vcgencmdPaths :: "string list" where
  "vcgencmdPaths = [''/usr/bin/vcgencmd'', ''/opt/vc/bin/vcgencmd'']"

definition find_bin :: "host \<Rightarrow> string list \<Rightarrow> string \<Rightarrow> string" where
  "find_bin h paths name =
     (case find (h_stat h) paths of
        Some p \<Rightarrow> p
      | None \<Rightarrow> (case h_look h name of Some p \<Rightarrow> p | None \<Rightarrow> []))"

definition vcgencmdPath :: "host \<Rightarrow> string" where
  "vcgencmdPath h = find_bin h vcgencmdPaths ''vcgencmd''"

definition throttle_of :: "64 word \<Rightarrow> ThrottleInfo" where
  "throttle_of raw =
     \<lparr>th_Available = True, th_Raw = raw,
      th_UnderVoltageNow = bit raw 0, th_FreqCappedNow = bit raw 1,
      th_ThrottledNow = bit raw 2, th_SoftTempLimitNow = bit raw 3,
      th_UnderVoltageOccurred = bit raw 16, th_FreqCappedOccurred = bit raw 17,
      th_ThrottledOccurred = bit raw 18, th_SoftTempLimitOccurred = bit raw 19\<rparr>"

definition readThrottle :: "host \<Rightarrow> ThrottleInfo" where
  "readThrottle h =
     (let bin = vcgencmdPath h
      in if bin = [] then noThrottle
         else case h_exec h bin [''get_throttled''] of
           None \<Rightarrow> noThrottle
         | Some out \<Rightarrow>
             let s = trimSpace out
             in case index s ''0x'' of
                  None \<Rightarrow> noThrottle
                | Some i \<Rightarrow>
                    (case ok_of (parseUint (drop (i + 2) s) 16 64) of
                       None \<Rightarrow> noThrottle
                     | Some raw \<Rightarrow> throttle_of (of_nat raw)))"

text \<open>\<open>loads\<close> is what the load-average library returns, \<open>None\<close> on an error.\<close>

definition SamplePower ::
  "goarch \<Rightarrow> host \<Rightarrow> (f64 \<times> f64 \<times> f64) option \<Rightarrow> int \<Rightarrow> time \<Rightarrow> PowerSnapshot" where
  "SamplePower arch h loads ncpu now =
     (let (bat, known, online) = readPowerSupply arch h
      in \<lparr>pw_Load =
            (case loads of
               Some (l1, l5, l15) \<Rightarrow>
                 \<lparr>ld_Load1 = l1, ld_Load5 = l5, ld_Load15 = l15, ld_CPUCount = ncpu\<rparr>
             | None \<Rightarrow> \<lparr>ld_Load1 = 0, ld_Load5 = 0, ld_Load15 = 0, ld_CPUCount = ncpu\<rparr>),
          pw_ACKnown = known, pw_ACOnline = online, pw_Battery = bat,
          pw_Throttle = readThrottle h, pw_TakenAt = now\<rparr>)"

definition CheckBattery :: "goarch \<Rightarrow> host \<Rightarrow> Capability" where
  "CheckBattery arch h =
     (let c = cap ''battery'' powerSupplyBase ''Power tab battery gauge, time-to-empty, battery alerts'';
          (bat, acKnown, _) = readPowerSupply arch h
      in if ba_Present bat then
           c\<lparr>cap_Status := CapPresent,
             cap_Detail := ba_Name bat @ '': '' @ itoa (ba_Capacity bat) @ ''%, '' @ toLower (ba_Status bat)\<rparr>
         else
           let (st, why) = pathStatus h powerSupplyBase
           in if st = CapPresent then
                c\<lparr>cap_Status := CapAbsent,
                  cap_Detail := (if acKnown then ''mains supply only '' @ EMDASH @ '' no battery on this host''
                                 else ''no power supply of type Battery'')\<rparr>
              else c\<lparr>cap_Status := st, cap_Detail := why\<rparr>)"

definition CheckBatteryHealth :: "goarch \<Rightarrow> host \<Rightarrow> Capability" where
  "CheckBatteryHealth arch h =
     (let leaf = ''{energy,charge}_full_design'';
          c = cap ''battery design capacity'' (joinPath [powerSupplyBase, ''<battery>'', leaf])
                ''the Power tab's battery health %'';
          (bat, _, _) = readPowerSupply arch h
      in if \<not> ba_Present bat then c\<lparr>cap_Detail := ''no battery on this host''\<rparr>
         else
           let c = c\<lparr>cap_Source := joinPath [powerSupplyBase, ba_Name bat, leaf]\<rparr>
           in if ba_HealthPct bat > 0 then
                c\<lparr>cap_Status := CapPresent,
                  cap_Detail := ''health '' @ fmt_f 0 (ba_HealthPct bat) @ ''% of design capacity''\<rparr>
              else c\<lparr>cap_Detail := ''the gauge publishes no *_full_design counter (common on embedded packs)''\<rparr>)"

section \<open>cpufreq.go\<close>

definition cpufreqBase :: string where "cpufreqBase = ''/sys/devices/system/cpu/cpufreq''"

record PolicyFreq =
  pf_Policy :: string
  pf_CPUs :: string
  pf_CurMHz :: f64
  pf_MinMHz :: f64
  pf_MaxMHz :: f64
  pf_Governor :: string
  pf_Available :: "string list"
  pf_Writable :: bool

definition read_policy :: "host \<Rightarrow> string \<Rightarrow> PolicyFreq option" where
  "read_policy h name =
     (if \<not> hasPrefix name ''policy'' then None
      else
        let dir = joinPath [cpufreqBase, name];
            mhz = (\<lambda>n. case sysReadInt h (joinPath [dir, n]) of None \<Rightarrow> 0 | Some v \<Rightarrow> of_int v / 1000);
            txt = (\<lambda>n. case sysReadStr h (joinPath [dir, n]) of None \<Rightarrow> [] | Some s \<Rightarrow> s)
        in case sysReadInt h (joinPath [dir, ''scaling_cur_freq'']) of
             None \<Rightarrow> None
           | Some cur \<Rightarrow>
               Some \<lparr>pf_Policy = name, pf_CPUs = txt ''affected_cpus'', pf_CurMHz = of_int cur / 1000,
                 pf_MinMHz = mhz ''cpuinfo_min_freq'', pf_MaxMHz = mhz ''cpuinfo_max_freq'',
                 pf_Governor = txt ''scaling_governor'',
                 pf_Available =
                   (case sysReadStr h (joinPath [dir, ''scaling_available_governors'']) of
                      None \<Rightarrow> [] | Some s \<Rightarrow> strFields s),
                 pf_Writable = writable h (joinPath [dir, ''scaling_governor''])\<rparr>)"

definition policy_less :: "PolicyFreq \<Rightarrow> PolicyFreq \<Rightarrow> bool" where
  "policy_less a b =
     (let i = suffixIndex (pf_Policy a) ''policy''; j = suffixIndex (pf_Policy b) ''policy''
      in if i \<noteq> j then i < j else pf_Policy a < pf_Policy b)"

definition ReadCPUFreq :: "host \<Rightarrow> PolicyFreq list" where
  "ReadCPUFreq h =
     (case h_dir h cpufreqBase of
        None \<Rightarrow> []
      | Some entries \<Rightarrow> sort_by policy_less (List.map_filter (read_policy h) entries))"

fun next_after :: "string \<Rightarrow> string list \<Rightarrow> nat \<Rightarrow> string list \<Rightarrow> string option" where
  "next_after cur avail i [] = None"
| "next_after cur avail i (g # gs) =
     (if g = cur then Some (avail ! ((i + 1) mod length avail)) else next_after cur avail (i + 1) gs)"

definition NextGovernor :: "string \<Rightarrow> string list \<Rightarrow> string" where
  "NextGovernor cur avail =
     (if avail = [] then cur
      else case next_after cur avail 0 avail of Some g \<Rightarrow> g | None \<Rightarrow> avail ! 0)"

definition SetGovernor :: "host \<Rightarrow> string \<Rightarrow> string \<Rightarrow> string option \<times> host" where
  "SetGovernor h policy gov =
     (if policy = [] \<or> gov = [] then (Some ''no cpufreq policy'', h)
      else
        let path = joinPath [cpufreqBase, policy, ''scaling_governor'']
        in case write_file h path gov of
             (W_ok, h') \<Rightarrow> (None, h')
           | (W_denied, h') \<Rightarrow>
               (Some (''permission denied (needs root or a udev rule on '' @ path @ '')''), h')
           | (W_error e, h') \<Rightarrow> (Some e, h'))"

definition GovernorUdevRule :: string where
  "GovernorUdevRule =
     (let q = [DQUOTE];
          gov = ''/sys/devices/system/cpu/cpufreq/policy*/scaling_governor''
      in ''# /etc/udev/rules.d/90-ucmon-cpufreq.rules'' @ [NL] @
         ''ACTION=='' @ q @ ''add'' @ q @ '', SUBSYSTEM=='' @ q @ ''cpu'' @ q @ '', RUN+='' @ q @
         ''/bin/sh -c '' @ [SQUOTE] @ ''chgrp cpufreq '' @ gov @ '' && chmod g+w '' @ gov @ [SQUOTE] @ q @
         [NL, NL] @ ''sudo groupadd -f cpufreq && sudo usermod -aG cpufreq '' @ q @ ''$USER'' @ q @
         ''   # then log out and back in'' @ [NL] @
         ''sudo udevadm control --reload && sudo udevadm trigger --subsystem-match=cpu'')"

definition CheckCPUFreq :: "host \<Rightarrow> Capability" where
  "CheckCPUFreq h =
     (let c = cap ''cpufreq policies'' cpufreqBase ''CPU tab frequency rows and the governor display'';
          pols = ReadCPUFreq h
      in if pols \<noteq> [] then
           c\<lparr>cap_Status := CapPresent,
             cap_Detail := plural (int (length pols)) ''policy'' ''policies'' @ '': '' @
               firstN (map pf_Policy pols) 4 @ '' (governor '' @ pf_Governor (hd pols) @ '')''\<rparr>
         else
           let (st, why) = pathStatus h cpufreqBase
           in case st of
                CapPresent \<Rightarrow>
                  c\<lparr>cap_Status := CapAbsent, cap_Detail := ''no policy directory reports scaling_cur_freq''\<rparr>
              | CapDenied \<Rightarrow> c\<lparr>cap_Status := st, cap_Detail := why\<rparr>
              | _ \<Rightarrow> c\<lparr>cap_Status := st,
                    cap_Detail := why @ '' '' @ EMDASH @ '' no cpufreq driver (usual in a VM or container)''\<rparr>)"

definition CheckGovernorWrite :: "host \<Rightarrow> Capability" where
  "CheckGovernorWrite h =
     (let leaf = ''scaling_governor'';
          c = (cap ''cpufreq governor write'' (joinPath [cpufreqBase, ''policy*'', leaf])
                ''the CPU tab's `g` key (cycle governor)'')\<lparr>cap_Fix := GovernorUdevRule\<rparr>;
          pols = ReadCPUFreq h
      in if pols = [] then
           c\<lparr>cap_Status := CapAbsent, cap_Detail := ''no cpufreq policy to write to'', cap_Fix := []\<rparr>
         else case find (\<lambda>p. \<not> pf_Writable p) pols of
           Some p \<Rightarrow>
             c\<lparr>cap_Status := CapReadOnly, cap_Source := joinPath [cpufreqBase, pf_Policy p, leaf],
               cap_Detail := pf_Policy p @ '' is not writable by this user (governor '' @ pf_Governor p @ '')''\<rparr>
         | None \<Rightarrow>
             c\<lparr>cap_Status := CapPresent, cap_Source := joinPath [cpufreqBase, pf_Policy (hd pols), leaf],
               cap_Detail := ''writable by this user'' @
                 (if pf_Available (hd pols) \<noteq> [] then
                    ''; available governors: '' @ firstN (pf_Available (hd pols)) 6 else []),
               cap_Fix := []\<rparr>)"

section \<open>Lemmas\<close>

interpretation policies: total_comparator "\<lambda>a b :: int \<times> string. fst a < fst b \<or> fst a = fst b \<and> snd a < snd b"
  by unfold_locales (auto dest: order.strict_trans)

text \<open>Cycling the governor visits every one: it steps to the cyclic successor.\<close>

lemma next_after_Some:
  "next_after cur avail i gs =
   (case find (\<lambda>j. gs ! j = cur) [0..<length gs] of
      None \<Rightarrow> None | Some j \<Rightarrow> Some (avail ! ((i + j + 1) mod length avail)))"
proof (induction gs arbitrary: i)
  case (Cons g gs)
  have "find (\<lambda>j. (g # gs) ! j = cur) [Suc 0..<length (g # gs)] =
    map_option Suc (find (\<lambda>j. gs ! j = cur) [0..<length gs])"
  proof -
    have "[Suc 0..<length (g # gs)] = map Suc [0..<length gs]" by (simp add: map_Suc_upt)
    then show ?thesis by (simp add: find_map comp_def)
  qed
  then show ?case using Cons [of "i + 1"]
    by (simp add: upt_conv_Cons del: upt_Suc split: option.splits)
qed simp

lemma NextGovernor_cycles:
  assumes "distinct avail" "j < length avail"
  shows "NextGovernor (avail ! j) avail = avail ! ((j + 1) mod length avail)"
proof -
  have "find (\<lambda>i. avail ! i = avail ! j) [0..<length avail] = Some j"
    unfolding find_Some_iff using assms
    by (auto simp: nth_eq_iff_index_eq intro!: exI [of _ j])
  then show ?thesis using assms(2) by (cases avail) (auto simp: NextGovernor_def next_after_Some)
qed

lemma estimate_exact:
  assumes "0 < n" "0 < rate" "of_int n / rate * of_int hour < (2 ^ 63 :: rat)"
  shows "estimate arch ''Discharging'' (Some n) full rate = \<lfloor>of_int n / rate * of_int hour\<rfloor>"
  using assms f2i_id [of "of_int n / rate * of_int hour" arch] by (simp add: estimate_def)

end
