(* ===== verification/Cpu.thy ===== *)
theory Cpu
  imports PowerSupply
begin

text \<open>
  \<open>internal/probe/cpu.go\<close>: the sampler that turns cumulative CPU times into shares of an interval,
  temperatures and their labels, the kernel's trip points and the thresholds drawn from
  them. The counters of \<open>/proc/stat\<close> and the hwmon walk come from a library and are
  arguments.
\<close>

section \<open>Times\<close>

record TimesStat =
  ts_User :: f64
  ts_System :: f64
  ts_Nice :: f64
  ts_Iowait :: f64
  ts_Irq :: f64
  ts_Softirq :: f64
  ts_Steal :: f64
  ts_Idle :: f64

record CPUBreakdown =
  cb_Valid :: bool
  cb_User :: f64
  cb_System :: f64
  cb_Nice :: f64
  cb_Iowait :: f64
  cb_IRQ :: f64
  cb_Steal :: f64
  cb_Idle :: f64
  cb_Busiest :: string

record TempReading =
  tr_Label :: string
  tr_Temp :: f64

record CPUSnapshot =
  cs_PerCorePercent :: "f64 list"
  cs_TotalPercent :: f64
  cs_Breakdown :: CPUBreakdown
  cs_Temperatures :: "TempReading list"
  cs_Freqs :: "PolicyFreq list"
  cs_TakenAt :: time

record CPUSampler =
  sm_lastAll :: "TimesStat option"
  sm_lastPer :: "TimesStat list"

definition NewCPUSampler :: CPUSampler where
  "NewCPUSampler = \<lparr>sm_lastAll = None, sm_lastPer = []\<rparr>"

definition noBreakdown :: CPUBreakdown where
  "noBreakdown = \<lparr>cb_Valid = False, cb_User = 0, cb_System = 0, cb_Nice = 0, cb_Iowait = 0,
     cb_IRQ = 0, cb_Steal = 0, cb_Idle = 0, cb_Busiest = []\<rparr>"

definition breakdownShare :: "CPUBreakdown \<Rightarrow> string \<Rightarrow> f64" where
  "breakdownShare b lbl =
     (if lbl = ''user'' then cb_User b
      else if lbl = ''system'' then cb_System b
      else if lbl = ''nice'' then cb_Nice b
      else if lbl = ''iowait'' then cb_Iowait b
      else if lbl = ''irq'' then cb_IRQ b
      else if lbl = ''steal'' then cb_Steal b
      else 0)"

definition pos_diff :: "f64 \<Rightarrow> f64 \<Rightarrow> f64" where
  "pos_diff a b = (let v = a - b in if v > 0 then v else 0)"

definition busiest_step :: "string \<times> f64 \<Rightarrow> CPUBreakdown \<Rightarrow> CPUBreakdown" where
  "busiest_step c b =
     (if snd c > 1/2 \<and> (cb_Busiest b = [] \<or> snd c > breakdownShare b (cb_Busiest b))
      then b\<lparr>cb_Busiest := fst c\<rparr> else b)"

definition diffCPUTimes :: "TimesStat \<Rightarrow> TimesStat \<Rightarrow> CPUBreakdown" where
  "diffCPUTimes prev cur =
     (let user = pos_diff (ts_User cur) (ts_User prev);
          system = pos_diff (ts_System cur) (ts_System prev);
          nice = pos_diff (ts_Nice cur) (ts_Nice prev);
          iowait = pos_diff (ts_Iowait cur) (ts_Iowait prev);
          irq = pos_diff (ts_Irq cur) (ts_Irq prev) + pos_diff (ts_Softirq cur) (ts_Softirq prev);
          steal = pos_diff (ts_Steal cur) (ts_Steal prev);
          idle = pos_diff (ts_Idle cur) (ts_Idle prev);
          total = user + system + nice + iowait + irq + steal + idle
      in if total \<le> 0 then noBreakdown
         else
           let b = \<lparr>cb_Valid = True, cb_User = user / total * 100, cb_System = system / total * 100,
                 cb_Nice = nice / total * 100, cb_Iowait = iowait / total * 100,
                 cb_IRQ = irq / total * 100, cb_Steal = steal / total * 100,
                 cb_Idle = idle / total * 100, cb_Busiest = []\<rparr>
           in fold busiest_step
                [(''user'', cb_User b), (''system'', cb_System b), (''nice'', cb_Nice b),
                 (''iowait'', cb_Iowait b), (''irq'', cb_IRQ b), (''steal'', cb_Steal b)] b)"

definition busyPercent :: "CPUBreakdown \<Rightarrow> f64" where
  "busyPercent b =
     (if \<not> cb_Valid b then 0
      else let v = 100 - cb_Idle b - cb_Iowait b in if v < 0 then 0 else if v > 100 then 100 else v)"

section \<open>Temperatures\<close>

text \<open>
  The search for a free label: \<open>label\<close>, then \<open>base#2\<close>, \<open>base#3\<close>, \<dots> One try more than there are
  used labels always finds one, so that many are allowed.
\<close>

fun free_label :: "nat \<Rightarrow> string list \<Rightarrow> string \<Rightarrow> nat \<Rightarrow> string \<Rightarrow> string" where
  "free_label 0 used base c lbl = lbl"
| "free_label (Suc n) used base c lbl =
     (if lbl \<in> set used then free_label n used base (c + 1) (base @ ''#'' @ nat_digits c) else lbl)"

fun unique_loop :: "string list \<Rightarrow> TempReading list \<Rightarrow> TempReading list" where
  "unique_loop used [] = []"
| "unique_loop used (t # ts) =
     (let lbl = free_label (length used + 1) used (tr_Label t) 2 (tr_Label t)
      in t\<lparr>tr_Label := lbl\<rparr> # unique_loop (lbl # used) ts)"

definition uniqueTempLabels :: "TempReading list \<Rightarrow> TempReading list" where
  "uniqueTempLabels ts = unique_loop [] ts"

definition thermalBase :: string where "thermalBase = ''/sys/class/thermal''"

definition zoneIndex :: "string \<Rightarrow> int" where
  "zoneIndex name = suffixIndex name ''thermal_zone''"

definition zone_names :: "string list \<Rightarrow> string list" where
  "zone_names entries =
     sort_by (\<lambda>a b. zoneIndex a < zoneIndex b) (filter (\<lambda>n. hasPrefix n ''thermal_zone'') entries)"

definition zone_degrees :: "f64 \<Rightarrow> f64" where
  "zone_degrees v = (if \<bar>v\<bar> \<ge> 200 then v / 1000 else v)"

text \<open>A zone file holding a spelled-out non-finite number fails every comparison and is skipped.\<close>

definition finite_float :: "string \<Rightarrow> f64 option" where
  "finite_float s = (case parseFloat s of PF_finite x \<Rightarrow> Some x | _ \<Rightarrow> None)"

fun zones_loop :: "host \<Rightarrow> string list \<Rightarrow> string list \<Rightarrow> TempReading list" where
  "zones_loop h seen [] = []"
| "zones_loop h seen (name # names) =
     (let zpath = joinPath [thermalBase, name];
          typ = (case h_read h (joinPath [zpath, ''type'']) of None \<Rightarrow> name | Some b \<Rightarrow> trimSpace b);
          lbl = (if typ \<in> set seen then typ @ ''/'' @ name else typ);
          rest = zones_loop h (lbl # seen) names
      in case h_read h (joinPath [zpath, ''temp'']) of
           None \<Rightarrow> rest
         | Some b \<Rightarrow>
             (case finite_float (trimSpace b) of
                None \<Rightarrow> rest
              | Some v \<Rightarrow>
                  let v = zone_degrees v
                  in if v \<noteq> 0 \<and> v > -40 \<and> v < 150
                     then \<lparr>tr_Label = lbl, tr_Temp = v\<rparr> # rest else rest))"

definition readThermalZones :: "host \<Rightarrow> TempReading list" where
  "readThermalZones h =
     (case h_dir h thermalBase of
        None \<Rightarrow> []
      | Some entries \<Rightarrow> zones_loop h [] (zone_names entries))"

text \<open>
  \<open>stats\<close> is what the sensor library returns beside a usable error, \<open>None\<close> when its error is
  not the one that only warns.
\<close>

definition readTemperatures :: "(string \<times> f64) list option \<Rightarrow> host \<Rightarrow> TempReading list" where
  "readTemperatures stats h =
     (let out = (case stats of
           None \<Rightarrow> []
         | Some ss \<Rightarrow> map (\<lambda>(k, t). \<lparr>tr_Label = k, tr_Temp = t\<rparr>)
               (filter (\<lambda>(k, t). t > 0 \<and> t < 150) ss))
      in if out \<noteq> [] then uniqueTempLabels out else readThermalZones h)"

section \<open>Sampling\<close>

text \<open>
  \<open>readAll\<close> and \<open>readPer\<close> are the two reads of the counters, \<open>None\<close> on an error. The sampler's
  new state is returned beside the snapshot; a failed read leaves the baseline alone.
\<close>

definition advance ::
  "TimesStat list option \<Rightarrow> TimesStat list option \<Rightarrow> CPUSampler \<Rightarrow>
   (TimesStat \<times> TimesStat list \<times> TimesStat option \<times> TimesStat list) option \<times> CPUSampler" where
  "advance readAll readPer s =
     (case readAll of
        None \<Rightarrow> (None, s)
      | Some [] \<Rightarrow> (None, s)
      | Some (cur # _) \<Rightarrow>
          (case readPer of
             None \<Rightarrow> (None, s)
           | Some per \<Rightarrow>
               (Some (cur, per, sm_lastAll s, sm_lastPer s),
                \<lparr>sm_lastAll = Some cur, sm_lastPer = per\<rparr>)))"

definition Sample ::
  "TimesStat list option \<Rightarrow> TimesStat list option \<Rightarrow> (string \<times> f64) list option \<Rightarrow> host \<Rightarrow> time \<Rightarrow>
   CPUSampler \<Rightarrow> CPUSnapshot option \<times> CPUSampler" where
  "Sample readAll readPer stats h now s =
     (case advance readAll readPer s of
        (None, s') \<Rightarrow> (None, s')
      | (Some (cur, per, prevAll, prevPer), s') \<Rightarrow>
          let b = (case prevAll of None \<Rightarrow> noBreakdown | Some p \<Rightarrow> diffCPUTimes p cur)
          in (Some \<lparr>
                cs_PerCorePercent =
                  (if length prevPer = length per
                   then map (\<lambda>(p, c). busyPercent (diffCPUTimes p c)) (zip prevPer per)
                   else replicate (length per) 0),
                cs_TotalPercent = (case prevAll of None \<Rightarrow> 0 | Some _ \<Rightarrow> busyPercent b),
                cs_Breakdown = b,
                cs_Temperatures = readTemperatures stats h,
                cs_Freqs = ReadCPUFreq h,
                cs_TakenAt = now\<rparr>, s'))"

section \<open>Thresholds and trip points\<close>

record tempThresholds =
  tt_warn :: f64
  tt_hot :: f64
  tt_crit :: f64

definition SetTempThresholds :: "f64 \<Rightarrow> f64 \<Rightarrow> f64 \<Rightarrow> tempThresholds \<Rightarrow> tempThresholds" where
  "SetTempThresholds warn hot crit t =
     \<lparr>tt_warn = (if warn > 0 then warn else tt_warn t),
      tt_hot = (if hot > 0 then hot else tt_hot t),
      tt_crit = (if crit > 0 then crit else tt_crit t)\<rparr>"

record TripPoints =
  tp_Zone :: string
  tp_Passive :: f64
  tp_Critical :: f64
  tp_Hot :: f64

definition Throttle :: "TripPoints \<Rightarrow> f64" where
  "Throttle t = (if tp_Passive t > 0 then tp_Passive t else tp_Hot t)"

text \<open>One trip point of a zone, once both its files could be read.\<close>

definition trip_step :: "string \<Rightarrow> f64 \<Rightarrow> TripPoints \<Rightarrow> TripPoints" where
  "trip_step kind raw tp =
     (let v = (if raw > 1000 then raw / 1000 else raw)
      in if v \<le> 0 \<or> v > 200 then tp
         else if kind = ''passive'' then
           (if tp_Passive tp = 0 \<or> v < tp_Passive tp then tp\<lparr>tp_Passive := v\<rparr> else tp)
         else if kind = ''critical'' then tp\<lparr>tp_Critical := v\<rparr>
         else if kind = ''hot'' then tp\<lparr>tp_Hot := v\<rparr>
         else tp)"

text \<open>
  The loop over \<open>trip_point_0\<close>, \<open>trip_point_1\<close>, \<dots> ends at the first index without a type
  file; a directory holds finitely many, \<open>fuel\<close> of them here.
\<close>

fun trip_loop :: "nat \<Rightarrow> host \<Rightarrow> string \<Rightarrow> nat \<Rightarrow> TripPoints \<Rightarrow> TripPoints" where
  "trip_loop 0 h zpath i tp = tp"
| "trip_loop (Suc fuel) h zpath i tp =
     (case h_read h (joinPath [zpath, ''trip_point_'' @ nat_digits i @ ''_type'']) of
        None \<Rightarrow> tp
      | Some kind \<Rightarrow>
          (case h_read h (joinPath [zpath, ''trip_point_'' @ nat_digits i @ ''_temp'']) of
             None \<Rightarrow> trip_loop fuel h zpath (i + 1) tp
           | Some raw \<Rightarrow>
               (case finite_float (trimSpace raw) of
                  None \<Rightarrow> trip_loop fuel h zpath (i + 1) tp
                | Some v \<Rightarrow> trip_loop fuel h zpath (i + 1) (trip_step (trimSpace kind) v tp))))"

fun trip_zones :: "nat \<Rightarrow> host \<Rightarrow> string list \<Rightarrow> TripPoints option" where
  "trip_zones fuel h [] = None"
| "trip_zones fuel h (name # names) =
     (let zpath = joinPath [thermalBase, name];
          zone = (case h_read h (joinPath [zpath, ''type'']) of None \<Rightarrow> name | Some l \<Rightarrow> trimSpace l);
          tp = trip_loop fuel h zpath 0
                 \<lparr>tp_Zone = zone, tp_Passive = 0, tp_Critical = 0, tp_Hot = 0\<rparr>
      in if tp_Critical tp > 0 \<or> tp_Passive tp > 0 \<or> tp_Hot tp > 0 then Some tp
         else trip_zones fuel h names)"

definition ReadTripPoints :: "nat \<Rightarrow> host \<Rightarrow> TripPoints option" where
  "ReadTripPoints fuel h =
     (case h_dir h thermalBase of
        None \<Rightarrow> None
      | Some entries \<Rightarrow> trip_zones fuel h (zone_names entries))"

definition TripThresholds :: "TripPoints \<Rightarrow> (f64 \<times> f64 \<times> f64) option" where
  "TripThresholds tp =
     (let crit = tp_Critical tp;
          hot = Throttle tp;
          r = (if crit > 0 \<and> hot > 0 then Some (hot, crit)
               else if crit > 0 then Some (crit * (8/10), crit)
               else if hot > 0 then Some (hot, hot * (115/100))
               else None)
      in case r of
           None \<Rightarrow> None
         | Some (hot, crit) \<Rightarrow>
             let hot = (if hot \<ge> crit then crit * (8/10) else hot)
             in Some (hot * (75/100), hot, crit))"

definition TempColor :: "tempThresholds \<Rightarrow> f64 \<Rightarrow> string" where
  "TempColor t x =
     (if x \<ge> tt_crit t then ''196'' else if x \<ge> tt_hot t then ''214''
      else if x \<ge> tt_warn t then ''226'' else ''42'')"

definition FormatTemp :: "f64 \<Rightarrow> string" where
  "FormatTemp t = fmt_f 1 t @ DEGREE @ ''C''"

definition checkTempSensors :: "host \<Rightarrow> TempReading list \<Rightarrow> Capability" where
  "checkTempSensors h temps =
     (let c = cap ''temperature sensors'' thermalBase
                ''CPU tab temperatures, temperature alerts, trip-point calibration''
      in if temps \<noteq> [] then
           c\<lparr>cap_Status := CapPresent,
             cap_Detail := plural (int (length temps)) ''sensor'' ''sensors'' @ '': '' @
               firstN (map tr_Label temps) 4\<rparr>
         else
           let (st, why) = pathStatus h thermalBase
           in case st of
                CapPresent \<Rightarrow>
                  c\<lparr>cap_Status := CapAbsent,
                    cap_Detail := ''no thermal zone or hwmon sensor reports a usable reading''\<rparr>
              | CapDenied \<Rightarrow> c\<lparr>cap_Status := st, cap_Detail := why\<rparr>
              | _ \<Rightarrow> c\<lparr>cap_Status := st,
                    cap_Detail := why @ '' '' @ EMDASH @
                      '' no hwmon sensors either (common in a VM or container)''\<rparr>)"

section \<open>Lemmas\<close>

lemma pos_diff_nonneg [simp]: "0 \<le> pos_diff a b"
  by (simp add: pos_diff_def Let_def)

lemma busiest_step_shares [simp]:
  "cb_Valid (busiest_step c b) = cb_Valid b" "cb_User (busiest_step c b) = cb_User b"
  "cb_System (busiest_step c b) = cb_System b" "cb_Nice (busiest_step c b) = cb_Nice b"
  "cb_Iowait (busiest_step c b) = cb_Iowait b" "cb_IRQ (busiest_step c b) = cb_IRQ b"
  "cb_Steal (busiest_step c b) = cb_Steal b" "cb_Idle (busiest_step c b) = cb_Idle b"
  by (simp_all add: busiest_step_def)

text \<open>The scan for the busiest category ends at a largest share above a half per cent, if any.\<close>

lemma breakdownShare_busiest [simp]:
  "breakdownShare (busiest_step c b) l = breakdownShare b l"
  by (simp add: breakdownShare_def)

lemma busiest_fold:
  "list_all (\<lambda>(l, p). l \<noteq> [] \<and> breakdownShare b l = p) cs \<Longrightarrow>
   cb_Busiest b = [] \<or> breakdownShare b (cb_Busiest b) > 1/2 \<Longrightarrow>
   (cb_Busiest (fold busiest_step cs b) = [] \<longrightarrow> cb_Busiest b = [] \<and> list_all (\<lambda>(l, p). p \<le> 1/2) cs) \<and>
   (cb_Busiest (fold busiest_step cs b) \<noteq> [] \<longrightarrow>
      breakdownShare b (cb_Busiest (fold busiest_step cs b)) > 1/2 \<and>
      list_all (\<lambda>(l, p). p \<le> breakdownShare b (cb_Busiest (fold busiest_step cs b))) cs \<and>
      (cb_Busiest b \<noteq> [] \<longrightarrow>
         breakdownShare b (cb_Busiest b) \<le> breakdownShare b (cb_Busiest (fold busiest_step cs b))))"
proof (induction cs arbitrary: b)
  case (Cons c cs)
  obtain l p where c: "c = (l, p)" by (cases c)
  define b' where "b' = busiest_step c b"
  have sh: "breakdownShare b' = breakdownShare b" by (rule ext) (simp add: b'_def)
  have bb: "cb_Busiest b' = (if p > 1/2 \<and> (cb_Busiest b = [] \<or> p > breakdownShare b (cb_Busiest b))
      then l else cb_Busiest b)" by (auto simp: b'_def busiest_step_def c)
  have l: "l \<noteq> []" "breakdownShare b l = p" using Cons.prems(1) c by auto
  have b': "cb_Busiest b' = [] \<or> breakdownShare b' (cb_Busiest b') > 1/2"
    using bb l Cons.prems(2) unfolding sh
    by (cases "p > 1/2 \<and> (cb_Busiest b = [] \<or> p > breakdownShare b (cb_Busiest b))") auto
  have "list_all (\<lambda>(l, p). l \<noteq> [] \<and> breakdownShare b' l = p) cs" using Cons.prems(1) by (simp add: sh)
  note IH = Cons.IH [OF this b', unfolded sh]
  define R where "R = cb_Busiest (fold busiest_step cs b')"
  have R: "cb_Busiest (fold busiest_step (c # cs) b) = R" by (simp add: R_def b'_def)
  have IH': "R = [] \<Longrightarrow> cb_Busiest b' = []" "R = [] \<Longrightarrow> list_all (\<lambda>(l, p). p \<le> 1/2) cs"
    "R \<noteq> [] \<Longrightarrow> breakdownShare b R > 1/2"
    "R \<noteq> [] \<Longrightarrow> list_all (\<lambda>(l, p). p \<le> breakdownShare b R) cs"
    "R \<noteq> [] \<Longrightarrow> cb_Busiest b' \<noteq> [] \<Longrightarrow> breakdownShare b (cb_Busiest b') \<le> breakdownShare b R"
    using IH unfolding R_def by blast+
  show ?case unfolding R
  proof (cases "p > 1/2 \<and> (cb_Busiest b = [] \<or> p > breakdownShare b (cb_Busiest b))")
    case True
    then have l': "cb_Busiest b' = l" using bb by simp
    then have "R \<noteq> []" using IH'(1) l(1) by blast
    moreover from this have "p \<le> breakdownShare b R" using IH'(5) l' l by simp
    ultimately show "(R = [] \<longrightarrow> cb_Busiest b = [] \<and> list_all (\<lambda>(l, p). p \<le> 1/2) (c # cs)) \<and>
      (R \<noteq> [] \<longrightarrow> 1/2 < breakdownShare b R \<and> list_all (\<lambda>(l, p). p \<le> breakdownShare b R) (c # cs) \<and>
        (cb_Busiest b \<noteq> [] \<longrightarrow> breakdownShare b (cb_Busiest b) \<le> breakdownShare b R))"
      using IH'(3,4) True c by auto
  next
    case False
    then have same: "cb_Busiest b' = cb_Busiest b" using bb by auto
    have "R = [] \<Longrightarrow> p \<le> 1/2" using False IH'(1) same by auto
    moreover have "R \<noteq> [] \<Longrightarrow> p \<le> breakdownShare b R"
      using False IH'(3,5) same by (cases "cb_Busiest b = []") auto
    ultimately show "(R = [] \<longrightarrow> cb_Busiest b = [] \<and> list_all (\<lambda>(l, p). p \<le> 1/2) (c # cs)) \<and>
      (R \<noteq> [] \<longrightarrow> 1/2 < breakdownShare b R \<and> list_all (\<lambda>(l, p). p \<le> breakdownShare b R) (c # cs) \<and>
        (cb_Busiest b \<noteq> [] \<longrightarrow> breakdownShare b (cb_Busiest b) \<le> breakdownShare b R))"
      using IH' same c by auto
  qed
qed auto


lemma free_label_spec:
  "\<exists>k \<le> n. free_label n used base c lbl = (if k = 0 then lbl else base @ ''#'' @ nat_digits (c + k - 1)) \<and>
     (k < n \<longrightarrow> free_label n used base c lbl \<notin> set used) \<and>
     (\<forall>j < k. (if j = 0 then lbl else base @ ''#'' @ nat_digits (c + j - 1)) \<in> set used)"
proof (induction n used base c lbl rule: free_label.induct)
  case (1 used base c lbl)
  then show ?case by simp
next
  case (2 n used base c lbl)
  show ?case
  proof (cases "lbl \<in> set used")
    case False
    then show ?thesis by (intro exI [of _ 0]) simp
  next
    case True
    let ?cand = "\<lambda>c lbl k. if k = 0 then lbl else base @ ''#'' @ nat_digits (c + k - 1)"
    let ?lbl' = "base @ ''#'' @ nat_digits c"
    obtain k where k: "k \<le> n" "free_label n used base (c + 1) ?lbl' = ?cand (c + 1) ?lbl' k"
      "k < n \<longrightarrow> free_label n used base (c + 1) ?lbl' \<notin> set used"
      "\<forall>j < k. ?cand (c + 1) ?lbl' j \<in> set used" using 2 True by blast
    have shift: "?cand (c + 1) ?lbl' j = ?cand c lbl (Suc j)" for j by (cases j) auto
    show ?thesis
    proof (intro exI [of _ "Suc k"] conjI)
      show "\<forall>j < Suc k. ?cand c lbl j \<in> set used"
      proof (intro allI impI)
        fix j assume "j < Suc k"
        then show "?cand c lbl j \<in> set used" using True k(4) shift by (cases j) fastforce+
      qed
    qed (use True k shift in auto)
  qed
qed

lemma free_label_unused: "free_label (length used + 1) used base c base \<notin> set used"
proof -
  let ?n = "length used + 1" and ?cand = "\<lambda>k. if k = 0 then base else base @ ''#'' @ nat_digits (c + k - 1)"
  obtain k where k: "k \<le> ?n" "k < ?n \<longrightarrow> free_label ?n used base c base \<notin> set used"
    "\<forall>j < k. ?cand j \<in> set used" using free_label_spec [of ?n used base c base] by blast
  have "inj_on ?cand {..<k}" by (auto simp: inj_on_def split: if_splits)
  then have "card (?cand ` {..<k}) = k" by (simp only: card_image card_lessThan)
  moreover have "card (?cand ` {..<k}) \<le> card (set used)"
    using k(3) by (intro card_mono) auto
  ultimately have "k \<le> length used" using card_length [of used] by linarith
  then show ?thesis using k(2) by simp
qed

lemma unique_loop_spec:
  "map tr_Temp (unique_loop used ts) = map tr_Temp ts \<and>
   distinct (map tr_Label (unique_loop used ts)) \<and>
   set (map tr_Label (unique_loop used ts)) \<inter> set used = {}"
proof (induction ts arbitrary: used)
  case (Cons t ts)
  let ?l = "free_label (length used + 1) used (tr_Label t) 2 (tr_Label t)"
  show ?case using Cons [of "?l # used"] free_label_unused [of used "tr_Label t" 2]
    by (auto simp: Let_def)
qed simp

section \<open>Properties\<close>

text \<open>C35: The split of an interval is a split: every share lies between 0 and 100 and together they
  make exactly 100, whatever counters went backwards; the busy figure is what is neither idle
  nor waiting for I/O; the category named busiest really is the largest one above a half per
  cent. Without elapsed time there is no split and the busy figure is 0.\<close>

theorem diffCPUTimes_split:
  fixes prev cur
  defines "b \<equiv> diffCPUTimes prev cur"
  shows "(cb_Valid b \<longrightarrow>
      (\<forall>l. 0 \<le> breakdownShare b l \<and> breakdownShare b l \<le> 100) \<and> 0 \<le> cb_Idle b \<and> cb_Idle b \<le> 100 \<and>
      cb_User b + cb_System b + cb_Nice b + cb_Iowait b + cb_IRQ b + cb_Steal b + cb_Idle b = 100 \<and>
      busyPercent b = 100 - cb_Idle b - cb_Iowait b \<and>
      (\<forall>l. breakdownShare b l \<le> 1/2 \<or>
         cb_Busiest b \<noteq> [] \<and> breakdownShare b l \<le> breakdownShare b (cb_Busiest b))) \<and>
    (\<not> cb_Valid b \<longrightarrow> b = noBreakdown \<and> busyPercent b = 0)"
proof (cases "cb_Valid b")
  case False
  then have "b = noBreakdown" by (auto simp: b_def diffCPUTimes_def Let_def split: if_splits)
  then show ?thesis by (simp add: busyPercent_def noBreakdown_def)
next
  case True
  define u s n w i st d where
    "u = pos_diff (ts_User cur) (ts_User prev)" "s = pos_diff (ts_System cur) (ts_System prev)"
    "n = pos_diff (ts_Nice cur) (ts_Nice prev)" "w = pos_diff (ts_Iowait cur) (ts_Iowait prev)"
    "i = pos_diff (ts_Irq cur) (ts_Irq prev) + pos_diff (ts_Softirq cur) (ts_Softirq prev)"
    "st = pos_diff (ts_Steal cur) (ts_Steal prev)" "d = pos_diff (ts_Idle cur) (ts_Idle prev)"
  define tot where "tot = u + s + n + w + i + st + d"
  have nn: "0 \<le> u" "0 \<le> s" "0 \<le> n" "0 \<le> w" "0 \<le> i" "0 \<le> st" "0 \<le> d"
    by (simp_all add: u_s_n_w_i_st_d_def)
  define b0 where "b0 = \<lparr>cb_Valid = True, cb_User = u / tot * 100, cb_System = s / tot * 100,
    cb_Nice = n / tot * 100, cb_Iowait = w / tot * 100, cb_IRQ = i / tot * 100,
    cb_Steal = st / tot * 100, cb_Idle = d / tot * 100, cb_Busiest = []\<rparr>"
  define cs where "cs = [(''user'', cb_User b0), (''system'', cb_System b0), (''nice'', cb_Nice b0),
    (''iowait'', cb_Iowait b0), (''irq'', cb_IRQ b0), (''steal'', cb_Steal b0)]"
  have tot: "0 < tot" and b: "b = fold busiest_step cs b0"
    using True by (auto simp: b_def diffCPUTimes_def Let_def noBreakdown_def b0_def cs_def tot_def
        u_s_n_w_i_st_d_def split: if_splits)
  have sh: "breakdownShare b = breakdownShare b0" "cb_Idle b = cb_Idle b0" "cb_Iowait b = cb_Iowait b0"
    "cb_Valid b = cb_Valid b0" "cb_User b = cb_User b0" "cb_System b = cb_System b0"
    "cb_Nice b = cb_Nice b0" "cb_IRQ b = cb_IRQ b0" "cb_Steal b = cb_Steal b0"
    by (simp_all add: b cs_def fun_eq_iff)
  have part: "0 \<le> x / tot * 100 \<and> x / tot * 100 \<le> 100" if "0 \<le> x" "x \<le> tot" for x
    using that tot by (simp add: divide_le_eq)
  have le: "u \<le> tot" "s \<le> tot" "n \<le> tot" "w \<le> tot" "i \<le> tot" "st \<le> tot" "d \<le> tot"
    using nn by (simp_all add: tot_def)
  have sum: "u / tot * 100 + s / tot * 100 + n / tot * 100 + w / tot * 100 + i / tot * 100 +
    st / tot * 100 + d / tot * 100 = 100"
  proof -
    have "(u + s + n + w + i + st + d) / tot = 1" using tot by (simp add: tot_def)
    then have "u / tot + s / tot + n / tot + w / tot + i / tot + st / tot + d / tot = 1"
      by (simp only: add_divide_distrib)
    moreover have "u / tot * 100 + s / tot * 100 + n / tot * 100 + w / tot * 100 + i / tot * 100 +
      st / tot * 100 + d / tot * 100 =
      (u / tot + s / tot + n / tot + w / tot + i / tot + st / tot + d / tot) * 100"
      by (simp only: distrib_right)
    ultimately show ?thesis by simp
  qed
  have range: "0 \<le> breakdownShare b0 l \<and> breakdownShare b0 l \<le> 100" for l
    using part nn le by (simp add: breakdownShare_def b0_def)
  have zero: "breakdownShare b0 l = 0" if "l \<notin> set (map fst cs)" for l
    using that by (simp add: breakdownShare_def cs_def)
  have "list_all (\<lambda>(l, p). l \<noteq> [] \<and> breakdownShare b0 l = p) cs"
    by (simp add: cs_def breakdownShare_def)
  then have max: "(cb_Busiest b = [] \<longrightarrow> list_all (\<lambda>(l, p). p \<le> 1/2) cs) \<and>
    (cb_Busiest b \<noteq> [] \<longrightarrow> list_all (\<lambda>(l, p). p \<le> breakdownShare b0 (cb_Busiest b)) cs)"
    using busiest_fold [of b0 cs] b by (simp add: b0_def)
  have busiest: "breakdownShare b0 l \<le> 1/2 \<or>
      cb_Busiest b \<noteq> [] \<and> breakdownShare b0 l \<le> breakdownShare b0 (cb_Busiest b)" for l
  proof (cases "l \<in> set (map fst cs)")
    case True
    then have "(l, breakdownShare b0 l) \<in> set cs" by (auto simp: cs_def breakdownShare_def)
    then show ?thesis using max by (fastforce simp: list_all_iff)
  qed (simp add: zero)
  have "busyPercent b = 100 - cb_Idle b0 - cb_Iowait b0"
  proof -
    have "0 \<le> cb_Idle b0" "0 \<le> cb_Iowait b0" "cb_Idle b0 + cb_Iowait b0 \<le> 100"
      using sum part [OF nn(1) le(1)] part [OF nn(2) le(2)] part [OF nn(3) le(3)]
        part [OF nn(4) le(4)] part [OF nn(5) le(5)] part [OF nn(6) le(6)] part [OF nn(7) le(7)]
      unfolding b0_def CPUBreakdown.simps by linarith+
    then show ?thesis by (simp add: busyPercent_def sh Let_def) (simp add: b0_def)
  qed
  then show ?thesis using True range busiest sum part [OF nn(7) le(7)]
    by (simp add: sh) (simp add: b0_def)
qed

lemma diffCPUTimes_split_witness:
  "(let b = diffCPUTimes \<lparr>ts_User = 5, ts_System = 1, ts_Nice = 0, ts_Iowait = 2, ts_Irq = 0, ts_Softirq = 0,
        ts_Steal = 9, ts_Idle = 10\<rparr>
      \<lparr>ts_User = 8, ts_System = 1, ts_Nice = 0, ts_Iowait = 3, ts_Irq = 0, ts_Softirq = 0,
        ts_Steal = 0, ts_Idle = 16\<rparr>
    in cb_Valid b \<and> cb_User b = 30 \<and> cb_Busiest b = ''user'' \<and>
       busyPercent b = 100 - cb_Idle b - cb_Iowait b)"
proof -
  let ?b = "diffCPUTimes \<lparr>ts_User = 5, ts_System = 1, ts_Nice = 0, ts_Iowait = 2, ts_Irq = 0,
        ts_Softirq = 0, ts_Steal = 9, ts_Idle = 10\<rparr>
      \<lparr>ts_User = 8, ts_System = 1, ts_Nice = 0, ts_Iowait = 3, ts_Irq = 0, ts_Softirq = 0,
        ts_Steal = 0, ts_Idle = 16\<rparr>"
  have "cb_Valid ?b \<and> cb_User ?b = 30 \<and> cb_Busiest ?b = ''user''"
    by code_simp
  moreover have "cb_Valid ?b \<Longrightarrow> busyPercent ?b = 100 - cb_Idle ?b - cb_Iowait ?b"
    using diffCPUTimes_split by blast
  ultimately show ?thesis unfolding Let_def by blast
qed

text \<open>After disambiguation no two sensors share a label, whatever labels they came with (one may
  itself be called \<open>x#2\<close>); the readings and their order are untouched.\<close>

theorem uniqueTempLabels_distinct:
  "distinct (map tr_Label (uniqueTempLabels ts)) \<and>
   map tr_Temp (uniqueTempLabels ts) = map tr_Temp ts"
  using unique_loop_spec [of "[]" ts] by (simp add: uniqueTempLabels_def)

text \<open>Thresholds drawn from trip points are strictly ordered, warn below hot below critical, and
  positive, for any trip points at all; none are drawn exactly when the zone declares no
  usable trip.\<close>

theorem TripThresholds_ordered:
  "(\<forall>w h c. TripThresholds tp = Some (w, h, c) \<longrightarrow> 0 < w \<and> w < h \<and> h < c) \<and>
   (TripThresholds tp = None \<longleftrightarrow> tp_Critical tp \<le> 0 \<and> Throttle tp \<le> 0)"
  by (auto simp: TripThresholds_def Let_def split: if_splits)

lemma TripThresholds_ordered_witness:
  "TripThresholds \<lparr>tp_Zone = [], tp_Passive = 90, tp_Critical = 80, tp_Hot = 0\<rparr> = Some (48, 64, 80) \<and>
   (48 :: rat) < 64"
proof -
  have "TripThresholds \<lparr>tp_Zone = [], tp_Passive = 90, tp_Critical = 80, tp_Hot = 0\<rparr> = Some (48, 64, 80)"
    by (simp add: TripThresholds_def Throttle_def Let_def)
  then show ?thesis
    using TripThresholds_ordered [of "\<lparr>tp_Zone = [], tp_Passive = 90, tp_Critical = 80, tp_Hot = 0\<rparr>"]
    by blast
qed

end
