(* ===== verification/Disk.thy ===== *)
theory Disk
  imports Host Util Regex
begin

text \<open>
  \<open>internal/probe/disk.go\<close> and \<open>internal/probe/storage.go\<close>: mounted filesystems with their
  read-only state (and whether it was forced on them), device throughput, and the wear
  reported by eMMC devices. Partitions, usage figures and counters come from a library and
  are arguments; the order of the loop over the counter map is one too.
\<close>

section \<open>disk.go: data\<close>

record DiskInfo =
  di_Device :: string
  di_MountPoint :: string
  di_FSType :: string
  di_Total :: nat
  di_Used :: nat
  di_Free :: nat
  di_UsedPct :: f64
  di_ReadOnly :: bool
  di_RemountedRO :: bool

record DiskIOInfo =
  io_Device :: string
  io_ReadBps :: f64
  io_WriteBps :: f64

record IOCounters =
  ic_ReadBytes :: "64 word"
  ic_WriteBytes :: "64 word"

record DiskSampler =
  ds_lastIO :: "string \<rightharpoonup> IOCounters"
  ds_lastAt :: time
  ds_sawRW :: "string \<rightharpoonup> string"

definition NewDiskSampler :: DiskSampler where
  "NewDiskSampler = \<lparr>ds_lastIO = Map.empty, ds_lastAt = zeroTime, ds_sawRW = Map.empty\<rparr>"

section \<open>disk.go: mount tables\<close>

definition fstabPath :: string where "fstabPath = ''/etc/fstab''"
definition mountsPath :: string where "mountsPath = ''/proc/self/mounts''"

definition ReadOnlyByDesign :: "string \<Rightarrow> bool" where
  "ReadOnlyByDesign fstype \<longleftrightarrow> fstype \<in> set [''squashfs'', ''iso9660'', ''erofs'', ''udf'', ''cramfs'']"

text \<open>The octal escapes: three characters after a backslash, when they are a byte in octal.\<close>

fun unescape :: "string \<Rightarrow> string" where
  "unescape (c # a # b # d # s) =
     (if c = BACKSLASH then
        (case ok_of (parseUint [a, b, d] 8 8) of
           Some v \<Rightarrow> char_of v # unescape s
         | None \<Rightarrow> c # unescape (a # b # d # s))
      else c # unescape (a # b # d # s))"
| "unescape s = s"

definition unescapeMountPath :: "string \<Rightarrow> string" where
  "unescapeMountPath s = (if \<not> contains s [BACKSLASH] then s else unescape s)"

definition live_line :: "string \<Rightarrow> (string \<rightharpoonup> bool) \<Rightarrow> (string \<rightharpoonup> bool)" where
  "live_line line out =
     (let f = strFields line
      in if length f < 4 then out
         else out(unescapeMountPath (f ! 1) \<mapsto> ''ro'' \<in> set (split (f ! 3) (CHR '',''))))"

definition liveReadOnly :: "host \<Rightarrow> (string \<rightharpoonup> bool) option" where
  "liveReadOnly h =
     (case h_read h mountsPath of
        None \<Rightarrow> None
      | Some b \<Rightarrow> Some (fold live_line (split b NL) Map.empty))"

definition fstab_line :: "string \<Rightarrow> (string \<rightharpoonup> bool) \<Rightarrow> (string \<rightharpoonup> bool)" where
  "fstab_line raw out =
     (let line = trimSpace raw; f = strFields line
      in if line = [] \<or> hasPrefix line ''#'' then out
         else if length f < 4 then out
         else if f ! 2 = ''swap'' \<or> ReadOnlyByDesign (f ! 2) then out
         else out(unescapeMountPath (f ! 1) \<mapsto> ''ro'' \<notin> set (split (f ! 3) (CHR '',''))))"

definition fstabRW :: "host \<Rightarrow> (string \<rightharpoonup> bool)" where
  "fstabRW h =
     (case h_read h fstabPath of
        None \<Rightarrow> Map.empty
      | Some b \<Rightarrow> fold fstab_line (split b NL) Map.empty)"

section \<open>disk.go: sampling\<close>

definition markRemounts ::
  "DiskInfo \<Rightarrow> bool \<Rightarrow> (string \<rightharpoonup> bool) \<Rightarrow> (string \<rightharpoonup> string) \<Rightarrow> DiskInfo \<times> (string \<rightharpoonup> string)" where
  "markRemounts d ro fstab sawRW =
     (let d = d\<lparr>di_ReadOnly := ro\<rparr>
      in if \<not> ro then (d, sawRW(di_MountPoint d \<mapsto> di_Device d))
         else if ReadOnlyByDesign (di_FSType d) then (d, sawRW)
         else if sawRW (di_MountPoint d) = Some (di_Device d) then (d\<lparr>di_RemountedRO := True\<rparr>, sawRW)
         else (d\<lparr>di_RemountedRO := (fstab (di_MountPoint d) = Some True)\<rparr>, sawRW))"

definition ioRate :: "(string \<rightharpoonup> IOCounters) \<Rightarrow> (string \<rightharpoonup> IOCounters) \<Rightarrow> f64 \<Rightarrow> string \<Rightarrow> DiskIOInfo" where
  "ioRate prev cur dt name =
     (case (cur name, prev name) of
        (Some c, Some p) \<Rightarrow>
          \<lparr>io_Device = name, io_ReadBps = CounterRate (ic_ReadBytes c) (ic_ReadBytes p) dt,
           io_WriteBps = CounterRate (ic_WriteBytes c) (ic_WriteBytes p) dt\<rparr>
      | _ \<Rightarrow> \<lparr>io_Device = name, io_ReadBps = 0, io_WriteBps = 0\<rparr>)"

text \<open>\<open>names\<close> is the order in which the loop visits the counters.\<close>

definition ioRates ::
  "(string \<rightharpoonup> IOCounters) \<Rightarrow> (string \<rightharpoonup> IOCounters) \<Rightarrow> string list \<Rightarrow> f64 \<Rightarrow> DiskIOInfo list" where
  "ioRates prev cur names dt =
     (let dt = (if dt \<le> 0 then 1 else dt)
      in sort_by (\<lambda>a b. io_Device a < io_Device b) (map (ioRate prev cur dt) names))"

record Partition =
  pt_Device :: string
  pt_Mountpoint :: string
  pt_Fstype :: string
  pt_Opts :: "string list"

record Usage =
  us_Total :: nat
  us_Used :: nat
  us_Free :: nat
  us_UsedPercent :: f64

fun sample_loop ::
  "(string \<Rightarrow> Usage option) \<Rightarrow> (string \<rightharpoonup> bool) option \<Rightarrow> (string \<rightharpoonup> bool) \<Rightarrow> string list \<Rightarrow>
   (string \<rightharpoonup> string) \<Rightarrow> Partition list \<Rightarrow> DiskInfo list \<times> (string \<rightharpoonup> string)" where
  "sample_loop usage live fstab seen sawRW [] = ([], sawRW)"
| "sample_loop usage live fstab seen sawRW (p # ps) =
     (if pt_Mountpoint p \<in> set seen then sample_loop usage live fstab seen sawRW ps
      else
        let seen = pt_Mountpoint p # seen
        in case usage (pt_Mountpoint p) of
             None \<Rightarrow> sample_loop usage live fstab seen sawRW ps
           | Some u \<Rightarrow>
               if us_Total u = 0 then sample_loop usage live fstab seen sawRW ps
               else
                 let d = \<lparr>di_Device = pt_Device p, di_MountPoint = pt_Mountpoint p,
                       di_FSType = pt_Fstype p, di_Total = us_Total u, di_Used = us_Used u,
                       di_Free = us_Free u, di_UsedPct = us_UsedPercent u,
                       di_ReadOnly = False, di_RemountedRO = False\<rparr>;
                     ro = (case live of
                         None \<Rightarrow> ''ro'' \<in> set (pt_Opts p)
                       | Some m \<Rightarrow>
                           (case m (pt_Mountpoint p) of
                              None \<Rightarrow> ''ro'' \<in> set (pt_Opts p) | Some ro \<Rightarrow> ro));
                     (d, sawRW) = markRemounts d ro fstab sawRW;
                     (ds, sawRW) = sample_loop usage live fstab seen sawRW ps
                 in (d # ds, sawRW))"

definition Sample ::
  "host \<Rightarrow> Partition list option \<Rightarrow> (string \<Rightarrow> Usage option) \<Rightarrow> (string \<rightharpoonup> IOCounters) option \<Rightarrow>
   string list \<Rightarrow> time \<Rightarrow> DiskSampler \<Rightarrow> (DiskInfo list \<times> DiskIOInfo list) option \<times> DiskSampler" where
  "Sample h parts usage counters names now s =
     (case parts of
        None \<Rightarrow> (None, s)
      | Some ps \<Rightarrow>
          let (disks, sawRW) = sample_loop usage (liveReadOnly h) (fstabRW h) [] (ds_sawRW s) ps
          in case counters of
               None \<Rightarrow> (Some (disks, []), s\<lparr>ds_sawRW := sawRW\<rparr>)
             | Some cur \<Rightarrow>
                 let dt = seconds (timeSub now (ds_lastAt s));
                     dt = (if isZero (ds_lastAt s) \<or> dt \<le> 0 then 1 else dt)
                 in (Some (disks, ioRates (ds_lastIO s) cur names dt),
                     \<lparr>ds_lastIO = cur, ds_lastAt = now, ds_sawRW = sawRW\<rparr>))"

section \<open>storage.go\<close>

definition blockBase :: string where "blockBase = ''/sys/block''"

record StorageHealth =
  sh_Device :: string
  sh_Kind :: string
  sh_Name :: string
  sh_Serial :: string
  sh_SizeB :: "64 word"
  sh_LifeA :: int
  sh_LifeB :: int
  sh_HasLife :: bool
  sh_PreEOL :: int
  sh_HasEOL :: bool
  sh_ReadOnly :: bool

definition WearPct :: "StorageHealth \<Rightarrow> f64 option" where
  "WearPct s =
     (let worst = (if sh_LifeB s > sh_LifeA s then sh_LifeB s else sh_LifeA s)
      in if worst < 1 \<or> worst > 11 then None
         else if worst = 11 then Some 100
         else Some (of_int worst * 10))"

definition EOLLabel :: "StorageHealth \<Rightarrow> string" where
  "EOLLabel s =
     (if sh_PreEOL s = 1 then ''normal'' else if sh_PreEOL s = 2 then ''warning''
      else if sh_PreEOL s = 3 then ''urgent'' else [])"

definition wear_at_least :: "StorageHealth \<Rightarrow> f64 \<Rightarrow> bool" where
  "wear_at_least s p = (case WearPct s of None \<Rightarrow> False | Some pct \<Rightarrow> pct \<ge> p)"

definition Severity :: "StorageHealth \<Rightarrow> nat" where
  "Severity s =
     (if sh_ReadOnly s \<or> sh_PreEOL s = 3 then 2
      else if wear_at_least s 90 then 2
      else if sh_PreEOL s = 2 then 1
      else if wear_at_least s 70 then 1
      else 0)"

definition parseHexByte :: "string \<Rightarrow> int option" where
  "parseHexByte s =
     (let s = trimSpace s; low = toLower s
      in if hasPrefix low ''0x'' then ok_of (parseInt (drop 2 low) 16 32)
         else ok_of (parseInt s 10 32))"

definition readMMCLifetime :: "host \<Rightarrow> string \<Rightarrow> StorageHealth \<Rightarrow> StorageHealth" where
  "readMMCLifetime h dev s =
     (let s1 = (case sysReadStr h (joinPath [dev, ''life_time'']) of
            None \<Rightarrow> s
          | Some l \<Rightarrow>
              let f = strFields l;
                  s = (if length f \<ge> 1 then
                         (case parseHexByte (f ! 0) of
                            Some v \<Rightarrow> s\<lparr>sh_LifeA := v, sh_HasLife := True\<rparr> | None \<Rightarrow> s)
                       else s)
              in if length f \<ge> 2 then
                   (case parseHexByte (f ! 1) of
                      Some v \<Rightarrow> s\<lparr>sh_LifeB := v, sh_HasLife := True\<rparr> | None \<Rightarrow> s)
                 else s)
      in case sysReadStr h (joinPath [dev, ''pre_eol_info'']) of
           None \<Rightarrow> s1
         | Some e \<Rightarrow>
             (case parseHexByte e of
                Some v \<Rightarrow> if v > 0 then s1\<lparr>sh_PreEOL := v, sh_HasEOL := True\<rparr> else s1
              | None \<Rightarrow> s1))"

text \<open>\<open>strings.EqualFold\<close> against an ASCII word without the letters k and s.\<close>

definition readOneDevice :: "host \<Rightarrow> string \<Rightarrow> StorageHealth option" where
  "readOneDevice h name =
     (let dir = joinPath [blockBase, name];
          dev = joinPath [dir, ''device''];
          txt = (\<lambda>n. case sysReadStr h (joinPath [dev, n]) of None \<Rightarrow> [] | Some s \<Rightarrow> s);
          s0 = \<lparr>sh_Device = name, sh_Kind = ''disk'', sh_Name = [], sh_Serial = [],
             sh_SizeB = (case sysReadInt h (joinPath [dir, ''size'']) of
                 Some v \<Rightarrow> if v > 0 then of_int v * 512 else 0 | None \<Rightarrow> 0),
             sh_LifeA = 0, sh_LifeB = 0, sh_HasLife = False, sh_PreEOL = 0, sh_HasEOL = False,
             sh_ReadOnly = (sysReadInt h (joinPath [dir, ''ro'']) = Some 1)\<rparr>;
          s1 = (if hasPrefix name ''mmcblk'' then
                  readMMCLifetime h dev
                    (s0\<lparr>sh_Kind := (if toLower (txt ''type'') = ''mmc'' then ''eMMC'' else ''SD''),
                        sh_Name := txt ''name'', sh_Serial := txt ''serial''\<rparr>)
                else if hasPrefix name ''nvme'' then
                  s0\<lparr>sh_Kind := ''NVMe'', sh_Name := txt ''model'', sh_Serial := txt ''serial''\<rparr>
                else s0\<lparr>sh_Name := txt ''model''\<rparr>);
          s2 = s1\<lparr>sh_Name := trimSpace (sh_Name s1)\<rparr>
      in if sh_Name s2 = [] \<and> sh_SizeB s2 = 0 then None else Some s2)"

definition mmcHWPartition :: rx where
  "mmcHWPartition = rseq
     [RBol, lit ''mmcblk'', rplus is_digit,
      RCap (ralt [RSeq (lit ''boot'') (rplus is_digit), lit ''rpmb'']), REol]"

definition skip_block :: "string \<Rightarrow> bool" where
  "skip_block name \<longleftrightarrow>
     list_ex (hasPrefix name) [''loop'', ''ram'', ''dm-'', ''zram'', ''sr'', ''mtdblock''] \<or>
     matchString mmcHWPartition name"

definition ReadStorageHealth :: "host \<Rightarrow> StorageHealth list" where
  "ReadStorageHealth h =
     (case h_dir h blockBase of
        None \<Rightarrow> []
      | Some entries \<Rightarrow>
          sort_by (\<lambda>a b. sh_Device a < sh_Device b)
            (List.map_filter (readOneDevice h) (filter (\<lambda>n. \<not> skip_block n) entries)))"

definition CheckStorageWear :: "host \<Rightarrow> Capability" where
  "CheckStorageWear h =
     (let c = cap ''storage wear (eMMC life time)'' (joinPath [blockBase, ''mmcblk*'', ''device'', ''life_time''])
                ''the Disk tab's wear/pre-EOL rows and the card-wear alert'';
          devs = ReadStorageHealth h;
          named = map (\<lambda>d. sh_Device d @ '' ('' @ sh_Kind d @ '')'') devs;
          worn = map sh_Device (filter (\<lambda>d. sh_HasLife d \<or> sh_HasEOL d) devs)
      in if worn \<noteq> [] then
           c\<lparr>cap_Status := CapPresent, cap_Detail := firstN worn 4 @ '' report life_time/pre_eol_info''\<rparr>
         else if devs = [] then
           (let (st, why) = pathStatus h blockBase
            in if st = CapPresent then
                 c\<lparr>cap_Status := CapAbsent, cap_Detail := ''no block device under '' @ blockBase\<rparr>
               else c\<lparr>cap_Status := st, cap_Detail := why\<rparr>)
         else
           c\<lparr>cap_Detail := ''no device exposes wear counters: '' @ firstN named 4 @ '' '' @ EMDASH @
               '' normal for SD, USB, SATA and NVMe''\<rparr>)"

section \<open>Lemmas\<close>

interpretation names: total_comparator "(<) :: string \<Rightarrow> string \<Rightarrow> bool"
  by unfold_locales auto

lemma insert_by_map:
  "(\<And>x y. lt (f x) (f y) = lt' x y) \<Longrightarrow> insert_by lt (f x) (map f xs) = map f (insert_by lt' x xs)"
  by (induction xs) auto

lemma sort_by_map: "(\<And>x y. lt (f x) (f y) = lt' x y) \<Longrightarrow> sort_by lt (map f xs) = map f (sort_by lt' xs)"
  by (induction xs) (auto simp: insert_by_map)

lemma ioRate_Device [simp]: "io_Device (ioRate prev cur dt n) = n"
  by (simp add: ioRate_def split: option.split)

lemma ioRates_sorted: "ioRates prev cur names dt =
  map (ioRate prev cur (if dt \<le> 0 then 1 else dt)) (sort_by (<) names)"
  by (simp add: ioRates_def Let_def sort_by_map)

text \<open>How the kernel writes a path into its mount table: blanks and backslashes in octal.\<close>

definition mangle_char :: "char \<Rightarrow> string" where
  "mangle_char c =
     (if c = CHR 0x20 then [BACKSLASH] @ ''040'' else if c = TAB then [BACKSLASH] @ ''011''
      else if c = NL then [BACKSLASH] @ ''012'' else if c = BACKSLASH then [BACKSLASH] @ ''134''
      else [c])"

definition mangle :: "string \<Rightarrow> string" where
  "mangle s = concat (map mangle_char s)"

lemma unescape_mangled: "unescape (mangle_char c @ s) = c # unescape s"
proof -
  have oct: "ok_of (parseUint ''040'' 8 8) = Some 32" "ok_of (parseUint ''011'' 8 8) = Some 9"
    "ok_of (parseUint ''012'' 8 8) = Some 10" "ok_of (parseUint ''134'' 8 8) = Some 92"
    by code_simp+
  have ch: "char_of (32 :: nat) = CHR 0x20" "char_of (9 :: nat) = TAB"
    "char_of (10 :: nat) = NL" "char_of (92 :: nat) = BACKSLASH" by code_simp+
  show ?thesis
  proof (cases "c = CHR 0x20 \<or> c = TAB \<or> c = NL \<or> c = BACKSLASH")
    case True
    then show ?thesis by (elim disjE) (simp_all add: mangle_char_def oct ch)
  next
    case False
    then have m: "mangle_char c = [c]" "c \<noteq> BACKSLASH" by (simp_all add: mangle_char_def)
    then show ?thesis by (cases s rule: unescape.cases) (auto split: list.split)
  qed
qed

lemma unescape_mangle: "unescape (mangle s) = s"
  by (induction s) (simp_all add: mangle_def unescape_mangled)

text \<open>A run of remount observations of a filesystem, and the device last seen read-write.\<close>

type_synonym mount_obs = "DiskInfo \<times> bool \<times> (string \<rightharpoonup> bool)"

definition observe_mounts :: "mount_obs list \<Rightarrow> (string \<rightharpoonup> string) \<Rightarrow> (string \<rightharpoonup> string)" where
  "observe_mounts obs saw = fold (\<lambda>(d, ro, fstab) saw. snd (markRemounts d ro fstab saw)) obs saw"

fun last_rw :: "string \<Rightarrow> mount_obs list \<Rightarrow> string option" where
  "last_rw mp [] = None"
| "last_rw mp ((d, ro, fstab) # obs) =
     (case last_rw mp obs of
        Some dev \<Rightarrow> Some dev
      | None \<Rightarrow> if \<not> ro \<and> di_MountPoint d = mp then Some (di_Device d) else None)"

lemma observe_mounts_last:
  "observe_mounts obs saw mp = (case last_rw mp obs of Some dev \<Rightarrow> Some dev | None \<Rightarrow> saw mp)"
proof (induction obs arbitrary: saw)
  case (Cons o' obs)
  obtain d ro fs where o': "o' = (d, ro, fs)" by (cases o')
  have "observe_mounts (o' # obs) saw = observe_mounts obs (snd (markRemounts d ro fs saw))"
    by (simp add: observe_mounts_def o')
  moreover have "snd (markRemounts d ro fs saw) mp =
      (if \<not> ro \<and> di_MountPoint d = mp then Some (di_Device d) else saw mp)"
    by (simp add: markRemounts_def Let_def)
  ultimately show ?case by (cases ro) (auto simp: Cons o' split: option.split)
qed (simp add: observe_mounts_def)

section \<open>Properties\<close>

text \<open>C24: Over any history of samples, a filesystem is reported as remounted read-only exactly when
  it is read-only now, is not an image that could never be written, and either the device
  last seen writable at this mount point is this very device, or fstab declares it
  read-write. A different device mounted read-only at the path is not taken for a remount.\<close>

theorem remount_detection:
  assumes "\<not> di_RemountedRO d"
  shows "di_RemountedRO (fst (markRemounts d ro fstab (observe_mounts obs Map.empty))) \<longleftrightarrow>
    ro \<and> \<not> ReadOnlyByDesign (di_FSType d) \<and>
    (last_rw (di_MountPoint d) obs = Some (di_Device d) \<or> fstab (di_MountPoint d) = Some True)"
  using assms by (auto simp: markRemounts_def Let_def observe_mounts_last split: option.splits)

lemma remount_detection_witness:
  "let d = \<lparr>di_Device = ''/dev/mmcblk0p2'', di_MountPoint = ''/'', di_FSType = ''ext4'', di_Total = 9,
        di_Used = 1, di_Free = 8, di_UsedPct = 11, di_ReadOnly = False, di_RemountedRO = False\<rparr>
   in di_RemountedRO (fst (markRemounts d True Map.empty (observe_mounts [(d, False, Map.empty)] Map.empty)))"
  unfolding Let_def
  by (subst remount_detection) (simp_all add: ReadOnlyByDesign_def)

text \<open>Paths survive the kernel's mount table: decoding the octal escapes gives back the path the
  kernel wrote, whatever blanks and backslashes it contains.\<close>

theorem mount_path_roundtrip: "unescapeMountPath (mangle s) = s"
proof (cases "contains (mangle s) [BACKSLASH]")
  case True
  then show ?thesis by (simp add: unescapeMountPath_def unescape_mangle)
next
  case False
  then have "BACKSLASH \<notin> set (mangle s)" by (simp add: contains_char)
  then have "list_all (\<lambda>c. mangle_char c = [c]) s"
    by (induction s) (auto simp: mangle_def mangle_char_def split: if_splits)
  then have "mangle s = s" by (induction s) (simp_all add: mangle_def)
  then show ?thesis using False by (simp add: unescapeMountPath_def)
qed

end
