(* ===== verification/Procs.thy ===== *)
theory Procs
  imports Host Util
begin

text \<open>
  \<open>internal/probe/procs.go\<close>: reading \<open>/proc/<pid>/stat\<close>, the sampler that turns counters into rates
  while guarding against recycled PIDs, and the signalling of exactly the process a row
  named. \<open>clockTicks\<close>, \<open>pageSize\<close>, the owner of a directory and the outcomes of the system calls
  are arguments.
\<close>

section \<open>Data\<close>

record ProcInfo =
  pi_PID :: int
  pi_PPID :: int
  pi_Name :: string
  pi_CPUPct :: f64
  pi_MemPct :: f64
  pi_MemRSS :: "64 word"
  pi_Status :: string
  pi_User :: string
  pi_CmdLine :: string
  pi_IOReadBps :: f64
  pi_IOWriteBps :: f64
  pi_IOKnown :: bool
  pi_StartTime :: "64 word"

record procSample =
  sp_cpuTicks :: "64 word"
  sp_startTime :: "64 word"
  sp_ioRead :: "64 word"
  sp_ioWrite :: "64 word"
  sp_ioOK :: bool
  sp_at :: time

record ProcSampler =
  ps_prev :: "int \<rightharpoonup> procSample"
  ps_users :: "nat \<rightharpoonup> string"

record procStat =
  st_comm :: string
  st_state :: string
  st_ppid :: int
  st_utime :: "64 word"
  st_stime :: "64 word"
  st_startTime :: "64 word"
  st_rssPages :: "64 word"

definition NewProcSampler :: ProcSampler where
  "NewProcSampler = \<lparr>ps_prev = Map.empty, ps_users = Map.empty\<rparr>"

definition procBase :: string where "procBase = ''/proc''"
definition passwdPath :: string where "passwdPath = ''/etc/passwd''"
definition meminfoPath :: string where "meminfoPath = ''/proc/meminfo''"

section \<open>Parsing /proc\<close>

definition uint64_of :: "string \<Rightarrow> 64 word" where
  "uint64_of s = of_nat (fst (parseUint s 10 64))"

definition parseProcStat :: "string \<Rightarrow> procStat option" where
  "parseProcStat b =
     (case (indexByte b (CHR ''(''), lastIndexByte b (CHR '')'')) of
        (Some op, Some cl) \<Rightarrow>
          if cl < op then None
          else
            let f = strFields (drop (cl + 1) b)
            in if length f \<le> 21 then None
               else Some \<lparr>
                 st_comm = drop (op + 1) (take cl b),
                 st_state = f ! 0,
                 st_ppid = (case ok_of (parseInt (f ! 1) 10 32) of Some v \<Rightarrow> v | None \<Rightarrow> 0),
                 st_utime = uint64_of (f ! 11),
                 st_stime = uint64_of (f ! 12),
                 st_startTime = uint64_of (f ! 19),
                 st_rssPages =
                   (case ok_of (parseInt (f ! 21) 10 64) of
                      Some v \<Rightarrow> if v > 0 then of_int v else 0 | None \<Rightarrow> 0)\<rparr>
      | _ \<Rightarrow> None)"

definition io_line :: "string \<Rightarrow> 64 word \<times> 64 word \<times> bool \<Rightarrow> 64 word \<times> 64 word \<times> bool" where
  "io_line line st =
     (let (rd, wr, ok) = st
      in case cut line (CHR '':'') of
           None \<Rightarrow> st
         | Some (name, val) \<Rightarrow>
             (case ok_of (parseUint (trimSpace val) 10 64) of
                None \<Rightarrow> st
              | Some v \<Rightarrow>
                  if name = ''read_bytes'' then (of_nat v, wr, True)
                  else if name = ''write_bytes'' then (rd, of_nat v, True)
                  else st))"

definition readProcIO :: "host \<Rightarrow> string \<Rightarrow> 64 word \<times> 64 word \<times> bool" where
  "readProcIO h dir =
     (case h_read h (joinPath [dir, ''io'']) of
        None \<Rightarrow> (0, 0, False)
      | Some b \<Rightarrow> fold io_line (split b NL) (0, 0, False))"

definition readMemTotal :: "host \<Rightarrow> 64 word" where
  "readMemTotal h =
     (case h_read h meminfoPath of
        None \<Rightarrow> 0
      | Some b \<Rightarrow>
          (case find (\<lambda>l. hasPrefix l ''MemTotal:'') (split b NL) of
             None \<Rightarrow> 0
           | Some line \<Rightarrow>
               let f = strFields line
               in if length f < 2 then 0
                  else case ok_of (parseUint (f ! 1) 10 64) of
                    None \<Rightarrow> 0 | Some kb \<Rightarrow> of_nat kb * 1024))"

abbreviation NUL :: char where "NUL \<equiv> CHR 0x00"

definition cmdlineString :: "string \<Rightarrow> string" where
  "cmdlineString b =
     (let t = rev (dropWhile (\<lambda>c. c = NUL) (rev b)) in map (\<lambda>c. if c = NUL then CHR '' '' else c) t)"

definition argv0Base :: "string \<Rightarrow> string" where
  "argv0Base cmdline =
     (let first = (case cut cmdline (CHR '' '') of None \<Rightarrow> cmdline | Some (a, _) \<Rightarrow> a)
      in if first = [] then [] else filepathBase first)"

definition runeTrunc :: "string \<Rightarrow> int \<Rightarrow> string" where
  "runeTrunc s n =
     (if n \<le> 0 then []
      else if int (length (runes s)) \<le> n then s
      else concat (map encodeRune (take (nat n) (runes s))))"

section \<open>The sampler\<close>

definition lookupUser :: "host \<Rightarrow> nat \<Rightarrow> string" where
  "lookupUser h uid =
     (let want = nat_digits uid
      in case h_read h passwdPath of
           None \<Rightarrow> want
         | Some b \<Rightarrow>
             (case find (\<lambda>f. length f \<ge> 3 \<and> f ! 2 = want)
                     (map (\<lambda>l. split l (CHR '':'')) (split b NL)) of
                Some f \<Rightarrow> f ! 0 | None \<Rightarrow> want))"

definition userName ::
  "host \<Rightarrow> (string \<Rightarrow> nat option) \<Rightarrow> string \<Rightarrow> (nat \<rightharpoonup> string) \<Rightarrow> string \<times> (nat \<rightharpoonup> string)" where
  "userName h uid_of dir users =
     (case uid_of dir of
        None \<Rightarrow> ([], users)
      | Some uid \<Rightarrow>
          (case users uid of
             Some name \<Rightarrow> (name, users)
           | None \<Rightarrow> let name = lookupUser h uid in (name, users(uid \<mapsto> name))))"

record procEnv =
  pe_clockTicks :: f64
  pe_pageSize :: "64 word"
  pe_uid_of :: "string \<Rightarrow> nat option"

text \<open>The rates of a process against its previous sample.\<close>

definition proc_rates ::
  "f64 \<Rightarrow> procSample option \<Rightarrow> procSample \<Rightarrow> ProcInfo \<Rightarrow> ProcInfo" where
  "proc_rates ticks prev cur info =
     (case prev of
        None \<Rightarrow> info
      | Some p \<Rightarrow>
          if sp_startTime p \<noteq> sp_startTime cur then info
          else
            let dt = seconds (timeSub (sp_at cur) (sp_at p))
            in if dt \<le> 0 then info
               else
                 let info = (if sp_cpuTicks cur \<ge> sp_cpuTicks p
                       then info\<lparr>pi_CPUPct :=
                         of_nat (unat (sp_cpuTicks cur - sp_cpuTicks p)) / ticks / dt * 100\<rparr>
                       else info)
                 in if pi_IOKnown info \<and> sp_ioOK p
                    then info\<lparr>pi_IOReadBps := CounterRate (sp_ioRead cur) (sp_ioRead p) dt,
                              pi_IOWriteBps := CounterRate (sp_ioWrite cur) (sp_ioWrite p) dt\<rparr>
                    else info)"

definition readProc ::
  "procEnv \<Rightarrow> host \<Rightarrow> int \<Rightarrow> 64 word \<Rightarrow> time \<Rightarrow> ProcSampler \<Rightarrow>
   (ProcInfo \<times> procSample) option \<times> ProcSampler" where
  "readProc env h pid memTotal now s =
     (let dir = joinPath [procBase, itoa pid]
      in case h_read h (joinPath [dir, ''stat'']) of
           None \<Rightarrow> (None, s)
         | Some statBytes \<Rightarrow>
             (case parseProcStat statBytes of
                None \<Rightarrow> (None, s)
              | Some st \<Rightarrow>
                  let rss = st_rssPages st * pe_pageSize env;
                      name = Printable (st_comm st);
                      (cmd, name) = (case h_read h (joinPath [dir, ''cmdline'']) of
                          None \<Rightarrow> ([], name)
                        | Some b \<Rightarrow>
                            let cmd = Printable (runeTrunc (cmdlineString b) 200);
                                full = argv0Base cmd
                            in (cmd, if length (runes name) \<ge> 15 \<and> full \<noteq> [] \<and> hasPrefix full name
                                     then full else name));
                      (user, users) = userName h (pe_uid_of env) dir (ps_users s);
                      (ioR, ioW, ioOK) = readProcIO h dir;
                      cur = \<lparr>sp_cpuTicks = st_utime st + st_stime st, sp_startTime = st_startTime st,
                        sp_ioRead = (if ioOK then ioR else 0), sp_ioWrite = (if ioOK then ioW else 0),
                        sp_ioOK = ioOK, sp_at = now\<rparr>;
                      info = \<lparr>pi_PID = pid, pi_PPID = st_ppid st, pi_Name = name, pi_CPUPct = 0,
                        pi_MemPct = (if memTotal > 0 then
                            of_nat (unat rss) / of_nat (unat memTotal) * 100 else 0),
                        pi_MemRSS = rss, pi_Status = st_state st, pi_User = user, pi_CmdLine = cmd,
                        pi_IOReadBps = 0, pi_IOWriteBps = 0, pi_IOKnown = ioOK,
                        pi_StartTime = st_startTime st\<rparr>
                  in (Some (proc_rates (pe_clockTicks env) (ps_prev s pid) cur info, cur),
                      s\<lparr>ps_users := users\<rparr>)))"

definition pid_of :: "string \<Rightarrow> int option" where
  "pid_of name =
     (case ok_of (parseInt name 10 32) of Some v \<Rightarrow> if v \<le> 0 then None else Some v | None \<Rightarrow> None)"

fun list_loop ::
  "procEnv \<Rightarrow> host \<Rightarrow> 64 word \<Rightarrow> time \<Rightarrow> string list \<Rightarrow> ProcSampler \<Rightarrow> int list \<Rightarrow>
   ProcInfo list \<times> ProcSampler \<times> int list" where
  "list_loop env h memTotal now [] s seen = ([], s, seen)"
| "list_loop env h memTotal now (e # es) s seen =
     (case pid_of e of
        None \<Rightarrow> list_loop env h memTotal now es s seen
      | Some pid \<Rightarrow>
          (case readProc env h pid memTotal now s of
             (None, s') \<Rightarrow> list_loop env h memTotal now es s' seen
           | (Some (info, cur), s') \<Rightarrow>
               let (infos, s'', seen') =
                 list_loop env h memTotal now es
                   (s'\<lparr>ps_prev := (ps_prev s')(pid \<mapsto> cur)\<rparr>) (pid # seen)
               in (info # infos, s'', seen')))"

definition ListProcs ::
  "procEnv \<Rightarrow> host \<Rightarrow> time \<Rightarrow> ProcSampler \<Rightarrow> ProcInfo list option \<times> ProcSampler" where
  "ListProcs env h now s =
     (case h_dir h procBase of
        None \<Rightarrow> (None, s)
      | Some entries \<Rightarrow>
          let (infos, s', seen) = list_loop env h (readMemTotal h) now entries s []
          in (Some (sort_by (\<lambda>a b. pi_CPUPct a > pi_CPUPct b) infos),
              s'\<lparr>ps_prev := ps_prev s' |` set seen\<rparr>))"

section \<open>Signals and priorities\<close>

datatype errno = ESRCH | ENOSYS | EPERM | EOTHER string
datatype procErr = ErrProcGone | ErrUnparseable int | ErrOS string

text \<open>Reading a start time; \<open>notExist\<close> says whether a failed read was for lack of the file.\<close>

definition ProcStartTime :: "host \<Rightarrow> (string \<Rightarrow> procErr) \<Rightarrow> int \<Rightarrow> procErr + 64 word" where
  "ProcStartTime h read_err pid =
     (let path = joinPath [procBase, itoa pid, ''stat'']
      in case h_read h path of
           None \<Rightarrow> Inl (read_err path)
         | Some b \<Rightarrow>
             (case parseProcStat b of
                None \<Rightarrow> Inl (ErrUnparseable pid) | Some st \<Rightarrow> Inr (st_startTime st)))"

definition checkStart :: "host \<Rightarrow> (string \<Rightarrow> procErr) \<Rightarrow> int \<Rightarrow> 64 word \<Rightarrow> procErr option" where
  "checkStart h read_err pid start =
     (if start = 0 then None
      else case ProcStartTime h read_err pid of
        Inl e \<Rightarrow> Some e
      | Inr got \<Rightarrow> if got \<noteq> start then Some ErrProcGone else None)"

text \<open>
  The processes alive at one moment: for each PID the start time of the process it names.
  \<open>signalProc\<close> looks at the world at three moments: when the pidfd is opened (\<open>k0\<close>), when the
  start time is read (through the files of \<open>h1\<close>), and when the signal is sent (\<open>k2\<close>). A pidfd
  pins the process it was opened for; \<open>pidfdErr\<close>, \<open>sendErr\<close> and \<open>killErr\<close> are refusals by the
  kernel. The result says which process, if any, received the signal.
\<close>

type_synonym procs = "int \<rightharpoonup> 64 word"

definition pidfd_open :: "errno option \<Rightarrow> procs \<Rightarrow> int \<Rightarrow> errno + 64 word" where
  "pidfd_open pidfdErr k pid =
     (case pidfdErr of
        Some e \<Rightarrow> Inl e
      | None \<Rightarrow> (case k pid of None \<Rightarrow> Inl ESRCH | Some s \<Rightarrow> Inr s))"

definition os_error :: "errno \<Rightarrow> procErr" where
  "os_error e = (case e of ESRCH \<Rightarrow> ErrOS ''ESRCH'' | ENOSYS \<Rightarrow> ErrOS ''ENOSYS''
     | EPERM \<Rightarrow> ErrOS ''EPERM'' | EOTHER s \<Rightarrow> ErrOS s)"

datatype signal = SIGTERM | SIGKILL | SIGSTOP | SIGCONT

definition signalProc ::
  "int \<Rightarrow> 64 word \<Rightarrow> signal \<Rightarrow> procs \<Rightarrow> host \<Rightarrow> procs \<Rightarrow> (string \<Rightarrow> procErr) \<Rightarrow>
   errno option \<Rightarrow> errno option \<Rightarrow> errno option \<Rightarrow>
   procErr option \<times> (int \<times> 64 word \<times> signal) option" where
  "signalProc pid start sig k0 h1 k2 read_err pidfdErr sendErr killErr =
     (if pid \<le> 0 then (Some ErrProcGone, None)
      else case pidfd_open pidfdErr k0 pid of
        Inl ESRCH \<Rightarrow> (Some ErrProcGone, None)
      | Inl e \<Rightarrow>
          if e = ENOSYS \<or> e = EPERM then
            (case checkStart h1 read_err pid start of
               Some err \<Rightarrow> (Some err, None)
             | None \<Rightarrow>
                 (case killErr of
                    Some e \<Rightarrow> (Some (os_error e), None)
                  | None \<Rightarrow>
                      (case k2 pid of
                         None \<Rightarrow> (Some (os_error ESRCH), None)
                       | Some s \<Rightarrow> (None, Some (pid, s, sig)))))
          else (Some (os_error e), None)
      | Inr pinned \<Rightarrow>
          (case checkStart h1 read_err pid start of
             Some err \<Rightarrow> (Some err, None)
           | None \<Rightarrow>
               (case sendErr of
                  Some ESRCH \<Rightarrow> (Some ErrProcGone, None)
                | Some e \<Rightarrow> (Some (os_error e), None)
                | None \<Rightarrow>
                    if k2 pid = Some pinned then (None, Some (pid, pinned, sig))
                    else (Some ErrProcGone, None))))"

definition KillProcess where
  "KillProcess pid start hard = signalProc pid start (if hard then SIGKILL else SIGTERM)"

definition SuspendProcess where
  "SuspendProcess pid start = signalProc pid start SIGSTOP"

definition ResumeProcess where
  "ResumeProcess pid start = signalProc pid start SIGCONT"

definition getNice :: "int option \<Rightarrow> int" where
  "getNice raw = (case raw of None \<Rightarrow> 0 | Some r \<Rightarrow> 20 - r)"

definition ClampNice :: "int \<Rightarrow> int" where
  "ClampNice n = (if n < -20 then -20 else if n > 19 then 19 else n)"

text \<open>The niceness that reaches the kernel, and for which PID.\<close>

definition SetNice ::
  "host \<Rightarrow> (string \<Rightarrow> procErr) \<Rightarrow> int \<Rightarrow> 64 word \<Rightarrow> int \<Rightarrow> procErr + (int \<times> int)" where
  "SetNice h read_err pid start nice =
     (if pid \<le> 0 then Inl ErrProcGone
      else case checkStart h read_err pid start of
        Some e \<Rightarrow> Inl e
      | None \<Rightarrow> Inr (pid, ClampNice nice))"

definition CheckProcIO :: "host \<Rightarrow> int \<Rightarrow> Capability" where
  "CheckProcIO h self =
     (let c = (cap ''per-process disk I/O'' (joinPath [procBase, ''<pid>'', ''io''])
                 ''the Processes tab I/O columns and the process detail view'')
              \<lparr>cap_Fix := ''run ucmon as root, or grant the binary the capability:'' @ [NL] @
                 ''sudo setcap cap_sys_ptrace+ep $(command -v ucmon)''\<rparr>;
          selfDir = joinPath [procBase, itoa self];
          other = joinPath [procBase, ''1'']
      in if \<not> snd (snd (readProcIO h selfDir)) then
           (let (st, why) = pathStatus h (joinPath [selfDir, ''io''])
            in if st = CapDenied then
                 c\<lparr>cap_Status := CapDenied,
                   cap_Detail := why @ '' '' @ EMDASH @ '' even this process's own counters are refused''\<rparr>
               else
                 c\<lparr>cap_Status := CapAbsent,
                   cap_Detail := why @ '' '' @ EMDASH @ '' kernel built without CONFIG_TASK_IO_ACCOUNTING'',
                   cap_Fix := []\<rparr>)
         else if \<not> snd (snd (readProcIO h other)) then
           c\<lparr>cap_Status := CapDenied,
             cap_Detail := ''own processes only; '' @ joinPath [other, ''io''] @
               '' is unreadable without CAP_SYS_PTRACE''\<rparr>
         else
           c\<lparr>cap_Status := CapPresent, cap_Detail := ''readable for every process'', cap_Fix := []\<rparr>)"

section \<open>Lemmas\<close>

text \<open>Fields of a line whose tokens are printable and separated by single blanks.\<close>

definition token :: "string \<Rightarrow> bool" where
  "token t \<longleftrightarrow> t \<noteq> [] \<and> list_all graphic t"

lemma strFields_from_token:
  "list_all graphic t \<Longrightarrow> strFields_from cur (t @ s) = strFields_from (cur @ t) s"
  by (induction t arbitrary: cur) (simp_all add: space_at_graphic)

lemma strFields_from_join:
  "list_all token ts \<Longrightarrow> cur \<noteq> [] \<Longrightarrow>
   strFields_from cur (concat (map (\<lambda>t. CHR '' '' # t) ts)) = cur # ts"
proof (induction ts arbitrary: cur)
  case (Cons t ts)
  have "space_at (CHR '' '' # t @ concat (map (\<lambda>t. CHR '' '' # t) ts)) = 1"
    by (rule space_at_blank) simp
  then show ?case using Cons by (simp add: strFields_from_token token_def)
qed simp

lemma strFields_blanks:
  "list_all token ts \<Longrightarrow> strFields (concat (map (\<lambda>t. CHR '' '' # t) ts)) = ts"
proof (cases ts)
  case (Cons t ts')
  assume ts: "list_all token ts"
  have "space_at (CHR '' '' # t @ concat (map (\<lambda>t. CHR '' '' # t) ts')) = 1"
    by (rule space_at_blank) simp
  then show ?thesis using ts Cons
    by (simp add: strFields_def strFields_from_token strFields_from_join token_def)
qed (simp add: strFields_def)

lemma token_digits: "token (nat_digits n)"
  using nat_digits_all_digits [of n] by (auto simp: token_def list_all_iff graphic_def is_digit_def)

lemma uint64_of_digits: "n < 2 ^ 64 \<Longrightarrow> uint64_of (nat_digits n) = of_nat n"
  by (simp add: uint64_of_def parseUint_def digits_val_nat_digits)

lemma drop_past: "drop (length a + 1) (a @ c # r) = r"
  by simp

text \<open>
  What the files of a process say at one moment: the sample the next listing measures against.
\<close>

definition sample_of :: "host \<Rightarrow> time \<Rightarrow> int \<Rightarrow> procSample option" where
  "sample_of h now pid =
     (let dir = joinPath [procBase, itoa pid]; (rd, wr, ok) = readProcIO h dir
      in map_option (\<lambda>st. \<lparr>sp_cpuTicks = st_utime st + st_stime st, sp_startTime = st_startTime st,
             sp_ioRead = (if ok then rd else 0), sp_ioWrite = (if ok then wr else 0), sp_ioOK = ok, sp_at = now\<rparr>)
           (Option.bind (h_read h (joinPath [dir, ''stat''])) parseProcStat))"

definition no_rates :: "ProcInfo \<Rightarrow> bool" where
  "no_rates i \<longleftrightarrow> pi_CPUPct i = 0 \<and> pi_IOReadBps i = 0 \<and> pi_IOWriteBps i = 0"

text \<open>
  What a row says of a process between two samples: counters that went backwards count as unchanged.
\<close>

definition row_ok :: "f64 \<Rightarrow> procSample option \<Rightarrow> procSample \<Rightarrow> ProcInfo \<Rightarrow> bool" where
  "row_ok ticks prev cur i \<longleftrightarrow>
     pi_StartTime i = sp_startTime cur \<and> pi_IOKnown i = sp_ioOK cur \<and>
     (case prev of
        None \<Rightarrow> no_rates i
      | Some p \<Rightarrow>
          if sp_startTime p = sp_startTime cur \<and> sp_at p < sp_at cur then
            (let dt = seconds (timeSub (sp_at cur) (sp_at p)); io = sp_ioOK p \<and> sp_ioOK cur
             in pi_CPUPct i = of_nat (unat (sp_cpuTicks cur) - unat (sp_cpuTicks p)) / ticks / dt * 100 \<and>
                pi_IOReadBps i = (if io then of_nat (unat (sp_ioRead cur) - unat (sp_ioRead p)) / dt else 0) \<and>
                pi_IOWriteBps i = (if io then of_nat (unat (sp_ioWrite cur) - unat (sp_ioWrite p)) / dt else 0))
          else no_rates i)"

lemma proc_rates_ids [simp]:
  "pi_PID (proc_rates ticks prev cur info) = pi_PID info"
  "pi_StartTime (proc_rates ticks prev cur info) = pi_StartTime info"
  "pi_IOKnown (proc_rates ticks prev cur info) = pi_IOKnown info"
  by (simp_all add: proc_rates_def Let_def split: option.split)

lemma seconds_between: "0 < seconds (timeSub t u) \<longleftrightarrow> u < t"
  by (auto simp: seconds_def timeSub_def minDuration_def maxDuration_def)

lemma CounterRate_grown: "0 < dt \<Longrightarrow> CounterRate cur prev dt = of_nat (unat cur - unat prev) / dt"
  using CounterRate_bounded by blast

lemma unat_grown: "p \<le> c \<Longrightarrow> unat (c - p) = unat c - unat (p :: 64 word)"
  by (simp add: unat_sub)

lemma proc_rates_ok:
  assumes "no_rates info" "pi_StartTime info = sp_startTime cur" "pi_IOKnown info = sp_ioOK cur"
  shows "row_ok ticks prev cur (proc_rates ticks prev cur info)"
proof (cases prev)
  case (Some p)
  let ?dt = "seconds (timeSub (sp_at cur) (sp_at p))"
  show ?thesis
  proof (cases "sp_startTime p = sp_startTime cur \<and> sp_at p < sp_at cur")
    case True
    then have dt: "0 < ?dt" by (simp add: seconds_between)
    have cpu: "unat (sp_cpuTicks cur) - unat (sp_cpuTicks p) = 0" if "\<not> sp_cpuTicks p \<le> sp_cpuTicks cur"
      using that by (simp add: word_le_nat_alt)
    show ?thesis
      using True dt assms
      by (auto simp: row_ok_def proc_rates_def no_rates_def Some Let_def CounterRate_grown unat_grown cpu not_le
          simp del: of_nat_unat of_nat_diff)
  next
    case False
    then have "sp_startTime p \<noteq> sp_startTime cur \<or> ?dt \<le> 0"
      using seconds_between [of "sp_at cur" "sp_at p"] by linarith
    then show ?thesis
      using False assms by (auto simp: row_ok_def proc_rates_def no_rates_def Some Let_def)
  qed
qed (use assms in \<open>simp add: row_ok_def proc_rates_def\<close>)

lemma readProc_row:
  assumes "readProc env h pid mt now s = (r, s')"
  shows "map_option snd r = sample_of h now pid \<and> ps_prev s' = ps_prev s \<and>
    (\<forall>i cur. r = Some (i, cur) \<longrightarrow> pi_PID i = pid \<and> row_ok (pe_clockTicks env) (ps_prev s pid) cur i)"
  using assms
  by (auto simp: readProc_def sample_of_def Let_def no_rates_def intro!: proc_rates_ok
      split: option.splits prod.splits)

interpretation by_cpu: weak_order "\<lambda>a b :: ProcInfo. pi_CPUPct a > pi_CPUPct b"
  by unfold_locales auto

text \<open>The processes a directory of \<open>/proc\<close> names, and those among them that can be read.\<close>

definition pids_in :: "string list \<Rightarrow> int list" where
  "pids_in es = map the (filter (\<lambda>p. p \<noteq> None) (map pid_of es))"

lemma pids_in_simps [simp]:
  "pids_in [] = []" "pids_in (e # es) = (case pid_of e of None \<Rightarrow> [] | Some p \<Rightarrow> [p]) @ pids_in es"
  by (simp_all add: pids_in_def split: option.split)

lemma list_loop_rows:
  "distinct (pids_in es) \<Longrightarrow> list_loop env h mt now es s seen = (infos, s', seen') \<Longrightarrow>
   map pi_PID infos = filter (\<lambda>pid. sample_of h now pid \<noteq> None) (pids_in es) \<and>
   set seen' = set seen \<union> set (map pi_PID infos) \<and>
   ps_prev s' = (\<lambda>pid. if pid \<in> set (map pi_PID infos) then sample_of h now pid else ps_prev s pid) \<and>
   (\<forall>i \<in> set infos. row_ok (pe_clockTicks env) (ps_prev s (pi_PID i)) (the (sample_of h now (pi_PID i))) i)"
proof (induction es arbitrary: s seen infos s' seen')
  case Nil
  then show ?case by auto
next
  case (Cons e es)
  have d: "distinct (pids_in es)" using Cons.prems(1) by (simp split: option.splits)
  show ?case
  proof (cases "pid_of e")
    case None
    then have pids: "pids_in (e # es) = pids_in es" "list_loop env h mt now es s seen = (infos, s', seen')"
      using Cons.prems(2) by simp_all
    show ?thesis unfolding pids(1) by (rule Cons.IH [OF d pids(2)])
  next
    case (Some pid)
    then have new: "pid \<notin> set (pids_in es)" using Cons.prems(1) by simp
    obtain r s1 where rd: "readProc env h pid mt now s = (r, s1)" by fastforce
    note row = readProc_row [OF rd]
    show ?thesis
    proof (cases r)
      case None
      then have loop: "list_loop env h mt now es s1 seen = (infos, s', seen')" and "sample_of h now pid = None"
          and prev: "ps_prev s1 = ps_prev s"
        using Cons.prems(2) Some rd row by auto
      then have pids: "filter (\<lambda>pid. sample_of h now pid \<noteq> None) (pids_in (e # es)) =
          filter (\<lambda>pid. sample_of h now pid \<noteq> None) (pids_in es)"
        using Some by simp
      show ?thesis unfolding pids using Cons.IH [OF d loop] unfolding prev .
    next
      case (Some x)
      obtain i cur where x: "x = (i, cur)" by (cases x)
      define s2 where "s2 = s1\<lparr>ps_prev := (ps_prev s1)(pid \<mapsto> cur)\<rparr>"
      obtain rows s3 seen3 where loop: "list_loop env h mt now es s2 (pid # seen) = (rows, s3, seen3)"
        by (metis prod_cases3)
      have res: "infos = i # rows" "s' = s3" "seen' = seen3"
        using Cons.prems(2) \<open>pid_of e = Some pid\<close> rd Some x loop by (simp_all add: s2_def)
      have i: "sample_of h now pid = Some cur" "pi_PID i = pid" "row_ok (pe_clockTicks env) (ps_prev s pid) cur i"
        "ps_prev s2 = (ps_prev s)(pid \<mapsto> cur)"
        using row Some x by (auto simp: s2_def)
      note IH = Cons.IH [OF d loop]
      have pids: "set (map pi_PID rows) \<subseteq> set (pids_in es)" using IH by auto
      have rows: "row_ok (pe_clockTicks env) (ps_prev s (pi_PID j)) (the (sample_of h now (pi_PID j))) j"
        if "j \<in> set rows" for j
      proof -
        have "pi_PID j \<noteq> pid" using that pids new by auto
        then show ?thesis using IH that i(4) by auto
      qed
      show ?thesis
      proof (intro conjI)
        show "map pi_PID infos = filter (\<lambda>pid. sample_of h now pid \<noteq> None) (pids_in (e # es))"
          using IH [THEN conjunct1] i(1,2) \<open>pid_of e = Some pid\<close> by (simp add: res(1))
        show "set seen' = set seen \<union> set (map pi_PID infos)"
          using IH [THEN conjunct2, THEN conjunct1] i(2) by (simp add: res)
        show "ps_prev s' = (\<lambda>pid. if pid \<in> set (map pi_PID infos) then sample_of h now pid else ps_prev s pid)"
          unfolding res(2) IH [THEN conjunct2, THEN conjunct2, THEN conjunct1]
          using i(1,2) by (auto simp: res(1) i(4) fun_eq_iff)
        show "\<forall>i \<in> set infos. row_ok (pe_clockTicks env) (ps_prev s (pi_PID i)) (the (sample_of h now (pi_PID i))) i"
          using rows i(1-3) by (simp add: res(1))
      qed
    qed
  qed
qed

text \<open>
  A stat line: the columns after the state are tokens, of which the reader uses the parent, the two times,
  the start and the resident pages; the line may end in a newline.
\<close>

definition stat_line :: "nat \<Rightarrow> string \<Rightarrow> string list \<Rightarrow> string \<Rightarrow> string" where
  "stat_line pid comm cols eol = nat_digits pid @ '' ('' @ comm @ '')'' @ concat (map (\<lambda>t. CHR '' '' # t) cols) @ eol"

lemma strFields_blanks_end:
  assumes "list_all token ts" "eol = [] \<or> eol = [NL]"
  shows "strFields (concat (map (\<lambda>t. CHR '' '' # t) ts) @ eol) = ts"
proof -
  have nl: "space_at [NL] = 1" by code_simp
  have run: "strFields_from cur (concat (map (\<lambda>t. CHR '' '' # t) ts) @ [NL]) = cur # ts" if "cur \<noteq> []" for cur
    using assms(1) that
  proof (induction ts arbitrary: cur)
    case Nil
    then show ?case using nl by simp
  next
    case (Cons t ts)
    have "space_at (CHR '' '' # t @ concat (map (\<lambda>t. CHR '' '' # t) ts) @ [NL]) = 1"
      by (rule space_at_blank) simp
    then show ?case using Cons by (simp add: strFields_from_token token_def)
  qed
  show ?thesis
  proof (cases "eol = []")
    case False
    show ?thesis
    proof (cases ts)
      case (Cons t ts')
      have "space_at (CHR '' '' # t @ concat (map (\<lambda>t. CHR '' '' # t) ts') @ [NL]) = 1"
        by (rule space_at_blank) simp
      then show ?thesis
        using assms False Cons run [of t] by (simp add: strFields_def strFields_from_token token_def)
    qed (use assms False nl in \<open>simp add: strFields_def\<close>)
  qed (simp add: assms(1) strFields_blanks)
qed

lemma parseInt_itoa:
  "- (2 ^ (bits - 1)) \<le> v \<Longrightarrow> v < 2 ^ (bits - 1) \<Longrightarrow> 0 < bits \<Longrightarrow> ok_of (parseInt (itoa v) 10 bits) = Some v"
  using nat_digits_hd [of "nat v"]
  by (auto simp: itoa_def parseInt_def Let_def digits_val_nat_digits ok_of_def is_digit_def)

lemma parseProcStat_line:
  assumes "list_all token cols" "list_all (\<lambda>t. CHR '')'' \<notin> set t) cols" "22 \<le> length cols" "eol = [] \<or> eol = [NL]"
    and "cols ! 1 = itoa ppid" "- (2 ^ 31) \<le> ppid" "ppid < 2 ^ 31"
    and "cols ! 11 = nat_digits ut" "cols ! 12 = nat_digits st" "cols ! 19 = nat_digits start"
    and "ut < 2 ^ 64" "st < 2 ^ 64" "start < 2 ^ 64"
    and "cols ! 21 = itoa rss" "- (2 ^ 63) \<le> rss" "rss < 2 ^ 63"
  shows "parseProcStat (stat_line pid comm cols eol) =
    Some \<lparr>st_comm = comm, st_state = cols ! 0, st_ppid = ppid, st_utime = of_nat ut, st_stime = of_nat st,
      st_startTime = of_nat start, st_rssPages = (if 0 < rss then of_int rss else 0)\<rparr>"
proof -
  let ?rest = "concat (map (\<lambda>t. CHR '' '' # t) cols) @ eol"
  let ?line = "nat_digits pid @ '' ('' @ comm @ '')'' @ ?rest"
  have cl: "lastIndexByte ?line (CHR '')'') = Some (length (nat_digits pid @ '' ('' @ comm))"
    using lastIndexByte_append [of "CHR '')''" ?rest "nat_digits pid @ '' ('' @ comm"] assms(2,4)
    by (auto simp: list_all_iff)
  have "CHR ''('' \<notin> set (nat_digits pid)"
    using nat_digits_all_digits [of pid] by (auto simp: list_all_iff is_digit_def)
  then have op: "indexByte ?line (CHR ''('') = Some (length (nat_digits pid @ '' ''))"
    using indexByte_append [of "CHR ''(''" "nat_digits pid @ '' ''" "comm @ '')'' @ ?rest"] by simp
  have f: "strFields ?rest = cols"
    using assms(1,4) by (rule strFields_blanks_end)
  have nums: "ok_of (parseInt (itoa ppid) 10 32) = Some ppid" "ok_of (parseInt (itoa rss) 10 64) = Some rss"
    using parseInt_itoa [of 32 ppid] parseInt_itoa [of 64 rss] assms(6,7,15,16) by simp_all
  have "take (length (nat_digits pid @ '' ('' @ comm)) ?line = nat_digits pid @ '' ('' @ comm"
    "drop (length (nat_digits pid @ '' ('' @ comm) + 1) ?line = ?rest"
    using drop_past [of "nat_digits pid @ '' ('' @ comm" "CHR '')''" ?rest] by simp_all
  then show ?thesis
    unfolding stat_line_def parseProcStat_def cl op Let_def using f nums assms
    by (simp add: uint64_of_digits del: list.map concat.simps)
qed

section \<open>Properties\<close>

text \<open>C38: A stat line gives back what the kernel put in it, whatever the program is called: a name
  with blanks and parentheses of its own is recovered exactly, and the columns after it are
  read from the right places. The columns that are not read may hold anything, such as the \<open>-1\<close> of a
  process without a terminal or the unlimited \<open>rsslim\<close>, and the line may end in a newline.\<close>

theorem proc_stat_roundtrip:
  assumes "list_all token cols" "list_all (\<lambda>t. CHR '')'' \<notin> set t) cols" "22 \<le> length cols" "eol = [] \<or> eol = [NL]"
    and "cols ! 1 = itoa ppid" "- (2 ^ 31) \<le> ppid" "ppid < 2 ^ 31"
    and "cols ! 11 = nat_digits ut" "cols ! 12 = nat_digits st" "cols ! 19 = nat_digits start"
    and "ut < 2 ^ 64" "st < 2 ^ 64" "start < 2 ^ 64"
    and "cols ! 21 = itoa rss" "- (2 ^ 63) \<le> rss" "rss < 2 ^ 63"
  shows "parseProcStat (stat_line pid comm cols eol) =
    Some \<lparr>st_comm = comm, st_state = cols ! 0, st_ppid = ppid, st_utime = of_nat ut, st_stime = of_nat st,
      st_startTime = of_nat start, st_rssPages = (if 0 < rss then of_int rss else 0)\<rparr>"
  using assms by (rule parseProcStat_line)

text \<open>The line of a kernel thread as it stands in \<open>/proc\<close>.\<close>

definition stat_cols :: "string list" where
  "stat_cols = [''S'', ''2'', ''0'', ''0'', ''0'', ''-1'', ''69238880'', ''0'', ''0'', ''0'', ''0'', ''30'', ''20'',
     ''0'', ''0'', ''20'', ''0'', ''1'', ''0'', ''99'', ''0'', ''5'', ''18446744073709551615'', ''0'']"

lemma stat_cols_digits:
  "itoa 2 = ''2''" "nat_digits 30 = ''30''" "nat_digits 20 = ''20''" "nat_digits 99 = ''99''" "itoa 5 = ''5''"
  "nat_digits 7 = ''7''"
  by code_simp+

lemma proc_stat_roundtrip_witness:
  "parseProcStat (''7 (a) S (b) S 2 0 0 0 -1 69238880 0 0 0 0 30 20 0 0 20 0 1 0 99 0 5 18446744073709551615 0'' @ [NL]) =
   Some \<lparr>st_comm = ''a) S (b'', st_state = ''S'', st_ppid = 2, st_utime = 30, st_stime = 20, st_startTime = 99,
     st_rssPages = 5\<rparr>"
proof -
  have "stat_line 7 ''a) S (b'' stat_cols [NL] =
      ''7 (a) S (b) S 2 0 0 0 -1 69238880 0 0 0 0 30 20 0 0 20 0 1 0 99 0 5 18446744073709551615 0'' @ [NL]"
    by (simp add: stat_line_def stat_cols_def stat_cols_digits)
  then show ?thesis
    using proc_stat_roundtrip [of stat_cols "[NL]" 2 30 20 99 5 7 "''a) S (b''"]
    by (simp add: stat_cols_digits) (simp add: stat_cols_def token_def graphic_def)
qed

text \<open>C33: A listing has one row for every process of \<open>/proc\<close> whose stat file can be read, sorted by CPU
  use, and every rate is exact: over the time since the sampler's previous sample of the same process, the
  CPU share is the ticks it used by the clock's rate in per cent, and the I/O rates are the bytes it read
  and wrote per second, where both samples know them. A process the sampler did not know, or knew under the
  same PID with another start time, shows no rates at all: a recycled PID never inherits counters. What the
  sampler remembers next are exactly the samples of the processes just listed. The directory names no
  process twice.\<close>

theorem proc_listing_sound:
  assumes "ListProcs env h now s = (Some infos, s')" "h_dir h procBase = Some es" "distinct (pids_in es)"
  shows "mset (map pi_PID infos) = mset (filter (\<lambda>pid. sample_of h now pid \<noteq> None) (pids_in es)) \<and>
    (\<forall>i \<in> set infos. row_ok (pe_clockTicks env) (ps_prev s (pi_PID i)) (the (sample_of h now (pi_PID i))) i) \<and>
    sorted_wrt (\<lambda>a b. pi_CPUPct b \<le> pi_CPUPct a) infos \<and>
    ps_prev s' = (\<lambda>pid. if pid \<in> set (pids_in es) then sample_of h now pid else None)"
proof -
  obtain rows s1 seen where loop: "list_loop env h (readMemTotal h) now es s [] = (rows, s1, seen)"
    by (metis prod_cases3)
  have r: "infos = sort_by (\<lambda>a b. pi_CPUPct a > pi_CPUPct b) rows" "s' = s1\<lparr>ps_prev := ps_prev s1 |` set seen\<rparr>"
    using assms(1,2) loop by (auto simp: ListProcs_def)
  note l = list_loop_rows [OF assms(3) loop]
  have seen: "set seen = set (map pi_PID rows)" unfolding l [THEN conjunct2, THEN conjunct1] by simp
  note pids = l [THEN conjunct1] and mem = l [THEN conjunct2, THEN conjunct2, THEN conjunct1]
  have m: "mset infos = mset rows" by (simp add: r)
  have "mset (map pi_PID infos) = mset (map pi_PID rows)" unfolding mset_map m ..
  then have "mset (map pi_PID infos) = mset (filter (\<lambda>pid. sample_of h now pid \<noteq> None) (pids_in es))"
    unfolding pids .
  moreover have "set infos = set rows" using m by (rule mset_eq_setD)
  then have "\<forall>i \<in> set infos. row_ok (pe_clockTicks env) (ps_prev s (pi_PID i)) (the (sample_of h now (pi_PID i))) i"
    using l by simp
  moreover have "sorted_wrt (\<lambda>a b. pi_CPUPct b \<le> pi_CPUPct a) infos"
    using by_cpu.sort_by_sorted [of rows] by (simp add: r not_less)
  moreover have "ps_prev s' = (\<lambda>pid. if pid \<in> set (pids_in es) then sample_of h now pid else None)"
  proof
    fix pid
    have "pid \<in> set (map pi_PID rows) \<longleftrightarrow> pid \<in> set (pids_in es) \<and> sample_of h now pid \<noteq> None"
      unfolding pids by simp
    moreover have "ps_prev s' pid = (if pid \<in> set (map pi_PID rows) then sample_of h now pid else None)"
      by (simp add: r restrict_map_def seen mem del: set_map)
    ultimately show "ps_prev s' pid = (if pid \<in> set (pids_in es) then sample_of h now pid else None)"
      by simp
  qed
  ultimately show ?thesis by (intro conjI)
qed

text \<open>A host with one process, for the examples.\<close>

definition example_stat :: string where
  "example_stat = stat_line 7 ''sh'' stat_cols [NL]"

definition example_io :: string where
  "example_io = ''rchar: 9'' @ [NL] @ ''read_bytes: 5000'' @ [NL] @ ''write_bytes: 300'' @ [NL]"

definition example_host :: host where
  "example_host = \<lparr>h_read = (\<lambda>p. if p = ''/proc/7/stat'' then Some example_stat
       else if p = ''/proc/7/io'' then Some example_io else None),
     h_dir = (\<lambda>p. if p = ''/proc'' then Some [''7'', ''self''] else None), h_open = (\<lambda>_. O_ok),
     h_canWrite = (\<lambda>_. W_denied), h_stat = (\<lambda>_. False), h_look = (\<lambda>_. None),
     h_exec = (\<lambda>_ _. None)\<rparr>"

lemma example_paths:
  "joinPath [procBase, itoa 7] = ''/proc/7''" "joinPath [''/proc/7'', ''stat''] = ''/proc/7/stat''"
  "joinPath [procBase, itoa 7, ''stat''] = ''/proc/7/stat''" "joinPath [''/proc/7'', ''io''] = ''/proc/7/io''"
  by code_simp+

lemma example_stat_parse: "parseProcStat example_stat =
    Some \<lparr>st_comm = ''sh'', st_state = ''S'', st_ppid = 2, st_utime = 30, st_stime = 20, st_startTime = 99, st_rssPages = 5\<rparr>"
  unfolding example_stat_def
  by (subst parseProcStat_line [where ppid = 2 and ut = 30 and st = 20 and start = 99 and rss = 5])
    (simp_all only: stat_cols_digits, simp_all add: stat_cols_def token_def graphic_def)

lemma example_readIO: "readProcIO example_host ''/proc/7'' = (5000, 300, True)"
proof -
  have "split example_io NL = [''rchar: 9'', ''read_bytes: 5000'', ''write_bytes: 300'', []]"
    by code_simp
  moreover have "trimSpace '' 9'' = ''9''" "trimSpace '' 5000'' = ''5000''" "trimSpace '' 300'' = ''300''"
    by code_simp+
  ultimately show ?thesis
    by (simp add: readProcIO_def example_paths example_host_def io_line_def cut_def parseUint_def ok_of_def digit_val.simps)
qed

lemma example_start: "ProcStartTime example_host e 7 = Inr 99"
  using example_stat_parse by (simp add: ProcStartTime_def example_paths example_host_def)

lemma example_sample: "sample_of example_host now 7 = Some \<lparr>sp_cpuTicks = 50, sp_startTime = 99, sp_ioRead = 5000,
    sp_ioWrite = 300, sp_ioOK = True, sp_at = now\<rparr>"
proof -
  have "h_read example_host ''/proc/7/stat'' = Some example_stat" by (simp add: example_host_def)
  then show ?thesis
    by (simp add: sample_of_def example_paths example_readIO example_stat_parse)
qed

lemma example_pids: "h_dir example_host procBase = Some [''7'', ''self'']" "pids_in [''7'', ''self''] = [7]"
proof -
  have "pid_of ''7'' = Some 7" by (simp add: pid_of_def parseInt_def ok_of_def Let_def digit_val.simps)
  moreover have "pid_of ''self'' = None" by (simp add: pid_of_def parseInt_def ok_of_def Let_def digit_val.simps)
  ultimately show "pids_in [''7'', ''self''] = [7]" by (simp del: One_nat_def)
qed (simp add: example_host_def procBase_def)

text \<open>Two seconds in which a process used half a second of CPU, read 4000 bytes and wrote 200.\<close>

lemma proc_listing_sound_witness:
  "let env = \<lparr>pe_clockTicks = 100, pe_pageSize = 4096, pe_uid_of = (\<lambda>_. None)\<rparr>;
       before = \<lparr>sp_cpuTicks = 0, sp_startTime = 99, sp_ioRead = 1000, sp_ioWrite = 100, sp_ioOK = True, sp_at = 0\<rparr>
   in \<exists>i s'. ListProcs env example_host (2 * second) (NewProcSampler\<lparr>ps_prev := [7 \<mapsto> before]\<rparr>) = (Some [i], s') \<and>
     pi_PID i = 7 \<and> pi_CPUPct i = 25 \<and> pi_IOReadBps i = 2000 \<and> pi_IOWriteBps i = 100 \<and>
     ps_prev s' = [7 \<mapsto> \<lparr>sp_cpuTicks = 50, sp_startTime = 99, sp_ioRead = 5000, sp_ioWrite = 300, sp_ioOK = True,
       sp_at = 2 * second\<rparr>]"
proof -
  let ?env = "\<lparr>pe_clockTicks = 100, pe_pageSize = 4096, pe_uid_of = (\<lambda>_. None)\<rparr>"
  let ?before = "\<lparr>sp_cpuTicks = 0, sp_startTime = 99, sp_ioRead = 1000, sp_ioWrite = 100, sp_ioOK = True, sp_at = 0\<rparr>"
  let ?s = "NewProcSampler\<lparr>ps_prev := [7 \<mapsto> ?before]\<rparr>"
  have "\<exists>infos s'. ListProcs ?env example_host (2 * second) ?s = (Some infos, s')"
    by (simp add: ListProcs_def example_pids del: list_loop.simps split: prod.split)
  then obtain infos s' where l: "ListProcs ?env example_host (2 * second) ?s = (Some infos, s')" by blast
  note sound = proc_listing_sound [OF l example_pids(1), unfolded example_pids(2)]
  have "mset (map pi_PID infos) = {#7#}" using sound by (simp add: example_sample)
  then obtain i where i: "infos = [i]" "pi_PID i = 7" by (cases infos) auto
  have "row_ok 100 (Some ?before) (the (sample_of example_host (2 * second) 7)) i" using sound i by simp
  moreover have "ps_prev s' = [7 \<mapsto> the (sample_of example_host (2 * second) 7)]"
    using sound by (auto simp: example_sample)
  ultimately show ?thesis
    using l i by (auto simp: Let_def row_ok_def example_sample seconds_def timeSub_def minDuration_def maxDuration_def)
qed

text \<open>C13: A signal reaches the process the row named, or none. Let \<open>k i\<close> be the processes alive at
  moment \<open>i\<close>; a process is identified by its PID and start time, and a dead one does not come
  back. The row was read at moment \<open>r\<close>; the pidfd is opened, the start time read and the signal sent at
  later moments, with anything happening in between. Then a signal is reported sent exactly when one was,
  and to the PID of the row. When the row's start time is known, the named process was alive under its PID
  when the start time was read; with a pidfd it is the one that received the signal, and without one (an
  old kernel, or a filter that refuses the call) so it is unless the PID changed hands between that check
  and the signal. A row whose start time is not known is only held to its PID.\<close>

theorem signal_reaches_named_process:
  assumes "k r pid = Some start" "r \<le> t0" "t0 \<le> t1"
    and no_revival: "\<And>i j l s. i \<le> j \<Longrightarrow> j \<le> l \<Longrightarrow> k i pid = Some s \<Longrightarrow> k l pid = Some s \<Longrightarrow> k j pid = Some s"
    and stat_file: "\<And>s. ProcStartTime h1 read_err pid = Inr s \<Longrightarrow> k t1 pid = Some s"
    and sent: "signalProc pid start sig (k t0) h1 (k t2) read_err pidfdErr sendErr killErr = (err, got)"
  shows "(err = None \<longleftrightarrow> got \<noteq> None) \<and>
    (\<forall>target. got = Some target \<longrightarrow>
       (\<exists>s. target = (pid, s, sig) \<and> k t2 pid = Some s) \<and>
       (start \<noteq> 0 \<longrightarrow> k t1 pid = Some start \<and>
          (pidfdErr = None \<or> k t2 pid = k t1 pid \<longrightarrow> target = (pid, start, sig))))"
proof (intro conjI allI impI)
  show "err = None \<longleftrightarrow> got \<noteq> None"
    using sent by (cases "checkStart h1 read_err pid start")
      (auto simp: signalProc_def split: option.splits sum.splits errno.splits if_splits, metis+)
  fix target
  assume got: "got = Some target"
  then have check: "checkStart h1 read_err pid start = None"
    using sent by (auto simp: signalProc_def split: option.splits sum.splits errno.splits if_splits)
  show who: "\<exists>s. target = (pid, s, sig) \<and> k t2 pid = Some s"
    using sent got by (auto simp: signalProc_def split: option.splits sum.splits errno.splits if_splits)
  assume "start \<noteq> 0"
  then have "ProcStartTime h1 read_err pid = Inr start"
    using check by (auto simp: checkStart_def split: sum.splits if_splits)
  then show t1: "k t1 pid = Some start" by (rule stat_file)
  assume "pidfdErr = None \<or> k t2 pid = k t1 pid"
  then show "target = (pid, start, sig)"
  proof
    assume "pidfdErr = None"
    moreover have "k t0 pid = Some start" using no_revival [OF assms(2,3,1) t1] .
    ultimately show ?thesis
      using sent got by (auto simp: signalProc_def pidfd_open_def split: option.splits errno.splits if_splits)
  qed (use who t1 in auto)
qed

text \<open>With a pidfd, and on a kernel without one.\<close>

lemma signal_reaches_named_process_witness:
  "signalProc 7 99 SIGTERM [7 \<mapsto> 99] example_host [7 \<mapsto> 99] (\<lambda>_. ErrProcGone) None None None =
     (None, Some (7, 99, SIGTERM)) \<and>
   (\<exists>target. signalProc 7 99 SIGTERM [7 \<mapsto> 99] example_host [7 \<mapsto> 99] (\<lambda>_. ErrProcGone) (Some ENOSYS) None None =
     (None, Some target) \<and> target = (7, 99, SIGTERM))"
proof -
  have s: "signalProc 7 99 SIGTERM [7 \<mapsto> 99] example_host [7 \<mapsto> 99] (\<lambda>_. ErrProcGone) None None None =
    (None, Some (7, 99, SIGTERM))"
    "signalProc 7 99 SIGTERM [7 \<mapsto> 99] example_host [7 \<mapsto> 99] (\<lambda>_. ErrProcGone) (Some ENOSYS) None None =
    (None, Some (7, 99, SIGTERM))"
    by (simp_all add: signalProc_def pidfd_open_def checkStart_def example_start)
  show ?thesis
    using signal_reaches_named_process [of "\<lambda>_. [7 \<mapsto> 99]" 0 7 99 0 0 example_host "\<lambda>_. ErrProcGone" SIGTERM 0 None None None]
      signal_reaches_named_process [of "\<lambda>_. [7 \<mapsto> 99]" 0 7 99 0 0 example_host "\<lambda>_. ErrProcGone" SIGTERM 0 "Some ENOSYS" None None]
      s example_start by simp
qed

end
