(* ===== verification/Latency.thy ===== *)
theory Latency
  imports Host
begin

unbundle bit_operations_syntax

text \<open>
  \<open>internal/probe/latency.go\<close>, \<open>psi.go\<close> and \<open>mem.go\<close>: the ping sampler with its one deadline, the
  internet checksum, the default gateway, the pressure files and the memory snapshot.
  Resolution, sockets and the clock are arguments.
\<close>

section \<open>latency.go: the checksum\<close>

text \<open>A packet is a list of bytes; \<open>be16\<close> is a big-endian 16-bit read.\<close>

definition be16 :: "8 word \<Rightarrow> 8 word \<Rightarrow> 32 word" where
  "be16 hi lo = push_bit 8 (ucast hi) OR ucast lo"

fun sum16 :: "8 word list \<Rightarrow> 32 word" where
  "sum16 [] = 0"
| "sum16 [x] = push_bit 8 (ucast x)"
| "sum16 (x # y # bs) = be16 x y + sum16 bs"

lemma carry_parts:
  fixes s :: "32 word"
  shows "unat (s AND 0xFFFF) = unat s mod 65536" "unat (drop_bit 16 s) = unat s div 65536"
proof -
  have "s AND 0xFFFF = take_bit 16 s" by (simp add: take_bit_eq_mask mask_eq_exp_minus_1)
  then have "unat (s AND 0xFFFF) = take_bit 16 (unat s)" by (simp only: unsigned_take_bit_eq)
  then show "unat (s AND 0xFFFF) = unat s mod 65536" by (simp add: take_bit_eq_mod)
  show "unat (drop_bit 16 s) = unat s div 65536"
    by (simp add: drop_bit_eq_div unat_div)
qed

lemma carry_step:
  fixes s :: "32 word"
  shows "unat ((s AND 0xFFFF) + drop_bit 16 s) = unat s mod 65536 + unat s div 65536"
proof -
  have "unat s < 65536 * 65536" using unsigned_less [of s, where ?'a = nat] by simp
  then have "unat s div 65536 < 65536" by (simp add: less_mult_imp_div_less)
  then have "unat (s AND 0xFFFF) + unat (drop_bit 16 s) < 4294967296"
    unfolding carry_parts using mod_less_divisor [of 65536 "unat s"] by linarith
  then have "unat ((s AND 0xFFFF) + drop_bit 16 s) = unat (s AND 0xFFFF) + unat (drop_bit 16 s)"
    by (intro unat_add_lem [THEN iffD1]) simp
  then show ?thesis unfolding carry_parts .
qed

text \<open>Folding the carries back; the sum gets smaller at every turn.\<close>

function fold_carry :: "32 word \<Rightarrow> 32 word" where
  "fold_carry s =
     (if drop_bit 16 s = 0 then s else fold_carry ((s AND 0xFFFF) + drop_bit 16 s))"
  by pat_completeness auto

termination
proof (relation "measure unat")
  fix s :: "32 word"
  assume "drop_bit 16 s \<noteq> 0"
  then have "unat (drop_bit 16 s) \<noteq> 0" by (simp only: unat_eq_0 not_False_eq_True)
  then have "unat s div 65536 \<noteq> 0" unfolding carry_parts .
  then have "unat s mod 65536 + unat s div 65536 < unat s"
    using div_mult_mod_eq [of "unat s" 65536] by linarith
  then show "((s AND 0xFFFF) + drop_bit 16 s, s) \<in> measure unat"
    by (simp add: carry_step)
qed simp

declare fold_carry.simps [simp del]

definition icmpChecksum :: "8 word list \<Rightarrow> 16 word" where
  "icmpChecksum b = NOT (ucast (fold_carry (sum16 b)))"


section \<open>latency.go: one ping\<close>

datatype sockErr = EACCES | S_EPERM | S_other string

text \<open>What \<open>icmpPing\<close> fails with: an error that wraps \<open>errICMPSocket\<close>, or another one.\<close>

datatype pingErr = ErrICMPSocket sockErr | PingFailed string

text \<open>The echo request: type 8, code 0, the checksum at offset 2, sequence number 1, eight bytes of payload.\<close>

definition bytes_of :: "string \<Rightarrow> 8 word list" where
  "bytes_of s = map (\<lambda>c. of_nat (code c)) s"

definition put_be16 :: "16 word \<Rightarrow> 8 word list" where
  "put_be16 w = [ucast (drop_bit 8 w), ucast w]"

definition echo_packet :: "8 word list" where
  "echo_packet =
     (let pkt = [8, 0] @ [0, 0] @ [0, 0] @ put_be16 1 @ bytes_of ''ucmonpin''
      in take 2 pkt @ put_be16 (icmpChecksum pkt) @ drop 4 pkt)"

text \<open>
  What the socket of one measurement does. Each send carries the clock read after it, each receive the clock
  before it, what it returned and the clock after it. A list that ends before the time is up stands for calls
  that are interrupted from there on.
\<close>

datatype sendRes = Sent | S_intr | S_failed string

datatype recvRes = R_intr | R_err string | R_data "8 word list"

record exchange =
  sk_open :: "sockErr option"
  sk_option :: "sockErr option"
  sk_start :: time
  sk_sends :: "(sendRes \<times> time) list"
  sk_recvs :: "(time \<times> recvRes \<times> time) list"

fun send_loop :: "time \<Rightarrow> (sendRes \<times> time) list \<Rightarrow> string option \<times> time" where
  "send_loop until [] = (Some ''interrupted system call'', until)"
| "send_loop until ((r, t) # evs) =
     (case r of
        Sent \<Rightarrow> (None, t)
      | S_intr \<Rightarrow> if t < until then send_loop until evs else (Some ''interrupted system call'', t)
      | S_failed e \<Rightarrow> (Some e, t))"

definition echo_reply :: "8 word list \<Rightarrow> bool" where
  "echo_reply buf \<longleftrightarrow> 8 \<le> length buf \<and> buf ! 0 = 0"

fun recv_loop :: "time \<Rightarrow> time \<Rightarrow> time \<Rightarrow> (time \<times> recvRes \<times> time) list \<Rightarrow> (pingErr + duration) \<times> time" where
  "recv_loop start deadline now [] = (Inl (PingFailed ''timeout''), max now deadline)"
| "recv_loop start deadline now ((t, r, t') # evs) =
     (if t < deadline then
        case r of
          R_intr \<Rightarrow> recv_loop start deadline t' evs
        | R_err e \<Rightarrow> (Inl (PingFailed e), t')
        | R_data buf \<Rightarrow>
            if echo_reply buf then (Inr (timeSub t' start), t') else recv_loop start deadline t' evs
      else (Inl (PingFailed ''timeout''), t))"

record PingResult =
  pr_Target :: string
  pr_Addr :: string
  pr_OK :: bool
  pr_RTT :: duration
  pr_Method :: string

text \<open>
  The network as pinging sees it: \<open>net.ParseIP\<close> (whether a text is an address, and one with a 4-byte
  form), the resolver under a deadline, what a socket does in a measurement of an address under a timeout, and
  a connect under a timeout. A call is given the clock it starts at and returns the clock it ends at.
\<close>

datatype dialRes = Dialed | Refused | DialFailed string

record net =
  n_parseIP :: "string \<Rightarrow> bool option"
  n_lookup :: "time \<Rightarrow> string \<Rightarrow> time \<Rightarrow> string list option \<times> time"
  n_socket :: "string \<Rightarrow> duration \<Rightarrow> time \<Rightarrow> exchange"
  n_dial :: "string \<Rightarrow> nat \<Rightarrow> duration \<Rightarrow> time \<Rightarrow> dialRes \<times> time"

definition resolveIPv4 :: "net \<Rightarrow> time \<Rightarrow> string \<Rightarrow> time \<Rightarrow> string \<times> time" where
  "resolveIPv4 n deadline addr t =
     (case n_parseIP n addr of
        Some v4 \<Rightarrow> (if v4 then addr else [], t)
      | None \<Rightarrow>
          (case n_lookup n deadline addr t of
             (Some (ip # _), t') \<Rightarrow> (ip, t')
           | (_, t') \<Rightarrow> ([], t')))"

definition icmpPing :: "net \<Rightarrow> string \<Rightarrow> duration \<Rightarrow> time \<Rightarrow> (pingErr + duration) \<times> time" where
  "icmpPing n ip timeout t =
     (if n_parseIP n ip \<noteq> Some True then (Inl (PingFailed (''not an IPv4 address: '' @ ip)), t)
      else
        let x = n_socket n ip timeout t
        in case sk_open x of
             Some e \<Rightarrow> (Inl (ErrICMPSocket e), t)
           | None \<Rightarrow>
               (case sk_option x of
                  Some e \<Rightarrow> (Inl (ErrICMPSocket e), t)
                | None \<Rightarrow>
                    let start = sk_start x
                    in case send_loop (start + timeout) (sk_sends x) of
                         (Some e, t') \<Rightarrow> (Inl (PingFailed e), t')
                       | (None, t') \<Rightarrow> recv_loop start (start + timeout) t' (sk_recvs x)))"

definition tcpPing :: "net \<Rightarrow> string \<Rightarrow> nat \<Rightarrow> duration \<Rightarrow> time \<Rightarrow> (string + duration) \<times> time" where
  "tcpPing n ip port timeout start =
     (let (r, t) = n_dial n ip port timeout start; rtt = timeSub t start
      in (case r of Dialed \<Rightarrow> Inr rtt | Refused \<Rightarrow> Inr rtt | DialFailed e \<Rightarrow> Inl e, t))"

text \<open>The TCP ports in turn, each with an equal share of the time left.\<close>

fun tcp_loop :: "net \<Rightarrow> string \<Rightarrow> time \<Rightarrow> nat list \<Rightarrow> PingResult \<Rightarrow> time \<Rightarrow> PingResult \<times> time" where
  "tcp_loop n ip deadline [] res t = (res, t)"
| "tcp_loop n ip deadline (port # ports) res t =
     (let left = timeSub deadline t
      in if left \<le> 0 then (res, t)
         else case tcpPing n ip port (left div int (length (port # ports))) t of
           (Inr rtt, t') \<Rightarrow> (res\<lparr>pr_OK := True, pr_RTT := rtt\<rparr>, t')
         | (Inl _, t') \<Rightarrow> tcp_loop n ip deadline ports res t')"

definition pingOnce :: "net \<Rightarrow> string \<Rightarrow> string \<Rightarrow> duration \<Rightarrow> time \<Rightarrow> PingResult \<times> time" where
  "pingOnce n name addr timeout t0 =
     (let res = \<lparr>pr_Target = name, pr_Addr = addr, pr_OK = False, pr_RTT = 0, pr_Method = ''icmp''\<rparr>;
          deadline = t0 + timeout;
          (ip, t1) = resolveIPv4 n deadline addr t0
      in if ip = [] then (res, t1)
         else
           let res = res\<lparr>pr_Addr := ip\<rparr>;
               left = timeSub deadline t1
           in if left \<le> 0 then (res, t1)
              else case icmpPing n ip left t1 of
                (Inr rtt, t2) \<Rightarrow> (res\<lparr>pr_OK := True, pr_RTT := rtt\<rparr>, t2)
              | (Inl (PingFailed e), t2) \<Rightarrow> (res, t2)
              | (Inl (ErrICMPSocket e), t2) \<Rightarrow>
                  tcp_loop n ip deadline [80, 443] (res\<lparr>pr_Method := ''tcp''\<rparr>) t2)"

section \<open>latency.go: the gateway and the sampler\<close>

definition routePath :: string where "routePath = ''/proc/net/route''"

definition dotted :: "nat \<Rightarrow> string" where
  "dotted v = nat_digits (v mod 256) @ ''.'' @ nat_digits (v div 256 mod 256) @ ''.'' @
     nat_digits (v div 65536 mod 256) @ ''.'' @ nat_digits (v div 16777216 mod 256)"

text \<open>One row of the route table below the header: the gateway it names, if it is a default route.\<close>

definition route_gateway :: "string \<Rightarrow> string option" where
  "route_gateway line =
     (let fs = strFields line
      in if length fs < 4 then None
         else case ok_of (parseUint (fs ! 3) 16 32) of
           None \<Rightarrow> None
         | Some fl \<Rightarrow>
             if fs ! 1 \<noteq> ''00000000'' \<or> fl div 2 mod 2 = 0 then None
             else if length fs > 7 \<and> fs ! 7 \<noteq> ''00000000'' then None
             else case ok_of (parseUint (fs ! 2) 16 32) of
               None \<Rightarrow> None
             | Some v \<Rightarrow> if v = 0 then None else Some (dotted v))"

definition parseDefaultGateway :: "string \<Rightarrow> string option" where
  "parseDefaultGateway s =
     (case List.map_filter route_gateway (drop 1 (scan_lines (64 * 1024) s)) of
        [] \<Rightarrow> None
      | gw # _ \<Rightarrow> Some gw)"

definition defaultGateway :: "host \<Rightarrow> string option" where
  "defaultGateway h = Option.bind (h_read h routePath) parseDefaultGateway"

record LatencySampler =
  ls_external :: string
  ls_gw :: string
  ls_gwChecked :: time

definition NewLatencySampler :: "string \<Rightarrow> LatencySampler" where
  "NewLatencySampler external =
     \<lparr>ls_external = trimSpace external, ls_gw = [], ls_gwChecked = zeroTime\<rparr>"

text \<open>The gateway is looked up again when the last look is over 30 s old.\<close>

definition refresh_gw :: "host \<Rightarrow> time \<Rightarrow> LatencySampler \<Rightarrow> LatencySampler" where
  "refresh_gw h now s =
     (if timeSub now (ls_gwChecked s) > 30 * second \<or> isZero (ls_gwChecked s) then
        s\<lparr>ls_gw := (case defaultGateway h of Some gw \<Rightarrow> gw | None \<Rightarrow> []), ls_gwChecked := now\<rparr>
      else s)"

definition ping_targets :: "LatencySampler \<Rightarrow> (string \<times> string) list" where
  "ping_targets s =
     (if ls_gw s \<noteq> [] then [(''gateway'', ls_gw s)] else []) @
     (if ls_external s \<noteq> [] then [(ls_external s, ls_external s)] else [])"

text \<open>The targets are pinged in parallel, all starting at \<open>now\<close>; each has its own slot in the result.\<close>

definition Sample :: "host \<Rightarrow> net \<Rightarrow> duration \<Rightarrow> time \<Rightarrow> LatencySampler \<Rightarrow> PingResult list \<times> LatencySampler" where
  "Sample h n timeout now s =
     (let s' = refresh_gw h now s
      in (map (\<lambda>(name, addr). fst (pingOnce n name addr timeout now)) (ping_targets s'), s'))"

section \<open>latency.go: the capability\<close>

definition pingGroupRangePath :: string where
  "pingGroupRangePath = ''/proc/sys/net/ipv4/ping_group_range''"

definition pingGroupRange :: "host \<Rightarrow> (int \<times> int) option" where
  "pingGroupRange h =
     (case sysReadStr h pingGroupRangePath of
        None \<Rightarrow> None
      | Some s \<Rightarrow>
          (case strFields s of
             [a, b] \<Rightarrow>
               (case (ok_of (parseInt a 10 64), ok_of (parseInt b 10 64)) of
                  (Some lo, Some hi) \<Rightarrow> Some (lo, hi)
                | _ \<Rightarrow> None)
           | _ \<Rightarrow> None))"

definition sockErr_text :: "sockErr \<Rightarrow> string" where
  "sockErr_text e =
     (case e of EACCES \<Rightarrow> ''permission denied'' | S_EPERM \<Rightarrow> ''operation not permitted'' | S_other s \<Rightarrow> s)"

definition checkICMP :: "sockErr option \<Rightarrow> (int \<times> int) option \<Rightarrow> int \<Rightarrow> Capability" where
  "checkICMP err gids gid =
     (let c = cap ''unprivileged ICMP ping'' pingGroupRangePath
            ''true round-trip times on the Network tab (TCP connect timing is used instead)'';
          loc = (case gids of
              Some (lo, hi) \<Rightarrow> '' (ping_group_range = '' @ itoa lo @ '' '' @ itoa hi @ '', gid '' @ itoa gid @ '')''
            | None \<Rightarrow> [])
      in case err of
           None \<Rightarrow> c\<lparr>cap_Status := CapPresent, cap_Detail := ''datagram ICMP sockets allowed'' @ loc\<rparr>
         | Some e \<Rightarrow>
             c\<lparr>cap_Status := (if e \<noteq> EACCES \<and> e \<noteq> S_EPERM then CapAbsent else CapDenied),
               cap_Detail := ''cannot open a datagram ICMP socket: '' @ sockErr_text e @ loc,
               cap_Fix := ''sudo sysctl -w net.ipv4.ping_group_range='' @ [DQUOTE] @ ''0 2147483647'' @ [DQUOTE, NL] @
                 ''echo '' @ [SQUOTE] @ ''net.ipv4.ping_group_range = 0 2147483647'' @ [SQUOTE] @
                 '' | sudo tee /etc/sysctl.d/90-ucmon-ping.conf''\<rparr>)"

definition CheckUnprivilegedICMP :: "host \<Rightarrow> sockErr option \<Rightarrow> int \<Rightarrow> Capability" where
  "CheckUnprivilegedICMP h probe gid = checkICMP probe (pingGroupRange h) gid"

section \<open>psi.go\<close>

definition psiBase :: string where "psiBase = ''/proc/pressure''"

record PSIRes =
  SomeAvg10 :: f64
  SomeAvg60 :: f64
  FullAvg10 :: f64
  FullAvg60 :: f64
  HasSome :: bool
  HasFull :: bool

definition noPSI :: PSIRes where
  "noPSI = \<lparr>SomeAvg10 = 0, SomeAvg60 = 0, FullAvg10 = 0, FullAvg60 = 0, HasSome = False, HasFull = False\<rparr>"

record PSISnapshot =
  ps_Present :: bool
  ps_CPU :: PSIRes
  ps_Mem :: PSIRes
  ps_IO :: PSIRes

text \<open>The kernel prints the averages with \<open>%lu.%02lu\<close>, so a spelled-out infinity, whose error is also ignored here, is left out.\<close>

fun psi_avgs :: "string list \<Rightarrow> f64 \<times> f64 \<Rightarrow> f64 \<times> f64" where
  "psi_avgs [] a = a"
| "psi_avgs (f # fs) (a10, a60) =
     (if hasPrefix f ''avg10='' then psi_avgs fs (float_or_zero (drop 6 f), a60)
      else if hasPrefix f ''avg60='' then psi_avgs fs (a10, float_or_zero (drop 6 f))
      else psi_avgs fs (a10, a60))"

definition psi_line :: "string \<Rightarrow> PSIRes \<Rightarrow> PSIRes" where
  "psi_line line r =
     (let fs = strFields line
      in if length fs < 2 then r
         else
           let (a10, a60) = psi_avgs (tl fs) (0, 0)
           in if hd fs = ''some'' then r\<lparr>SomeAvg10 := a10, SomeAvg60 := a60, HasSome := True\<rparr>
              else if hd fs = ''full'' then r\<lparr>FullAvg10 := a10, FullAvg60 := a60, HasFull := True\<rparr>
              else r)"

definition parsePSI :: "string \<Rightarrow> PSIRes" where
  "parsePSI s = fold psi_line (split s NL) noPSI"

definition psi_of :: "host \<Rightarrow> string \<Rightarrow> PSIRes" where
  "psi_of h name = (case h_read h (joinPath [psiBase, name]) of None \<Rightarrow> noPSI | Some s \<Rightarrow> parsePSI s)"

text \<open>The three files write to three different fields, so the order of Go's map loop does not show.\<close>

definition ReadPSI :: "host \<Rightarrow> PSISnapshot" where
  "ReadPSI h =
     (let c = psi_of h ''cpu''; m = psi_of h ''memory''; i = psi_of h ''io''
      in \<lparr>ps_Present = list_ex (\<lambda>r. HasSome r \<or> HasFull r) [c, m, i], ps_CPU = c, ps_Mem = m, ps_IO = i\<rparr>)"

definition CheckPSI :: "host \<Rightarrow> Capability" where
  "CheckPSI h =
     (let c = cap ''pressure stall (PSI)'' psiBase
            ''Memory tab pressure rows, --once pressure block, psi_warn_pct alerts'';
          snap = ReadPSI h
      in if ps_Present snap then
           c\<lparr>cap_Status := CapPresent,
             cap_Detail := ''cpu/memory/io readable (cpu some avg10 '' @ fmt_f 2 (SomeAvg10 (ps_CPU snap)) @ ''%)''\<rparr>
         else case pathStatus h psiBase of
           (CapPresent, _) \<Rightarrow>
             c\<lparr>cap_Status := CapAbsent, cap_Detail := ''the directory exists but no resource file parses''\<rparr>
         | (CapDenied, why) \<Rightarrow> c\<lparr>cap_Status := CapDenied, cap_Detail := why\<rparr>
         | (st, why) \<Rightarrow>
             c\<lparr>cap_Status := st,
               cap_Detail := why @ '' '' @ EMDASH @ '' kernel built without CONFIG_PSI, or booted with psi=0'',
               cap_Fix := ''boot with psi=1 on a kernel built with CONFIG_PSI=y (Raspberry Pi OS: add psi=1 to /boot/firmware/cmdline.txt)''\<rparr>)"

section \<open>mem.go\<close>

text \<open>What the memory library reports: the counts and the percentages are arguments.\<close>

record VirtualMemory =
  vm_Total :: "64 word"
  vm_Used :: "64 word"
  vm_Free :: "64 word"
  vm_Available :: "64 word"
  vm_Cached :: "64 word"
  vm_Buffers :: "64 word"
  vm_UsedPercent :: f64

record SwapMemory =
  sw_Total :: "64 word"
  sw_Used :: "64 word"
  sw_UsedPercent :: f64

record MemSnapshot =
  ms_Total :: "64 word"
  ms_Used :: "64 word"
  ms_Free :: "64 word"
  ms_Available :: "64 word"
  ms_Cached :: "64 word"
  ms_Buffers :: "64 word"
  ms_UsedPct :: f64
  ms_SwapTotal :: "64 word"
  ms_SwapUsed :: "64 word"
  ms_SwapUsedPct :: f64
  ms_OOMKills :: "64 word"
  ms_OOMKillsOK :: bool
  ms_TakenAt :: time

definition vmstatPath :: string where "vmstatPath = ''/proc/vmstat''"

text \<open>The first line named \<open>oom_kill\<close> decides; a value out of range is the saturated one, not valid.\<close>

fun oom_lines :: "string list \<Rightarrow> 64 word \<times> bool" where
  "oom_lines [] = (0, False)"
| "oom_lines (l # ls) =
     (case cut l (CHR '' '') of
        Some (name, val) \<Rightarrow>
          if name = ''oom_kill'' then
            let (n, err) = parseUint (trimSpace val) 10 64 in (of_nat n, err = None)
          else oom_lines ls
      | None \<Rightarrow> oom_lines ls)"

definition ReadOOMKills :: "host \<Rightarrow> 64 word \<times> bool" where
  "ReadOOMKills h =
     (case h_read h vmstatPath of
        None \<Rightarrow> (0, False)
      | Some s \<Rightarrow> oom_lines (scan_lines (64 * 1024) s))"

definition SampleMem :: "(string + VirtualMemory) \<Rightarrow> SwapMemory option \<Rightarrow> host \<Rightarrow> time \<Rightarrow> string + MemSnapshot" where
  "SampleMem vm swap h now =
     (case vm of
        Inl e \<Rightarrow> Inl e
      | Inr v \<Rightarrow>
          let (st, su, sp) = (case swap of
                Some s \<Rightarrow> (sw_Total s, sw_Used s, sw_UsedPercent s) | None \<Rightarrow> (0, 0, 0));
              (n, ok) = ReadOOMKills h
          in Inr \<lparr>ms_Total = vm_Total v, ms_Used = vm_Used v, ms_Free = vm_Free v,
               ms_Available = vm_Available v, ms_Cached = vm_Cached v, ms_Buffers = vm_Buffers v,
               ms_UsedPct = vm_UsedPercent v, ms_SwapTotal = st, ms_SwapUsed = su, ms_SwapUsedPct = sp,
               ms_OOMKills = n, ms_OOMKillsOK = ok, ms_TakenAt = now\<rparr>)"

definition CheckOOMKills :: "host \<Rightarrow> Capability" where
  "CheckOOMKills h =
     (let c = cap ''OOM-kill counter'' (vmstatPath @ '' (oom_kill)'')
            ''the OOM-kill alert, Memory tab OOM line, ucmon_oom_kills_total'';
          (n, ok) = ReadOOMKills h
      in if ok then
           c\<lparr>cap_Status := CapPresent,
             cap_Detail := ''processes killed since boot: '' @ nat_digits (unat n)\<rparr>
         else case pathStatus h vmstatPath of
           (CapPresent, _) \<Rightarrow>
             c\<lparr>cap_Status := CapAbsent, cap_Detail := ''no oom_kill line '' @ EMDASH @ '' the kernel predates 4.13''\<rparr>
         | (st, why) \<Rightarrow> c\<lparr>cap_Status := st, cap_Detail := why\<rparr>)"

section \<open>The checksum, in natural numbers\<close>

lemma unat_be16: "unat (be16 x y) = 256 * unat x + unat y"
proof -
  have "be16 x y = push_bit 8 (ucast x) + ucast y"
    unfolding be16_def by (rule disjunctive_add_eq_or [symmetric], rule bit_word_eqI)
      (auto simp: bit_simps dest: bit_imp_le_length)
  moreover have "unat x < 256" "unat y < 256"
    using unsigned_less [of x, where ?'a = nat] unsigned_less [of y, where ?'a = nat] by simp_all
  ultimately show ?thesis
    by (simp add: unat_word_ariths push_bit_eq_mult unsigned_ucast_eq take_bit_eq_mod)
qed

fun nsum :: "8 word list \<Rightarrow> nat" where
  "nsum [] = 0"
| "nsum [x] = 256 * unat x"
| "nsum (x # y # bs) = 256 * unat x + unat y + nsum bs"

lemma nsum_le: "nsum b \<le> 65535 * ((length b + 1) div 2)"
proof (induction b rule: nsum.induct)
  case (2 x)
  show ?case using unsigned_less [of x, where ?'a = nat] by simp
next
  case (3 x y bs)
  have "unat x < 256" "unat y < 256"
    using unsigned_less [of x, where ?'a = nat] unsigned_less [of y, where ?'a = nat] by simp_all
  then show ?case using 3 by simp
qed simp

lemma unat_sum16:
  assumes "length b \<le> 131072"
  shows "unat (sum16 b) = nsum b"
  using assms
proof (induction b rule: sum16.induct)
  case (2 x)
  show ?case using unat_be16 [of x 0] by (simp add: be16_def)
next
  case (3 x y bs)
  have "65535 * ((length (x # y # bs) + 1) div 2) \<le> (65535::nat) * 65536" using 3(2) by simp
  then have "nsum (x # y # bs) \<le> 65535 * 65536" using nsum_le [of "x # y # bs"] by (rule order_trans [rotated])
  then show ?case using 3 by (simp add: unat_word_ariths unat_be16)
qed simp

lemma nsum_append: "even (length a) \<Longrightarrow> nsum (a @ b) = nsum a + nsum b"
  by (induction a rule: nsum.induct) auto

lemma fold_carry_spec:
  "unat (fold_carry s) mod 65535 = unat s mod 65535 \<and> unat (fold_carry s) < 65536 \<and>
   (fold_carry s = 0 \<longleftrightarrow> s = 0)"
proof (induction s rule: fold_carry.induct)
  case (1 s)
  show ?case
  proof (cases "drop_bit 16 s = 0")
    case True
    then have "unat s div 65536 = 0" by (metis carry_parts(2) unat_eq_0)
    then show ?thesis using True by (simp add: fold_carry.simps [of s])
  next
    case False
    let ?t = "(s AND 0xFFFF) + drop_bit 16 s"
    have e: "unat s = 65535 * (unat s div 65536) + unat ?t" by (simp add: carry_step)
    then have m: "unat ?t mod 65535 = unat s mod 65535" by (metis mod_mult_self4)
    have "unat s div 65536 \<noteq> 0" using False by (metis carry_parts(2) unat_eq_0)
    then have "unat ?t \<noteq> 0" "unat s \<noteq> 0" by (auto simp: carry_step)
    then have "?t \<noteq> 0" "s \<noteq> 0" by (metis unsigned_0)+
    moreover have "fold_carry s = fold_carry ?t" using False by (subst fold_carry.simps) simp
    ultimately show ?thesis using 1 [OF False] m by simp
  qed
qed

lemma unat_icmpChecksum: "unat (icmpChecksum b) = 65535 - unat (fold_carry (sum16 b))"
proof -
  have "unat (ucast (fold_carry (sum16 b)) :: 16 word) = unat (fold_carry (sum16 b))"
    using fold_carry_spec [of "sum16 b"] by (simp add: unsigned_ucast_eq take_bit_eq_mod)
  moreover have "unat (NOT w) = 65535 - unat w" for w :: "16 word"
  proof -
    have "NOT w = - 1 - w" by (simp add: not_eq_complement)
    moreover have "unat (- 1 - w) = unat (- 1 :: 16 word) - unat w" by (rule unat_sub) simp
    moreover have "unat (- 1 :: 16 word) = 65535" by (simp add: unsigned_minus_1_eq_mask mask_eq_exp_minus_1)
    ultimately show ?thesis by simp
  qed
  ultimately show ?thesis by (simp add: icmpChecksum_def)
qed

lemma nsum_put_be16: "nsum (put_be16 w) = unat w"
proof -
  have "unat w < 65536" using unsigned_less [of w, where ?'a = nat] by simp
  then show ?thesis
    by (simp add: put_be16_def unsigned_ucast_eq take_bit_eq_mod drop_bit_eq_div unat_div)
qed

section \<open>Properties\<close>

lemma full_residue:
  fixes n :: nat
  assumes "n mod 65535 = 0" "n \<noteq> 0" "n < 65536"
  shows "n = 65535"
proof -
  obtain k where k: "n = 65535 * k" using assms(1) by (auto simp: mod_eq_0_iff_dvd)
  then have "0 < k" "k < 2" using assms(2,3) by auto
  then show ?thesis using k by simp
qed

text \<open>
  How a receiver checks a packet (RFC 1071): the 16-bit words are added in one's complement, every carry
  out of the word going around into its low end, and the sum must be all ones.
\<close>

fun words_of :: "8 word list \<Rightarrow> nat list" where
  "words_of [] = []"
| "words_of [x] = [256 * unat x]"
| "words_of (x # y # bs) = (256 * unat x + unat y) # words_of bs"

definition ones_add :: "nat \<Rightarrow> nat \<Rightarrow> nat" where
  "ones_add a b = (if a + b < 65536 then a + b else a + b - 65536 + 1)"

definition ones_sum :: "8 word list \<Rightarrow> nat" where
  "ones_sum b = foldr ones_add (words_of b) 0"

lemma ones_add_spec:
  assumes "a < 65536" "b < 65536"
  shows "ones_add a b < 65536" "ones_add a b mod 65535 = (a + b) mod 65535" "ones_add a b = 0 \<longleftrightarrow> a + b = 0"
proof -
  show "ones_add a b mod 65535 = (a + b) mod 65535"
  proof (cases "a + b < 65536")
    case False
    then have "a + b = ones_add a b + 65535" by (simp add: ones_add_def)
    then show ?thesis by (metis mod_add_self2)
  qed (simp add: ones_add_def)
qed (use assms in \<open>auto simp: ones_add_def\<close>)

lemma ones_sum_spec:
  "ones_sum b < 65536 \<and> ones_sum b mod 65535 = nsum b mod 65535 \<and> (ones_sum b = 0 \<longleftrightarrow> nsum b = 0)"
proof (induction b rule: words_of.induct)
  case (2 x)
  have "unat x < 256" using unsigned_less [of x, where ?'a = nat] by simp
  then show ?case by (simp add: ones_sum_def ones_add_def)
next
  case (3 x y bs)
  have "unat x < 256" "unat y < 256"
    using unsigned_less [of x, where ?'a = nat] unsigned_less [of y, where ?'a = nat] by simp_all
  then have w: "256 * unat x + unat y < 65536" by linarith
  note add = ones_add_spec [OF w, of "ones_sum bs"]
  have "ones_sum (x # y # bs) = ones_add (256 * unat x + unat y) (ones_sum bs)" by (simp add: ones_sum_def)
  moreover have "nsum (x # y # bs) = 256 * unat x + unat y + nsum bs" by simp
  ultimately show ?case using 3 add by (metis add_is_0 mod_add_right_eq)
qed (simp add: ones_sum_def)

text \<open>C37: A receiver accepts the packet: whatever its content, up to 128 KiB, with its checksum put into the
  (zeroed, 16-bit aligned) checksum field its words add up in one's complement to all ones, as RFC 1071
  asks, however many carries the sum produced.\<close>

theorem checksum_verifies:
  assumes "even (length a)" "length a + length b + 2 \<le> 131072"
  shows "ones_sum (a @ put_be16 (icmpChecksum (a @ [0, 0] @ b)) @ b) = 65535"
proof -
  define s f c p where "s = sum16 (a @ [0, 0] @ b)" "f = unat (fold_carry s)" "c = icmpChecksum (a @ [0, 0] @ b)"
    "p = a @ put_be16 c @ b"
  have len: "length (put_be16 c) = 2" by (simp add: put_be16_def)
  have s: "unat s = nsum a + nsum b"
    using assms by (simp add: s_f_c_p_def unat_sum16 nsum_append)
  have c: "unat c = 65535 - f" by (simp add: s_f_c_p_def unat_icmpChecksum)
  have "nsum (put_be16 c @ b) = unat c + nsum b"
    using nsum_append [of "put_be16 c" b] len by (simp add: nsum_put_be16)
  then have t: "nsum p = unat s + (65535 - f)"
    using assms s c by (simp add: s_f_c_p_def(4) nsum_append)
  have f: "f mod 65535 = unat s mod 65535" "f \<le> 65535" "f = 0 \<longleftrightarrow> unat s = 0"
    using fold_carry_spec [of s] unfolding s_f_c_p_def by (auto simp: unat_eq_0)
  have "(unat s + (65535 - f)) mod 65535 = (f + (65535 - f)) mod 65535"
    using f(1) by (metis mod_add_left_eq)
  then have "nsum p mod 65535 = 0" using t f(2) by simp
  moreover have "nsum p \<noteq> 0" using t f by auto
  ultimately have "ones_sum p = 65535"
    using ones_sum_spec [of p] by (intro full_residue) simp_all
  then show ?thesis by (simp add: s_f_c_p_def(3,4))
qed

lemma checksum_verifies_witness: "ones_sum echo_packet = 65535 \<and> hd echo_packet = 8"
proof -
  let ?b = "[0, 0] @ put_be16 1 @ bytes_of ''ucmonpin''"
  have "echo_packet = [8, 0] @ put_be16 (icmpChecksum ([8, 0] @ [0, 0] @ ?b)) @ ?b"
    by (simp add: echo_packet_def Let_def)
  moreover have "ones_sum ([8, 0] @ put_be16 (icmpChecksum ([8, 0] @ [0, 0] @ ?b)) @ ?b) = 65535"
    by (rule checksum_verifies) (simp_all add: put_be16_def bytes_of_def)
  ultimately show ?thesis by (metis append_Cons list.sel(1))
qed

text \<open>
  A connect with exactly one nanosecond left for two ports is given the timeout 0, which
  \<open>net.DialTimeout\<close> takes for no timeout at all.
\<close>

lemma one_nanosecond_left:
  "tcp_loop n ip (t + 1) [80, 443] res t =
     (case tcpPing n ip 80 0 t of
        (Inr rtt, t') \<Rightarrow> (res\<lparr>pr_OK := True, pr_RTT := rtt\<rparr>, t')
      | (Inl e, t') \<Rightarrow> tcp_loop n ip (t + 1) [443] res t')"
  by (simp add: Let_def timeSub_def minDuration_def maxDuration_def)

text \<open>A result within its budget: over by the deadline, and timed no longer than the budget.\<close>

definition in_budget :: "time \<Rightarrow> time \<Rightarrow> PingResult \<times> time \<Rightarrow> bool" where
  "in_budget start deadline r \<longleftrightarrow>
     snd r \<le> deadline \<and> (pr_OK (fst r) \<longrightarrow> 0 \<le> pr_RTT (fst r) \<and> pr_RTT (fst r) \<le> deadline - start)"

text \<open>
  What the kernel promises: the calls that do not wait take no time, and a receive returns within the
  timeout of the socket, each receive anew (its rounding up to a microsecond aside). Nothing disturbs an
  exchange whose receives return the reply or an error.
\<close>

fun recv_timeline :: "duration \<Rightarrow> time \<Rightarrow> (time \<times> recvRes \<times> time) list \<Rightarrow> bool" where
  "recv_timeline d t [] = True"
| "recv_timeline d t ((a, r, b) # evs) \<longleftrightarrow> a = t \<and> a \<le> b \<and> b \<le> a + d \<and> recv_timeline d b evs"

definition exchange_ok :: "duration \<Rightarrow> time \<Rightarrow> exchange \<Rightarrow> bool" where
  "exchange_ok d t x \<longleftrightarrow>
     sk_start x = t \<and> list_all (\<lambda>(r, t'). t' = t) (sk_sends x) \<and> recv_timeline d t (sk_recvs x)"

definition undisturbed :: "exchange \<Rightarrow> bool" where
  "undisturbed x \<longleftrightarrow>
     list_all (\<lambda>(a, r, b). case r of R_intr \<Rightarrow> False | R_err e \<Rightarrow> True | R_data buf \<Rightarrow> echo_reply buf) (sk_recvs x)"

definition dial_ok :: "net \<Rightarrow> bool" where
  "dial_ok n \<longleftrightarrow> (\<forall>ip port d t. 0 < d \<longrightarrow> t \<le> snd (n_dial n ip port d t) \<and> snd (n_dial n ip port d t) \<le> t + d)"

lemma timeSub_nonneg: "u \<le> t \<Longrightarrow> 0 \<le> timeSub t u"
  by (simp add: timeSub_def minDuration_def maxDuration_def)

lemma send_loop_bound:
  "list_all (\<lambda>(r, t'). t' = t) sends \<Longrightarrow> t \<le> until \<Longrightarrow> send_loop until sends = (e, t') \<Longrightarrow>
   t \<le> t' \<and> t' \<le> until \<and> (e = None \<longrightarrow> t' = t)"
  by (induction sends) (auto split: sendRes.splits if_splits)

lemma recv_loop_bound:
  "recv_timeline d now evs \<Longrightarrow> start \<le> now \<Longrightarrow> now < deadline + d \<Longrightarrow> 0 < d \<Longrightarrow>
   recv_loop start deadline now evs = (r, t') \<Longrightarrow>
   start \<le> t' \<and> t' < deadline + d \<and> (\<forall>v. r = Inr v \<longrightarrow> 0 \<le> v \<and> v \<le> t' - start)"
proof (induction evs arbitrary: now)
  case (Cons ev evs)
  obtain a o1 b where ev: "ev = (a, o1, b)" by (cases ev)
  show ?case
  proof (cases "a < deadline \<and> (o1 = R_intr \<or> (\<exists>buf. o1 = R_data buf \<and> \<not> echo_reply buf))")
    case True
    then show ?thesis using Cons.prems by (intro Cons.IH [of b]) (auto simp: ev)
  next
    case False
    then show ?thesis using Cons.prems timeSub_nonneg timeSub_le
      by (cases o1) (auto simp: ev split: if_splits)
  qed
qed auto

lemma recv_loop_undisturbed:
  assumes "recv_timeline d start evs" "0 < d" "recv_loop start (start + d) start evs = (r, t')"
    "list_all (\<lambda>(a, r, b). case r of R_intr \<Rightarrow> False | R_err e \<Rightarrow> True | R_data buf \<Rightarrow> echo_reply buf) evs"
  shows "t' \<le> start + d"
  using assms by (cases evs) (auto split: recvRes.splits)

lemma recv_loop_plain: "fst (recv_loop start deadline now evs) \<noteq> Inl (ErrICMPSocket e)"
  by (induction start deadline now evs rule: recv_loop.induct) (auto split: recvRes.splits)

text \<open>One ICMP exchange may take up to twice its timeout; it takes its timeout when nothing disturbs it.\<close>

lemma icmpPing_bound:
  assumes "exchange_ok d t (n_socket n ip d t)" "0 < d" "icmpPing n ip d t = (r, t')"
  shows "t \<le> t' \<and> t' < t + 2 * d \<and> (\<forall>v. r = Inr v \<longrightarrow> 0 \<le> v \<and> v \<le> t' - t)"
    and "undisturbed (n_socket n ip d t) \<Longrightarrow> t' \<le> t + d"
    and "r = Inl (ErrICMPSocket e) \<Longrightarrow> t' = t"
proof -
  let ?x = "n_socket n ip d t"
  have x: "sk_start ?x = t" "recv_timeline d t (sk_recvs ?x)" "list_all (\<lambda>(r, t'). t' = t) (sk_sends ?x)"
    using assms(1) by (simp_all add: exchange_ok_def)
  obtain o1 t1 where sends: "send_loop (t + d) (sk_sends ?x) = (o1, t1)" by fastforce
  have t1: "t \<le> t1 \<and> t1 \<le> t + d \<and> (o1 = None \<longrightarrow> t1 = t)"
    by (rule send_loop_bound [OF x(3) _ sends]) (use assms(2) in simp)
  consider (early) "t' = t" "\<And>v. r \<noteq> Inr v"
    | (send) "t' = t1" "\<And>v. r \<noteq> Inr v" "\<And>e. r \<noteq> Inl (ErrICMPSocket e)"
    | (recv) "recv_loop t (t + d) t (sk_recvs ?x) = (r, t')"
    using assms(3) t1 by (cases o1) (auto simp: icmpPing_def Let_def sends x(1) split: if_splits option.splits)
  then have "(t \<le> t' \<and> t' < t + 2 * d \<and> (\<forall>v. r = Inr v \<longrightarrow> 0 \<le> v \<and> v \<le> t' - t)) \<and>
    (undisturbed ?x \<longrightarrow> t' \<le> t + d) \<and> (\<forall>e. r = Inl (ErrICMPSocket e) \<longrightarrow> t' = t)"
  proof cases
    case early
    then show ?thesis using assms(2) by simp
  next
    case send
    then show ?thesis using t1 assms(2) by auto
  next
    case recv
    have "\<forall>e. r \<noteq> Inl (ErrICMPSocket e)" using recv recv_loop_plain by (metis fst_conv)
    then show ?thesis
      using recv_loop_bound [OF x(2) _ _ assms(2) recv] recv_loop_undisturbed [OF x(2) assms(2) recv] assms(2)
      by (auto simp: undisturbed_def)
  qed
  then show "t \<le> t' \<and> t' < t + 2 * d \<and> (\<forall>v. r = Inr v \<longrightarrow> 0 \<le> v \<and> v \<le> t' - t)"
    "undisturbed ?x \<Longrightarrow> t' \<le> t + d" "r = Inl (ErrICMPSocket e) \<Longrightarrow> t' = t" by blast+
qed


lemma tcpPing_bound:
  assumes "dial_ok n" "0 < d" "tcpPing n ip port d t = (r, t')"
  shows "t \<le> t' \<and> t' \<le> t + d \<and> (\<forall>v. r = Inr v \<longrightarrow> 0 \<le> v \<and> v \<le> t' - t)"
proof -
  obtain o1 t2 where dial: "n_dial n ip port d t = (o1, t2)" by fastforce
  have "t \<le> t2" "t2 \<le> t + d" using assms(1,2) dial unfolding dial_ok_def by (metis snd_conv)+
  then show ?thesis using assms(3) timeSub_nonneg [of t t2] timeSub_le [of t t2]
    by (auto simp: tcpPing_def dial Let_def split: dialRes.splits)
qed

lemma tcp_step_budget:
  assumes "dial_ok n" "\<not> pr_OK res" "start \<le> t" "t \<le> deadline" "0 < timeSub deadline t div int (length (port # ports))"
    and rest: "\<And>t'. t \<le> t' \<Longrightarrow> t' \<le> t + timeSub deadline t div int (length (port # ports)) \<Longrightarrow>
      in_budget start deadline (tcp_loop n ip deadline ports res t')"
  shows "in_budget start deadline (tcp_loop n ip deadline (port # ports) res t)"
proof -
  let ?k = "int (length (port # ports))" and ?d = "timeSub deadline t div int (length (port # ports))"
  obtain r t' where call: "tcpPing n ip port ?d t = (r, t')" by fastforce
  have pos: "0 < timeSub deadline t"
    using assms(5) zdiv_mono1 [of "timeSub deadline t" 0 ?k] by fastforce
  have "?d \<le> timeSub deadline t"
    using zdiv_mono2 [of "timeSub deadline t" 1 ?k] pos by simp
  then have t': "t \<le> t'" "t' \<le> t + ?d" "t' \<le> deadline"
    using tcpPing_bound [OF assms(1,5) call] timeSub_le [OF assms(4)] by auto
  have step: "tcp_loop n ip deadline (port # ports) res t =
    (case r of Inr v \<Rightarrow> (res\<lparr>pr_OK := True, pr_RTT := v\<rparr>, t') | Inl e \<Rightarrow> tcp_loop n ip deadline ports res t')"
    using pos call by (simp add: Let_def split: sum.splits)
  show ?thesis
  proof (cases r)
    case (Inl e)
    then show ?thesis using step rest [OF t'(1,2)] by simp
  next
    case (Inr v)
    then have "0 \<le> v \<and> v \<le> t' - t" using tcpPing_bound [OF assms(1,5) call] by simp
    then show ?thesis using step Inr t' assms(3) by (simp add: in_budget_def)
  qed
qed

text \<open>Both ports together keep to the deadline, unless a single nanosecond is left for them.\<close>

lemma tcp_budget:
  assumes "dial_ok n" "\<not> pr_OK res" "start \<le> t" "t \<le> deadline" "t + 1 \<noteq> deadline"
  shows "in_budget start deadline (tcp_loop n ip deadline [80, 443] res t)"
proof -
  have none: "in_budget start deadline (tcp_loop n ip deadline ports res t')"
    if "timeSub deadline t' \<le> 0" "t' \<le> deadline" for ports t'
    using that assms(2) by (cases ports) (simp_all add: in_budget_def Let_def)
  have tcp443: "in_budget start deadline (tcp_loop n ip deadline [443] res t')" if "start \<le> t'" "t' \<le> deadline" for t'
  proof (cases "timeSub deadline t' \<le> 0")
    case True
    then show ?thesis using none that by blast
  next
    case False
    show ?thesis
      by (rule tcp_step_budget [OF assms(1,2) that])
        (use False that assms(2) timeSub_le [OF that(2)] in \<open>auto simp: in_budget_def\<close>)
  qed
  show ?thesis
  proof (cases "timeSub deadline t \<le> 0")
    case True
    then show ?thesis using none assms(4) by blast
  next
    case False
    then have d: "0 < timeSub deadline t div 2"
      using assms(4,5) by (auto simp: timeSub_def minDuration_def maxDuration_def)
    show ?thesis
      by (rule tcp_step_budget [OF assms(1-4)])
        (use d timeSub_le [OF assms(4)] assms(3) in \<open>auto intro!: tcp443 simp del: tcp_loop.simps\<close>)
  qed
qed

lemma in_budget_later: "in_budget start deadline r \<Longrightarrow> deadline \<le> later \<Longrightarrow> in_budget start later r"
  by (auto simp: in_budget_def)

text \<open>What a measurement relies on: a resolver that keeps to its deadline, and the kernel.\<close>

definition net_ok :: "net \<Rightarrow> bool" where
  "net_ok n \<longleftrightarrow> dial_ok n \<and> (\<forall>ip d t. 0 < d \<longrightarrow> exchange_ok d t (n_socket n ip d t)) \<and>
     (\<forall>d a t. t \<le> d \<longrightarrow> t \<le> snd (n_lookup n d a t) \<and> snd (n_lookup n d a t) \<le> d)"

lemma resolve_bound:
  assumes "net_ok n" "t \<le> d" "resolveIPv4 n d a t = (ip, t')"
  shows "t \<le> t' \<and> t' \<le> d \<and> (t' = t \<or> t' = snd (n_lookup n d a t))"
proof -
  obtain l t1 where look: "n_lookup n d a t = (l, t1)" by fastforce
  have "t \<le> t1" "t1 \<le> d" using assms(1,2) look unfolding net_ok_def by (metis snd_conv)+
  then show ?thesis using assms(2,3)
    by (auto simp: resolveIPv4_def look split: option.splits list.splits if_splits)
qed

text \<open>C36: A measurement is over within twice its timeout, whatever it went through, and a round trip it reports is
  no longer than that; when its socket reads nothing but the reply or an error it keeps to the timeout. The
  resolver is assumed to keep to its deadline and the kernel to the timeouts it is given; the connects must not
  start with exactly one nanosecond left, see \<open>one_nanosecond_left\<close>.\<close>

theorem ping_within_deadline:
  assumes "net_ok n" "0 < timeout" "timeout \<noteq> 1"
    and grain: "snd (n_lookup n (t0 + timeout) addr t0) + 1 \<noteq> t0 + timeout"
  shows "in_budget t0 (t0 + 2 * timeout) (pingOnce n name addr timeout t0) \<and>
    ((\<forall>ip d t. undisturbed (n_socket n ip d t)) \<longrightarrow> in_budget t0 (t0 + timeout) (pingOnce n name addr timeout t0))"
proof -
  let ?e = "t0 + timeout"
  obtain ip t1 where r: "resolveIPv4 n ?e addr t0 = (ip, t1)" by fastforce
  have t1: "t0 \<le> t1" "t1 \<le> ?e" "t1 + 1 \<noteq> ?e"
    using resolve_bound [OF assms(1) _ r] assms(2,3) grain by auto
  let ?d = "timeSub ?e t1"
  obtain o2 t2 where i: "icmpPing n ip ?d t1 = (o2, t2)" by fastforce
  show ?thesis
  proof (cases "ip = [] \<or> ?d \<le> 0")
    case True
    then show ?thesis using r t1 assms(2) by (auto simp: pingOnce_def in_budget_def Let_def)
  next
    case False
    have d: "0 < ?d" "t1 + ?d \<le> ?e" using False timeSub_le [OF t1(2)] by auto
    have x: "exchange_ok ?d t1 (n_socket n ip ?d t1)" using assms(1) d(1) by (simp add: net_ok_def)
    note b = icmpPing_bound [OF x d(1) i]
    show ?thesis
    proof (cases o2)
      case (Inr v)
      then show ?thesis using False r i b(1,2) t1 d
        by (auto simp: pingOnce_def in_budget_def Let_def)
    next
      case (Inl e)
      show ?thesis
      proof (cases e)
        case (PingFailed s)
        then show ?thesis using False r i Inl b(1,2) t1 d
          by (auto simp: pingOnce_def in_budget_def Let_def)
      next
        case (ErrICMPSocket s)
        have "dial_ok n" using assms(1) by (simp add: net_ok_def)
        then have "in_budget t0 ?e (pingOnce n name addr timeout t0)"
          using tcp_budget [of n _ t0 t1 ?e] t1 b(3) [of s] False r i Inl ErrICMPSocket
          by (simp add: pingOnce_def Let_def)
        then show ?thesis using in_budget_later [of t0 ?e] assms(2) by simp
      qed
    qed
  qed
qed

text \<open>
  A stray packet just before the time is up and a reply just before the next receive times out: a measurement
  of 500 takes 999.
\<close>

definition stray_net :: net where
  "stray_net =
     \<lparr>n_parseIP = \<lambda>s. Some True, n_lookup = \<lambda>d a t. (None, t),
      n_socket = \<lambda>ip d t. \<lparr>sk_open = None, sk_option = None, sk_start = t, sk_sends = [(Sent, t)],
        sk_recvs = [(t, R_data [3, 1, 0, 0, 0, 0, 0, 0], t + d - 1),
                    (t + d - 1, R_data [0, 0, 0, 0, 0, 0, 0, 0], t + d - 1 + d)]\<rparr>,
      n_dial = \<lambda>ip port d t. (DialFailed ''timeout'', t)\<rparr>"

lemma stray_net_ok: "net_ok stray_net"
  by (simp add: net_ok_def dial_ok_def exchange_ok_def stray_net_def)

lemma ping_overruns:
  "pingOnce stray_net ''gateway'' ''10.0.0.1'' 500 1000 =
     (\<lparr>pr_Target = ''gateway'', pr_Addr = ''10.0.0.1'', pr_OK = True, pr_RTT = 999, pr_Method = ''icmp''\<rparr>, 1999)"
  by (simp add: pingOnce_def stray_net_def resolveIPv4_def icmpPing_def echo_reply_def timeSub_def
      minDuration_def maxDuration_def Let_def)

lemma ping_within_deadline_witness:
  "in_budget 1000 (1000 + 2 * 500) (pingOnce stray_net ''gateway'' ''10.0.0.1'' 500 1000)"
proof -
  have "snd (n_lookup stray_net (1000 + 500) ''10.0.0.1'' 1000) + 1 \<noteq> 1000 + 500" by (simp add: stray_net_def)
  then show ?thesis
    using ping_within_deadline [of stray_net 500 1000 "''10.0.0.1''" "''gateway''"] stray_net_ok by simp
qed

end
