(* ===== verification/Radio.thy ===== *)
theory Radio
  imports PowerSupply Util "HOL-Library.Char_ord" "HOL-Library.List_Lexorder"
begin

text \<open>
  \<open>internal/probe/wifi.go\<close>, \<open>modem.go\<close> and \<open>gpu.go\<close>: the wireless table and \<open>iw\<close>, ModemManager's
  \<open>mmcli\<close>, and the VideoCore readings of \<open>vcgencmd\<close>. The programs are run through the host's
  \<open>h_exec\<close>, which gives their output or \<open>None\<close> for a failure or a timeout.
\<close>

section \<open>wifi.go\<close>

definition wirelessPath :: string where "wirelessPath = ''/proc/net/wireless''"

record WiFiInfo =
  wf_Present :: bool
  wf_QualityPct :: f64
  wf_SignalDBm :: f64

definition parseWirelessNum :: "string \<Rightarrow> f64" where
  "parseWirelessNum s = float_or_zero (trimSuffix (trimSpace s) ''.'')"

definition wireless_row :: "string \<Rightarrow> (string \<times> WiFiInfo) option" where
  "wireless_row text =
     (case cut (trimSpace text) (CHR '':'') of
        None \<Rightarrow> None
      | Some (face, rest) \<Rightarrow>
          let fs = strFields rest
          in if length fs < 3 then None
             else
               let quality = parseWirelessNum (fs ! 1);
                   pct = quality / 70 * 100;
                   pct = (if pct < 0 then 0 else pct);
                   pct = (if pct > 100 then 100 else pct)
               in Some (trimSpace face,
                    \<lparr>wf_Present = True, wf_QualityPct = pct, wf_SignalDBm = parseWirelessNum (fs ! 2)\<rparr>))"

text \<open>The rows in the order of the file; of two rows of one name Go's map keeps the later.\<close>

definition wireless_rows :: "host \<Rightarrow> (string \<times> WiFiInfo) list" where
  "wireless_rows h =
     (case h_read h wirelessPath of
        None \<Rightarrow> []
      | Some s \<Rightarrow> List.map_filter wireless_row (drop 2 (scan_lines (64 * 1024) s)))"

definition readWirelessStats :: "host \<Rightarrow> (string \<rightharpoonup> WiFiInfo)" where
  "readWirelessStats h = map_of (rev (wireless_rows h))"

record IWLink =
  iw_Present :: bool
  iw_SSID :: string
  iw_FreqMHz :: int
  iw_Channel :: int
  iw_SignalDBm :: int
  iw_TxMbps :: f64
  iw_RxMbps :: f64

definition noLink :: IWLink where
  "noLink = \<lparr>iw_Present = False, iw_SSID = [], iw_FreqMHz = 0, iw_Channel = 0, iw_SignalDBm = 0,
     iw_TxMbps = 0, iw_RxMbps = 0\<rparr>"

definition iwPaths :: "string list" where
  "iwPaths = [''/usr/sbin/iw'', ''/sbin/iw'', ''/usr/bin/iw'']"

definition iwBinPath :: "host \<Rightarrow> string" where
  "iwBinPath h = find_bin h iwPaths ''iw''"

definition FreqToChannel :: "int \<Rightarrow> int" where
  "FreqToChannel mhz =
     (if mhz = 2484 then 14
      else if 2412 \<le> mhz \<and> mhz < 2484 then (mhz - 2407) div 5
      else if 5955 \<le> mhz \<and> mhz \<le> 7115 then (mhz - 5950) div 5
      else if 5000 \<le> mhz \<and> mhz < 5950 then (mhz - 5000) div 5
      else 0)"

definition parseBitrate :: "string \<Rightarrow> f64" where
  "parseBitrate s = (case strFields s of [] \<Rightarrow> 0 | f # _ \<Rightarrow> float_or_zero f)"

definition iw_line :: "goarch \<Rightarrow> string \<Rightarrow> IWLink \<Rightarrow> IWLink" where
  "iw_line arch raw l =
     (let line = trimSpace raw
      in if hasPrefix line ''Connected to '' then l\<lparr>iw_Present := True\<rparr>
         else if hasPrefix line ''SSID:'' then
           l\<lparr>iw_SSID := Printable (trimSpace (trimPrefix line ''SSID:''))\<rparr>
         else if hasPrefix line ''freq:'' then
           (case parseFloat (trimSpace (trimPrefix line ''freq:'')) of
              PF_finite f \<Rightarrow> l\<lparr>iw_FreqMHz := f2i arch f, iw_Channel := FreqToChannel (f2i arch f)\<rparr>
            | _ \<Rightarrow> l)
         else if hasPrefix line ''signal:'' then
           (case atoi (trimSpace (trimSuffix (trimSpace (trimPrefix line ''signal:'')) ''dBm'')) of
              Some n \<Rightarrow> l\<lparr>iw_SignalDBm := n\<rparr>
            | None \<Rightarrow> l)
         else if hasPrefix line ''tx bitrate:'' then
           l\<lparr>iw_TxMbps := parseBitrate (trimPrefix line ''tx bitrate:'')\<rparr>
         else if hasPrefix line ''rx bitrate:'' then
           l\<lparr>iw_RxMbps := parseBitrate (trimPrefix line ''rx bitrate:'')\<rparr>
         else l)"

definition parseIWLink :: "goarch \<Rightarrow> string \<Rightarrow> IWLink" where
  "parseIWLink arch s = fold (iw_line arch) (split s NL) noLink"

text \<open>
  One query per wireless interface that \<open>keep\<close> accepts (\<open>None\<close> accepts all); each writes its own
  key, so the order of Go's map loop does not show.
\<close>

definition ReadIWLinks :: "goarch \<Rightarrow> host \<Rightarrow> (string \<Rightarrow> bool) option \<Rightarrow> (string \<rightharpoonup> IWLink)" where
  "ReadIWLinks arch h keep name =
     (let bin = iwBinPath h
      in if bin = [] \<or> readWirelessStats h name = None then None
         else if (case keep of None \<Rightarrow> False | Some k \<Rightarrow> \<not> k name) then None
         else case h_exec h bin [''dev'', name, ''link''] of
           None \<Rightarrow> None
         | Some out \<Rightarrow>
             let l = parseIWLink arch out in if iw_Present l then Some l else None)"

definition CheckIW :: "host \<Rightarrow> Capability" where
  "CheckIW h =
     (let c = cap ''wireless link details (iw)'' (join iwPaths '', '' @ '', $PATH'')
            ''SSID, channel and tx/rx rates on the Network tab'';
          bin = iwBinPath h;
          names = sort (remdups (map fst (wireless_rows h)))
      in if bin = [] then c\<lparr>cap_Detail := ''iw not found'', cap_Fix := ''sudo apt install iw''\<rparr>
         else if names = [] then
           c\<lparr>cap_Source := bin,
             cap_Detail := bin @ '' is installed, but '' @ wirelessPath @ '' lists no wireless interface''\<rparr>
         else
           c\<lparr>cap_Source := bin, cap_Status := CapPresent,
             cap_Detail := bin @ '', '' @
               plural (int (length names)) ''wireless interface'' ''wireless interfaces'' @ '': '' @ firstN names 4\<rparr>)"

section \<open>modem.go\<close>

definition mmcliPaths :: "string list" where
  "mmcliPaths = [''/usr/bin/mmcli'', ''/usr/sbin/mmcli'', ''/bin/mmcli'']"

record ModemInfo =
  mo_Present :: bool
  mo_Model :: string
  mo_Manufacturer :: string
  mo_State :: string
  mo_FailedReason :: string
  mo_Operator :: string
  mo_OperatorCode :: string
  mo_AccessTech :: string
  mo_SignalPct :: int
  mo_SignalRecent :: bool
  mo_RSSIdBm :: f64
  mo_HasRSSI :: bool
  mo_IMEI :: string
  mo_Bands :: string

definition noModem :: ModemInfo where
  "noModem = \<lparr>mo_Present = False, mo_Model = [], mo_Manufacturer = [], mo_State = [], mo_FailedReason = [],
     mo_Operator = [], mo_OperatorCode = [], mo_AccessTech = [], mo_SignalPct = 0, mo_SignalRecent = False,
     mo_RSSIdBm = 0, mo_HasRSSI = False, mo_IMEI = [], mo_Bands = []\<rparr>"

definition Registered :: "ModemInfo \<Rightarrow> bool" where
  "Registered m \<longleftrightarrow> mo_State m \<in> {''connected'', ''registered'', ''connecting'', ''disconnecting''}"

definition mmcliPath :: "host \<Rightarrow> string" where
  "mmcliPath h = find_bin h mmcliPaths ''mmcli''"

text \<open>The digits after the first \<open>/Modem/\<close> of a line that has one followed by a digit.\<close>

fun firstModemIndex_lines :: "string list \<Rightarrow> string option" where
  "firstModemIndex_lines [] = None"
| "firstModemIndex_lines (line # ls) =
     (case index line ''/Modem/'' of
        None \<Rightarrow> firstModemIndex_lines ls
      | Some i \<Rightarrow>
          let digits = takeWhile is_digit (drop (i + 7) line)
          in if digits \<noteq> [] then Some digits else firstModemIndex_lines ls)"

definition firstModemIndex :: "string \<Rightarrow> string option" where
  "firstModemIndex s = firstModemIndex_lines (split s NL)"

definition firstWord :: "string \<Rightarrow> string" where
  "firstWord s = (case strFields s of [] \<Rightarrow> [] | f # _ \<Rightarrow> f)"

text \<open>\<open>strings.Trim\<close> with a cutset of ASCII characters.\<close>

definition trim_set :: "char set \<Rightarrow> string \<Rightarrow> string" where
  "trim_set cs s = rev (dropWhile (\<lambda>c. c \<in> cs) (rev (dropWhile (\<lambda>c. c \<in> cs) s)))"

definition splitMmcliLine :: "string \<Rightarrow> (string \<times> string) option" where
  "splitMmcliLine raw =
     (case cut (trimSpace raw) (CHR '':'') of
        None \<Rightarrow> None
      | Some (lhs, val) \<Rightarrow>
          let key = (case lastIndexByte lhs (CHR ''|'') of Some i \<Rightarrow> drop (i + 1) lhs | None \<Rightarrow> lhs);
              key = trimSpace (toLower (trim_set {CHR ''-'', CHR ''|'', CHR '' ''} key));
              val = trimSpace val
          in if key = [] \<or> val = [] \<or> val = ''--'' then None else Some (key, val))"

definition looksLikeAccessTech :: "string \<Rightarrow> bool" where
  "looksLikeAccessTech val \<longleftrightarrow> toLower (firstWord val) \<in>
     {''lte'', ''umts'', ''gsm'', ''hspa'', ''hspa+'', ''evdo'', ''5gnr'', ''edge'', ''gprs''}"

definition parseSignalQuality :: "string \<Rightarrow> (int \<times> bool) option" where
  "parseSignalQuality val =
     (let num = (case cut val (CHR ''%'') of Some (n, _) \<Rightarrow> n | None \<Rightarrow> val)
      in case atoi (trimSpace (firstWord num)) of
           None \<Rightarrow> None
         | Some n \<Rightarrow> if n < 0 \<or> n > 100 then None else Some (n, contains val ''recent''))"

definition modem_line :: "string \<Rightarrow> ModemInfo \<Rightarrow> ModemInfo" where
  "modem_line raw m =
     (case splitMmcliLine raw of
        None \<Rightarrow> m
      | Some (key, val) \<Rightarrow>
          if key = ''model'' then m\<lparr>mo_Model := val, mo_Present := True\<rparr>
          else if key = ''manufacturer'' then m\<lparr>mo_Manufacturer := val, mo_Present := True\<rparr>
          else if key = ''state'' then m\<lparr>mo_State := toLower (firstWord val), mo_Present := True\<rparr>
          else if key = ''failed reason'' then m\<lparr>mo_FailedReason := val\<rparr>
          else if key = ''operator name'' then m\<lparr>mo_Operator := Printable val\<rparr>
          else if key = ''operator id'' \<or> key = ''operator code'' then m\<lparr>mo_OperatorCode := val\<rparr>
          else if key = ''access tech'' \<or> key = ''access technology'' \<or> key = ''current'' then
            (if mo_AccessTech m = [] \<and> looksLikeAccessTech val then m\<lparr>mo_AccessTech := toLower val\<rparr> else m)
          else if key = ''signal quality'' then
            (case parseSignalQuality val of
               Some (pct, recent) \<Rightarrow> m\<lparr>mo_SignalPct := pct, mo_SignalRecent := recent\<rparr>
             | None \<Rightarrow> m)
          else if key = ''imei'' \<or> key = ''equipment id'' then m\<lparr>mo_IMEI := val\<rparr>
          else if key = ''bands'' then m\<lparr>mo_Bands := val\<rparr>
          else m)"

definition parseModem :: "string \<Rightarrow> ModemInfo" where
  "parseModem s =
     (let m = fold modem_line (split s NL) (noModem\<lparr>mo_SignalPct := -1\<rparr>)
      in if mo_Present m then m else noModem)"

definition rssi_line :: "string \<Rightarrow> f64 option" where
  "rssi_line raw =
     (case splitMmcliLine raw of
        Some (key, val) \<Rightarrow>
          if key = ''rssi'' then
            (case parseFloat (firstWord val) of PF_finite v \<Rightarrow> if v = 0 then None else Some v | _ \<Rightarrow> None)
          else None
      | None \<Rightarrow> None)"

definition parseSignalRSSI :: "string \<Rightarrow> f64 option" where
  "parseSignalRSSI s =
     (case List.map_filter rssi_line (split s NL) of [] \<Rightarrow> None | v # _ \<Rightarrow> Some v)"

definition ReadModem :: "host \<Rightarrow> ModemInfo" where
  "ReadModem h =
     (let bin = mmcliPath h
      in if bin = [] then noModem
         else case Option.bind (h_exec h bin [''--list-modems'']) firstModemIndex of
           None \<Rightarrow> noModem
         | Some idx \<Rightarrow>
             (case h_exec h bin [''--modem'', idx] of
                None \<Rightarrow> noModem
              | Some out \<Rightarrow>
                  let info = parseModem out
                  in if \<not> mo_Present info then noModem
                     else case Option.bind (h_exec h bin [''--modem'', idx, ''--signal-get'']) parseSignalRSSI of
                       Some rssi \<Rightarrow> info\<lparr>mo_RSSIdBm := rssi, mo_HasRSSI := True\<rparr>
                     | None \<Rightarrow> info))"

definition CheckModemManager :: "host \<Rightarrow> Capability" where
  "CheckModemManager h =
     (let c = cap ''WWAN modem (mmcli)'' (join mmcliPaths '', '' @ '', $PATH'')
            (''the Network tab'' @ [SQUOTE] @ ''s modem block (operator, access tech, signal)'');
          bin = mmcliPath h
      in if bin = [] then c\<lparr>cap_Detail := ''mmcli not found'', cap_Fix := ''sudo apt install modemmanager''\<rparr>
         else case h_exec h bin [''--list-modems''] of
           None \<Rightarrow>
             c\<lparr>cap_Source := bin, cap_Status := CapDenied,
               cap_Detail := bin @ '' could not be queried '' @ EMDASH @ '' is ModemManager running?'',
               cap_Fix := ''sudo systemctl enable --now ModemManager''\<rparr>
         | Some lst \<Rightarrow>
             if firstModemIndex lst = None then
               c\<lparr>cap_Source := bin, cap_Detail := ''ModemManager is answering, but knows no modem''\<rparr>
             else
               let info = ReadModem h
               in c\<lparr>cap_Source := bin, cap_Status := CapPresent,
                    cap_Detail := trimSpace (mo_Manufacturer info @ '' '' @ mo_Model info @
                      '' ('' @ mo_State info @ '')'')\<rparr>)"

section \<open>gpu.go\<close>

record ClockReading =
  cr_Name :: string
  cr_MHz :: f64

record GPUInfo =
  gp_Available :: bool
  gp_CoreTempC :: f64
  gp_CoreVolts :: f64
  gp_Clocks :: "ClockReading list"
  gp_MemARMMB :: int
  gp_MemGPUMB :: int

definition noGPU :: GPUInfo where
  "noGPU = \<lparr>gp_Available = False, gp_CoreTempC = 0, gp_CoreVolts = 0, gp_Clocks = [],
     gp_MemARMMB = 0, gp_MemGPUMB = 0\<rparr>"

definition clockDomains :: "string list" where
  "clockDomains = [''arm'', ''core'', ''v3d'', ''h264'', ''isp'', ''hevc'']"

definition vcgencmd :: "host \<Rightarrow> string \<Rightarrow> string list \<Rightarrow> string option" where
  "vcgencmd h bin args = map_option trimSpace (h_exec h bin args)"

definition parseAfter :: "string \<Rightarrow> string \<Rightarrow> string \<Rightarrow> f64" where
  "parseAfter s pre suf =
     (case index s pre of
        None \<Rightarrow> 0
      | Some i \<Rightarrow>
          let rest = drop (i + length pre) s;
              rest = (case index rest suf of Some j \<Rightarrow> take j rest | None \<Rightarrow> rest)
          in float_or_zero (trimSpace rest))"

definition parseMemMB :: "string \<Rightarrow> int" where
  "parseMemMB s =
     (case indexByte s (CHR ''='') of
        None \<Rightarrow> 0
      | Some eq \<Rightarrow>
          (case atoi (trimSuffix (trimSpace (drop (eq + 1) s)) ''M'') of Some n \<Rightarrow> n | None \<Rightarrow> 0))"

text \<open>An answer of any kind makes the tool available; what it says is kept by \<open>upd\<close>.\<close>

definition answered :: "string option \<Rightarrow> (string \<Rightarrow> GPUInfo \<Rightarrow> GPUInfo) \<Rightarrow> GPUInfo \<Rightarrow> GPUInfo" where
  "answered r upd g = (case r of None \<Rightarrow> g | Some s \<Rightarrow> upd s (g\<lparr>gp_Available := True\<rparr>))"

definition clock_step :: "host \<Rightarrow> string \<Rightarrow> string \<Rightarrow> GPUInfo \<Rightarrow> GPUInfo" where
  "clock_step h bin dom_name =
     answered (vcgencmd h bin [''measure_clock'', dom_name]) (\<lambda>s g.
       case indexByte s (CHR ''='') of
         None \<Rightarrow> g
       | Some eq \<Rightarrow>
           (case parseFloat (trimSpace (drop (eq + 1) s)) of
              PF_finite hz \<Rightarrow>
                if hz > 0 then g\<lparr>gp_Clocks := gp_Clocks g @ [\<lparr>cr_Name = dom_name, cr_MHz = hz / 1000000\<rparr>]\<rparr> else g
            | _ \<Rightarrow> g))"

definition SampleGPU :: "host \<Rightarrow> GPUInfo" where
  "SampleGPU h =
     (let bin = vcgencmdPath h
      in if bin = [] then noGPU
         else
           let g = noGPU;
               g = answered (vcgencmd h bin [''measure_temp'']) (\<lambda>s g. g\<lparr>gp_CoreTempC := parseAfter s ''temp='' [SQUOTE]\<rparr>) g;
               g = answered (vcgencmd h bin [''measure_volts'', ''core'']) (\<lambda>s g. g\<lparr>gp_CoreVolts := parseAfter s ''volt='' ''V''\<rparr>) g;
               g = fold (clock_step h bin) clockDomains g;
               g = answered (vcgencmd h bin [''get_mem'', ''arm'']) (\<lambda>s g. g\<lparr>gp_MemARMMB := parseMemMB s\<rparr>) g
           in answered (vcgencmd h bin [''get_mem'', ''gpu'']) (\<lambda>s g. g\<lparr>gp_MemGPUMB := parseMemMB s\<rparr>) g)"

definition CheckVideoCore :: "host \<Rightarrow> Capability" where
  "CheckVideoCore h =
     (let c = cap ''GPU / VideoCore (vcgencmd)'' (join vcgencmdPaths '', '' @ '', $PATH'')
            ''the whole GPU tab (core temp/volts, clocks, memory split) and the throttling flags'';
          bin = vcgencmdPath h;
          g = SampleGPU h
      in if bin = [] then
           c\<lparr>cap_Detail := ''vcgencmd not found '' @ EMDASH @ '' expected on any board that is not a Raspberry Pi'',
             cap_Fix := ''on Raspberry Pi OS: sudo apt install raspberrypi-utils (older releases: libraspberrypi-bin)''\<rparr>
         else if \<not> gp_Available g then
           c\<lparr>cap_Source := bin, cap_Status := CapDenied,
             cap_Detail := bin @ '' exists but produced no reading (not in the video group?)'',
             cap_Fix := ''sudo usermod -aG video '' @ [DQUOTE] @ ''$USER'' @ [DQUOTE] @ '', then log out and back in''\<rparr>
         else
           c\<lparr>cap_Source := bin, cap_Status := CapPresent,
             cap_Detail := plural (int (length (gp_Clocks g))) ''clock domain'' ''clock domains'' @ '', core '' @
               fmt_f 1 (gp_CoreTempC g) @ '' '' @ DEGREE @ ''C''\<rparr>)"

section \<open>Lemmas\<close>

lemma trim_set_pad:
  assumes "key \<noteq> []" "hd key \<notin> cs" "last key \<notin> cs" "set pad \<subseteq> cs"
  shows "trim_set cs (pad @ key) = key"
proof -
  have "dropWhile (\<lambda>c. c \<in> cs) (pad @ key) = key"
    using assms by (cases key) (auto simp: dropWhile_append2 subset_iff)
  moreover have "dropWhile (\<lambda>c. c \<in> cs) (rev key) = rev key"
    using assms by (cases key rule: rev_cases) auto
  ultimately show ?thesis by (simp add: trim_set_def)
qed

text \<open>The channel numbers of the three bands come back from their centre frequencies.\<close>

lemma FreqToChannel_bands:
  "1 \<le> c \<Longrightarrow> c \<le> 13 \<Longrightarrow> FreqToChannel (2407 + 5 * c) = c"
  "0 \<le> c \<Longrightarrow> c < 190 \<Longrightarrow> FreqToChannel (5000 + 5 * c) = c"
  "1 \<le> c \<Longrightarrow> c \<le> 233 \<Longrightarrow> FreqToChannel (5950 + 5 * c) = c"
  by (simp_all add: FreqToChannel_def)

lemma parseSignalQuality_range: "parseSignalQuality v = Some (n, r) \<Longrightarrow> 0 \<le> n \<and> n \<le> 100"
  by (auto simp: parseSignalQuality_def Let_def split: option.splits if_splits)

section \<open>Properties\<close>

text \<open>A row of ModemManager's report gives back its key and its value: whatever section name stands
  left of the column rule, whatever the value contains (colons and rules included) and however
  the row is padded.\<close>

theorem mmcli_line_roundtrip:
  assumes "sec = [] \<or> graphic (hd sec)" "CHR '':'' \<notin> set sec"
    and "key \<noteq> []" "CHR '':'' \<notin> set key" "CHR ''|'' \<notin> set key" "toLower key = key"
    and "graphic (hd key)" "graphic (last key)" "hd key \<noteq> CHR ''-''" "last key \<noteq> CHR ''-''"
    and "val \<noteq> []" "graphic (hd val)" "graphic (last val)" "val \<noteq> ''--''"
    and "list_all blank ws" "list_all blank ws'" "list_all blank ws''"
  shows "splitMmcliLine (ws @ sec @ CHR ''|'' # replicate n CHR '' '' @ key @ CHR '':'' # ws' @ val @ ws'')
    = Some (key, val)"
proof -
  let ?pad = "replicate n CHR '' ''" and ?cs = "{CHR ''-'', CHR ''|'', CHR '' ''}"
  let ?lhs = "sec @ CHR ''|'' # ?pad @ key" and ?rhs = "ws' @ val"
  have "graphic (hd (?lhs @ CHR '':'' # ?rhs))"
    using assms(1) by (cases sec) (auto simp: graphic_def)
  then have trim: "trimSpace (ws @ (?lhs @ CHR '':'' # ?rhs) @ ws'') = ?lhs @ CHR '':'' # ?rhs"
    using assms(11,13,15,17) by (intro trimSpace_pad) auto
  have cut: "cut (?lhs @ CHR '':'' # ?rhs) (CHR '':'') = Some (?lhs, ?rhs)"
    using assms(2,4) by (intro cut_append) auto
  have bar: "lastIndexByte ?lhs (CHR ''|'') = Some (length sec)"
    using assms(5) by (intro lastIndexByte_append) auto
  have "hd key \<noteq> CHR ''|''" "last key \<noteq> CHR ''|''"
    using assms(3,5) by (metis hd_in_set) (metis assms(3,5) last_in_set)
  then have "trim_set ?cs (?pad @ key) = key"
    using assms(3,5,7-10) by (intro trim_set_pad) (auto simp: graphic_def)
  moreover have "trimSpace key = key" using assms(3,7,8) by (intro trimSpace_graphic)
  moreover have "trimSpace (ws' @ val) = val"
    using trimSpace_pad [of ws' "[]" val] assms(11-13,16) by simp
  ultimately show ?thesis
    using trim cut bar assms(3,6,11,14) by (simp add: splitMmcliLine_def)
qed

lemma mmcli_line_roundtrip_witness:
  "splitMmcliLine (''  '' @ ''Status'' @ CHR ''|'' # replicate 3 CHR '' '' @ ''state'' @ CHR '':'' # '' '' @
     ''connected: yes'' @ [TAB]) = Some (''state'', ''connected: yes'')"
  by (rule mmcli_line_roundtrip) (simp_all add: graphic_def toLower_def lower_char_def)

lemma fold_clock_available:
  "gp_Available (fold (clock_step h bin) ds g) \<longleftrightarrow>
     gp_Available g \<or> (\<exists>d \<in> set ds. h_exec h bin [''measure_clock'', d] \<noteq> None)"
  by (induction ds arbitrary: g)
    (auto simp: clock_step_def answered_def vcgencmd_def split: option.splits floatParse.splits)

text \<open>The GPU tab is shown exactly when \<open>vcgencmd\<close> answered one of its queries: an installed tool that
  every call fails does not count, and one answer of any kind does.\<close>

theorem gpu_available_iff_answered:
  "gp_Available (SampleGPU h) =
     (vcgencmdPath h \<noteq> [] \<and>
      list_ex (\<lambda>q. h_exec h (vcgencmdPath h) q \<noteq> None)
        ([''measure_temp''] # [''measure_volts'', ''core''] # map (\<lambda>d. [''measure_clock'', d]) clockDomains @
         [[''get_mem'', ''arm''], [''get_mem'', ''gpu'']]))"
proof -
  have a: "gp_Available (answered r upd g) \<longleftrightarrow> gp_Available g \<or> r \<noteq> None"
    if "\<And>s g. gp_Available (upd s g) = gp_Available g" for r upd g
    using that by (cases r) (auto simp: answered_def)
  show ?thesis
    by (cases "vcgencmdPath h = []")
      (auto simp: SampleGPU_def Let_def a fold_clock_available noGPU_def vcgencmd_def list_ex_iff)
qed

end
