(* ===== verification/Net.thy ===== *)
theory Net
  imports Radio
begin

text \<open>
  \<open>internal/probe/net.go\<close>: the interface sampler with its rates, and the connection list. The
  interfaces, the kernel's counters, the socket table and the names of processes come from the
  libraries and are arguments.
\<close>

section \<open>Interfaces\<close>

record IOCounters =
  io_BytesRecv :: "64 word"
  io_BytesSent :: "64 word"
  io_PacketsRecv :: "64 word"
  io_PacketsSent :: "64 word"
  io_Errin :: "64 word"
  io_Errout :: "64 word"
  io_Dropin :: "64 word"
  io_Dropout :: "64 word"

record IfaceInfo =
  if_Name :: string
  if_Addrs :: "string list"
  if_IsUp :: bool
  if_RxBps :: f64
  if_TxBps :: f64
  if_WiFi :: WiFiInfo
  if_ErrIn :: "64 word"
  if_ErrOut :: "64 word"
  if_DropIn :: "64 word"
  if_DropOut :: "64 word"
  if_ErrInPs :: f64
  if_ErrOutPs :: f64
  if_DropInPs :: f64
  if_DropOutPs :: f64
  if_PacketsRx :: "64 word"
  if_PacketsTx :: "64 word"
  if_HasCounter :: bool

definition BadFrames :: "IfaceInfo \<Rightarrow> f64" where
  "BadFrames i = if_ErrInPs i + if_ErrOutPs i + if_DropInPs i + if_DropOutPs i"

definition BadFramesTotal :: "IfaceInfo \<Rightarrow> 64 word" where
  "BadFramesTotal i = if_ErrIn i + if_ErrOut i + if_DropIn i + if_DropOut i"

record NetSnapshot =
  ns_Hostname :: string
  ns_Uptime :: duration
  ns_Ifaces :: "IfaceInfo list"
  ns_TakenAt :: time

record NetSampler =
  nt_last :: "string \<rightharpoonup> IOCounters"
  nt_lastAt :: time

definition NewNetSampler :: NetSampler where
  "NewNetSampler = \<lparr>nt_last = Map.empty, nt_lastAt = zeroTime\<rparr>"

definition noWiFi :: WiFiInfo where
  "noWiFi = \<lparr>wf_Present = False, wf_QualityPct = 0, wf_SignalDBm = 0\<rparr>"

text \<open>An interface as the system lists it: its name, whether it is up, its addresses.\<close>

record sysIface =
  sy_Name :: string
  sy_Up :: bool
  sy_Addrs :: "string list"

definition iface_info ::
  "(string \<rightharpoonup> WiFiInfo) \<Rightarrow> (string \<rightharpoonup> IOCounters) \<Rightarrow> (string \<rightharpoonup> IOCounters) \<Rightarrow> f64 \<Rightarrow> sysIface \<Rightarrow> IfaceInfo" where
  "iface_info wifi cur prior dt nif =
     (let ii = \<lparr>if_Name = sy_Name nif, if_Addrs = sy_Addrs nif, if_IsUp = sy_Up nif, if_RxBps = 0, if_TxBps = 0,
            if_WiFi = (case wifi (sy_Name nif) of Some w \<Rightarrow> w | None \<Rightarrow> noWiFi),
            if_ErrIn = 0, if_ErrOut = 0, if_DropIn = 0, if_DropOut = 0, if_ErrInPs = 0, if_ErrOutPs = 0,
            if_DropInPs = 0, if_DropOutPs = 0, if_PacketsRx = 0, if_PacketsTx = 0, if_HasCounter = False\<rparr>
      in case cur (sy_Name nif) of
           None \<Rightarrow> ii
         | Some c \<Rightarrow>
             let ii = ii\<lparr>if_HasCounter := True, if_ErrIn := io_Errin c, if_ErrOut := io_Errout c,
                 if_DropIn := io_Dropin c, if_DropOut := io_Dropout c,
                 if_PacketsRx := io_PacketsRecv c, if_PacketsTx := io_PacketsSent c\<rparr>
             in case prior (sy_Name nif) of
                  None \<Rightarrow> ii
                | Some p \<Rightarrow>
                    ii\<lparr>if_RxBps := CounterRate (io_BytesRecv c) (io_BytesRecv p) dt,
                      if_TxBps := CounterRate (io_BytesSent c) (io_BytesSent p) dt,
                      if_ErrInPs := CounterRate (io_Errin c) (io_Errin p) dt,
                      if_ErrOutPs := CounterRate (io_Errout c) (io_Errout p) dt,
                      if_DropInPs := CounterRate (io_Dropin c) (io_Dropin p) dt,
                      if_DropOutPs := CounterRate (io_Dropout c) (io_Dropout p) dt\<rparr>)"

text \<open>
  One sample: \<open>hostname\<close> and \<open>up\<close> (seconds) may be missing, an error listing the interfaces or
  the counters ends it and leaves the sampler as it was.
\<close>

definition Sample ::
  "string \<Rightarrow> int option \<Rightarrow> string + sysIface list \<Rightarrow> string + (string \<times> IOCounters) list \<Rightarrow> host \<Rightarrow>
   time \<Rightarrow> NetSampler \<Rightarrow> (string + NetSnapshot) \<times> NetSampler" where
  "Sample hostname up ifs counters h now s =
     (case ifs of
        Inl e \<Rightarrow> (Inl e, s)
      | Inr ifs \<Rightarrow>
          (case counters of
             Inl e \<Rightarrow> (Inl e, s)
           | Inr counters \<Rightarrow>
               let cur = map_of (rev counters);
                   dt = seconds (timeSub now (nt_lastAt s));
                   dt = (if dt \<le> 0 then 1 else dt)
               in (Inr \<lparr>ns_Hostname = hostname,
                     ns_Uptime = (case up of Some u \<Rightarrow> wrap64 (u * second) | None \<Rightarrow> 0),
                     ns_Ifaces = map (iface_info (readWirelessStats h) cur (nt_last s) dt) ifs,
                     ns_TakenAt = now\<rparr>,
                   \<lparr>nt_last = cur, nt_lastAt = now\<rparr>)))"

section \<open>Connections\<close>

record ConnInfo =
  cn_Proto :: string
  cn_LocalAddr :: string
  cn_RemoteAddr :: string
  cn_Status :: string
  cn_PID :: int
  cn_Process :: string

datatype sockType = SOCK_STREAM | SOCK_DGRAM | SOCK_SEQPACKET | SOCK_OTHER
datatype family = AF_UNIX | AF_INET | AF_INET6 | AF_OTHER

definition protoLabel :: "sockType \<Rightarrow> family \<Rightarrow> string" where
  "protoLabel typ family =
     (if family = AF_UNIX then
        (if typ \<in> {SOCK_STREAM, SOCK_DGRAM, SOCK_SEQPACKET} then ''UNIX'' else [])
      else
        let proto = (if typ = SOCK_STREAM then ''TCP'' else if typ = SOCK_DGRAM then ''UDP'' else [])
        in if proto = [] then [] else if family = AF_INET6 then proto @ ''6'' else proto)"

record ConnStat =
  st_Type :: sockType
  st_Family :: family
  st_LaddrIP :: string
  st_LaddrPort :: nat
  st_RaddrIP :: string
  st_RaddrPort :: nat
  st_Status :: string
  st_Pid :: int

text \<open>\<open>net.JoinHostPort\<close>: brackets around a host with a colon (or a percent sign) in it.\<close>

definition joinHostPort :: "string \<Rightarrow> nat \<Rightarrow> string" where
  "joinHostPort ip port =
     (if CHR '':'' \<in> set ip \<or> CHR ''%'' \<in> set ip then ''['' @ ip @ '']:'' @ nat_digits port
      else ip @ '':'' @ nat_digits port)"

text \<open>
  One row. Each PID is looked up once per list: \<open>look n pid\<close> is what the \<open>n\<close>-th look at \<open>pid\<close>
  gives (the empty name on an error), and the answers are kept in \<open>procNames\<close>.
\<close>

definition conn_name ::
  "(nat \<Rightarrow> int \<Rightarrow> string) \<Rightarrow> int \<Rightarrow> (int \<rightharpoonup> string) \<times> nat \<Rightarrow> string \<times> (int \<rightharpoonup> string) \<times> nat" where
  "conn_name look pid st =
     (let (procNames, n) = st
      in if pid \<le> 0 then ([], st)
         else case procNames pid of
           Some cached \<Rightarrow> (cached, st)
         | None \<Rightarrow> let name = look n pid in (name, procNames(pid \<mapsto> name), n + 1))"

fun conns_loop ::
  "(nat \<Rightarrow> int \<Rightarrow> string) \<Rightarrow> (int \<rightharpoonup> string) \<times> nat \<Rightarrow> ConnStat list \<Rightarrow> ConnInfo list" where
  "conns_loop look st [] = []"
| "conns_loop look st (c # cs) =
     (let proto = protoLabel (st_Type c) (st_Family c)
      in if proto = [] then conns_loop look st cs
         else
           let local = (if proto = ''UNIX'' then (if st_LaddrIP c = [] then ''(unnamed)'' else st_LaddrIP c)
                        else joinHostPort (st_LaddrIP c) (st_LaddrPort c));
               remote = (if st_RaddrIP c = [] then ''-'' else joinHostPort (st_RaddrIP c) (st_RaddrPort c));
               (name, st') = conn_name look (st_Pid c) st
           in \<lparr>cn_Proto = proto, cn_LocalAddr = local, cn_RemoteAddr = remote, cn_Status = st_Status c,
                cn_PID = st_Pid c, cn_Process = Printable name\<rparr> # conns_loop look st' cs)"

definition convertConns :: "(nat \<Rightarrow> int \<Rightarrow> string) \<Rightarrow> ConnStat list \<Rightarrow> ConnInfo list" where
  "convertConns look conns = conns_loop look (Map.empty, 0) conns"

definition conn_less :: "ConnInfo \<Rightarrow> ConnInfo \<Rightarrow> bool" where
  "conn_less a b =
     (if cn_Status a \<noteq> cn_Status b then
        (if cn_Status a = ''LISTEN'' then True
         else if cn_Status b = ''LISTEN'' then False
         else cn_LocalAddr a < cn_LocalAddr b)
      else cn_LocalAddr a < cn_LocalAddr b)"

definition ListConnections :: "(nat \<Rightarrow> int \<Rightarrow> string) \<Rightarrow> string + ConnStat list \<Rightarrow> string + ConnInfo list" where
  "ListConnections look conns =
     (case conns of Inl e \<Rightarrow> Inl e | Inr cs \<Rightarrow> Inr (sort_by conn_less (convertConns look cs)))"

definition ConnectionsForPID :: "(nat \<Rightarrow> int \<Rightarrow> string) \<Rightarrow> string + ConnStat list \<Rightarrow> ConnInfo list" where
  "ConnectionsForPID look conns = (case conns of Inl e \<Rightarrow> [] | Inr cs \<Rightarrow> convertConns look cs)"

section \<open>Lemmas\<close>

interpretation conns: weak_order conn_less
  by unfold_locales (auto simp: conn_less_def split: if_splits)

text \<open>The cache holds what is shown: \<open>f\<close> names the PIDs looked up, now and later.\<close>

definition named_by :: "(int \<Rightarrow> string) \<Rightarrow> ConnInfo \<Rightarrow> bool" where
  "named_by f r \<longleftrightarrow> cn_Process r = Printable (if cn_PID r \<le> 0 then [] else f (cn_PID r))"

lemma conns_loop_names:
  "\<exists>f. (\<forall>p nm. fst st p = Some nm \<longrightarrow> f p = nm) \<and> list_all (named_by f) (conns_loop look st cs)"
proof (induction cs arbitrary: st)
  case Nil
  show ?case by (rule exI [of _ "\<lambda>p. case fst st p of Some nm \<Rightarrow> nm | None \<Rightarrow> []"]) simp
next
  case (Cons c cs)
  obtain name m n where cn: "conn_name look (st_Pid c) st = (name, m, n)" by (metis prod_cases3)
  obtain f where f: "\<forall>p nm. m p = Some nm \<longrightarrow> f p = nm" "list_all (named_by f) (conns_loop look (m, n) cs)"
    using Cons.IH [of "(m, n)"] by auto
  have grow: "\<forall>p nm. fst st p = Some nm \<longrightarrow> m p = Some nm"
    using cn by (cases st) (auto simp: conn_name_def Let_def split: if_splits option.splits)
  have new: "if st_Pid c \<le> 0 then name = [] else m (st_Pid c) = Some name"
    using cn by (cases st) (auto simp: conn_name_def Let_def split: if_splits option.splits)
  show ?case
  proof (cases "protoLabel (st_Type c) (st_Family c) = []")
    case True
    then show ?thesis using Cons.IH [of st] by simp
  next
    case False
    then have "list_all (named_by f) (conns_loop look st (c # cs))"
      using f new cn by (simp add: Let_def named_by_def [of f "\<lparr>cn_Proto = _, cn_LocalAddr = _, cn_RemoteAddr = _,
        cn_Status = _, cn_PID = _, cn_Process = _\<rparr>"] split: if_splits)
    then show ?thesis using f grow by blast
  qed
qed

text \<open>
  What a row says of an interface over \<open>dt\<close> seconds between two readings of its counters: the six rates are
  the rises per second, a counter that went backwards counting as unchanged, and none without both readings.
\<close>

definition per_second :: "(IOCounters \<Rightarrow> 64 word) \<Rightarrow> IOCounters option \<Rightarrow> IOCounters option \<Rightarrow> f64 \<Rightarrow> f64" where
  "per_second get p c dt =
     (case (p, c) of (Some p, Some c) \<Rightarrow> of_nat (unat (get c) - unat (get p)) / dt | _ \<Rightarrow> 0)"

definition row_between :: "IOCounters option \<Rightarrow> IOCounters option \<Rightarrow> f64 \<Rightarrow> IfaceInfo \<Rightarrow> bool" where
  "row_between p c dt i \<longleftrightarrow>
     if_RxBps i = per_second io_BytesRecv p c dt \<and> if_TxBps i = per_second io_BytesSent p c dt \<and>
     if_ErrInPs i = per_second io_Errin p c dt \<and> if_ErrOutPs i = per_second io_Errout p c dt \<and>
     if_DropInPs i = per_second io_Dropin p c dt \<and> if_DropOutPs i = per_second io_Dropout p c dt \<and>
     if_HasCounter i = (c \<noteq> None) \<and>
     (case c of None \<Rightarrow> True | Some c \<Rightarrow>
        if_ErrIn i = io_Errin c \<and> if_ErrOut i = io_Errout c \<and> if_DropIn i = io_Dropin c \<and>
        if_DropOut i = io_Dropout c \<and> if_PacketsRx i = io_PacketsRecv c \<and> if_PacketsTx i = io_PacketsSent c)"

lemma iface_info_row:
  "0 < dt \<Longrightarrow> row_between (prior (sy_Name nif)) (cur (sy_Name nif)) dt (iface_info wifi cur prior dt nif)"
  using CounterRate_bounded
  by (simp add: row_between_def iface_info_def per_second_def Let_def split: option.split)

lemma iface_info_ids [simp]:
  "if_Name (iface_info wifi cur prior dt nif) = sy_Name nif" "if_IsUp (iface_info wifi cur prior dt nif) = sy_Up nif"
  "if_Addrs (iface_info wifi cur prior dt nif) = sy_Addrs nif"
  by (simp_all add: iface_info_def Let_def split: option.split)

text \<open>The seconds between two samples; one when the clock has not moved forward.\<close>

definition elapsed :: "time \<Rightarrow> time \<Rightarrow> f64" where
  "elapsed before now = (if now \<le> before then 1 else seconds (timeSub now before))"

lemma elapsed_pos: "0 < elapsed before now"
  by (auto simp: elapsed_def seconds_def timeSub_def minDuration_def maxDuration_def)

section \<open>Properties\<close>

text \<open>C34: When the interfaces and the counters can be read, a sample has one row per interface, in the
  system's order, with its name, state and addresses; its six rates - bytes, errors and drops, in and out -
  are exactly what its own counter of that kind rose by per second since the previous sample, and an
  interface that one of the two samples has no counters for shows none. The sampler then remembers the
  counters and the time of this sample; when either reading fails it is left as it was.\<close>

theorem net_listing_sound:
  assumes "Sample hn up ifs counters h now s = (res, s')"
  shows "case (ifs, counters) of
      (Inr l, Inr cs) \<Rightarrow>
        (\<exists>snap. res = Inr snap \<and> ns_TakenAt snap = now \<and>
           list_all2 (\<lambda>nif i. if_Name i = sy_Name nif \<and> if_IsUp i = sy_Up nif \<and> if_Addrs i = sy_Addrs nif \<and>
             row_between (nt_last s (sy_Name nif)) (map_of (rev cs) (sy_Name nif)) (elapsed (nt_lastAt s) now) i)
             l (ns_Ifaces snap)) \<and>
        s' = \<lparr>nt_last = map_of (rev cs), nt_lastAt = now\<rparr>
    | _ \<Rightarrow> (\<exists>e. res = Inl e) \<and> s' = s"
proof (cases "\<exists>l cs. ifs = Inr l \<and> counters = Inr cs")
  case True
  then obtain l cs where lc: "ifs = Inr l" "counters = Inr cs" by blast
  let ?dt0 = "seconds (timeSub now (nt_lastAt s))"
  have "(if ?dt0 \<le> 0 then 1 else ?dt0) = elapsed (nt_lastAt s) now"
    by (auto simp: elapsed_def seconds_def timeSub_def minDuration_def maxDuration_def)
  then show ?thesis
    using assms
    by (auto simp: lc Sample_def Let_def list_all2_map2 intro!: list_all2_refl iface_info_row elapsed_pos)
next
  case False
  then show ?thesis using assms by (auto simp: Sample_def split: sum.splits)
qed

text \<open>Two seconds in which an interface received 4000 bytes, sent 600 and dropped 8.\<close>

lemma net_listing_sound_witness:
  "let h = \<lparr>h_read = \<lambda>p. None, h_dir = \<lambda>p. None, h_open = \<lambda>p. O_ok, h_canWrite = \<lambda>p. W_ok, h_stat = \<lambda>p. False,
         h_look = \<lambda>p. None, h_exec = \<lambda>p q. None\<rparr>;
       c = \<lambda>rx tx drop. \<lparr>io_BytesRecv = rx, io_BytesSent = tx, io_PacketsRecv = 1, io_PacketsSent = 0, io_Errin = 0,
         io_Errout = 0, io_Dropin = drop, io_Dropout = 0\<rparr>;
       s = \<lparr>nt_last = [''eth0'' \<mapsto> c 1000 200 0], nt_lastAt = 0\<rparr>
   in \<exists>snap i s'. Sample ''host'' None (Inr [\<lparr>sy_Name = ''eth0'', sy_Up = True, sy_Addrs = []\<rparr>])
         (Inr [(''eth0'', c 5000 800 8)]) h (2 * second) s = (Inr snap, s') \<and>
       ns_Ifaces snap = [i] \<and> if_Name i = ''eth0'' \<and> if_RxBps i = 2000 \<and> if_TxBps i = 300 \<and>
       if_DropInPs i = 4 \<and> if_ErrInPs i = 0 \<and> nt_lastAt s' = 2 * second"
proof -
  define h where "h = \<lparr>h_read = \<lambda>p. None, h_dir = \<lambda>p. None, h_open = \<lambda>p. O_ok, h_canWrite = \<lambda>p. W_ok, h_stat = \<lambda>p. False,
         h_look = \<lambda>p. None, h_exec = \<lambda>p q. None\<rparr>"
  define c where "c = (\<lambda>rx tx drop. \<lparr>io_BytesRecv = rx, io_BytesSent = tx, io_PacketsRecv = 1, io_PacketsSent = 0, io_Errin = 0,
         io_Errout = 0, io_Dropin = drop, io_Dropout = 0\<rparr>)"
  define s where "s = \<lparr>nt_last = [''eth0'' \<mapsto> c 1000 200 0], nt_lastAt = 0\<rparr>"
  obtain res s' where r: "Sample ''host'' None (Inr [\<lparr>sy_Name = ''eth0'', sy_Up = True, sy_Addrs = []\<rparr>])
       (Inr [(''eth0'', c 5000 800 8)]) h (2 * second) s = (res, s')"
    by fastforce
  obtain snap i where "res = Inr snap" "ns_Ifaces snap = [i]" "if_Name i = ''eth0''" "nt_lastAt s' = 2 * second"
    "row_between (Some (c 1000 200 0)) (Some (c 5000 800 8)) (elapsed 0 (2 * second)) i"
    using net_listing_sound [OF r] by (auto simp: s_def list_all2_Cons1)
  then show ?thesis
    using r unfolding Let_def h_def [symmetric] s_def [symmetric] c_def [symmetric]
    by (auto simp: row_between_def per_second_def elapsed_def c_def seconds_def timeSub_def minDuration_def maxDuration_def
        simp flip: s_def)
qed

text \<open>In a connection list every row has a protocol label, listening sockets come first and the rest
  are in the order of their local addresses; rows of one process carry one name, however often
  the process is renamed while the list is built.\<close>

theorem connections_consistent:
  assumes "ListConnections look conns = Inr rows"
  shows "sorted_wrt (\<lambda>a b. cn_Status b = ''LISTEN'' \<longrightarrow> cn_Status a = ''LISTEN'') rows \<and>
    sorted_wrt (\<lambda>a b. (cn_Status a = ''LISTEN'') = (cn_Status b = ''LISTEN'') \<longrightarrow> cn_LocalAddr a \<le> cn_LocalAddr b) rows \<and>
    (\<forall>a \<in> set rows. \<forall>b \<in> set rows. cn_PID a = cn_PID b \<longrightarrow> cn_Process a = cn_Process b) \<and>
    (\<forall>a \<in> set rows. cn_Proto a \<in> {''TCP'', ''TCP6'', ''UDP'', ''UDP6'', ''UNIX''})"
proof -
  obtain cs where cs: "conns = Inr cs" "rows = sort_by conn_less (convertConns look cs)"
    using assms by (auto simp: ListConnections_def split: sum.splits)
  have s: "sorted_wrt (\<lambda>a b. \<not> conn_less b a) rows"
    unfolding cs by (rule conns.sort_by_sorted)
  obtain f where f: "list_all (named_by f) (convertConns look cs)"
    using conns_loop_names [of "(Map.empty, 0)" look cs] unfolding convertConns_def by blast
  have labels: "list_all (\<lambda>r. cn_Proto r \<in> {''TCP'', ''TCP6'', ''UDP'', ''UDP6'', ''UNIX''}) (conns_loop look st cs)" for st
    by (induction cs arbitrary: st) (auto simp: protoLabel_def Let_def split: if_splits prod.splits)
  show ?thesis
  proof (intro conjI)
    show "sorted_wrt (\<lambda>a b. cn_Status b = ''LISTEN'' \<longrightarrow> cn_Status a = ''LISTEN'') rows"
      by (rule sorted_wrt_mono_rel [OF _ s]) (auto simp: conn_less_def split: if_splits)
    show "sorted_wrt (\<lambda>a b. (cn_Status a = ''LISTEN'') = (cn_Status b = ''LISTEN'') \<longrightarrow>
        cn_LocalAddr a \<le> cn_LocalAddr b) rows"
      by (rule sorted_wrt_mono_rel [OF _ s]) (auto simp: conn_less_def split: if_splits)
    show "\<forall>a \<in> set rows. \<forall>b \<in> set rows. cn_PID a = cn_PID b \<longrightarrow> cn_Process a = cn_Process b"
      using f by (simp add: cs list_all_iff named_by_def)
    show "\<forall>a \<in> set rows. cn_Proto a \<in> {''TCP'', ''TCP6'', ''UDP'', ''UDP6'', ''UNIX''}"
      using labels [of "(Map.empty, 0)"] by (simp add: cs convertConns_def list_all_iff)
  qed
qed

lemma connections_consistent_witness:
  "let cs = [\<lparr>st_Type = SOCK_STREAM, st_Family = AF_INET, st_LaddrIP = ''10.0.0.1'', st_LaddrPort = 22,
         st_RaddrIP = ''10.0.0.2'', st_RaddrPort = 999, st_Status = ''ESTABLISHED'', st_Pid = 7\<rparr>,
        \<lparr>st_Type = SOCK_STREAM, st_Family = AF_INET6, st_LaddrIP = ''::'', st_LaddrPort = 22,
         st_RaddrIP = [], st_RaddrPort = 0, st_Status = ''LISTEN'', st_Pid = 7\<rparr>];
       rows = sort_by conn_less (convertConns (\<lambda>n p. ''sshd'') cs)
   in sorted_wrt (\<lambda>a b. cn_Status b = ''LISTEN'' \<longrightarrow> cn_Status a = ''LISTEN'') rows"
proof -
  have "ListConnections (\<lambda>n p. ''sshd'') (Inr cs) = Inr (sort_by conn_less (convertConns (\<lambda>n p. ''sshd'') cs))" for cs
    by (simp only: ListConnections_def sum.case)
  from connections_consistent [OF this, THEN conjunct1] show ?thesis unfolding Let_def .
qed

end
