(* ===== verification/Kernlog.thy ===== *)
theory Kernlog
  imports Kmsg Disk Alerts Config
begin

text \<open>
  \<open>internal/ui/kernlog.go\<close>: kernel-log events grouped into alert conditions, the session counts
  behind the tabs, and the disks hidden by \<open>disk_ignore\<close>. \<open>hms\<close> is the local-time format
  \<open>15:04:05\<close>. Every loop over a Go map here treats each key by itself (it deletes it, or
  writes the condition of that key), so the maps are given by their value at a key.
\<close>

section \<open>The log's state\<close>

abbreviation TIMES :: string where "TIMES \<equiv> [CHR 0xC3, CHR 0x97]"

record kernelGroup =
  kg_kind :: KernelEventKind
  kg_device :: string
  kg_first :: time
  kg_last :: time
  kg_count :: int

record kernelLog =
  kl_groups :: "string \<rightharpoonup> kernelGroup"
  kl_underVoltage :: int
  kl_underVoltageLast :: time
  kl_ioErrors :: "string \<rightharpoonup> int"
  kl_ioLast :: "string \<rightharpoonup> time"
  kl_errs :: int

text \<open>The zero value; its nil maps are made on the first use.\<close>

definition newKernelLog :: kernelLog where
  "newKernelLog = \<lparr>kl_groups = Map.empty, kl_underVoltage = 0, kl_underVoltageLast = zeroTime,
     kl_ioErrors = Map.empty, kl_ioLast = Map.empty, kl_errs = 0\<rparr>"

definition kmsgMaxErrors :: int where "kmsgMaxErrors = 5"

text \<open>One more event of the group \<open>key\<close>.\<close>

definition bump :: "string \<Rightarrow> KernelEvent \<Rightarrow> kernelLog \<Rightarrow> kernelLog" where
  "bump key ev k =
     (let g = (case kl_groups k key of
            Some g \<Rightarrow> g
          | None \<Rightarrow> \<lparr>kg_kind = ke_Kind ev, kg_device = ke_Device ev, kg_first = ke_At ev,
              kg_last = zeroTime, kg_count = 0\<rparr>)
      in k\<lparr>kl_groups := (kl_groups k)(key \<mapsto> g\<lparr>kg_last := ke_At ev, kg_count := kg_count g + 1\<rparr>)\<rparr>)"

definition observe_event :: "(string \<Rightarrow> bool) \<Rightarrow> KernelEvent \<Rightarrow> kernelLog \<Rightarrow> kernelLog" where
  "observe_event hidden ev k =
     (case ke_Kind ev of
        KernelUnderVoltage \<Rightarrow>
          bump ''kuv'' ev (k\<lparr>kl_underVoltage := kl_underVoltage k + 1, kl_underVoltageLast := ke_At ev\<rparr>)
      | KernelStorageError \<Rightarrow>
          if hidden (ke_Device ev) then k
          else
            let n = (case kl_ioErrors k (ke_Device ev) of Some n \<Rightarrow> n | None \<Rightarrow> 0)
            in bump (''kio:'' @ ke_Device ev) ev
                 (k\<lparr>kl_ioErrors := (kl_ioErrors k)(ke_Device ev \<mapsto> n + 1),
                   kl_ioLast := (kl_ioLast k)(ke_Device ev \<mapsto> ke_At ev)\<rparr>)
      | KernelOOMKill \<Rightarrow> k)"

definition expire :: "time \<Rightarrow> duration \<Rightarrow> (string \<rightharpoonup> kernelGroup) \<Rightarrow> (string \<rightharpoonup> kernelGroup)" where
  "expire now window gs key =
     (case gs key of
        Some g \<Rightarrow> if timeSub now (kg_last g) \<ge> window then None else Some g
      | None \<Rightarrow> None)"

definition observe :: "KernelEvent list \<Rightarrow> time \<Rightarrow> duration \<Rightarrow> (string \<Rightarrow> bool) \<Rightarrow> kernelLog \<Rightarrow> kernelLog" where
  "observe evs now window hidden k =
     (let k' = fold (observe_event hidden) evs k
      in k'\<lparr>kl_groups := expire now window (kl_groups k')\<rparr>)"

section \<open>Conditions\<close>

definition group_times :: "(time \<Rightarrow> string) \<Rightarrow> kernelGroup \<Rightarrow> string" where
  "group_times hms g =
     (if kg_count g > 1 then '' '' @ itoa (kg_count g) @ TIMES @ '' since '' @ hms (kg_first g)
      else '' at '' @ hms (kg_first g))"

definition group_cond :: "(time \<Rightarrow> string) \<Rightarrow> (string \<Rightarrow> string) \<Rightarrow> kernelGroup \<Rightarrow> alertCond option" where
  "group_cond hms mountOf g =
     (case kg_kind g of
        KernelUnderVoltage \<Rightarrow>
          Some \<lparr>ac_sev = SevWarn, ac_msg = ''kernel: under-voltage'' @ group_times hms g @ '' '' @ EMDASH @
            '' check the power supply and cable''\<rparr>
      | KernelStorageError \<Rightarrow>
          let mnt = mountOf (kg_device g);
              dev = (if mnt \<noteq> [] then kg_device g @ '' ('' @ mnt @ '')'' else kg_device g)
          in Some \<lparr>ac_sev = SevCrit, ac_msg = ''kernel: storage I/O errors on '' @ dev @ group_times hms g @ '' '' @
               EMDASH @ '' the card may be failing; back up now''\<rparr>
      | KernelOOMKill \<Rightarrow> None)"

definition conds ::
  "(time \<Rightarrow> string) \<Rightarrow> kernelLog \<Rightarrow> time \<Rightarrow> duration \<Rightarrow> (string \<Rightarrow> string) \<Rightarrow>
   (string \<rightharpoonup> alertCond) \<Rightarrow> (string \<rightharpoonup> alertCond)" where
  "conds hms k now window mountOf cs key =
     (case kl_groups k key of
        None \<Rightarrow> cs key
      | Some g \<Rightarrow>
          if timeSub now (kg_last g) \<ge> window then cs key
          else case group_cond hms mountOf g of Some c \<Rightarrow> Some c | None \<Rightarrow> cs key)"

section \<open>Mounts\<close>

definition disk_of :: "DiskInfo \<Rightarrow> string" where
  "disk_of d = WholeDisk (trimPrefix (di_Device d) ''/dev/'')"

definition mountOf :: "DiskInfo list \<Rightarrow> string \<Rightarrow> string" where
  "mountOf disks disk = join (sort (map di_MountPoint (filter (\<lambda>d. disk_of d = disk) disks))) '', ''"

definition hiddenDisksOf :: "Config \<Rightarrow> DiskInfo list \<Rightarrow> string set" where
  "hiddenDisksOf cfg ds =
     (if DiskIgnore cfg = [] then {}
      else set (map disk_of (filter (\<lambda>d. HideMount cfg (di_MountPoint d)) ds)) -
           set (map disk_of (filter (\<lambda>d. \<not> HideMount cfg (di_MountPoint d)) ds)))"

section \<open>Summaries\<close>

text \<open>\<open>devs\<close> lists the keys of the error counts; they are sorted, so its order does not show.\<close>

definition ioSummary :: "(time \<Rightarrow> string) \<Rightarrow> string list \<Rightarrow> kernelLog \<Rightarrow> string" where
  "ioSummary hms devs k =
     (if devs = [] then []
      else ''kernel I/O errors this session: '' @
        join (map (\<lambda>d. d @ '' '' @ itoa (case kl_ioErrors k d of Some n \<Rightarrow> n | None \<Rightarrow> 0) @ '' (last '' @
            hms (case kl_ioLast k d of Some t \<Rightarrow> t | None \<Rightarrow> zeroTime) @ '')'') (sort devs)) '', '')"

definition underVoltageSummary :: "(time \<Rightarrow> string) \<Rightarrow> kernelLog \<Rightarrow> string" where
  "underVoltageSummary hms k =
     (if kl_underVoltage k = 0 then []
      else ''kernel reported under-voltage '' @ itoa (kl_underVoltage k) @ TIMES @ '' this session (last '' @
        hms (kl_underVoltageLast k) @ '')'')"

section \<open>Lemmas\<close>

text \<open>The group an event counts towards, and the events of one key or device in a batch.\<close>

definition key_of :: "(string \<Rightarrow> bool) \<Rightarrow> KernelEvent \<Rightarrow> string option" where
  "key_of hidden ev =
     (case ke_Kind ev of
        KernelUnderVoltage \<Rightarrow> Some ''kuv''
      | KernelStorageError \<Rightarrow> if hidden (ke_Device ev) then None else Some (''kio:'' @ ke_Device ev)
      | KernelOOMKill \<Rightarrow> None)"

lemma bump_fields [simp]:
  "kl_underVoltage (bump key ev k) = kl_underVoltage k" "kl_ioErrors (bump key ev k) = kl_ioErrors k"
  "kl_errs (bump key ev k) = kl_errs k" "kl_ioLast (bump key ev k) = kl_ioLast k"
  by (simp_all add: bump_def Let_def)

lemma bump_groups: "kl_groups (bump key ev k) key' =
    (if key' = key then
       Some (case kl_groups k key of
         Some g \<Rightarrow> g\<lparr>kg_last := ke_At ev, kg_count := kg_count g + 1\<rparr>
       | None \<Rightarrow> \<lparr>kg_kind = ke_Kind ev, kg_device = ke_Device ev, kg_first = ke_At ev, kg_last = ke_At ev, kg_count = 1\<rparr>)
     else kl_groups k key')"
  by (auto simp: bump_def Let_def split: option.splits)

lemma observe_event_groups:
  "kl_groups (observe_event hidden ev k) =
     (case key_of hidden ev of Some key \<Rightarrow> kl_groups (bump key ev k) | None \<Rightarrow> kl_groups k)"
  by (auto simp: observe_event_def key_of_def bump_def Let_def fun_eq_iff split: KernelEventKind.splits)

text \<open>What a batch does to one group.\<close>

definition batch_group :: "(string \<Rightarrow> bool) \<Rightarrow> string \<Rightarrow> KernelEvent list \<Rightarrow> kernelGroup option \<Rightarrow> kernelGroup option" where
  "batch_group hidden key evs =
     fold (\<lambda>ev og. Some (case og of
         Some g \<Rightarrow> g\<lparr>kg_last := ke_At ev, kg_count := kg_count g + 1\<rparr>
       | None \<Rightarrow> \<lparr>kg_kind = ke_Kind ev, kg_device = ke_Device ev, kg_first = ke_At ev, kg_last = ke_At ev, kg_count = 1\<rparr>))
       (filter (\<lambda>ev. key_of hidden ev = Some key) evs)"

lemma fold_observe_groups:
  "kl_groups (fold (observe_event hidden) evs k) key = batch_group hidden key evs (kl_groups k key)"
proof (induction evs arbitrary: k)
  case (Cons ev evs)
  then show ?case
    by (auto simp: observe_event_groups bump_groups batch_group_def split: option.splits)
qed (simp add: batch_group_def)

lemma batch_group_last:
  assumes "filter (\<lambda>ev. key_of hidden ev = Some key) evs \<noteq> []"
  shows "\<exists>g. batch_group hidden key evs og = Some g \<and>
    kg_last g = ke_At (last (filter (\<lambda>ev. key_of hidden ev = Some key) evs)) \<and>
    kg_count g = (case og of Some g0 \<Rightarrow> kg_count g0 | None \<Rightarrow> 0) +
      int (length (filter (\<lambda>ev. key_of hidden ev = Some key) evs))"
proof -
  define fs where "fs = filter (\<lambda>ev. key_of hidden ev = Some key) evs"
  have "fs \<noteq> [] \<Longrightarrow> \<exists>g. fold (\<lambda>ev og. Some (case og of
         Some g \<Rightarrow> g\<lparr>kg_last := ke_At ev, kg_count := kg_count g + 1\<rparr>
       | None \<Rightarrow> \<lparr>kg_kind = ke_Kind ev, kg_device = ke_Device ev, kg_first = ke_At ev, kg_last = ke_At ev, kg_count = 1\<rparr>))
       fs og = Some g \<and> kg_last g = ke_At (last fs) \<and>
       kg_count g = (case og of Some g0 \<Rightarrow> kg_count g0 | None \<Rightarrow> 0) + int (length fs)"
  proof (induction fs rule: rev_induct)
    case (snoc ev fs)
    then show ?case by (cases "fs = []") (auto split: option.splits)
  qed simp
  then show ?thesis using assms by (simp add: batch_group_def fs_def)
qed

lemma fold_observe_counts:
  "kl_underVoltage (fold (observe_event hidden) evs k) = kl_underVoltage k +
     int (length (filter (\<lambda>ev. ke_Kind ev = KernelUnderVoltage) evs))"
  "(case kl_ioErrors (fold (observe_event hidden) evs k) dev of Some n \<Rightarrow> n | None \<Rightarrow> 0) =
     (case kl_ioErrors k dev of Some n \<Rightarrow> n | None \<Rightarrow> 0) +
     int (length (filter (\<lambda>ev. ke_Kind ev = KernelStorageError \<and> ke_Device ev = dev \<and> \<not> hidden dev) evs))"
  by (induction evs arbitrary: k)
    (auto simp: observe_event_def Let_def split: KernelEventKind.splits option.splits)

text \<open>A run: the batches with the tick they were drained at and the disks hidden then.\<close>

type_synonym kbatch = "KernelEvent list \<times> time \<times> (string \<Rightarrow> bool)"

definition run_log :: "duration \<Rightarrow> kbatch list \<Rightarrow> kernelLog \<Rightarrow> kernelLog" where
  "run_log window run = fold (\<lambda>(evs, now, hidden). observe evs now window hidden) run"

definition run_events :: "string \<Rightarrow> kbatch list \<Rightarrow> KernelEvent list" where
  "run_events key run = concat (map (\<lambda>(evs, now, hidden). filter (\<lambda>ev. key_of hidden ev = Some key) evs) run)"

lemma observe_groups:
  "kl_groups (observe evs now window hidden k) key =
     (case batch_group hidden key evs (kl_groups k key) of
        Some g \<Rightarrow> if timeSub now (kg_last g) \<ge> window then None else Some g
      | None \<Rightarrow> None)"
  by (simp add: observe_def Let_def expire_def fold_observe_groups)

lemma run_groups:
  assumes "sorted (map (\<lambda>(evs, now, hidden). now) run)" "\<forall>(evs, now, hidden) \<in> set run. now \<le> t"
  shows "map_option kg_last (expire t window (kl_groups (run_log window run newKernelLog)) key) =
    (let es = run_events key run
     in if es \<noteq> [] \<and> timeSub t (ke_At (last es)) < window then Some (ke_At (last es)) else None)"
  using assms
proof (induction run arbitrary: t rule: rev_induct)
  case Nil
  show ?case by (simp add: run_log_def run_events_def newKernelLog_def expire_def)
next
  case (snoc b run)
  obtain evs now hidden where b: "b = (evs, now, hidden)" by (cases b) auto
  let ?k = "run_log window run newKernelLog" and ?fs = "filter (\<lambda>ev. key_of hidden ev = Some key) evs"
  have sorted: "sorted (map (\<lambda>(evs, now, hidden). now) run)" "\<forall>(evs, n, hidden) \<in> set run. n \<le> now" "now \<le> t"
    using snoc.prems by (auto simp: sorted_append b)
  have IH: "map_option kg_last (expire now window (kl_groups ?k) key) =
    (let es = run_events key run
     in if es \<noteq> [] \<and> timeSub now (ke_At (last es)) < window then Some (ke_At (last es)) else None)"
    by (rule snoc.IH) (use sorted in auto)
  have step: "kl_groups (run_log window (run @ [b]) newKernelLog) key =
     (case batch_group hidden key evs (kl_groups ?k key) of
        Some g \<Rightarrow> if timeSub now (kg_last g) \<ge> window then None else Some g
      | None \<Rightarrow> None)"
    by (simp add: run_log_def b observe_groups)
  have events: "run_events key (run @ [b]) = run_events key run @ ?fs" by (simp add: run_events_def b)
  have later: "timeSub now u \<le> timeSub t u" for u by (rule timeSub_mono [OF sorted(3)])
  show ?case
  proof (cases "?fs = []")
    case True
    then have "batch_group hidden key evs og = og" for og by (simp add: batch_group_def)
    then have "expire t window (kl_groups (run_log window (run @ [b]) newKernelLog)) key =
      (case expire now window (kl_groups ?k) key of
         Some g \<Rightarrow> if timeSub t (kg_last g) \<ge> window then None else Some g | None \<Rightarrow> None)"
      by (auto simp: expire_def step split: option.splits)
    then show ?thesis using IH later order_le_less_trans [OF later]
      by (auto simp: events True Let_def split: option.splits if_splits)
  next
    case False
    then obtain g where g: "batch_group hidden key evs (kl_groups ?k key) = Some g" "kg_last g = ke_At (last ?fs)"
      using batch_group_last [of hidden key evs "kl_groups ?k key"] by auto
    show ?thesis using g False later [of "kg_last g"]
      by (auto simp: expire_def step events Let_def)
  qed
qed

lemma run_counts:
  "kl_underVoltage (run_log window run k) = kl_underVoltage k +
     int (length (filter (\<lambda>ev. ke_Kind ev = KernelUnderVoltage) (concat (map fst run))))"
  "(case kl_ioErrors (run_log window run k) dev of Some n \<Rightarrow> n | None \<Rightarrow> 0) =
     (case kl_ioErrors k dev of Some n \<Rightarrow> n | None \<Rightarrow> 0) +
     int (length (filter (\<lambda>(ev, hidden). ke_Kind ev = KernelStorageError \<and> ke_Device ev = dev \<and> \<not> hidden dev)
       (concat (map (\<lambda>(evs, now, hidden). map (\<lambda>ev. (ev, hidden)) evs) run))))"
proof (induction run arbitrary: k)
  case (Cons b run)
  obtain evs now hidden where b: "b = (evs, now, hidden)" by (cases b) auto
  case 1
  show ?case using Cons.IH(1) [of "observe evs now window hidden k"]
    by (simp add: b run_log_def observe_def Let_def fold_observe_counts)
  case 2
  show ?case using Cons.IH(2) [of "observe evs now window hidden k"]
    by (simp add: b run_log_def observe_def Let_def fold_observe_counts filter_map comp_def)
qed (simp_all add: run_log_def)

text \<open>A group is of the kind and the device its key names.\<close>

definition groups_ok :: "(string \<rightharpoonup> kernelGroup) \<Rightarrow> bool" where
  "groups_ok gs \<longleftrightarrow> (\<forall>key g. gs key = Some g \<longrightarrow>
     key = ''kuv'' \<and> kg_kind g = KernelUnderVoltage \<or>
     key = ''kio:'' @ kg_device g \<and> kg_kind g = KernelStorageError)"

lemma observe_event_ok: "groups_ok (kl_groups k) \<Longrightarrow> groups_ok (kl_groups (observe_event hidden ev k))"
  by (auto simp: groups_ok_def observe_event_groups bump_groups key_of_def
      split: option.splits KernelEventKind.splits if_splits)

lemma run_groups_ok: "groups_ok (kl_groups (run_log window run newKernelLog))"
proof (induction run rule: rev_induct)
  case (snoc b run)
  obtain evs now hidden where b: "b = (evs, now, hidden)" by (cases b) auto
  have "groups_ok (kl_groups (fold (observe_event hidden) evs k))" if "groups_ok (kl_groups k)" for k
    using that by (induction evs arbitrary: k) (simp_all add: observe_event_ok)
  then have "groups_ok (kl_groups (fold (observe_event hidden) evs (run_log window run newKernelLog)))"
    using snoc .
  then show ?case
    by (auto simp: b run_log_def observe_def Let_def groups_ok_def expire_def split: option.splits if_splits)
qed (simp add: run_log_def newKernelLog_def groups_ok_def)

lemma group_cond_sev:
  "kg_kind g \<noteq> KernelOOMKill \<Longrightarrow> \<exists>c. group_cond hms mnt g = Some c \<and>
     ac_sev c = (if kg_kind g = KernelUnderVoltage then SevWarn else SevCrit)"
  by (cases "kg_kind g") (simp_all add: group_cond_def Let_def)

lemma conds_expire:
  assumes "groups_ok (kl_groups k)"
  shows "case expire t window (kl_groups k) key of
      None \<Rightarrow> conds hms k t window mnt Map.empty key = None
    | Some g \<Rightarrow> \<exists>c. conds hms k t window mnt Map.empty key = Some c \<and>
        ac_sev c = (if key = ''kuv'' then SevWarn else SevCrit)"
proof (cases "kl_groups k key")
  case (Some g)
  then have "key = ''kuv'' \<and> kg_kind g = KernelUnderVoltage \<or>
      key = ''kio:'' @ kg_device g \<and> kg_kind g = KernelStorageError"
    using assms unfolding groups_ok_def by blast
  then have "kg_kind g \<noteq> KernelOOMKill" "(kg_kind g = KernelUnderVoltage) = (key = ''kuv'')" by auto
  then show ?thesis using Some group_cond_sev [of g hms mnt] by (auto simp: expire_def conds_def)
qed (simp add: expire_def conds_def)

section \<open>Properties\<close>

text \<open>C14: Along any run of drains of the kernel log, whatever is hidden when, a key has an alert condition
  exactly while its latest event is younger than the alert window, so repeats extend one alert and
  none outlives its window; storage errors are critical, under-voltage is a warning. The session
  counts are the numbers of events, those of hidden disks left out.\<close>

theorem kernel_log_run:
  fixes window
  assumes "sorted (map (\<lambda>(evs, now, hidden). now) run)" "\<forall>(evs, now, hidden) \<in> set run. now \<le> t"
  defines "k \<equiv> run_log window run newKernelLog"
  shows "(conds hms k t window mnt Map.empty key \<noteq> None) =
      (run_events key run \<noteq> [] \<and> timeSub t (ke_At (last (run_events key run))) < window) \<and>
    (\<forall>c. conds hms k t window mnt Map.empty key = Some c \<longrightarrow> ac_sev c = (if key = ''kuv'' then SevWarn else SevCrit)) \<and>
    kl_underVoltage k = int (length (filter (\<lambda>ev. ke_Kind ev = KernelUnderVoltage) (concat (map fst run)))) \<and>
    (case kl_ioErrors k dev of Some n \<Rightarrow> n | None \<Rightarrow> 0) =
      int (length (filter (\<lambda>(ev, hidden). ke_Kind ev = KernelStorageError \<and> ke_Device ev = dev \<and> \<not> hidden dev)
        (concat (map (\<lambda>(evs, now, hidden). map (\<lambda>ev. (ev, hidden)) evs) run))))"
proof -
  have ok: "groups_ok (kl_groups k)" unfolding k_def by (rule run_groups_ok)
  let ?es = "run_events key run"
  have "map_option kg_last (expire t window (kl_groups k) key) =
      (if ?es \<noteq> [] \<and> timeSub t (ke_At (last ?es)) < window then Some (ke_At (last ?es)) else None)"
    unfolding k_def run_groups [OF assms(1,2)] by (simp add: Let_def)
  moreover have "case expire t window (kl_groups k) key of
      None \<Rightarrow> conds hms k t window mnt Map.empty key = None
    | Some g \<Rightarrow> \<exists>c. conds hms k t window mnt Map.empty key = Some c \<and>
        ac_sev c = (if key = ''kuv'' then SevWarn else SevCrit)"
    by (rule conds_expire [OF ok])
  ultimately have "(conds hms k t window mnt Map.empty key \<noteq> None) =
      (?es \<noteq> [] \<and> timeSub t (ke_At (last ?es)) < window) \<and>
    (\<forall>c. conds hms k t window mnt Map.empty key = Some c \<longrightarrow> ac_sev c = (if key = ''kuv'' then SevWarn else SevCrit))"
    by (cases "expire t window (kl_groups k) key") (auto split: if_splits)
  then show ?thesis
    using run_counts(1) [where k = newKernelLog and run = run and window = window]
      run_counts(2) [where k = newKernelLog and run = run and window = window and dev = dev]
    unfolding k_def [symmetric] by (simp add: newKernelLog_def)
qed

definition example_uv :: "time \<Rightarrow> KernelEvent" where
  "example_uv t = noEvent\<lparr>ke_At := t\<rparr>"

lemma kernel_log_run_witness:
  "conds (\<lambda>t. ''12:00:00'') (run_log 100 [([example_uv 5], 10, \<lambda>d. False), ([], 90, \<lambda>d. False)] newKernelLog) 100 100 (\<lambda>d. []) Map.empty
     ''kuv'' \<noteq> None"
  using kernel_log_run [of "[([example_uv 5], 10, \<lambda>d. False), ([], 90, \<lambda>d. False)]" 100 "\<lambda>t. ''12:00:00''" 100 "\<lambda>d. []" "''kuv''" "''sda''"]
  by (simp add: run_events_def key_of_def example_uv_def noEvent_def timeSub_def minDuration_def maxDuration_def)

end
