(* ===== verification/Table.thy ===== *)
theory Table
  imports Ignore
begin

text \<open>
  \<open>internal/ui/table.go\<close>, \<open>spark.go\<close> and the arithmetic of \<open>bar.go\<close>: cutting text to columns
  and rows, searching and highlighting, sparklines. The column width of a rune (lipgloss) is the
  argument \<open>rw\<close>, the lower case of a rune (the Unicode tables) is \<open>low\<close>, and a style is a function
  on text.
\<close>

section \<open>Columns\<close>

definition runeCount :: "string \<Rightarrow> int" where
  "runeCount s = int (length (runes s))"

definition encode :: "nat list \<Rightarrow> string" where
  "encode rs = concat (map encodeRune rs)"

abbreviation DOTS :: string where "DOTS \<equiv> [CHR 0xE2, CHR 0x80, CHR 0xA6]"
abbreviation HLINE :: string where "HLINE \<equiv> [CHR 0xE2, CHR 0x94, CHR 0x80]"

definition trunc_s :: "string \<Rightarrow> int \<Rightarrow> string" where
  "trunc_s s n =
     (if n \<le> 0 then []
      else if runeCount s \<le> n then s
      else if n \<le> 1 then DOTS
      else encode (take (nat (n - 1)) (runes s)) @ DOTS)"

definition rule :: "int \<Rightarrow> string" where
  "rule n = (if n \<le> 0 then [] else concat (replicate (nat n) HLINE))"

definition padRight :: "string \<Rightarrow> int \<Rightarrow> string" where
  "padRight s w =
     (let l = runeCount s in if l \<ge> w then s else s @ replicate (nat (w - l)) (CHR '' ''))"

definition padTo :: "(string \<Rightarrow> int) \<Rightarrow> int \<Rightarrow> string \<Rightarrow> string" where
  "padTo lipWidth width s =
     (if width \<le> 0 then []
      else let w = lipWidth s in if w \<ge> width then s else replicate (nat (width - w)) (CHR '' '') @ s)"

section \<open>Search\<close>

definition lowerStr :: "(nat \<Rightarrow> nat) \<Rightarrow> string \<Rightarrow> string" where
  "lowerStr low s = encode (map low (runes s))"

definition containsFold :: "(nat \<Rightarrow> nat) \<Rightarrow> string \<Rightarrow> string \<Rightarrow> bool" where
  "containsFold low s q \<longleftrightarrow> (if q = [] then True else contains (lowerStr low s) (lowerStr low q))"

definition lowerRunes :: "(nat \<Rightarrow> nat) \<Rightarrow> nat list \<Rightarrow> nat list" where
  "lowerRunes low rs = map low rs"

fun indexRunes :: "nat list \<Rightarrow> nat list \<Rightarrow> nat option" where
  "indexRunes [] sub = (if sub = [] then Some 0 else None)"
| "indexRunes (r # rs) sub =
     (if length sub \<le> length (r # rs) \<and> take (length sub) (r # rs) = sub then Some 0
      else map_option Suc (indexRunes rs sub))"

text \<open>The loop of \<open>highlightFold\<close> on the rest of the runes; the needle is not empty.\<close>

function highlight_loop :: "(nat \<Rightarrow> nat) \<Rightarrow> (string \<Rightarrow> string) \<Rightarrow> nat list \<Rightarrow> nat list \<Rightarrow> string" where
  "highlight_loop low hl lq rs =
     (if rs = [] \<or> lq = [] then encode rs
      else case indexRunes (lowerRunes low rs) lq of
        None \<Rightarrow> encode rs
      | Some j \<Rightarrow>
          encode (take j rs) @ hl (encode (take (length lq) (drop j rs))) @
          highlight_loop low hl lq (drop (j + length lq) rs))"
  by pat_completeness auto
termination by (relation "measure (\<lambda>(_, _, _, rs). length rs)") (auto simp: neq_Nil_conv)

declare highlight_loop.simps [simp del]

definition highlightFold :: "(nat \<Rightarrow> nat) \<Rightarrow> (string \<Rightarrow> string) \<Rightarrow> string \<Rightarrow> string \<Rightarrow> string" where
  "highlightFold low hl s q =
     (let q = trimSpace q
      in if q = [] then s else highlight_loop low hl (lowerRunes low (runes q)) (runes s))"

section \<open>Clipping\<close>

text \<open>
  \<open>esc_csi\<close>, \<open>esc_osc\<close>: how many bytes of the string after \<open>ESC [\<close>, \<open>ESC ]\<close> belong to the
  sequence, its terminator included.
\<close>

fun esc_csi :: "string \<Rightarrow> nat" where
  "esc_csi [] = 0"
| "esc_csi (b # s) = (if 0x40 \<le> code b \<and> code b \<le> 0x7E then 1 else Suc (esc_csi s))"

fun esc_osc :: "string \<Rightarrow> nat" where
  "esc_osc [] = 0"
| "esc_osc [b] = 1"
| "esc_osc (b # c # s) =
     (if code b = 0x07 then 1 else if b = ESC \<and> c = BACKSLASH then 2 else Suc (esc_osc (c # s)))"

text \<open>The length of the escape sequence a string starts with, 0 if it does not start with one.\<close>

definition esc_len :: "string \<Rightarrow> nat" where
  "esc_len s =
     (case s of
        [] \<Rightarrow> 0
      | c # t \<Rightarrow>
          if c \<noteq> ESC then 0
          else (case t of
            [] \<Rightarrow> 1
          | d # u \<Rightarrow>
              if d = CHR ''['' then 2 + esc_csi u
              else if d = CHR '']'' then 2 + esc_osc u
              else 2))"

function trunc_loop :: "(nat \<Rightarrow> nat) \<Rightarrow> nat \<Rightarrow> string \<Rightarrow> string" where
  "trunc_loop rw left s =
     (if s = [] then []
      else if 0 < esc_len s then take (esc_len s) s @ trunc_loop rw left (drop (esc_len s) s)
      else
        let (r, size) = decodeRune s
        in if r = RuneError \<and> size = 1 then trunc_loop rw left (drop 1 s)
           else if rw r > left then []
           else encodeRune r @ trunc_loop rw (left - rw r) (drop size s))"
  by pat_completeness auto
termination
proof (relation "measure (\<lambda>(_, _, s). length s)", goal_cases)
  case (4 rw left s x r size)
  then have "size = snd (decodeRune s)" by (metis snd_conv)
  then have "0 < size" by (simp add: decodeRune_width)
  with 4 show ?case by (cases s) auto
qed auto

declare trunc_loop.simps [simp del]

text \<open>\<open>left\<close> counts down what \<open>visible\<close> counts up to \<open>maxWidth\<close>.\<close>

definition ansiSafeTruncate :: "(nat \<Rightarrow> nat) \<Rightarrow> string \<Rightarrow> int \<Rightarrow> string" where
  "ansiSafeTruncate rw s maxWidth = (if maxWidth \<le> 0 then [] else trunc_loop rw (nat maxWidth) s)"

definition hardClipLinesToWidth :: "(nat \<Rightarrow> nat) \<Rightarrow> string \<Rightarrow> int \<Rightarrow> string" where
  "hardClipLinesToWidth rw s w =
     (if w \<le> 0 then s else join (map (\<lambda>l. ansiSafeTruncate rw l w) (split s NL)) [NL])"

definition clipHeight :: "string \<Rightarrow> int \<Rightarrow> string" where
  "clipHeight s maxLines =
     (if maxLines \<le> 0 then s
      else if int (length (split s NL)) \<le> maxLines then s
      else join (take (nat maxLines) (split s NL)) [NL])"

definition oneLine :: "string \<Rightarrow> string" where
  "oneLine s = map (\<lambda>c. if c = NL \<or> c = CHR 0x0D then CHR '' '' else c) s"

definition clampToWidthOneLine :: "(nat \<Rightarrow> nat) \<Rightarrow> string \<Rightarrow> int \<Rightarrow> string" where
  "clampToWidthOneLine rw s w = (if w \<le> 0 then [] else ansiSafeTruncate rw (oneLine s) w)"

section \<open>Sparklines and bars\<close>

text \<open>A level is an index into the eight blocks from low to high; the blocks are drawn by the caller.\<close>

definition block :: "nat \<Rightarrow> string" where
  "block i = [CHR 0xE2, CHR 0x96, char_of (0x81 + i)]"

definition spaces :: "nat \<Rightarrow> string" where "spaces n = replicate n (CHR '' '')"

definition tailValues :: "'a list \<Rightarrow> int \<Rightarrow> 'a list" where
  "tailValues values width = (if int (length values) > width then drop (length values - nat width) values else values)"

definition spark_level :: "goarch \<Rightarrow> f64 \<Rightarrow> f64 \<Rightarrow> f64 \<Rightarrow> nat" where
  "spark_level arch lo hi v =
     (let idx = f2i arch ((v - lo) / (hi - lo) * 7)
      in nat (let idx = (if idx < 0 then 0 else idx) in if idx \<ge> 8 then 7 else idx))"

definition renderSpark :: "goarch \<Rightarrow> f64 list \<Rightarrow> int \<Rightarrow> f64 \<Rightarrow> f64 \<Rightarrow> string" where
  "renderSpark arch values width lo hi =
     concat (map (\<lambda>v. block (spark_level arch lo hi v)) values) @ spaces (nat width - length values)"

definition Spark :: "goarch \<Rightarrow> f64 list \<Rightarrow> int \<Rightarrow> string" where
  "Spark arch values width =
     (if width \<le> 0 then []
      else if values = [] then spaces (nat width)
      else
        let values = tailValues values width;
            minV = Min (set values);
            maxV = Max (set values)
        in if maxV - minV \<le> 1 / 1000000000
           then concat (replicate (length values) (block 0)) @ spaces (nat width - length values)
           else renderSpark arch values width minV maxV)"

definition SparkRange :: "goarch \<Rightarrow> f64 list \<Rightarrow> int \<Rightarrow> f64 \<Rightarrow> f64 \<Rightarrow> string" where
  "SparkRange arch values width lo hi =
     (if width \<le> 0 then []
      else if values = [] then spaces (nat width)
      else if hi - lo \<le> 1 / 1000000000 then Spark arch values width
      else renderSpark arch (tailValues values width) width lo hi)"

definition SparkPct :: "goarch \<Rightarrow> f64 list \<Rightarrow> int \<Rightarrow> string" where
  "SparkPct arch values width = SparkRange arch values width 0 100"

text \<open>A bar is its filled and its empty part, each painted in its colour.\<close>

definition RenderBar :: "goarch \<Rightarrow> (string \<Rightarrow> string \<Rightarrow> string) \<Rightarrow> f64 \<Rightarrow> int \<Rightarrow> string \<Rightarrow> string" where
  "RenderBar arch paint pct width color =
     (if width \<le> 0 then []
      else
        let filled = f2i arch (pct / 100 * of_int width);
            filled = (if filled < 0 then 0 else filled);
            filled = (if filled > width then width else filled)
        in paint color (concat (replicate (nat filled) [CHR 0xE2, CHR 0x96, CHR 0x88])) @
           paint ''240'' (concat (replicate (nat (width - filled)) [CHR 0xE2, CHR 0x96, CHR 0x91])))"

definition RenderBarWithLabel :: "goarch \<Rightarrow> (string \<Rightarrow> string \<Rightarrow> string) \<Rightarrow> string \<Rightarrow> f64 \<Rightarrow> int \<Rightarrow> string" where
  "RenderBarWithLabel arch paint lbl pct width =
     (let color = (if pct \<ge> 90 then ''196'' else if pct \<ge> 75 then ''214'' else if pct \<ge> 50 then ''226'' else ''42'');
          barW = (if width - 8 < 5 then 5 else width - 8)
      in RenderBar arch paint pct barW color @ '' '' @ pad_left (CHR '' '') 5 (fmt_f 1 pct) @ ''%'')"

section \<open>What a clipped frame looks like\<close>

text \<open>
  The columns a line takes: an escape sequence takes none, a rune what the width table says, an
  invalid byte what the replacement rune takes.
\<close>

function columns :: "(nat \<Rightarrow> nat) \<Rightarrow> string \<Rightarrow> nat" where
  "columns rw s =
     (if s = [] then 0
      else if 0 < esc_len s then columns rw (drop (esc_len s) s)
      else let (r, size) = decodeRune s in rw r + columns rw (drop size s))"
  by pat_completeness auto
termination
proof (relation "measure (\<lambda>(_, s). length s)", goal_cases)
  case (3 rw s x r size)
  then have "size = snd (decodeRune s)" by (metis snd_conv)
  then have "0 < size" by (simp add: decodeRune_width)
  with 3 show ?case by (cases s) auto
qed auto

declare columns.simps [simp del]

lemma columns_Nil [simp]: "columns rw [] = 0"
  by (simp add: columns.simps)

lemma trunc_loop_Nil [simp]: "trunc_loop rw w [] = []"
  by (simp add: trunc_loop.simps)

lemma esc_csi_le: "esc_csi s \<le> length s"
  by (induction s) auto

lemma esc_osc_le: "esc_osc s \<le> length s"
  by (induction s rule: esc_osc.induct) auto

lemma esc_osc_pos: "s \<noteq> [] \<Longrightarrow> 0 < esc_osc s"
  by (cases s rule: esc_osc.cases) auto

lemma esc_osc_bel: "code b = 7 \<Longrightarrow> esc_osc (b # t) = 1"
  by (cases t) auto

lemma esc_csi_take: "esc_csi s < length s \<Longrightarrow> esc_csi (take (esc_csi s) s @ t) = esc_csi s"
  by (induction s) auto

lemma esc_osc_take: "esc_osc s < length s \<Longrightarrow> esc_osc (take (esc_osc s) s @ t) = esc_osc s"
proof (induction s rule: esc_osc.induct)
  case (3 b c s)
  consider "code b = 7" | "code b \<noteq> 7" "b = ESC \<and> c = BACKSLASH"
    | "code b \<noteq> 7" "\<not> (b = ESC \<and> c = BACKSLASH)" by blast
  then show ?case
  proof cases
    case 3
    obtain k where "esc_osc (c # s) = Suc k" using esc_osc_pos [of "c # s"] by (cases "esc_osc (c # s)") auto
    with 3 "3.IH" "3.prems" show ?thesis by (auto simp del: esc_osc.simps simp: esc_osc.simps(3))
  qed (simp_all add: esc_osc_bel)
qed auto

lemma esc_len_le: "esc_len s \<le> length s"
  using esc_csi_le esc_osc_le by (auto simp: esc_len_def split: list.splits)

text \<open>A complete escape sequence is one whatever follows it.\<close>

lemma esc_len_take:
  assumes "0 < esc_len s" "esc_len s < length s"
  shows "esc_len (take (esc_len s) s @ t) = esc_len s"
  using assms esc_csi_take [of _ t] esc_osc_take [of _ t] esc_csi_take [of _ "[]"] esc_osc_take [of _ "[]"]
  by (auto simp: esc_len_def split: list.splits if_splits)

lemma columns_esc:
  assumes "0 < esc_len s" "esc_len s = length s \<Longrightarrow> t = []"
  shows "columns rw (take (esc_len s) s @ t) = columns rw t"
proof (cases "esc_len s < length s")
  case True
  have "length (take (esc_len s) s) = esc_len s" using True by simp
  then show ?thesis
    using esc_len_take [OF assms(1) True, of t] assms(1)
    by (subst columns.simps) auto
next
  case False
  with esc_len_le [of s] assms show ?thesis by (subst columns.simps) auto
qed

lemma esc_len_rune:
  assumes "s \<noteq> []" "esc_len s = 0" "decodeRune s = (r, n)" "\<not> (r = RuneError \<and> n = 1)"
  shows "esc_len (encodeRune r @ t) = 0"
proof -
  have "encodeRune r = take n s" "0 < n"
    using encode_decode [OF assms(3,1,4)] decodeRune_width [of s] assms(3) by auto
  then show ?thesis
    using assms(1,2) by (cases s; cases n) (auto simp: esc_len_def split: list.splits if_splits)
qed

lemma columns_rune:
  assumes "s \<noteq> []" "esc_len s = 0" "decodeRune s = (r, n)" "\<not> (r = RuneError \<and> n = 1)"
  shows "columns rw (encodeRune r @ t) = rw r + columns rw t"
  using decode_encode [OF conjunct2 [OF encode_decode [OF assms(3,1,4)]], of t]
    esc_len_rune [OF assms, of t]
  by (subst columns.simps) simp

lemma columns_trunc_loop: "columns rw (trunc_loop rw left s) \<le> left"
proof (induction rw left s rule: trunc_loop.induct)
  case (1 rw left s)
  consider "s = []" | "s \<noteq> []" "0 < esc_len s" | "s \<noteq> []" "esc_len s = 0" by auto
  then show ?case
  proof cases
    case 2
    then show ?thesis
      using 1 columns_esc [of s "trunc_loop rw left (drop (esc_len s) s)" rw]
      by (subst trunc_loop.simps) auto
  next
    case 3
    obtain r n where d: "decodeRune s = (r, n)" by fastforce
    show ?thesis
    proof (cases "r = RuneError \<and> n = 1")
      case True
      then show ?thesis using 1(2) 3 d by (subst trunc_loop.simps) simp
    next
      case False
      have "columns rw (trunc_loop rw (left - rw r) (drop n s)) \<le> left - rw r" if "rw r \<le> left"
        using 1(3) [of "(r, n)" r n] 3 d False that by simp
      with False 3 d columns_rune [OF 3 d False, of rw] show ?thesis
        by (subst trunc_loop.simps) (auto simp del: One_nat_def)
    qed
  qed simp
qed

lemma set_trunc_loop: "set (trunc_loop rw left s) \<subseteq> set s"
proof (induction rw left s rule: trunc_loop.induct)
  case (1 rw left s)
  consider "s = []" | "s \<noteq> []" "0 < esc_len s" | "s \<noteq> []" "esc_len s = 0" by auto
  then show ?case
  proof cases
    case 2
    then show ?thesis
      using 1(1) set_take_subset [of "esc_len s" s] set_drop_subset [of "esc_len s" s]
      by (subst trunc_loop.simps) auto
  next
    case 3
    obtain r n where d: "decodeRune s = (r, n)" by fastforce
    show ?thesis
    proof (cases "r = RuneError \<and> n = 1")
      case True
      have "set (trunc_loop rw left (drop 1 s)) \<subseteq> set (drop 1 s)"
        using 1(2) [of "(r, n)" r n] 3 d True by simp
      then show ?thesis
        using True 3 d set_drop_subset [of 1 s] by (subst trunc_loop.simps) auto
    next
      case False
      have "set (trunc_loop rw (left - rw r) (drop n s)) \<subseteq> set s" if "rw r \<le> left"
        using 1(3) [of "(r, n)" r n] 3 d False that set_drop_subset [of n s] by simp
      then show ?thesis
        using False 3 d encode_decode [OF d 3(1) False] set_take_subset [of n s]
        by (subst trunc_loop.simps) (auto simp: not_less)
    qed
  qed simp
qed

lemma trunc_loop_ascii:
  "code c < 128 \<Longrightarrow> c \<noteq> ESC \<Longrightarrow>
   trunc_loop rw left (c # s) = (if rw (code c) > left then [] else c # trunc_loop rw (left - rw (code c)) s)"
  by (subst trunc_loop.simps) (simp add: esc_len_def decodeRune_def encodeRune_def)

text \<open>A line that fits is left as it is, but for its invalid bytes.\<close>

inductive well_encoded :: "string \<Rightarrow> bool" where
  "well_encoded []"
| "0 < esc_len s \<Longrightarrow> well_encoded (drop (esc_len s) s) \<Longrightarrow> well_encoded s"
| "s \<noteq> [] \<Longrightarrow> esc_len s = 0 \<Longrightarrow> decodeRune s = (r, n) \<Longrightarrow> \<not> (r = RuneError \<and> n = 1) \<Longrightarrow>
   well_encoded (drop n s) \<Longrightarrow> well_encoded s"

lemma trunc_loop_fits: "well_encoded s \<Longrightarrow> columns rw s \<le> left \<Longrightarrow> trunc_loop rw left s = s"
proof (induction s arbitrary: left rule: well_encoded.induct)
  case (2 s)
  then have "s \<noteq> []" by (auto simp: esc_len_def)
  with 2 have "columns rw s = columns rw (drop (esc_len s) s)" by (subst columns.simps) simp
  with 2 \<open>s \<noteq> []\<close> show ?case by (subst trunc_loop.simps) auto
next
  case (3 s r n)
  then have "columns rw s = rw r + columns rw (drop n s)" by (subst columns.simps) simp
  with 3 encode_decode [OF 3(3,1,4)] show ?case
    by (subst trunc_loop.simps) auto
qed simp

lemma split_join:
  "ls \<noteq> [] \<Longrightarrow> (\<And>l. l \<in> set ls \<Longrightarrow> b \<notin> set l) \<Longrightarrow> split (join ls [b]) b = ls"
  by (induction ls rule: induct_list012) (simp_all add: split_none split_sep)

lemma clipped_lines:
  assumes "0 < w"
  shows "split (hardClipLinesToWidth rw s w) NL = map (\<lambda>l. trunc_loop rw (nat w) l) (split s NL)"
proof -
  have "NL \<notin> set (trunc_loop rw (nat w) l)" if "l \<in> set (split s NL)" for l
    using set_trunc_loop [of rw "nat w" l] split_mem [OF that] by auto
  then show ?thesis
    using assms unfolding hardClipLinesToWidth_def ansiSafeTruncate_def
    by (subst if_not_P, simp, subst split_join) auto
qed

lemma clipHeight_lines:
  "0 < h \<Longrightarrow> split (clipHeight s h) NL = take (nat h) (split s NL)"
proof (cases "int (length (split s NL)) \<le> h")
  case False
  assume "0 < h"
  moreover have "take (nat h) (split s NL) \<noteq> []" using \<open>0 < h\<close> by simp
  ultimately show ?thesis
    using False unfolding clipHeight_def
    by (simp add: split_join [OF \<open>take (nat h) (split s NL) \<noteq> []\<close>] split_mem [OF in_set_takeD])
qed (simp add: clipHeight_def)

text \<open>whatever a tab has rendered, after its lines are clipped to the width of the box and the
  body to its height, no line takes more columns than the box has, there are no more lines than
  the box has rows, and a well-encoded line that fits is shown unchanged - so that the frame can
  never overflow the terminal, whatever escape sequences, wide runes or invalid bytes it holds.\<close>

theorem frame_fits:
  assumes "0 < w" "0 < h" and frame: "ls = split (clipHeight (hardClipLinesToWidth rw s w) h) NL"
  shows "length ls \<le> nat h \<and> (\<forall>l \<in> set ls. columns rw l \<le> nat w) \<and>
    (\<forall>k < length ls. well_encoded (split s NL ! k) \<and> columns rw (split s NL ! k) \<le> nat w \<longrightarrow>
       ls ! k = split s NL ! k)"
proof -
  have ls: "ls = take (nat h) (map (trunc_loop rw (nat w)) (split s NL))"
    unfolding frame clipHeight_lines [OF assms(2)] clipped_lines [OF assms(1)] by simp
  then have "\<forall>l \<in> set ls. columns rw l \<le> nat w"
    by (auto simp: columns_trunc_loop dest!: in_set_takeD)
  with ls show ?thesis by (simp add: trunc_loop_fits)
qed

theorem frame_fits_witness:
  "[[ESC] @ ''[1mab'', ''cd''] =
     split (clipHeight (hardClipLinesToWidth (\<lambda>r. 1) ([ESC] @ ''[1mabc'' @ [NL] @ ''cd'' @ [NL] @ ''e'') 2) 2) NL
   \<and> columns (\<lambda>r. 1) ''cd'' \<le> 2"
proof
  show e: "[[ESC] @ ''[1mab'', ''cd''] =
     split (clipHeight (hardClipLinesToWidth (\<lambda>r. 1) ([ESC] @ ''[1mabc'' @ [NL] @ ''cd'' @ [NL] @ ''e'') 2) 2) NL"
    by (simp add: clipHeight_def hardClipLinesToWidth_def ansiSafeTruncate_def trunc_loop_ascii
        trunc_loop.simps [of _ _ "ESC # _"] esc_len_def)
  show "columns (\<lambda>r. 1) ''cd'' \<le> 2"
    using frame_fits [OF _ _ e] by simp
qed

section \<open>What a sparkline shows\<close>

lemma spark_level_bound: "spark_level arch lo hi v \<le> 7"
  unfolding spark_level_def Let_def by (simp only: split: if_split) arith

end
