(* ===== verification/ProcsView.thy ===== *)
theory ProcsView
  imports Procs Table Config Util
begin

text \<open>
  The process list of \<open>internal/ui/model.go\<close>: filtering, sorting, the tree view, the cursor that
  follows a process across samples, and the viewport that follows the cursor. The viewport itself
  is a third-party widget: what its \<open>SetYOffset\<close> does is the argument \<open>setY\<close> (lines, height,
  requested offset), what \<open>SetContent\<close> leaves of the offset is the argument \<open>keepY\<close>.
\<close>

section \<open>Sort modes\<close>

datatype procSort = sortCPU | sortMem | sortIO | sortPID | sortName

definition procSort_string :: "procSort \<Rightarrow> string" where
  "procSort_string s =
     (case s of sortMem \<Rightarrow> ''MEM'' | sortIO \<Rightarrow> ''I/O'' | sortPID \<Rightarrow> ''PID'' | sortName \<Rightarrow> ''NAME'' | sortCPU \<Rightarrow> ''CPU'')"

definition next_sort :: "procSort \<Rightarrow> procSort" where
  "next_sort s =
     (case s of sortCPU \<Rightarrow> sortMem | sortMem \<Rightarrow> sortIO | sortIO \<Rightarrow> sortPID | sortPID \<Rightarrow> sortName | sortName \<Rightarrow> sortCPU)"

text \<open>The comparator of \<open>sortProcSlice\<close>; ties fall back to the PID.\<close>

definition proc_less :: "(nat \<Rightarrow> nat) \<Rightarrow> procSort \<Rightarrow> ProcInfo \<Rightarrow> ProcInfo \<Rightarrow> bool" where
  "proc_less low mode a b =
     (case mode of
        sortMem \<Rightarrow>
          if pi_MemPct a \<noteq> pi_MemPct b then pi_MemPct a > pi_MemPct b else pi_PID a < pi_PID b
      | sortIO \<Rightarrow>
          let ai = pi_IOReadBps a + pi_IOWriteBps a; bi = pi_IOReadBps b + pi_IOWriteBps b
          in if ai \<noteq> bi then ai > bi else pi_PID a < pi_PID b
      | sortName \<Rightarrow>
          let an = lowerStr low (pi_Name a); bn = lowerStr low (pi_Name b)
          in if an \<noteq> bn then an < bn else pi_PID a < pi_PID b
      | sortPID \<Rightarrow> pi_PID a < pi_PID b
      | sortCPU \<Rightarrow>
          if pi_CPUPct a \<noteq> pi_CPUPct b then pi_CPUPct a > pi_CPUPct b else pi_PID a < pi_PID b)"

definition sortProcSlice :: "(nat \<Rightarrow> nat) \<Rightarrow> procSort \<Rightarrow> ProcInfo list \<Rightarrow> ProcInfo list" where
  "sortProcSlice low mode ps = sort_by (proc_less low mode) ps"

section \<open>The pane\<close>

record ProcsPane =
  pp_procs :: "ProcInfo list"
  pp_view :: "ProcInfo list"
  pp_prefix :: "string list"
  pp_query :: string
  pp_sort :: procSort
  pp_tree :: bool
  pp_sel :: int
  pp_height :: int
  pp_yoff :: int

definition procsDisplayCap :: int where "procsDisplayCap = 200"

definition procsCap :: "Config \<Rightarrow> int" where
  "procsCap cfg = (if ProcsCap cfg > 0 then ProcsCap cfg else procsDisplayCap)"

section \<open>The flat view\<close>

definition proc_matches :: "(nat \<Rightarrow> nat) \<Rightarrow> string \<Rightarrow> ProcInfo \<Rightarrow> bool" where
  "proc_matches low q p \<longleftrightarrow>
     (let name = (if pi_Name p = [] then ''-'' else pi_Name p)
      in \<not> (q \<noteq> [] \<and> \<not> (containsFold low name q \<or> containsFold low (itoa (pi_PID p)) q \<or>
           containsFold low (pi_User p) q \<or> containsFold low (pi_CmdLine p) q)))"

definition computeProcsView :: "(nat \<Rightarrow> nat) \<Rightarrow> int \<Rightarrow> ProcsPane \<Rightarrow> ProcInfo list" where
  "computeProcsView low rcap m =
     (let out = sortProcSlice low (pp_sort m) (filter (proc_matches low (pp_query m)) (pp_procs m))
      in if int (length out) > rcap then take (nat rcap) out else out)"

section \<open>The tree view\<close>

definition has_parent :: "ProcInfo list \<Rightarrow> ProcInfo \<Rightarrow> bool" where
  "has_parent procs p \<longleftrightarrow> pi_PPID p \<in> pi_PID ` set procs \<and> pi_PPID p \<noteq> pi_PID p"

text \<open>The two slices the first loop fills, sorted; \<open>children[pid]\<close> is \<open>kids\<close>.\<close>

definition kids :: "(nat \<Rightarrow> nat) \<Rightarrow> procSort \<Rightarrow> ProcInfo list \<Rightarrow> int \<Rightarrow> ProcInfo list" where
  "kids low mode procs pid =
     sortProcSlice low mode (filter (\<lambda>p. has_parent procs p \<and> pi_PPID p = pid) procs)"

definition roots :: "(nat \<Rightarrow> nat) \<Rightarrow> procSort \<Rightarrow> ProcInfo list \<Rightarrow> ProcInfo list" where
  "roots low mode procs = sortProcSlice low mode (filter (\<lambda>p. \<not> has_parent procs p) procs)"

text \<open>What \<open>walk\<close> appends to and marks.\<close>

record tree_st =
  ts_out :: "ProcInfo list"
  ts_prefixes :: "string list"
  ts_visited :: "int set"

abbreviation BRANCH_LAST :: string where
  "BRANCH_LAST \<equiv> [CHR 0xE2, CHR 0x94, CHR 0x94, CHR 0xE2, CHR 0x94, CHR 0x80, CHR '' '']"
abbreviation BRANCH_MID :: string where
  "BRANCH_MID \<equiv> [CHR 0xE2, CHR 0x94, CHR 0x9C, CHR 0xE2, CHR 0x94, CHR 0x80, CHR '' '']"
abbreviation BRANCH_BAR :: string where
  "BRANCH_BAR \<equiv> [CHR 0xE2, CHR 0x94, CHR 0x82, CHR '' '', CHR '' '']"

definition branch_prefix :: "string \<Rightarrow> bool \<Rightarrow> bool \<Rightarrow> string" where
  "branch_prefix indent isLast isRoot =
     (if isRoot then [] else if isLast then indent @ BRANCH_LAST else indent @ BRANCH_MID)"

definition child_indent :: "string \<Rightarrow> bool \<Rightarrow> bool \<Rightarrow> string" where
  "child_indent indent isLast isRoot =
     (if isRoot then [] else if isLast then indent @ ''   '' else indent @ BRANCH_BAR)"

definition visit :: "ProcInfo \<Rightarrow> string \<Rightarrow> tree_st \<Rightarrow> tree_st" where
  "visit p px st =
     st\<lparr>ts_out := ts_out st @ [p], ts_prefixes := ts_prefixes st @ [px],
        ts_visited := insert (pi_PID p) (ts_visited st)\<rparr>"

text \<open>
  The recursive closure \<open>walk\<close> and the loops that call it on siblings. The recursion follows the
  process table, which may hold cycles, so it is not structural: it is bounded by fuel, and
  \<open>None\<close> is running out of it. Below, one unit per process is shown to be enough.
\<close>

fun walk :: "nat \<Rightarrow> int \<Rightarrow> (int \<Rightarrow> ProcInfo list) \<Rightarrow> ProcInfo \<Rightarrow> string \<Rightarrow> bool \<Rightarrow> bool \<Rightarrow> tree_st \<Rightarrow> tree_st option"
  and walks :: "nat \<Rightarrow> int \<Rightarrow> (int \<Rightarrow> ProcInfo list) \<Rightarrow> ProcInfo list \<Rightarrow> string \<Rightarrow> bool \<Rightarrow> tree_st \<Rightarrow> tree_st option"
where
  "walk 0 rcap children p indent isLast isRoot st = None"
| "walk (Suc n) rcap children p indent isLast isRoot st =
     (if int (length (ts_out st)) \<ge> rcap \<or> pi_PID p \<in> ts_visited st then Some st
      else walks n rcap children (children (pi_PID p)) (child_indent indent isLast isRoot) False
             (visit p (branch_prefix indent isLast isRoot) st))"
| "walks n rcap children [] indent isRoot st = Some st"
| "walks n rcap children (k # ks) indent isRoot st =
     (case walk n rcap children k indent (ks = []) isRoot st of
        None \<Rightarrow> None
      | Some st \<Rightarrow> walks n rcap children ks indent isRoot st)"

definition computeProcsTree ::
    "(nat \<Rightarrow> nat) \<Rightarrow> int \<Rightarrow> ProcsPane \<Rightarrow> (ProcInfo list \<times> string list) option" where
  "computeProcsTree low rcap m =
     (let procs = pp_procs m
      in map_option (\<lambda>st. (ts_out st, ts_prefixes st))
           (walks (Suc (length procs)) rcap (kids low (pp_sort m) procs) (roots low (pp_sort m) procs) [] True
              \<lparr>ts_out = [], ts_prefixes = [], ts_visited = {}\<rparr>))"

section \<open>The cursor\<close>

definition recomputeProcs :: "(nat \<Rightarrow> nat) \<Rightarrow> int \<Rightarrow> ProcsPane \<Rightarrow> ProcsPane" where
  "recomputeProcs low rcap m =
     (if pp_tree m \<and> pp_query m = []
      then case computeProcsTree low rcap m of
        None \<Rightarrow> m
      | Some (view, pfx) \<Rightarrow> m\<lparr>pp_view := view, pp_prefix := pfx\<rparr>
      else m\<lparr>pp_view := computeProcsView low rcap m, pp_prefix := []\<rparr>)"

definition selectedProc :: "ProcsPane \<Rightarrow> ProcInfo option" where
  "selectedProc m =
     (if pp_sel m \<ge> 0 \<and> pp_sel m < int (length (pp_view m)) then Some (pp_view m ! nat (pp_sel m)) else None)"

text \<open>The lines of the rendered rows: the placeholder is one line, and every line ends in a newline.\<close>

definition proc_lines :: "ProcsPane \<Rightarrow> int" where
  "proc_lines m = (if pp_procs m = [] \<or> pp_view m = [] then 2 else int (length (pp_view m)) + 1)"

definition ensureProcVisible :: "(int \<Rightarrow> int \<Rightarrow> int \<Rightarrow> int) \<Rightarrow> ProcsPane \<Rightarrow> ProcsPane" where
  "ensureProcVisible setY m =
     (let h = pp_height m
      in if h \<le> 0 then m
         else if pp_sel m < pp_yoff m then m\<lparr>pp_yoff := setY (proc_lines m) h (pp_sel m)\<rparr>
         else if pp_sel m \<ge> pp_yoff m + h then m\<lparr>pp_yoff := setY (proc_lines m) h (pp_sel m - h + 1)\<rparr>
         else m)"

definition rerenderProcs ::
    "(int \<Rightarrow> int \<Rightarrow> int \<Rightarrow> int) \<Rightarrow> (int \<Rightarrow> int \<Rightarrow> int \<Rightarrow> int) \<Rightarrow> ProcsPane \<Rightarrow> ProcsPane" where
  "rerenderProcs setY keepY m =
     ensureProcVisible setY (m\<lparr>pp_yoff := keepY (proc_lines m) (pp_height m) (pp_yoff m)\<rparr>)"

definition clamp_sel :: "ProcsPane \<Rightarrow> ProcsPane" where
  "clamp_sel m =
     (let sel = (if pp_sel m \<ge> int (length (pp_view m)) then int (length (pp_view m)) - 1 else pp_sel m)
      in m\<lparr>pp_sel := (if sel < 0 then 0 else sel)\<rparr>)"

definition renderProcs ::
    "(int \<Rightarrow> int \<Rightarrow> int \<Rightarrow> int) \<Rightarrow> (int \<Rightarrow> int \<Rightarrow> int \<Rightarrow> int) \<Rightarrow> ProcsPane \<Rightarrow> ProcsPane" where
  "renderProcs setY keepY m = rerenderProcs setY keepY (clamp_sel m)"

definition refreshProcs where
  "refreshProcs low rcap setY keepY m = renderProcs setY keepY (recomputeProcs low rcap m)"

text \<open>The index of the first row with a PID.\<close>

fun row_of :: "ProcInfo list \<Rightarrow> int \<Rightarrow> nat option" where
  "row_of [] pid = None"
| "row_of (p # ps) pid = (if pi_PID p = pid then Some 0 else map_option Suc (row_of ps pid))"

definition refreshProcsFollow where
  "refreshProcsFollow low rcap setY keepY m =
     (let m' = recomputeProcs low rcap m;
          m'' = (case selectedProc m of
             None \<Rightarrow> m'
           | Some sel \<Rightarrow> (case row_of (pp_view m') (pi_PID sel) of None \<Rightarrow> m' | Some i \<Rightarrow> m'\<lparr>pp_sel := int i\<rparr>))
      in renderProcs setY keepY m'')"

text \<open>The cursor keys of the Processes tab.\<close>

datatype cursor_key = KUp | KDown | KPgUp | KPgDown | KHome | KEnd

definition move_sel :: "cursor_key \<Rightarrow> ProcsPane \<Rightarrow> ProcsPane" where
  "move_sel k m =
     (let n = int (length (pp_view m)); page = (if pp_height m > 1 then pp_height m else 1);
          bottom = (if n - 1 > 0 then n - 1 else 0)
      in case k of
           KUp \<Rightarrow> if pp_sel m > 0 then m\<lparr>pp_sel := pp_sel m - 1\<rparr> else m
         | KDown \<Rightarrow> if pp_sel m < n - 1 then m\<lparr>pp_sel := pp_sel m + 1\<rparr> else m
         | KPgUp \<Rightarrow> m\<lparr>pp_sel := (if pp_sel m - page < 0 then 0 else pp_sel m - page)\<rparr>
         | KPgDown \<Rightarrow> m\<lparr>pp_sel := (if pp_sel m + page > n - 1 then bottom else pp_sel m + page)\<rparr>
         | KHome \<Rightarrow> m\<lparr>pp_sel := 0\<rparr>
         | KEnd \<Rightarrow> m\<lparr>pp_sel := bottom\<rparr>)"

definition cursor_move where
  "cursor_move setY keepY k m = rerenderProcs setY keepY (move_sel k m)"

section \<open>The table\<close>

record proc_cols =
  colPID :: int
  colUser :: int
  colName :: int
  colCPU :: int
  colMem :: int
  colRSS :: int
  colIO :: int
  colStat :: int

definition procsCols :: "int \<Rightarrow> bool \<Rightarrow> proc_cols" where
  "procsCols vpWidth treeView =
     (let w = (if vpWidth \<le> 0 then 120 else vpWidth);
          io = (if w < 92 then 0 else 11);
          nameCap = (if treeView then 48 else 30);
          fixed = 7 + 10 + 7 + 7 + 10 + 3 + 14;
          fixed = (if io > 0 then fixed + io + 2 else fixed);
          name = max 12 (w - fixed);
          name = (if name > nameCap then nameCap else name)
      in \<lparr>colPID = 7, colUser = 10, colName = name, colCPU = 7, colMem = 7, colRSS = 10, colIO = io, colStat = 3\<rparr>)"

definition procIOText :: "ProcInfo \<Rightarrow> string" where
  "procIOText p =
     (if \<not> pi_IOKnown p then ''-''
      else let total = pi_IOReadBps p + pi_IOWriteBps p
      in if total \<le> 0 then [] else HumanBytesPerSec total)"

text \<open>A row of the table before it is painted; \<open>px\<close> is its branch prefix.\<close>

definition procRow :: "proc_cols \<Rightarrow> bool \<Rightarrow> string \<Rightarrow> ProcInfo \<Rightarrow> string" where
  "procRow c selected px p =
     (let name = (if pi_Name p = [] then ''-'' else pi_Name p);
          user = (if pi_User p = [] then ''-'' else pi_User p);
          marker = (if selected then [CHR 0xE2, CHR 0x96, CHR 0xB8, CHR '' ''] else ''  '');
          cell = (\<lambda>s n. padRight (trunc_s s n) n)
      in marker @ cell (itoa (pi_PID p)) (colPID c) @ ''  '' @ cell user (colUser c) @ ''  '' @
         cell (px @ name) (colName c) @ ''  '' @
         padRight (pad_left (CHR '' '') 5 (fmt_f 1 (pi_CPUPct p))) (colCPU c) @ ''  '' @
         padRight (pad_left (CHR '' '') 5 (fmt_f 1 (pi_MemPct p))) (colMem c) @ ''  '' @
         padRight (HumanBytes (unat (pi_MemRSS p))) (colRSS c) @
         (if colIO c > 0 then ''  '' @ cell (procIOText p) (colIO c) else []) @
         ''  '' @ padRight (pi_Status p) (colStat c))"

text \<open>\<open>sel\<close> and \<open>hl\<close> paint the selected row and the matches of the filter, \<open>subtle\<close> the placeholder.\<close>

definition renderProcsText ::
    "(nat \<Rightarrow> nat) \<Rightarrow> (string \<Rightarrow> string) \<Rightarrow> (string \<Rightarrow> string) \<Rightarrow> (string \<Rightarrow> string) \<Rightarrow> int \<Rightarrow> ProcsPane \<Rightarrow> string" where
  "renderProcsText low sel hl subtle vpWidth m =
     (let c = procsCols vpWidth (pp_tree m \<and> pp_query m = [])
      in if pp_procs m = [] then ''No data (yet)'' @ ELLIPSIS @ [NL]
         else if pp_view m = [] then subtle ''No processes match the filter.'' @ [NL]
         else concat (map (\<lambda>i.
           let px = (if length (pp_prefix m) = length (pp_view m) then pp_prefix m ! i else []);
               row = procRow c (int i = pp_sel m) px (pp_view m ! i)
           in (if int i = pp_sel m then sel row else highlightFold low hl row (pp_query m)) @ [NL])
           [0..<length (pp_view m)]))"

section \<open>The order\<close>

lemma proc_less_weak_order: "weak_order (proc_less low mode)"
proof
  show "\<not> proc_less low mode y x" if "proc_less low mode x y" for x y
    using that by (cases mode) (auto simp: proc_less_def Let_def split: if_splits)
  show "\<not> proc_less low mode z x" if "\<not> proc_less low mode y x" "\<not> proc_less low mode z y" for x y z
    using that by (cases mode) (auto simp: proc_less_def Let_def split: if_splits)
qed

interpretation proc: weak_order "proc_less low mode" for low mode
  by (rule proc_less_weak_order)

lemma set_sortProcSlice [simp]: "set (sortProcSlice low mode ps) = set ps"
  by (simp add: sortProcSlice_def)

section \<open>The tree: enough fuel\<close>

abbreviation PIDs :: "ProcInfo list \<Rightarrow> int set" where "PIDs ps \<equiv> pi_PID ` set ps"

lemma visited_visit [simp]: "ts_visited (visit p x st) = insert (pi_PID p) (ts_visited st)"
  by (simp add: visit_def)

lemma out_visit [simp]: "ts_out (visit p x st) = ts_out st @ [p]" "ts_prefixes (visit p x st) = ts_prefixes st @ [x]"
  by (simp_all add: visit_def)

lemma walk_visited:
  "walk n rcap ch p indent l r st = Some st' \<Longrightarrow> ts_visited st \<subseteq> ts_visited st'"
  "walks n rcap ch ks indent r st = Some st' \<Longrightarrow> ts_visited st \<subseteq> ts_visited st'"
  by (induction n rcap ch p indent l r st and n rcap ch ks indent r st arbitrary: st' and st' rule: walk_walks.induct)
    (fastforce split: if_splits option.splits)+

lemma walk_fuel:
  assumes "finite S" "\<And>k. PIDs (ch k) \<subseteq> S"
  shows "pi_PID p \<in> S \<Longrightarrow> card (S - ts_visited st) < n \<Longrightarrow> walk n rcap ch p indent l r st \<noteq> None"
    and "PIDs ks \<subseteq> S \<Longrightarrow> card (S - ts_visited st) < n \<Longrightarrow> walks n rcap ch ks indent r st \<noteq> None"
  using assms(2)
proof (induction n rcap ch p indent l r st and n rcap ch ks indent r st rule: walk_walks.induct)
  case (2 n rcap ch p indent l r st)
  show ?case
  proof (cases "int (length (ts_out st)) \<ge> rcap \<or> pi_PID p \<in> ts_visited st")
    case False
    then have "pi_PID p \<in> S - ts_visited st" using 2(2) by blast
    then have "card (S - insert (pi_PID p) (ts_visited st)) < card (S - ts_visited st)"
      by (intro psubset_card_mono) (auto simp: assms(1))
    with 2 False show ?thesis by (auto simp del: walks.simps)
  qed simp
next
  case (4 n rcap ch k ks indent r st)
  then obtain st' where w: "walk n rcap ch k indent (ks = []) r st = Some st'" by auto
  then have "card (S - ts_visited st') \<le> card (S - ts_visited st)"
    using walk_visited(1) [OF w] by (intro card_mono) (auto simp: assms(1))
  with 4 w show ?case by auto
qed auto

lemma kids_sub: "PIDs (kids low mode procs k) \<subseteq> PIDs procs"
  by (auto simp: kids_def)

lemma roots_sub: "PIDs (roots low mode procs) \<subseteq> PIDs procs"
  by (auto simp: roots_def)

lemma tree_walks_some:
  "walks (Suc (length procs)) rcap (kids low mode procs) (roots low mode procs) [] True
     \<lparr>ts_out = [], ts_prefixes = [], ts_visited = {}\<rparr> \<noteq> None"
proof (rule walk_fuel(2) [of "PIDs procs"])
  have "card (PIDs procs) \<le> length procs" by (metis card_length length_map set_map)
  then show "card (PIDs procs - ts_visited \<lparr>ts_out = [], ts_prefixes = [], ts_visited = {}\<rparr>) < Suc (length procs)"
    by simp
qed (simp_all add: kids_sub roots_sub)

section \<open>The tree: what is listed\<close>

definition tree_inv :: "ProcInfo list \<Rightarrow> int \<Rightarrow> tree_st \<Rightarrow> bool" where
  "tree_inv procs rcap st \<longleftrightarrow>
     length (ts_prefixes st) = length (ts_out st) \<and>
     int (length (ts_out st)) \<le> max 0 rcap \<and>
     distinct (map pi_PID (ts_out st)) \<and>
     ts_visited st = PIDs (ts_out st) \<and> set (ts_out st) \<subseteq> set procs \<and>
     (\<forall>i < length (ts_out st). \<not> has_parent procs (ts_out st ! i) \<or>
        (\<exists>j < i. pi_PID (ts_out st ! j) = pi_PPID (ts_out st ! i)))"

lemma tree_inv_visit:
  assumes "tree_inv procs rcap st" "int (length (ts_out st)) < rcap" "pi_PID p \<notin> ts_visited st"
    "p \<in> set procs" "\<not> has_parent procs p \<or> pi_PPID p \<in> ts_visited st"
  shows "tree_inv procs rcap (visit p x st)"
proof -
  let ?out = "ts_out st"
  note inv = assms(1) [unfolded tree_inv_def]
  have parents: "\<not> has_parent procs ((?out @ [p]) ! i) \<or>
        (\<exists>j < i. pi_PID ((?out @ [p]) ! j) = pi_PPID ((?out @ [p]) ! i))" if i: "i < Suc (length ?out)" for i
  proof (cases "i = length ?out")
    case True
    have "\<exists>j < length ?out. pi_PID (?out ! j) = pi_PPID p" if "has_parent procs p"
      using assms(1,5) that by (auto simp: tree_inv_def in_set_conv_nth)
    then show ?thesis unfolding True by (metis nth_append nth_append_length)
  next
    case False
    then have i: "i < length ?out" using i by simp
    have e: "(?out @ [p]) ! j = ?out ! j" if "j \<le> i" for j using that i by (simp add: nth_append)
    have "\<not> has_parent procs (?out ! i) \<or> (\<exists>j < i. pi_PID (?out ! j) = pi_PPID (?out ! i))"
      using inv i by blast
    then show ?thesis unfolding e [OF order_refl] using e by (metis less_imp_le)
  qed
  have "distinct (map pi_PID (?out @ [p]))" using inv assms(3) by simp
  moreover have "int (length (?out @ [p])) \<le> max 0 rcap" using assms(2) by simp
  moreover have "insert (pi_PID p) (ts_visited st) = PIDs (?out @ [p])" "set (?out @ [p]) \<subseteq> set procs"
    using inv assms(4) by simp_all
  moreover have "length (ts_prefixes st @ [x]) = length (?out @ [p])" using inv by simp
  moreover have "\<forall>i < length (?out @ [p]). \<not> has_parent procs ((?out @ [p]) ! i) \<or>
        (\<exists>j < i. pi_PID ((?out @ [p]) ! j) = pi_PPID ((?out @ [p]) ! i))"
    using parents unfolding length_append_singleton by blast
  ultimately show ?thesis
    unfolding tree_inv_def out_visit visited_visit by (intro conjI)
qed

lemma walk_inv:
  assumes ch: "\<And>k c. c \<in> set (ch k) \<Longrightarrow> c \<in> set procs \<and> pi_PPID c = k"
  shows "walk n rcap ch p indent l r st = Some st' \<Longrightarrow> tree_inv procs rcap st \<Longrightarrow> p \<in> set procs \<Longrightarrow>
      \<not> has_parent procs p \<or> pi_PPID p \<in> ts_visited st \<Longrightarrow> tree_inv procs rcap st'"
    and "walks n rcap ch ks indent r st = Some st' \<Longrightarrow> tree_inv procs rcap st \<Longrightarrow> set ks \<subseteq> set procs \<Longrightarrow>
      (\<forall>k \<in> set ks. \<not> has_parent procs k \<or> pi_PPID k \<in> ts_visited st) \<Longrightarrow> tree_inv procs rcap st'"
  using ch
proof (induction n rcap ch p indent l r st and n rcap ch ks indent r st arbitrary: st' and st' rule: walk_walks.induct)
  case (2 n rcap ch p indent l r st)
  show ?case
  proof (cases "int (length (ts_out st)) \<ge> rcap \<or> pi_PID p \<in> ts_visited st")
    case False
    then have "tree_inv procs rcap (visit p (branch_prefix indent l r) st)"
      using 2 by (intro tree_inv_visit) auto
    moreover have "set (ch (pi_PID p)) \<subseteq> set procs" "\<forall>k \<in> set (ch (pi_PID p)). pi_PPID k = pi_PID p"
      using 2(6) by auto
    ultimately show ?thesis using 2(1,2,6) False by simp
  qed (use 2 in simp)
next
  case (4 n rcap ch k ks indent r st)
  then obtain st1 where w: "walk n rcap ch k indent (ks = []) r st = Some st1"
      and ws: "walks n rcap ch ks indent r st1 = Some st'"
    by (auto split: option.splits)
  have "tree_inv procs rcap st1" using 4(1) [OF w] 4(4-7) by auto
  moreover have "\<forall>k \<in> set ks. \<not> has_parent procs k \<or> pi_PPID k \<in> ts_visited st1"
    using 4(6) walk_visited(1) [OF w] by auto
  ultimately show ?case
    using 4(2) [OF w ws] 4(5,7) by simp
qed auto

text \<open>With room for every process, what has been visited is closed under children.\<close>

lemma walk_closed:
  assumes ch: "\<And>k c. c \<in> set (ch k) \<Longrightarrow> c \<in> set procs \<and> pi_PPID c = k" and room: "int (length procs) \<le> rcap"
  shows "walk n rcap ch p indent l r st = Some st' \<Longrightarrow> tree_inv procs rcap st \<Longrightarrow> p \<in> set procs \<Longrightarrow>
      \<not> has_parent procs p \<or> pi_PPID p \<in> ts_visited st \<Longrightarrow>
      pi_PID p \<in> ts_visited st' \<and> (\<forall>q \<in> ts_visited st' - ts_visited st. PIDs (ch q) \<subseteq> ts_visited st')"
    and "walks n rcap ch ks indent r st = Some st' \<Longrightarrow> tree_inv procs rcap st \<Longrightarrow> set ks \<subseteq> set procs \<Longrightarrow>
      (\<forall>k \<in> set ks. \<not> has_parent procs k \<or> pi_PPID k \<in> ts_visited st) \<Longrightarrow>
      PIDs ks \<subseteq> ts_visited st' \<and> (\<forall>q \<in> ts_visited st' - ts_visited st. PIDs (ch q) \<subseteq> ts_visited st')"
  using ch room
proof (induction n rcap ch p indent l r st and n rcap ch ks indent r st arbitrary: st' and st' rule: walk_walks.induct)
  case (2 n rcap ch p indent l r st)
  let ?st = "visit p (branch_prefix indent l r) st"
  consider "pi_PID p \<in> ts_visited st" | "pi_PID p \<notin> ts_visited st" by blast
  then show ?case
  proof cases
    case 2
    have "length (ts_out st) < length procs"
    proof -
      have "PIDs (ts_out st) \<subset> PIDs procs" using 2 "2.prems"(2,3) by (auto simp: tree_inv_def)
      then have "card (PIDs (ts_out st)) < card (PIDs procs)" by (intro psubset_card_mono) auto
      moreover have "card (PIDs (ts_out st)) = length (ts_out st)"
        using "2.prems"(2) distinct_card [of "map pi_PID (ts_out st)"] by (simp add: tree_inv_def)
      moreover have "card (PIDs procs) \<le> length procs" by (metis card_length length_map set_map)
      ultimately show ?thesis by simp
    qed
    then have g: "\<not> (int (length (ts_out st)) \<ge> rcap \<or> pi_PID p \<in> ts_visited st)"
      using 2 "2.prems"(6) by simp
    then have w: "walks n rcap ch (ch (pi_PID p)) (child_indent indent l r) False ?st = Some st'"
      using "2.prems"(1) by simp
    have "tree_inv procs rcap ?st" using g "2.prems" by (intro tree_inv_visit) auto
    moreover have "set (ch (pi_PID p)) \<subseteq> set procs"
      "\<forall>k \<in> set (ch (pi_PID p)). \<not> has_parent procs k \<or> pi_PPID k \<in> ts_visited ?st"
      using "2.prems"(5) by auto
    ultimately have "PIDs (ch (pi_PID p)) \<subseteq> ts_visited st' \<and>
        (\<forall>q \<in> ts_visited st' - ts_visited ?st. PIDs (ch q) \<subseteq> ts_visited st')"
      using "2.IH" [OF g w] "2.prems"(5,6) by simp
    moreover have "pi_PID p \<in> ts_visited st'" using walk_visited(2) [OF w] by simp
    ultimately show ?thesis by (metis DiffE DiffI insertE visited_visit)
  qed (use 2 in simp)
next
  case (4 n rcap ch k ks indent r st)
  then obtain st1 where w: "walk n rcap ch k indent (ks = []) r st = Some st1"
      and ws: "walks n rcap ch ks indent r st1 = Some st'"
    by (auto split: option.splits)
  have i: "tree_inv procs rcap st1" using walk_inv(1) [OF 4(7) w 4(4)] 4(5,6) by auto
  note v = walk_visited(1) [OF w] walk_visited(2) [OF ws]
  have parents: "\<forall>k \<in> set ks. \<not> has_parent procs k \<or> pi_PPID k \<in> ts_visited st1"
    using 4(6) v(1) by auto
  have "pi_PID k \<in> ts_visited st1 \<and> (\<forall>q \<in> ts_visited st1 - ts_visited st. PIDs (ch q) \<subseteq> ts_visited st1)"
    using 4(1) [OF w 4(4)] 4(5-8) by auto
  moreover have "PIDs ks \<subseteq> ts_visited st' \<and> (\<forall>q \<in> ts_visited st' - ts_visited st1. PIDs (ch q) \<subseteq> ts_visited st')"
    using 4(2) [OF w ws i] 4(5,7,8) parents by simp
  ultimately show ?case using v by (simp add: subset_iff) blast
qed auto

lemma kids_child: "c \<in> set (kids low mode procs k) \<Longrightarrow> c \<in> set procs \<and> pi_PPID c = k"
  by (simp add: kids_def)

lemma tree_inv_empty: "tree_inv procs rcap \<lparr>ts_out = [], ts_prefixes = [], ts_visited = {}\<rparr>"
  by (simp add: tree_inv_def)

text \<open>Parents come before their children in some numbering: no process is its own ancestor.\<close>

definition acyclic_parents :: "ProcInfo list \<Rightarrow> bool" where
  "acyclic_parents procs \<longleftrightarrow>
     (\<exists>rank :: int \<Rightarrow> nat. \<forall>p \<in> set procs. has_parent procs p \<longrightarrow> rank (pi_PPID p) < rank (pi_PID p))"

lemma tree_complete:
  assumes walks: "walks n rcap (kids low mode procs) (roots low mode procs) [] True
      \<lparr>ts_out = [], ts_prefixes = [], ts_visited = {}\<rparr> = Some st"
    and room: "int (length procs) \<le> rcap" and acyclic: "acyclic_parents procs"
  shows "PIDs procs \<subseteq> ts_visited st"
proof -
  have rt: "set (roots low mode procs) \<subseteq> set procs" "\<forall>k \<in> set (roots low mode procs). \<not> has_parent procs k"
    by (auto simp: roots_def)
  have c: "PIDs (roots low mode procs) \<subseteq> ts_visited st"
    "q \<in> ts_visited st \<Longrightarrow> PIDs (kids low mode procs q) \<subseteq> ts_visited st" for q
    using walk_closed(2) [OF kids_child room walks tree_inv_empty rt(1)] rt(2) by auto
  from acyclic obtain rank :: "int \<Rightarrow> nat"
    where rank: "p \<in> set procs \<Longrightarrow> has_parent procs p \<Longrightarrow> rank (pi_PPID p) < rank (pi_PID p)" for p
    unfolding acyclic_parents_def by blast
  have "pi_PID p \<in> ts_visited st" if "p \<in> set procs" for p
    using that
  proof (induction "rank (pi_PID p)" arbitrary: p rule: less_induct)
    case less
    show ?case
    proof (cases "has_parent procs p")
      case True
      then obtain a where a: "a \<in> set procs" "pi_PID a = pi_PPID p" by (auto simp: has_parent_def)
      then have "pi_PPID p \<in> ts_visited st" using less rank [OF less(2) True] by metis
      then show ?thesis using c(2) [of "pi_PPID p"] less(2) True by (auto simp: kids_def)
    next
      case False
      then show ?thesis using c(1) less(2) by (auto simp: roots_def)
    qed
  qed
  then show ?thesis by blast
qed

text \<open>C23: the tree view always comes out, whatever the process table holds - PIDs listed twice,
  processes that are each other's parents, parents that are not listed: the recursion over the
  table ends within one level per process.\<close>

theorem tree_view_terminates: "\<exists>view pfx. computeProcsTree low rcap m = Some (view, pfx)"
  using tree_walks_some [of "pp_procs m" rcap low "pp_sort m"]
  by (auto simp: computeProcsTree_def)

lemma computeProcsTree_walks:
  assumes "computeProcsTree low rcap m = Some (view, pfx)"
  obtains st where "walks (Suc (length (pp_procs m))) rcap (kids low (pp_sort m) (pp_procs m))
      (roots low (pp_sort m) (pp_procs m)) [] True \<lparr>ts_out = [], ts_prefixes = [], ts_visited = {}\<rparr> = Some st"
    "view = ts_out st" "pfx = ts_prefixes st" "tree_inv (pp_procs m) rcap st"
proof -
  let ?procs = "pp_procs m"
  obtain st where w: "walks (Suc (length ?procs)) rcap (kids low (pp_sort m) ?procs)
      (roots low (pp_sort m) ?procs) [] True \<lparr>ts_out = [], ts_prefixes = [], ts_visited = {}\<rparr> = Some st"
    and v: "view = ts_out st" "pfx = ts_prefixes st"
    using assms unfolding computeProcsTree_def Let_def by (auto simp del: walks.simps)
  have "tree_inv ?procs rcap st"
    by (rule walk_inv(2) [OF kids_child w tree_inv_empty]) (auto simp: roots_def)
  with w v that show thesis by blast
qed

text \<open>C22: the tree view lists processes of the table, none twice, no more than the cap, one prefix
  each, every process after its parent unless the parent is not in the table; and when the cap
  leaves room and no process is its own ancestor, it lists all of them.\<close>

theorem tree_view_sound:
  assumes "computeProcsTree low rcap m = Some (view, pfx)"
  shows "length pfx = length view \<and> int (length view) \<le> max 0 rcap \<and>
    distinct (map pi_PID view) \<and> set view \<subseteq> set (pp_procs m) \<and>
    (\<forall>i < length view. \<not> has_parent (pp_procs m) (view ! i) \<or>
       (\<exists>j < i. pi_PID (view ! j) = pi_PPID (view ! i))) \<and>
    (int (length (pp_procs m)) \<le> rcap \<and> acyclic_parents (pp_procs m) \<and> distinct (map pi_PID (pp_procs m)) \<longrightarrow>
       mset view = mset (pp_procs m))"
proof -
  obtain st where w: "walks (Suc (length (pp_procs m))) rcap (kids low (pp_sort m) (pp_procs m))
      (roots low (pp_sort m) (pp_procs m)) [] True \<lparr>ts_out = [], ts_prefixes = [], ts_visited = {}\<rparr> = Some st"
    and v: "view = ts_out st" "pfx = ts_prefixes st" and inv: "tree_inv (pp_procs m) rcap st"
    by (rule computeProcsTree_walks [OF assms])
  have "mset view = mset (pp_procs m)"
    if "int (length (pp_procs m)) \<le> rcap" "acyclic_parents (pp_procs m)" "distinct (map pi_PID (pp_procs m))"
  proof -
    have pids: "PIDs view = PIDs (pp_procs m)"
      using tree_complete [OF w that(1,2)] inv by (auto simp: tree_inv_def v)
    have "set view = set (pp_procs m)"
    proof
      show "set (pp_procs m) \<subseteq> set view"
      proof
        fix p assume p: "p \<in> set (pp_procs m)"
        then obtain q where q: "q \<in> set view" "pi_PID q = pi_PID p" using pids by (metis imageE image_eqI)
        then have "q \<in> set (pp_procs m)" using inv by (auto simp: tree_inv_def v)
        then have "q = p" using p q(2) that(3) by (metis distinct_map inj_onD)
        with q(1) show "p \<in> set view" by simp
      qed
    qed (use inv in \<open>simp add: tree_inv_def v\<close>)
    moreover have "distinct view" "distinct (pp_procs m)"
      using inv that(3) by (simp_all add: tree_inv_def v distinct_map)
    ultimately show ?thesis by (simp add: set_eq_iff_mset_eq_distinct)
  qed
  with inv show ?thesis by (simp add: tree_inv_def v)
qed

text \<open>A small process table: init, a daemon with a worker, and a shell started from nowhere.\<close>

definition example_proc :: "int \<Rightarrow> int \<Rightarrow> string \<Rightarrow> ProcInfo" where
  "example_proc pid ppid name =
     \<lparr>pi_PID = pid, pi_PPID = ppid, pi_Name = name, pi_CPUPct = 0, pi_MemPct = 0, pi_MemRSS = 0,
      pi_Status = ''S'', pi_User = ''root'', pi_CmdLine = name, pi_IOReadBps = 0, pi_IOWriteBps = 0,
      pi_IOKnown = True, pi_StartTime = 1\<rparr>"

definition example_pane :: ProcsPane where
  "example_pane =
     \<lparr>pp_procs = [example_proc 30 20 ''worker'', example_proc 1 0 ''init'', example_proc 20 1 ''daemon''],
      pp_view = [], pp_prefix = [], pp_query = [], pp_sort = sortPID, pp_tree = True, pp_sel = 0,
      pp_height = 2, pp_yoff = 0\<rparr>"

definition example_rows :: "ProcInfo list" where
  "example_rows = [example_proc 1 0 ''init'', example_proc 20 1 ''daemon'', example_proc 30 20 ''worker'']"

lemma example_tree:
  "computeProcsTree (\<lambda>r. r) 200 example_pane = Some (example_rows, [[], BRANCH_LAST, ''   '' @ BRANCH_LAST])"
  by (simp add: computeProcsTree_def example_pane_def example_rows_def kids_def roots_def sortProcSlice_def
      has_parent_def proc_less_def example_proc_def visit_def branch_prefix_def child_indent_def eval_nat_numeral)

theorem tree_view_sound_witness:
  "mset example_rows = mset (pp_procs example_pane)"
proof -
  have "acyclic_parents (pp_procs example_pane)"
    unfolding acyclic_parents_def
    by (rule exI [of _ nat]) (simp add: example_pane_def example_proc_def has_parent_def)
  then show ?thesis
    using tree_view_sound [OF example_tree] by (simp add: example_pane_def example_proc_def)
qed

section \<open>The cursor\<close>

text \<open>What the viewport's own clamping of a requested offset does.\<close>

definition clamps :: "(int \<Rightarrow> int \<Rightarrow> int \<Rightarrow> int) \<Rightarrow> bool" where
  "clamps setY \<longleftrightarrow> (\<forall>lines h y. setY lines h y = max 0 (min y (max 0 (lines - h))))"

definition sel_ok :: "ProcsPane \<Rightarrow> bool" where
  "sel_ok m \<longleftrightarrow> 0 \<le> pp_sel m \<and> (pp_view m \<noteq> [] \<longrightarrow> pp_sel m < int (length (pp_view m))) \<and>
     (pp_view m = [] \<longrightarrow> pp_sel m = 0)"

definition visible :: "ProcsPane \<Rightarrow> bool" where
  "visible m \<longleftrightarrow> (0 < pp_height m \<longrightarrow> pp_yoff m \<le> pp_sel m \<and> pp_sel m < pp_yoff m + pp_height m)"

lemma visible_after_scroll:
  assumes "clamps setY" "sel_ok m" "pp_view m \<noteq> [] \<longrightarrow> pp_procs m \<noteq> []"
  shows "visible (ensureProcVisible setY m)"
proof -
  have "pp_sel m < proc_lines m" using assms(2,3) by (auto simp: sel_ok_def proc_lines_def)
  then show ?thesis
    using assms(1,2) by (auto simp: visible_def ensureProcVisible_def Let_def clamps_def sel_ok_def)
qed

lemma ensure_keeps [simp]:
  "pp_sel (ensureProcVisible setY m) = pp_sel m" "pp_view (ensureProcVisible setY m) = pp_view m"
  "pp_procs (ensureProcVisible setY m) = pp_procs m" "pp_prefix (ensureProcVisible setY m) = pp_prefix m"
  "pp_tree (ensureProcVisible setY m) = pp_tree m" "pp_query (ensureProcVisible setY m) = pp_query m"
  by (simp_all add: ensureProcVisible_def Let_def)

lemma rerender_keeps [simp]:
  "pp_sel (rerenderProcs setY keepY m) = pp_sel m" "pp_view (rerenderProcs setY keepY m) = pp_view m"
  "pp_procs (rerenderProcs setY keepY m) = pp_procs m" "pp_prefix (rerenderProcs setY keepY m) = pp_prefix m"
  "pp_tree (rerenderProcs setY keepY m) = pp_tree m" "pp_query (rerenderProcs setY keepY m) = pp_query m"
  by (simp_all add: rerenderProcs_def)

lemma clamp_keeps [simp]:
  "pp_view (clamp_sel m) = pp_view m" "pp_procs (clamp_sel m) = pp_procs m"
  "pp_prefix (clamp_sel m) = pp_prefix m" "pp_tree (clamp_sel m) = pp_tree m" "pp_query (clamp_sel m) = pp_query m"
  by (simp_all add: clamp_sel_def Let_def)

lemma clamp_sel_ok: "sel_ok (clamp_sel m)"
  by (cases "pp_view m") (auto simp: sel_ok_def clamp_sel_def Let_def)

lemma clamp_sel_id: "sel_ok m \<Longrightarrow> clamp_sel m = m"
  by (cases "pp_view m") (auto simp: sel_ok_def clamp_sel_def Let_def)

text \<open>What every view satisfies, flat or tree.\<close>

definition view_ok :: "ProcsPane \<Rightarrow> bool" where
  "view_ok m \<longleftrightarrow> set (pp_view m) \<subseteq> set (pp_procs m) \<and>
     (pp_prefix m = [] \<or> length (pp_prefix m) = length (pp_view m))"

lemma recompute_procs [simp]:
  "pp_procs (recomputeProcs low rcap m) = pp_procs m" "pp_sel (recomputeProcs low rcap m) = pp_sel m"
  "pp_height (recomputeProcs low rcap m) = pp_height m"
  by (auto simp: recomputeProcs_def split: option.splits)

lemma set_view: "set (computeProcsView low rcap m) \<subseteq> set (pp_procs m)"
  by (auto simp: computeProcsView_def Let_def dest: in_set_takeD)

lemma recompute_view_ok: "view_ok (recomputeProcs low rcap m)"
proof (cases "pp_tree m \<and> pp_query m = []")
  case True
  obtain view pfx where t: "computeProcsTree low rcap m = Some (view, pfx)"
    using tree_walks_some [of "pp_procs m" rcap low "pp_sort m"] by (auto simp: computeProcsTree_def)
  obtain st where "view = ts_out st" "pfx = ts_prefixes st" "tree_inv (pp_procs m) rcap st"
    by (rule computeProcsTree_walks [OF t])
  with t True show ?thesis by (simp add: recomputeProcs_def view_ok_def tree_inv_def)
qed (use set_view in \<open>auto simp: recomputeProcs_def view_ok_def\<close>)

lemma row_of_Some: "row_of ps pid = Some i \<Longrightarrow> i < length ps \<and> pi_PID (ps ! i) = pid"
  by (induction ps arbitrary: i) (auto split: if_splits)

lemma row_of_mem: "pid \<in> PIDs ps \<Longrightarrow> row_of ps pid \<noteq> None"
  by (induction ps) auto

section \<open>Runs of the pane\<close>

text \<open>
  What happens to the pane between two frames: a new sample, a resize (both keep the cursor on its
  process), a cursor key, the keys that change the view and start again at the top, the mouse
  wheel. \<open>restart\<close> is the part the last group shares.
\<close>

definition restart where
  "restart low rcap setY keepY m =
     (let m = refreshProcs low rcap setY keepY (m\<lparr>pp_sel := 0\<rparr>)
      in m\<lparr>pp_yoff := setY (proc_lines m) (pp_height m) 0\<rparr>)"

datatype pane_event =
  Sample_procs "ProcInfo list" | Resize int | Cursor cursor_key | Key_sort | Key_tree | Set_query string | Wheel int

fun pane_step where
  "pane_step low rcap setY keepY (Sample_procs ps) m = refreshProcsFollow low rcap setY keepY (m\<lparr>pp_procs := ps\<rparr>)"
| "pane_step low rcap setY keepY (Resize h) m = refreshProcsFollow low rcap setY keepY (m\<lparr>pp_height := h\<rparr>)"
| "pane_step low rcap setY keepY (Cursor k) m = cursor_move setY keepY k m"
| "pane_step low rcap setY keepY Key_sort m = restart low rcap setY keepY (m\<lparr>pp_sort := next_sort (pp_sort m)\<rparr>)"
| "pane_step low rcap setY keepY Key_tree m = restart low rcap setY keepY (m\<lparr>pp_tree := \<not> pp_tree m\<rparr>)"
| "pane_step low rcap setY keepY (Set_query q) m = restart low rcap setY keepY (m\<lparr>pp_query := q\<rparr>)"
| "pane_step low rcap setY keepY (Wheel y) m = m\<lparr>pp_yoff := y\<rparr>"

definition newPane :: ProcsPane where
  "newPane = \<lparr>pp_procs = [], pp_view = [], pp_prefix = [], pp_query = [], pp_sort = sortCPU, pp_tree = False,
     pp_sel = 0, pp_height = 0, pp_yoff = 0\<rparr>"

definition pane_inv :: "ProcsPane \<Rightarrow> bool" where
  "pane_inv m \<longleftrightarrow> sel_ok m \<and> view_ok m"

lemma move_sel_keeps [simp]:
  "pp_view (move_sel k m) = pp_view m" "pp_procs (move_sel k m) = pp_procs m" "pp_prefix (move_sel k m) = pp_prefix m"
  by (cases k; simp add: move_sel_def Let_def)+

lemma move_sel_ok: "sel_ok m \<Longrightarrow> sel_ok (move_sel k m)"
  by (cases k; cases "pp_view m") (auto simp: sel_ok_def move_sel_def Let_def)

lemma view_ok_cong:
  "pp_view m' = pp_view m \<Longrightarrow> pp_procs m' = pp_procs m \<Longrightarrow> pp_prefix m' = pp_prefix m \<Longrightarrow> view_ok m' = view_ok m"
  by (simp add: view_ok_def)

lemma sel_ok_cong: "pp_view m' = pp_view m \<Longrightarrow> pp_sel m' = pp_sel m \<Longrightarrow> sel_ok m' = sel_ok m"
  by (simp add: sel_ok_def)

lemma render_inv: "view_ok m \<Longrightarrow> pane_inv (renderProcs setY keepY m)"
  unfolding pane_inv_def renderProcs_def
  by (simp add: sel_ok_cong [of "rerenderProcs setY keepY (clamp_sel m)" "clamp_sel m"]
      view_ok_cong [of "rerenderProcs setY keepY (clamp_sel m)" m] clamp_sel_ok)

lemma follow_view_ok:
  "view_ok (case selectedProc m of None \<Rightarrow> recomputeProcs low rcap m
     | Some sel \<Rightarrow> (case row_of (pp_view (recomputeProcs low rcap m)) (pi_PID sel) of
          None \<Rightarrow> recomputeProcs low rcap m | Some i \<Rightarrow> recomputeProcs low rcap m\<lparr>pp_sel := int i\<rparr>))"
  using recompute_view_ok [of low rcap m]
  by (auto simp: view_ok_def split: option.splits)

lemma restart_inv: "pane_inv (restart low rcap setY keepY m)"
  using render_inv [OF recompute_view_ok, of setY keepY low rcap "m\<lparr>pp_sel := 0\<rparr>"]
  unfolding restart_def refreshProcs_def Let_def pane_inv_def
  by (simp add: sel_ok_def view_ok_def)

lemma pane_step_inv: "pane_inv m \<Longrightarrow> pane_inv (pane_step low rcap setY keepY e m)"
proof (cases e)
  case (Cursor k)
  assume "pane_inv m"
  then show ?thesis unfolding Cursor
    by (simp add: pane_inv_def cursor_move_def move_sel_ok view_ok_def
        sel_ok_cong [of "rerenderProcs setY keepY (move_sel k m)" "move_sel k m"])
qed (simp_all add: restart_inv refreshProcsFollow_def Let_def render_inv follow_view_ok,
    auto simp: pane_inv_def sel_ok_def view_ok_def)

lemma pane_runs_inv: "pane_inv m \<Longrightarrow> pane_inv (fold (pane_step low rcap setY keepY) es m)"
  by (induction es arbitrary: m) (simp_all add: pane_step_inv)

lemma newPane_inv: "pane_inv newPane"
  by (simp add: pane_inv_def sel_ok_def view_ok_def newPane_def)

lemma step_visible:
  assumes "clamps setY" "pane_inv m" "\<forall>y. e \<noteq> Wheel y"
  shows "visible (pane_step low rcap setY keepY e m)"
proof -
  have scroll: "visible (rerenderProcs setY keepY x)" if "sel_ok x" "view_ok x" for x
    unfolding rerenderProcs_def using that assms(1)
    by (intro visible_after_scroll) (auto simp: sel_ok_def view_ok_def)
  have render: "visible (renderProcs setY keepY x)" if "view_ok x" for x
    unfolding renderProcs_def using that
    by (intro scroll clamp_sel_ok) (simp add: view_ok_def)
  have top: "visible (restart low rcap setY keepY x)" for x
  proof -
    have "pp_sel (refreshProcs low rcap setY keepY (x\<lparr>pp_sel := 0\<rparr>)) = 0"
      by (simp add: refreshProcs_def renderProcs_def clamp_sel_def Let_def)
    then show ?thesis using assms(1) by (simp add: restart_def Let_def visible_def clamps_def)
  qed
  show ?thesis
  proof (cases e)
    case (Cursor k)
    have "sel_ok (move_sel k m)" "view_ok (move_sel k m)"
      using assms(2) by (simp_all add: pane_inv_def move_sel_ok view_ok_def)
    then show ?thesis unfolding Cursor by (simp add: cursor_move_def scroll)
  qed (use assms(3) in \<open>simp_all add: top refreshProcsFollow_def Let_def render follow_view_ok\<close>)
qed

lemma selectedProc_procs [simp]: "selectedProc (m\<lparr>pp_procs := ps\<rparr>) = selectedProc m"
  by (simp add: selectedProc_def)

lemma follow_pid:
  assumes "selectedProc m = Some p" "pi_PID p \<in> PIDs (pp_view (recomputeProcs low rcap m))"
  shows "map_option pi_PID (selectedProc (refreshProcsFollow low rcap setY keepY m)) = Some (pi_PID p)"
proof -
  let ?m = "recomputeProcs low rcap m"
  obtain i where i: "row_of (pp_view ?m) (pi_PID p) = Some i" using row_of_mem [OF assms(2)] by auto
  note r = row_of_Some [OF i]
  then have "clamp_sel (?m\<lparr>pp_sel := int i\<rparr>) = ?m\<lparr>pp_sel := int i\<rparr>"
    by (intro clamp_sel_id) (auto simp: sel_ok_def)
  with r i assms(1) show ?thesis
    by (simp add: refreshProcsFollow_def renderProcs_def selectedProc_def Let_def)
qed

text \<open>C21: through any run of samples, resizes, cursor keys, view changes and mouse-wheel turns, the
  cursor stands on a row whenever there is one (so that a kill or a detail view is about a process
  that is listed), the rows are processes of the latest sample, every step but the wheel leaves
  the cursor inside the viewport, and a new sample keeps the cursor on the process it was on for
  as long as that process is listed.\<close>

theorem cursor_follows_process:
  assumes "clamps setY" and run: "m = fold (pane_step low rcap setY keepY) es newPane"
  shows "(pp_view m \<noteq> [] \<longrightarrow> (\<exists>p \<in> set (pp_procs m). selectedProc m = Some p)) \<and>
    (es \<noteq> [] \<and> (\<forall>y. last es \<noteq> Wheel y) \<longrightarrow> visible m) \<and>
    (\<forall>p ps. selectedProc m = Some p \<and>
       pi_PID p \<in> PIDs (pp_view (recomputeProcs low rcap (m\<lparr>pp_procs := ps\<rparr>))) \<longrightarrow>
       map_option pi_PID (selectedProc (pane_step low rcap setY keepY (Sample_procs ps) m)) = Some (pi_PID p))"
proof (intro conjI allI impI)
  have inv: "pane_inv m" unfolding run by (rule pane_runs_inv [OF newPane_inv])
  show "\<exists>p \<in> set (pp_procs m). selectedProc m = Some p" if "pp_view m \<noteq> []"
  proof -
    have "nat (pp_sel m) < length (pp_view m)" using inv that by (auto simp: pane_inv_def sel_ok_def)
    then have "pp_view m ! nat (pp_sel m) \<in> set (pp_procs m)"
      using inv by (auto simp: pane_inv_def view_ok_def)
    then show ?thesis using inv that by (auto simp: selectedProc_def pane_inv_def sel_ok_def)
  qed
  show "visible m" if e: "es \<noteq> [] \<and> (\<forall>y. last es \<noteq> Wheel y)"
  proof -
    obtain es' e where es: "es = es' @ [e]" using e by (cases es rule: rev_cases) auto
    have "m = pane_step low rcap setY keepY e (fold (pane_step low rcap setY keepY) es' newPane)"
      unfolding run es by simp
    then show ?thesis
      using step_visible [OF assms(1) pane_runs_inv [OF newPane_inv]] \<open>es \<noteq> [] \<and> (\<forall>y. last es \<noteq> Wheel y)\<close> es by simp
  qed
  show "map_option pi_PID (selectedProc (pane_step low rcap setY keepY (Sample_procs ps) m)) = Some (pi_PID p)"
    if "selectedProc m = Some p \<and> pi_PID p \<in> PIDs (pp_view (recomputeProcs low rcap (m\<lparr>pp_procs := ps\<rparr>)))"
    for p ps
  proof -
    have "selectedProc (m\<lparr>pp_procs := ps\<rparr>) = Some p" using that by simp
    then show ?thesis
      unfolding pane_step.simps using that by (intro follow_pid) simp_all
  qed
qed

theorem cursor_follows_process_witness:
  "visible (fold (pane_step (\<lambda>r. r) 200 (\<lambda>l h y. max 0 (min y (max 0 (l - h)))) (\<lambda>l h y. y))
     [Resize 1, Sample_procs (pp_procs example_pane), Cursor KDown] newPane)"
  using cursor_follows_process [of "\<lambda>l h y. max 0 (min y (max 0 (l - h)))", OF _ refl,
      of "\<lambda>r. r" 200 "\<lambda>l h y. y" "[Resize 1, Sample_procs (pp_procs example_pane), Cursor KDown]"]
  by (simp add: clamps_def del: fold.simps pane_step.simps)

end
