(* ===== verification/Screen_Model.thy ===== *)
theory Screen_Model
  imports Alerts Config Trend Oom Kernlog PowerSupply Backlight Cpu Disk Latency Radio Net Util ProcsView
begin

text \<open>
  The state of the screen (\<open>internal/ui/model.go\<close>) and the small parts it is made of:
  tabs and layout, the in-flight guards of \<open>behind.go\<close>, the fading notices of \<open>notice.go\<close>,
  the session peaks of \<open>peaks.go\<close>, the process detail overlay of \<open>detail.go\<close>, the zoom of
  \<open>zoom.go\<close>, the filters of \<open>filter.go\<close>, and the construction of the model. \<open>time.Now()\<close> is
  an argument \<open>now\<close> of the operations that read it.
\<close>

section \<open>Tabs and layout\<close>

datatype tab = tabCPU | tabMem | tabProc | tabDisk | tabNet | tabPower | tabGPU | tabAlerts

definition tabs :: "tab list" where
  "tabs = [tabCPU, tabMem, tabProc, tabDisk, tabNet, tabPower, tabGPU, tabAlerts]"

definition tab_index :: "tab \<Rightarrow> nat" where
  "tab_index t = (case t of tabCPU \<Rightarrow> 0 | tabMem \<Rightarrow> 1 | tabProc \<Rightarrow> 2 | tabDisk \<Rightarrow> 3 | tabNet \<Rightarrow> 4
     | tabPower \<Rightarrow> 5 | tabGPU \<Rightarrow> 6 | tabAlerts \<Rightarrow> 7)"

definition step_tab :: "nat \<Rightarrow> tab \<Rightarrow> tab" where
  "step_tab k t = tabs ! ((tab_index t + k) mod 8)"

definition tabFromName :: "string \<Rightarrow> tab" where
  "tabFromName s =
     (if s \<in> {''mem'', ''memory''} then tabMem
      else if s \<in> {''proc'', ''procs'', ''processes''} then tabProc
      else if s = ''disk'' then tabDisk
      else if s \<in> {''net'', ''network''} then tabNet
      else if s = ''power'' then tabPower
      else if s \<in> {''gpu'', ''soc'', ''videocore''} then tabGPU
      else if s \<in> {''alert'', ''alerts''} then tabAlerts
      else tabCPU)"

definition headerH :: int where "headerH = 1"
definition footerH :: int where "footerH = 1"
definition minWidth :: int where "minWidth = 30"
definition minHeight :: int where "minHeight = 6"
definition defaultHistoryLen :: int where "defaultHistoryLen = 200"

definition bodyHeight :: "int \<Rightarrow> int" where
  "bodyHeight h = (let bh = h - headerH - footerH - 2 in if bh < 1 then 1 else bh)"

definition boxWidth :: "int \<Rightarrow> int" where
  "boxWidth w = min (w - 2) 140"

text \<open>The content a box frames: clipped to its inner width and to its height.\<close>

definition box_content :: "(nat \<Rightarrow> nat) \<Rightarrow> int \<Rightarrow> int \<Rightarrow> string \<Rightarrow> string" where
  "box_content rw w h content =
     clipHeight (hardClipLinesToWidth rw content (max 1 (boxWidth w - 2))) (bodyHeight h)"

section \<open>behind.go: the guarded fetches\<close>

datatype fetchKind =
  fetchProcs | fetchConns | fetchSys | fetchLatency | fetchCPU | fetchMem | fetchPSI | fetchNet |
  fetchDisk | fetchPower | fetchHealth | fetchDetail | fetchKmsg

definition fetchKinds :: "fetchKind list" where
  "fetchKinds = [fetchProcs, fetchConns, fetchSys, fetchLatency, fetchCPU, fetchMem, fetchPSI, fetchNet,
     fetchDisk, fetchPower, fetchHealth, fetchDetail, fetchKmsg]"

definition fetchKind_string :: "fetchKind \<Rightarrow> string" where
  "fetchKind_string f =
     (case f of fetchCPU \<Rightarrow> ''cpu'' | fetchMem \<Rightarrow> ''memory'' | fetchPSI \<Rightarrow> ''pressure'' | fetchNet \<Rightarrow> ''network''
      | fetchDisk \<Rightarrow> ''disk'' | fetchPower \<Rightarrow> ''power'' | fetchHealth \<Rightarrow> ''storage/modem''
      | fetchDetail \<Rightarrow> ''process detail'' | fetchKmsg \<Rightarrow> ''kernel log'' | fetchConns \<Rightarrow> ''connections''
      | fetchSys \<Rightarrow> ''gpu/soc'' | fetchLatency \<Rightarrow> ''ping'' | fetchProcs \<Rightarrow> ''processes'')"

definition behindTTL :: duration where "behindTTL = 10 * second"

text \<open>A command handed to the event loop. The memory guard covers two of them: the whole sample, and
  the OOM counter alone while sampling is paused.\<close>

datatype Cmd =
  CmdCPU | CmdMem | CmdOOMCount | CmdPSI | CmdNet | CmdKmsg | CmdProcs | CmdLatency | CmdConns
  | CmdDetail int | CmdDisk | CmdPower | CmdSys | CmdHealth | CmdTick | CmdQuit

record guards =
  gd_inFlight :: "fetchKind \<Rightarrow> bool"
  gd_skips :: "fetchKind \<Rightarrow> int"
  gd_behindAt :: time

definition newGuards :: guards where
  "newGuards = \<lparr>gd_inFlight = (\<lambda>_. False), gd_skips = (\<lambda>_. 0), gd_behindAt = zeroTime\<rparr>"

definition queue :: "time \<Rightarrow> fetchKind \<Rightarrow> Cmd option \<Rightarrow> guards \<times> Cmd list \<Rightarrow> guards \<times> Cmd list" where
  "queue now k build = (\<lambda>(g, cmds).
     if gd_inFlight g k
     then (g\<lparr>gd_skips := (gd_skips g)(k := gd_skips g k + 1), gd_behindAt := now\<rparr>, cmds)
     else case build of
       None \<Rightarrow> (g, cmds)
     | Some cmd \<Rightarrow>
         (g\<lparr>gd_inFlight := (gd_inFlight g)(k := True), gd_skips := (gd_skips g)(k := 0)\<rparr>, cmds @ [cmd]))"

definition queueUser :: "fetchKind \<Rightarrow> Cmd option \<Rightarrow> guards \<Rightarrow> guards \<times> Cmd option" where
  "queueUser k build g =
     (if gd_inFlight g k then (g, None)
      else case build of
        None \<Rightarrow> (g, None)
      | Some cmd \<Rightarrow> (g\<lparr>gd_inFlight := (gd_inFlight g)(k := True)\<rparr>, Some cmd))"

definition fetch_done :: "fetchKind \<Rightarrow> guards \<Rightarrow> guards" where
  "fetch_done k g = g\<lparr>gd_inFlight := (gd_inFlight g)(k := False)\<rparr>"

definition behindBadge :: "(string \<Rightarrow> string) \<Rightarrow> time \<Rightarrow> guards \<Rightarrow> string" where
  "behindBadge paint now g =
     (if isZero (gd_behindAt g) \<or> timeSub now (gd_behindAt g) > behindTTL then []
      else let slow = map fetchKind_string (filter (\<lambda>k. gd_skips g k > 0) fetchKinds)
      in if slow = [] then []
         else paint ([CHR 0xE2, CHR 0x8F, CHR 0xB3] @ '' slow: '' @ join slow '', ''))"

section \<open>notice.go\<close>

definition noticeTTL :: duration where "noticeTTL = 5 * second"

record notice =
  no_text :: string
  no_until :: time

definition noNotice :: notice where "noNotice = \<lparr>no_text = [], no_until = zeroTime\<rparr>"

definition notice_set :: "time \<Rightarrow> string \<Rightarrow> notice" where
  "notice_set now s = \<lparr>no_text = s, no_until = now + noticeTTL\<rparr>"

definition notice_get :: "time \<Rightarrow> notice \<Rightarrow> string" where
  "notice_get now n = (if no_text n = [] \<or> now > no_until n then [] else no_text n)"

section \<open>peaks.go\<close>

record sessionPeaks =
  pk_cpuPct :: f64
  pk_tempC :: f64
  pk_tempLabel :: string
  pk_load1 :: f64
  pk_memPct :: f64
  pk_battMin :: int

definition newSessionPeaks :: sessionPeaks where
  "newSessionPeaks = \<lparr>pk_cpuPct = 0, pk_tempC = 0, pk_tempLabel = [], pk_load1 = 0, pk_memPct = 0, pk_battMin = -1\<rparr>"

definition peak_temp :: "TempReading \<Rightarrow> sessionPeaks \<Rightarrow> sessionPeaks" where
  "peak_temp t p = (if tr_Temp t > pk_tempC p then p\<lparr>pk_tempC := tr_Temp t, pk_tempLabel := tr_Label t\<rparr> else p)"

definition observeCPU :: "f64 \<Rightarrow> TempReading list \<Rightarrow> sessionPeaks \<Rightarrow> sessionPeaks" where
  "observeCPU tot temps p =
     fold peak_temp temps (if tot > pk_cpuPct p then p\<lparr>pk_cpuPct := tot\<rparr> else p)"

definition observeMem :: "f64 \<Rightarrow> sessionPeaks \<Rightarrow> sessionPeaks" where
  "observeMem usedPct p = (if usedPct > pk_memPct p then p\<lparr>pk_memPct := usedPct\<rparr> else p)"

definition observeLoad :: "f64 \<Rightarrow> sessionPeaks \<Rightarrow> sessionPeaks" where
  "observeLoad load1 p = (if load1 > pk_load1 p then p\<lparr>pk_load1 := load1\<rparr> else p)"

definition observeBattery :: "int \<Rightarrow> sessionPeaks \<Rightarrow> sessionPeaks" where
  "observeBattery capacity p =
     (if capacity < 0 then p
      else if pk_battMin p < 0 \<or> capacity < pk_battMin p then p\<lparr>pk_battMin := capacity\<rparr> else p)"

definition tempSummary :: "sessionPeaks \<Rightarrow> string" where
  "tempSummary p = (if pk_tempC p \<le> 0 then [] else FormatTemp (pk_tempC p) @ '' ('' @ pk_tempLabel p @ '')'')"

section \<open>detail.go and procs.go: one process in depth\<close>

record ProcDetail =
  pd_PID :: int
  pd_Name :: string
  pd_User :: string
  pd_Status :: string
  pd_CmdLine :: string
  pd_Exe :: string
  pd_Cwd :: string
  pd_Nice :: int
  pd_Threads :: int
  pd_FDs :: int
  pd_MemRSS :: "64 word"
  pd_MemVMS :: "64 word"
  pd_MemSwap :: "64 word"
  pd_CreateTime :: int
  pd_StartTime :: "64 word"
  pd_IORead :: "64 word"
  pd_IOWrite :: "64 word"
  pd_IOOK :: bool
  pd_Children :: int
  pd_Conns :: "ConnInfo list"

text \<open>What the process library and the kernel answer for one PID; the start time is read first and last.\<close>

record proc_answers =
  pa_exists :: bool
  pa_start :: "64 word option"
  pa_end :: "64 word option"
  pa_name :: string
  pa_user :: string
  pa_status :: "string list"
  pa_cmdline :: string
  pa_exe :: string
  pa_cwd :: string
  pa_nice :: int
  pa_threads :: int
  pa_fds :: "int option"
  pa_mem :: "(64 word \<times> 64 word \<times> 64 word) option"
  pa_created :: int
  pa_io :: "(64 word \<times> 64 word) option"
  pa_children :: "int option"
  pa_conns :: "ConnInfo list"

definition GetProcDetail :: "int \<Rightarrow> proc_answers \<Rightarrow> ProcDetail option" where
  "GetProcDetail pid a =
     (if \<not> pa_exists a then None
      else
        let start = (case pa_start a of Some s \<Rightarrow> s | None \<Rightarrow> 0);
            (rss, vms, swp) = (case pa_mem a of Some m \<Rightarrow> m | None \<Rightarrow> (0, 0, 0));
            (rd, wr) = (case pa_io a of Some io \<Rightarrow> io | None \<Rightarrow> (0, 0));
            d = \<lparr>pd_PID = pid, pd_Name = Printable (pa_name a), pd_User = Printable (pa_user a),
                 pd_Status = (if pa_status a \<noteq> [] then hd (pa_status a) else []),
                 pd_CmdLine = Printable (pa_cmdline a), pd_Exe = Printable (pa_exe a), pd_Cwd = Printable (pa_cwd a),
                 pd_Nice = pa_nice a, pd_Threads = pa_threads a,
                 pd_FDs = (case pa_fds a of Some n \<Rightarrow> n | None \<Rightarrow> -1),
                 pd_MemRSS = rss, pd_MemVMS = vms, pd_MemSwap = swp, pd_CreateTime = pa_created a,
                 pd_StartTime = start, pd_IORead = rd, pd_IOWrite = wr, pd_IOOK = (pa_io a \<noteq> None),
                 pd_Children = (case pa_children a of Some n \<Rightarrow> n | None \<Rightarrow> 0), pd_Conns = pa_conns a\<rparr>
        in case pa_end a of
             None \<Rightarrow> None
           | Some e \<Rightarrow> if start \<noteq> 0 \<and> e \<noteq> start then None else Some d)"

record procDetailState =
  dt_pid :: int
  dt_start :: "64 word"
  dt_gone :: bool
  dt_name :: string
  dt_d :: "ProcDetail option"
  dt_notice :: string

text \<open>\<open>dt_d\<close> holds \<open>d\<close> once \<open>loaded\<close>; a reply is the process it is about and what was read of it.\<close>

definition displayName :: "procDetailState \<Rightarrow> string" where
  "displayName st =
     (case dt_d st of Some d \<Rightarrow> if pd_Name d \<noteq> [] then pd_Name d else dt_name st | None \<Rightarrow> dt_name st)"

abbreviation EXITED :: string where
  "EXITED \<equiv> ''process exited '' @ EMDASH @ '' esc to close''"

definition detail_apply :: "(string \<Rightarrow> string) \<Rightarrow> ProcDetail option \<Rightarrow> procDetailState \<Rightarrow> procDetailState" where
  "detail_apply errStyle reply st =
     (if dt_gone st then st
      else case reply of
        None \<Rightarrow> st\<lparr>dt_gone := True, dt_notice := errStyle EXITED\<rparr>
      | Some d \<Rightarrow>
          let st = (if dt_start st = 0 then st\<lparr>dt_start := pd_StartTime d\<rparr> else st)
          in if pd_StartTime d \<noteq> 0 \<and> pd_StartTime d \<noteq> dt_start st
             then st\<lparr>dt_gone := True, dt_notice := errStyle EXITED\<rparr>
             else st\<lparr>dt_d := Some d\<rparr>)"

section \<open>Prompts and filters\<close>

record killPrompt =
  kp_pid :: int
  kp_start :: "64 word"
  kp_name :: string
  kp_hard :: bool

definition kill_signal :: "killPrompt \<Rightarrow> string" where
  "kill_signal k = (if kp_hard k then ''SIGKILL'' else ''SIGTERM'')"

datatype connState = connAll | connListen | connEstab

definition connState_string :: "connState \<Rightarrow> string" where
  "connState_string c = (case c of connListen \<Rightarrow> ''LISTEN'' | connEstab \<Rightarrow> ''ESTABLISHED'' | connAll \<Rightarrow> ''ALL'')"

definition conn_match :: "connState \<Rightarrow> string \<Rightarrow> bool" where
  "conn_match c status \<longleftrightarrow>
     (case c of connListen \<Rightarrow> status = ''LISTEN'' | connEstab \<Rightarrow> status = ''ESTABLISHED'' | connAll \<Rightarrow> True)"

definition next_conn :: "connState \<Rightarrow> connState" where
  "next_conn c = (case c of connAll \<Rightarrow> connListen | connListen \<Rightarrow> connEstab | connEstab \<Rightarrow> connAll)"

definition keepTemps :: "Config \<Rightarrow> TempReading list \<Rightarrow> TempReading list" where
  "keepTemps c ts = (if TempIgnore c = [] then ts else filter (\<lambda>t. \<not> HideSensor c (tr_Label t)) ts)"

definition keepDisks :: "Config \<Rightarrow> DiskInfo list \<Rightarrow> DiskInfo list" where
  "keepDisks c ds = (if DiskIgnore c = [] then ds else filter (\<lambda>d. \<not> HideMount c (di_MountPoint d)) ds)"

definition keepIfaces :: "Config \<Rightarrow> IfaceInfo list \<Rightarrow> IfaceInfo list" where
  "keepIfaces c is = (if NetIgnore c = [] then is else filter (\<lambda>i. \<not> HideIface c (if_Name i)) is)"

section \<open>The model\<close>

record Model =
  m_w :: int
  m_h :: int
  m_cfg :: Config
  m_fastInterval :: duration
  m_procEvery :: int
  m_slowEvery :: int
  m_activeTab :: tab
  m_err :: "string option"
  m_paused :: bool
  m_showHelp :: bool
  m_peaks :: sessionPeaks
  m_cpuSnap :: CPUSnapshot
  m_cpuHist :: "f64 list"
  m_tempHist :: "string \<Rightarrow> f64 list"
  m_coreHists :: "f64 list list"
  m_freqHist :: "string \<Rightarrow> f64 list"
  m_psi :: PSISnapshot
  m_memSnap :: MemSnapshot
  m_oom :: oomTracker
  m_kmsg :: bool
  m_klog :: kernelLog
  m_hiddenDisks :: "string set"
  m_now :: time
  m_memHist :: "f64 list"
  m_swapHist :: "f64 list"
  m_powerSnap :: PowerSnapshot
  m_battHist :: "f64 list"
  m_battWHist :: "f64 list"
  m_loadHist :: "f64 list"
  m_detail :: "procDetailState option"
  m_pp :: ProcsPane
  m_procsSearch :: string
  m_procsSearching :: bool
  m_procsKill :: "killPrompt option"
  m_procsNotice :: notice
  m_disks :: "DiskInfo list"
  m_diskIOs :: "DiskIOInfo list"
  m_netSnap :: NetSnapshot
  m_conns :: "ConnInfo list"
  m_connFilter :: connState
  m_netVPHeight :: int
  m_alertsVPHeight :: int
  m_netSearch :: string
  m_netSearching :: bool
  m_netQuery :: string
  m_rxHist :: "string \<rightharpoonup> f64 list"
  m_txHist :: "string \<rightharpoonup> f64 list"
  m_netIfaceName :: string
  m_iwLinks :: "string \<rightharpoonup> IWLink"
  m_latSampler :: bool
  m_pings :: "PingResult list"
  m_rttHist :: "string \<Rightarrow> f64 list"
  m_lossWin :: "string \<rightharpoonup> bool list"
  m_gpuSnap :: GPUInfo
  m_backlight :: BacklightInfo
  m_sysNotice :: notice
  m_storage :: "StorageHealth list"
  m_modem :: ModemInfo
  m_trends :: trendTracker
  m_zoom :: "int option"
  m_peaksReset :: time
  m_alerts :: alertEngine
  m_notice :: notice
  m_guards :: guards
  m_tickCount :: int

end
