(* ===== verification/Screen_Ops.thy ===== *)
theory Screen_Ops
  imports Screen_Model
begin

text \<open>
  Making a model (\<open>NewModel\<close>, \<open>calibrateTemps\<close>, \<open>FollowKernelLog\<close>), the arithmetic of its layout,
  the selection of a network interface, the histories, and the zoom (\<open>internal/ui/model.go\<close>,
  \<open>zoom.go\<close>, \<open>config_check.go\<close>).
\<close>

section \<open>Construction\<close>

text \<open>The zero values of the snapshots.\<close>

definition zeroCPU :: CPUSnapshot where
  "zeroCPU = \<lparr>cs_PerCorePercent = [], cs_TotalPercent = 0, cs_Breakdown = noBreakdown, cs_Temperatures = [],
     cs_Freqs = [], cs_TakenAt = zeroTime\<rparr>"

definition zeroMem :: MemSnapshot where
  "zeroMem = \<lparr>ms_Total = 0, ms_Used = 0, ms_Free = 0, ms_Available = 0, ms_Cached = 0, ms_Buffers = 0,
     ms_UsedPct = 0, ms_SwapTotal = 0, ms_SwapUsed = 0, ms_SwapUsedPct = 0, ms_OOMKills = 0,
     ms_OOMKillsOK = False, ms_TakenAt = zeroTime\<rparr>"

definition zeroPower :: PowerSnapshot where
  "zeroPower = \<lparr>pw_Load = \<lparr>ld_Load1 = 0, ld_Load5 = 0, ld_Load15 = 0, ld_CPUCount = 0\<rparr>, pw_ACKnown = False,
     pw_ACOnline = False, pw_Battery = noBattery\<lparr>ba_Capacity := 0\<rparr>, pw_Throttle = noThrottle, pw_TakenAt = zeroTime\<rparr>"

definition zeroNet :: NetSnapshot where
  "zeroNet = \<lparr>ns_Hostname = [], ns_Uptime = 0, ns_Ifaces = [], ns_TakenAt = zeroTime\<rparr>"

definition zeroPSI :: PSISnapshot where
  "zeroPSI = \<lparr>ps_Present = False, ps_CPU = noPSI, ps_Mem = noPSI, ps_IO = noPSI\<rparr>"

definition pluralKeys :: "int \<Rightarrow> string" where
  "pluralKeys n = (if n = 1 then ''1 unrecognised key'' else itoa n @ '' unrecognised keys'')"

definition unknownKeysNotice :: "Config \<Rightarrow> string" where
  "unknownKeysNotice cfg =
     (let names = UnknownKeyNames cfg
      in if names = [] then []
         else
           let listed = (if length names > 3 then take 3 names else names);
               suffix = (if length names > 3 then '' +'' @ itoa (int (length names) - 3) @ '' more'' else [])
           in ''config: '' @ pluralKeys (int (length names)) @ '' ignored ('' @ join listed '', '' @ suffix @ '') '' @
              EMDASH @ '' run ucmon --check-config'')"

definition calibrateTemps :: "nat \<Rightarrow> host \<Rightarrow> Config \<Rightarrow> Config" where
  "calibrateTemps fuel h cfg =
     (if TempExplicit cfg \<or> \<not> TempFromTripPoints cfg then cfg
      else case ReadTripPoints fuel h of
        None \<Rightarrow> cfg
      | Some tp \<Rightarrow>
          (case TripThresholds tp of
             None \<Rightarrow> cfg
           | Some (warn, hot, crit) \<Rightarrow> Sanitize (cfg\<lparr>TempWarn := warn, TempHot := hot, TempCrit := crit\<rparr>)))"

definition every :: "duration \<Rightarrow> duration \<Rightarrow> int" where
  "every interval fast =
     (let n = (interval + fast sdiv 2) sdiv fast in if n < 1 then 1 else n)"

definition new_from :: "time \<Rightarrow> (string \<Rightarrow> string) \<Rightarrow> Config \<Rightarrow> Model" where
  "new_from now warnStyle cfg =
     \<lparr>m_w = 0, m_h = 0, m_cfg = cfg, m_fastInterval = FastInterval cfg,
      m_procEvery = every (ProcInterval cfg) (FastInterval cfg),
      m_slowEvery = every (SlowInterval cfg) (FastInterval cfg),
      m_activeTab = tabFromName (StartTab cfg), m_err = None, m_paused = False, m_showHelp = False,
      m_peaks = newSessionPeaks, m_cpuSnap = zeroCPU, m_cpuHist = [], m_tempHist = (\<lambda>_. []), m_coreHists = [],
      m_freqHist = (\<lambda>_. []), m_psi = zeroPSI, m_memSnap = zeroMem, m_oom = newOomTracker, m_kmsg = False,
      m_klog = newKernelLog, m_hiddenDisks = {}, m_now = zeroTime, m_memHist = [], m_swapHist = [],
      m_powerSnap = zeroPower, m_battHist = [], m_battWHist = [], m_loadHist = [], m_detail = None,
      m_pp = newPane, m_procsSearch = [], m_procsSearching = False, m_procsKill = None, m_procsNotice = noNotice,
      m_disks = [], m_diskIOs = [], m_netSnap = zeroNet, m_conns = [], m_connFilter = connAll, m_netVPHeight = 0, m_alertsVPHeight = 0,
      m_netSearch = [], m_netSearching = False, m_netQuery = [], m_rxHist = Map.empty, m_txHist = Map.empty,
      m_netIfaceName = [], m_iwLinks = Map.empty, m_latSampler = PingEnabled cfg, m_pings = [],
      m_rttHist = (\<lambda>_. []), m_lossWin = Map.empty, m_gpuSnap = noGPU, m_backlight = noBacklight, m_sysNotice = noNotice,
      m_storage = [], m_modem = noModem, m_trends = newTrendTracker, m_zoom = None,
      m_peaksReset = zeroTime, m_alerts = newAlertEngine (AlertLogCap cfg) (AlertClearTicks cfg),
      m_notice = (if unknownKeysNotice cfg \<noteq> [] then notice_set now (warnStyle (unknownKeysNotice cfg)) else noNotice),
      m_guards = newGuards, m_tickCount = 0\<rparr>"

definition NewModel :: "nat \<Rightarrow> host \<Rightarrow> time \<Rightarrow> (string \<Rightarrow> string) \<Rightarrow> Config \<Rightarrow> Model" where
  "NewModel fuel h now warnStyle cfg = new_from now warnStyle (calibrateTemps fuel h (Sanitize cfg))"

definition FollowKernelLog :: "bool \<Rightarrow> Model \<Rightarrow> Model" where
  "FollowKernelLog opened m =
     (if \<not> KernelLogEnabled (m_cfg m) \<or> m_kmsg m then m else if opened then m\<lparr>m_kmsg := True\<rparr> else m)"

definition histLen :: "Model \<Rightarrow> int" where
  "histLen m = (if HistoryLen (m_cfg m) > 0 then HistoryLen (m_cfg m) else defaultHistoryLen)"

definition add_point :: "Model \<Rightarrow> 'a \<Rightarrow> 'a list \<Rightarrow> 'a list" where
  "add_point m x xs = ClampHistory (xs @ [x]) (histLen m)"

section \<open>Network: selection and height\<close>

definition upIfaces :: "Model \<Rightarrow> IfaceInfo list" where
  "upIfaces m = filter if_IsUp (ns_Ifaces (m_netSnap m))"

fun iface_index :: "IfaceInfo list \<Rightarrow> string \<Rightarrow> int" where
  "iface_index [] name = -1"
| "iface_index (i # is) name =
     (if if_Name i = name then 0 else let k = iface_index is name in if k < 0 then -1 else k + 1)"

definition netIfaceIdx :: "Model \<Rightarrow> int" where
  "netIfaceIdx m = (if m_netIfaceName m = [] then -1 else iface_index (upIfaces m) (m_netIfaceName m))"

definition netIfaceLines :: "Model \<Rightarrow> int" where
  "netIfaceLines m =
     (if isZero (ns_TakenAt (m_netSnap m)) then 2
      else
        let up = upIfaces m; sel = netIfaceIdx m
        in 2 + int (length up) +
           (if sel \<ge> 0 then
              2 + (if wf_Present (if_WiFi (up ! nat sel)) then
                     1 + (if m_iwLinks m (if_Name (up ! nat sel)) \<noteq> None then 1 else 0)
                   else 0)
            else 0) + 1)"

definition modemLines :: "Model \<Rightarrow> int" where
  "modemLines m = (if mo_Present (m_modem m) then 2 else 0)"

definition latencyLines :: "Model \<Rightarrow> int" where
  "latencyLines m =
     (if \<not> m_latSampler m then 0
      else (let n = int (length (m_pings m)) in if n = 0 then 1 else n) + 1)"

definition netVPOverhead :: "Model \<Rightarrow> int" where
  "netVPOverhead m = netIfaceLines m + modemLines m + latencyLines m + 1 + 2 + 2"

definition calcNetVPHeight :: "Model \<Rightarrow> int" where
  "calcNetVPHeight m = max 3 (bodyHeight (m_h m) - netVPOverhead m)"

definition fit_net :: "Model \<Rightarrow> Model" where
  "fit_net m = m\<lparr>m_netVPHeight := calcNetVPHeight m\<rparr>"

definition moveIfaceSel :: "int \<Rightarrow> Model \<Rightarrow> Model" where
  "moveIfaceSel delta m =
     (let up = upIfaces m
      in if up = [] then m\<lparr>m_netIfaceName := []\<rparr>
         else
           let next' = netIfaceIdx m + delta;
               name = (if next' \<ge> int (length up) then []
                       else if next' = -1 then []
                       else if next' < -1 then if_Name (last up)
                       else if_Name (up ! nat next'))
           in fit_net (m\<lparr>m_netIfaceName := name\<rparr>))"

definition evictIfaceHistory :: "string set \<Rightarrow> Model \<Rightarrow> Model" where
  "evictIfaceHistory present m =
     (if present = {} then m
      else
        let gone = dom (m_rxHist m) - present
        in m\<lparr>m_rxHist := m_rxHist m |` present, m_txHist := (m_txHist m |` (- gone)) |` present\<rparr>)"

section \<open>Zoom\<close>

record zoomMetric =
  zm_title :: string
  zm_unit :: string
  zm_hist :: "f64 list"
  zm_lo :: f64
  zm_hi :: f64
  zm_fixed :: bool
  zm_color :: string

definition zoom_pct :: "string \<Rightarrow> f64 list \<Rightarrow> string \<Rightarrow> zoomMetric" where
  "zoom_pct title hist color = \<lparr>zm_title = title, zm_unit = ''%'', zm_hist = hist, zm_lo = 0, zm_hi = 100,
     zm_fixed = True, zm_color = color\<rparr>"

definition zoom_free :: "string \<Rightarrow> string \<Rightarrow> f64 list \<Rightarrow> string \<Rightarrow> zoomMetric" where
  "zoom_free title u hist color = \<lparr>zm_title = title, zm_unit = u, zm_hist = hist, zm_lo = 0, zm_hi = 0,
     zm_fixed = False, zm_color = color\<rparr>"

definition zoomMetrics :: "Model \<Rightarrow> zoomMetric list" where
  "zoomMetrics m =
     (case m_activeTab m of
        tabCPU \<Rightarrow>
          [zoom_pct ''CPU total'' (m_cpuHist m) ''42''] @
          map (\<lambda>(i, h). zoom_pct (''Core '' @ nat_digits i) h ''39'') (enumerate 0 (m_coreHists m)) @
          map (\<lambda>t. zoom_free (''Temperature '' @ tr_Label t) (DEGREE @ ''C'') (m_tempHist m (tr_Label t)) ''214'')
            (cs_Temperatures (m_cpuSnap m)) @
          map (\<lambda>f. \<lparr>zm_title = ''Frequency '' @ pf_Policy f, zm_unit = '' MHz'', zm_hist = m_freqHist m (pf_Policy f),
                 zm_lo = pf_MinMHz f, zm_hi = pf_MaxMHz f, zm_fixed = (pf_MaxMHz f > pf_MinMHz f), zm_color = ''45''\<rparr>)
            (cs_Freqs (m_cpuSnap m))
      | tabMem \<Rightarrow>
          [zoom_pct ''RAM used'' (m_memHist m) ''42''] @
          (if ms_SwapTotal (m_memSnap m) > 0 then [zoom_pct ''Swap used'' (m_swapHist m) ''214''] else [])
      | tabNet \<Rightarrow>
          concat (map (\<lambda>i.
            [zoom_free (if_Name i @ '' RX'') '' B/s'' (case m_rxHist m (if_Name i) of Some h \<Rightarrow> h | None \<Rightarrow> []) ''42'',
             zoom_free (if_Name i @ '' TX'') '' B/s'' (case m_txHist m (if_Name i) of Some h \<Rightarrow> h | None \<Rightarrow> []) ''45''])
            (upIfaces m)) @
          map (\<lambda>r. zoom_free (''RTT '' @ pr_Target r) '' ms'' (m_rttHist m (pr_Target r)) ''226'') (m_pings m)
      | tabPower \<Rightarrow>
          [zoom_free ''Load (1 min)'' [] (m_loadHist m) ''42''] @
          (if ba_Present (pw_Battery (m_powerSnap m)) then
             [zoom_pct ''Battery charge'' (m_battHist m) ''45''] @
             (if length (m_battWHist m) > 1 then [zoom_free ''Battery power'' '' W'' (m_battWHist m) ''214''] else [])
           else [])
      | _ \<Rightarrow> [])"

definition toggleZoom :: "time \<Rightarrow> (string \<Rightarrow> string) \<Rightarrow> Model \<Rightarrow> Model" where
  "toggleZoom now subtle m =
     (if m_zoom m \<noteq> None then m\<lparr>m_zoom := None\<rparr>
      else if zoomMetrics m = [] then m\<lparr>m_notice := notice_set now (subtle ''nothing to expand on this tab'')\<rparr>
      else m\<lparr>m_zoom := Some 0\<rparr>)"

definition cycleZoom :: "int \<Rightarrow> Model \<Rightarrow> Model" where
  "cycleZoom delta m =
     (case m_zoom m of
        None \<Rightarrow> m
      | Some idx \<Rightarrow>
          let n = int (length (zoomMetrics m))
          in if n = 0 then m\<lparr>m_zoom := None\<rparr>
             else m\<lparr>m_zoom := Some (((idx + delta) smod n + n) smod n)\<rparr>)"

text \<open>The metric the zoom view draws; \<open>None\<close> is the placeholder.\<close>

definition zoomed :: "Model \<Rightarrow> zoomMetric option" where
  "zoomed m =
     (case m_zoom m of
        None \<Rightarrow> None
      | Some i \<Rightarrow>
          let ms = zoomMetrics m
          in if ms = [] then None
             else Some (ms ! nat (if i \<ge> int (length ms) then int (length ms) - 1 else i)))"

definition hasNegative :: "f64 list \<Rightarrow> bool" where
  "hasNegative vs \<longleftrightarrow> list_ex (\<lambda>v. v < 0) vs"

definition seriesStats :: "f64 list \<Rightarrow> f64 \<times> f64 \<times> f64" where
  "seriesStats vs =
     (if vs = [] then (0, 0, 0)
      else (fold min vs (hd vs), fold max vs (hd vs), sum_list vs / of_nat (length vs)))"

definition graphBounds :: "zoomMetric \<Rightarrow> f64 \<times> f64" where
  "graphBounds z =
     (if zm_fixed z \<and> zm_hi z > zm_lo z then (zm_lo z, zm_hi z)
      else if zm_hist z = [] then (0, 1)
      else
        let (lo, hi, _) = seriesStats (zm_hist z)
        in if hi - lo < 1 / 1000000000 then
             (let pad = max (\<bar>hi\<bar> * (1 / 10)) 1 in (lo - pad, hi + pad))
           else
             let pad = (hi - lo) * (1 / 10); lo = lo - pad; hi = hi + pad
             in if zm_lo z = 0 \<and> lo < 0 \<and> \<not> hasNegative (zm_hist z) then (0, hi) else (lo, hi))"

end
