(* ===== verification/Conditions.thy ===== *)
theory Conditions
  imports Screen_Ops
begin

text \<open>
  What is wrong right now: \<open>currentAlertConds\<close> and the predictive conditions of
  \<open>internal/ui/alerts.go\<close>, with the clock and window of event alerts (\<open>oom.go\<close>) and the feeding of
  the trend tracker (\<open>trend.go\<close>). Each block of the function is the list of the entries it writes
  into the map, in order; \<open>hms\<close> prints a time of day.
\<close>

abbreviation GE :: string where "GE \<equiv> [CHR 0xE2, CHR 0x89, CHR 0xA5]"
abbreviation LE :: string where "LE \<equiv> [CHR 0xE2, CHR 0x89, CHR 0xA4]"
abbreviation warnCond :: "string \<Rightarrow> alertCond" where "warnCond msg \<equiv> \<lparr>ac_sev = SevWarn, ac_msg = msg\<rparr>"
abbreviation critCond :: "string \<Rightarrow> alertCond" where "critCond msg \<equiv> \<lparr>ac_sev = SevCrit, ac_msg = msg\<rparr>"

type_synonym entries = "(string \<times> alertCond) list"
type_synonym conditions = "string \<rightharpoonup> alertCond"

definition write_conds :: "entries \<Rightarrow> conditions \<Rightarrow> conditions" where
  "write_conds es cs = fold (\<lambda>(k, c) cs. cs(k \<mapsto> c)) es cs"

section \<open>Clocks\<close>

definition eventWindow :: "goarch \<Rightarrow> Config \<Rightarrow> duration" where
  "eventWindow arch c = f2i arch (EventAlertMinutes c * of_int minute)"

definition alertNow :: "time \<Rightarrow> Model \<Rightarrow> time" where
  "alertNow now m =
     (if \<not> isZero (m_now m) then m_now m
      else if \<not> isZero (ms_TakenAt (m_memSnap m)) then ms_TakenAt (m_memSnap m)
      else now)"

section \<open>Levels\<close>

definition temp_conds :: "Config \<Rightarrow> TempReading list \<Rightarrow> entries" where
  "temp_conds c ts = concat (map (\<lambda>t.
     if tr_Temp t \<ge> TempCrit c then
       [(''temp:'' @ tr_Label t, critCond (tr_Label t @ '' '' @ fmt_f 0 (tr_Temp t) @ DEGREE @ ''C '' @ GE @ '' '' @
          fmt_f 0 (TempCrit c) @ DEGREE @ ''C critical''))]
     else if tr_Temp t \<ge> TempHot c then
       [(''temp:'' @ tr_Label t, warnCond (tr_Label t @ '' '' @ fmt_f 0 (tr_Temp t) @ DEGREE @ ''C '' @ GE @ '' '' @
          fmt_f 0 (TempHot c) @ DEGREE @ ''C hot''))]
     else []) ts)"

definition mem_conds :: "Config \<Rightarrow> MemSnapshot \<Rightarrow> entries" where
  "mem_conds c s =
     (if ms_Total s > 0 \<and> ms_UsedPct s \<ge> MemWarnPct c then
        [(''mem'', warnCond (''RAM '' @ fmt_f 0 (ms_UsedPct s) @ ''% used '' @ GE @ '' '' @ fmt_f 0 (MemWarnPct c) @ ''%''))]
      else []) @
     (if ms_SwapTotal s > 0 \<and> ms_SwapUsedPct s \<ge> SwapWarnPct c then
        [(''swap'', warnCond (''swap '' @ fmt_f 0 (ms_SwapUsedPct s) @ ''% used '' @ GE @ '' '' @ fmt_f 0 (SwapWarnPct c) @ ''%''))]
      else [])"

definition disk_entries :: "Config \<Rightarrow> DiskInfo \<Rightarrow> entries" where
  "disk_entries c d =
     (if di_RemountedRO d then
        [(''diskro:'' @ di_MountPoint d, critCond (di_MountPoint d @ '' ('' @ di_Device d @ '') remounted read-only '' @
           EMDASH @ '' likely I/O errors; back up now''))]
      else []) @
     (if ReadOnlyByDesign (di_FSType d) then []
      else if di_UsedPct d \<ge> DiskWarnPct c then
        [(''disk:'' @ di_MountPoint d, warnCond (''disk '' @ di_MountPoint d @ '' '' @ fmt_f 0 (di_UsedPct d) @
           ''% full '' @ GE @ '' '' @ fmt_f 0 (DiskWarnPct c) @ ''%''))]
      else [])"

definition disk_conds :: "Config \<Rightarrow> DiskInfo list \<Rightarrow> entries" where
  "disk_conds c ds = concat (map (disk_entries c) ds)"

definition on_battery :: "BatteryInfo \<Rightarrow> bool" where
  "on_battery b \<longleftrightarrow> ba_Present b \<and> ba_Capacity b \<ge> 0 \<and> ba_Status b \<noteq> ''Charging'' \<and> ba_Status b \<noteq> ''Full''"

definition batt_conds :: "Config \<Rightarrow> BatteryInfo \<Rightarrow> entries" where
  "batt_conds c b =
     (if \<not> on_battery b then []
      else if ba_Capacity b \<le> BattCritPct c then
        [(''batt'', critCond (''battery '' @ itoa (ba_Capacity b) @ ''% '' @ LE @ '' '' @ itoa (BattCritPct c) @ ''% critical''))]
      else if ba_Capacity b \<le> BattLowPct c then
        [(''batt'', warnCond (''battery '' @ itoa (ba_Capacity b) @ ''% '' @ LE @ '' '' @ itoa (BattLowPct c) @ ''% low''))]
      else [])"

definition throttle_conds :: "ThrottleInfo \<Rightarrow> entries" where
  "throttle_conds th =
     (if \<not> th_Available th then []
      else
        (if th_UnderVoltageNow th then [(''throttle:uv'', critCond ''under-voltage detected'')] else []) @
        (if th_ThrottledNow th then [(''throttle:thr'', critCond ''CPU throttled now'')] else []) @
        (if th_FreqCappedNow th then [(''throttle:cap'', warnCond ''ARM frequency capped'')] else []) @
        (if th_SoftTempLimitNow th then [(''throttle:soft'', warnCond ''soft temperature limit active'')] else []))"

definition load_conds :: "Config \<Rightarrow> LoadInfo \<Rightarrow> entries" where
  "load_conds c l =
     (let n = ld_CPUCount l
      in if n > 0 then
           let limit = of_int n * LoadWarnFactor c
           in if ld_Load1 l \<ge> limit then
                [(''load'', warnCond (''load '' @ fmt_f 2 (ld_Load1 l) @ '' '' @ GE @ '' '' @ fmt_f 1 limit @ '' ('' @
                   fmt_f 1 (LoadWarnFactor c) @ TIMES @ itoa n @ '' cores)''))]
              else []
         else [])"

definition wifi_conds :: "goarch \<Rightarrow> Config \<Rightarrow> IfaceInfo list \<Rightarrow> entries" where
  "wifi_conds arch c is =
     (if WifiLowDBm c = 0 then []
      else concat (map (\<lambda>i.
        if \<not> if_IsUp i \<or> \<not> wf_Present (if_WiFi i) \<or> wf_SignalDBm (if_WiFi i) \<ge> 0 then []
        else if f2i arch (wf_SignalDBm (if_WiFi i)) \<le> WifiLowDBm c then
          [(''wifi:'' @ if_Name i, warnCond (if_Name i @ '' signal '' @ fmt_f 0 (wf_SignalDBm (if_WiFi i)) @ '' dBm '' @
             LE @ '' '' @ itoa (WifiLowDBm c) @ '' dBm''))]
        else []) is))"

definition lossPct :: "bool list \<Rightarrow> f64" where
  "lossPct win =
     (if win = [] then 0 else of_nat (length (filter Not win)) / of_nat (length win) * 100)"

text \<open>The loop over the loss windows writes one key per target, so the map it leaves has a closed form.\<close>

definition after :: "string \<Rightarrow> string \<Rightarrow> string option" where
  "after px k = (if hasPrefix k px then Some (drop (length px) k) else None)"

definition overlay :: "string \<Rightarrow> (string \<Rightarrow> alertCond option) \<Rightarrow> conditions \<Rightarrow> conditions" where
  "overlay px f cs k =
     (case after px k of
        None \<Rightarrow> cs k
      | Some x \<Rightarrow> (case f x of None \<Rightarrow> cs k | Some c \<Rightarrow> Some c))"

definition ping_cond :: "Config \<Rightarrow> (string \<rightharpoonup> bool list) \<Rightarrow> string \<Rightarrow> alertCond option" where
  "ping_cond c wins target =
     (if PingEnabled c \<and> PingLossWarnPct c > 0 then
        case wins target of
          None \<Rightarrow> None
        | Some win \<Rightarrow>
            if length win < 10 then None
            else if lossPct win \<ge> PingLossWarnPct c then
              Some (warnCond (''packet loss to '' @ target @ '' '' @ fmt_f 0 (lossPct win) @ ''% '' @ GE @ '' '' @
                fmt_f 0 (PingLossWarnPct c) @ ''%''))
            else None
      else None)"

definition storageAlertMsg :: "StorageHealth \<Rightarrow> string" where
  "storageAlertMsg h =
     (let dev = sh_Device h @ '' ('' @ sh_Kind h @ '')''
      in if sh_ReadOnly h then dev @ '' has gone read-only '' @ EMDASH @ '' the controller retired it''
         else if sh_PreEOL h = 3 then dev @ '' reserve blocks exhausted '' @ EMDASH @ '' replace it''
         else if sh_PreEOL h = 2 then dev @ '' reserve blocks 80% used''
         else case WearPct h of
                Some pct \<Rightarrow> dev @ '' at '' @ fmt_f 0 pct @ ''% of rated write endurance''
              | None \<Rightarrow> dev @ '' reports degraded health'')"

definition storage_conds :: "StorageHealth list \<Rightarrow> entries" where
  "storage_conds hs = concat (map (\<lambda>h.
     if Severity h = 2 then [(''storage:'' @ sh_Device h, critCond (storageAlertMsg h))]
     else if Severity h = 1 then [(''storage:'' @ sh_Device h, warnCond (storageAlertMsg h))]
     else []) hs)"

definition modem_conds :: "Config \<Rightarrow> ModemInfo \<Rightarrow> entries" where
  "modem_conds c mo =
     (if ModemEnabled c \<and> mo_Present mo \<and> \<not> Registered mo then
        [(''modem'', warnCond (''modem not registered ('' @ mo_State mo @ '')'' @
           (if mo_FailedReason mo \<noteq> [] then '': '' @ mo_FailedReason mo else [])))]
      else [])"

definition psi_conds :: "Config \<Rightarrow> PSISnapshot \<Rightarrow> entries" where
  "psi_conds c s =
     (if PSIWarnPct c > 0 \<and> ps_Present s then
        concat (map (\<lambda>(key, r).
          if HasSome r \<and> SomeAvg10 r \<ge> PSIWarnPct c then
            [(''psi:'' @ key, warnCond (key @ '' pressure '' @ fmt_f 0 (SomeAvg10 r) @ ''% '' @ GE @ '' '' @
               fmt_f 0 (PSIWarnPct c) @ ''% (10s some)''))]
          else []) [(''cpu'', ps_CPU s), (''mem'', ps_Mem s), (''io'', ps_IO s)])
      else [])"

section \<open>Slopes\<close>

definition drain_conds :: "Config \<Rightarrow> trendTracker \<Rightarrow> BatteryInfo \<Rightarrow> entries" where
  "drain_conds c t b =
     (if BattDrainWarnPctH c > 0 \<and> on_battery b then
        case rate t ''batt'' of
          None \<Rightarrow> []
        | Some perHour \<Rightarrow>
            if - perHour \<ge> BattDrainWarnPctH c then
              [(''batt:rate'', warnCond (''battery draining '' @ fmt_f 0 (- perHour) @ ''%/h'' @
                 (case etaTo t ''batt'' (of_int (ba_Capacity b)) 0 of
                    Some eta \<Rightarrow> '' '' @ EMDASH @ '' empty in '' @ humanETA eta
                  | None \<Rightarrow> [])))]
            else []
      else [])"

definition fill_conds :: "Config \<Rightarrow> trendTracker \<Rightarrow> DiskInfo list \<Rightarrow> entries" where
  "fill_conds c t ds =
     (if DiskFullWarnHours c > 0 then
        concat (map (\<lambda>d.
          if ReadOnlyByDesign (di_FSType d) \<or> di_UsedPct d \<ge> 100 then []
          else case etaTo t (''disk:'' @ di_MountPoint d) (di_UsedPct d) 100 of
            None \<Rightarrow> []
          | Some eta \<Rightarrow>
              if hours eta > DiskFullWarnHours c then []
              else [(''diskfill:'' @ di_MountPoint d,
                \<lparr>ac_sev = (if eta < hour then SevCrit else SevWarn),
                 ac_msg = di_MountPoint d @ '' filling '' @ EMDASH @ '' full in '' @ humanETA eta @ '' (now '' @
                   fmt_f 0 (di_UsedPct d) @ ''%)''\<rparr>)]) ds)
      else [])"

definition tempRiseHorizon :: duration where "tempRiseHorizon = 10 * minute"

definition sensorChip :: "string \<Rightarrow> string" where
  "sensorChip lbl =
     (let n = length (takeWhile (\<lambda>c. c \<noteq> CHR ''_'' \<and> c \<noteq> CHR ''-'') lbl)
      in if n < length lbl \<and> n > 0 then take n lbl else lbl)"

record rise =
  ri_label :: string
  ri_perMin :: f64
  ri_now :: f64
  ri_eta :: duration
  ri_others :: int

text \<open>One reading's turn in the loop that fills \<open>byChip\<close>.\<close>

definition rise_step ::
    "goarch \<Rightarrow> Config \<Rightarrow> trendTracker \<Rightarrow> TempReading \<Rightarrow> (string \<rightharpoonup> rise) \<Rightarrow> (string \<rightharpoonup> rise)" where
  "rise_step arch c tr t byChip =
     (case sustainedRate tr (''temp:'' @ tr_Label t) of
        None \<Rightarrow> byChip
      | Some perHour \<Rightarrow>
          let perMin = perHour / 60
          in if perMin < TempRiseWarnCPerMin c \<or> tr_Temp t \<ge> TempCrit c then byChip
             else
               let eta = f2i arch ((TempCrit c - tr_Temp t) / perMin * of_int minute)
               in if eta > tempRiseHorizon then byChip
                  else
                    let chip = sensorChip (tr_Label t)
                    in case byChip chip of
                         None \<Rightarrow> byChip(chip \<mapsto> \<lparr>ri_label = tr_Label t, ri_perMin = perMin, ri_now = tr_Temp t,
                           ri_eta = eta, ri_others = 0\<rparr>)
                       | Some r \<Rightarrow>
                           if eta \<ge> ri_eta r then byChip(chip \<mapsto> r\<lparr>ri_others := ri_others r + 1\<rparr>)
                           else byChip(chip \<mapsto> \<lparr>ri_label = tr_Label t, ri_perMin = perMin, ri_now = tr_Temp t,
                             ri_eta = eta, ri_others = ri_others r + 1\<rparr>))"

definition rises :: "goarch \<Rightarrow> Config \<Rightarrow> trendTracker \<Rightarrow> TempReading list \<Rightarrow> (string \<rightharpoonup> rise)" where
  "rises arch c tr ts = (if TempRiseWarnCPerMin c > 0 then fold (rise_step arch c tr) ts Map.empty else Map.empty)"

definition rise_cond :: "Config \<Rightarrow> string \<Rightarrow> rise \<Rightarrow> alertCond" where
  "rise_cond c chip r =
     warnCond (ri_label r @ '' rising '' @ fmt_f 1 (ri_perMin r) @ DEGREE @ ''C/min (now '' @ fmt_f 0 (ri_now r) @
       DEGREE @ ''C) '' @ EMDASH @ '' '' @ fmt_f 0 (TempCrit c) @ DEGREE @ ''C in '' @ humanETA (ri_eta r) @
       (if ri_others r > 0 then '' (+'' @ itoa (ri_others r) @ '' more '' @ chip @ '' sensors)'' else []))"

definition trendConds :: "goarch \<Rightarrow> Model \<Rightarrow> conditions \<Rightarrow> conditions" where
  "trendConds arch m cs =
     (let c = m_cfg m;
          cs = write_conds (drain_conds c (m_trends m) (pw_Battery (m_powerSnap m))) cs;
          cs = write_conds (fill_conds c (m_trends m) (m_disks m)) cs
      in overlay ''temprise:''
           (\<lambda>chip. map_option (rise_cond c chip) (rises arch c (m_trends m) (cs_Temperatures (m_cpuSnap m)) chip)) cs)"

section \<open>All of it\<close>

definition currentAlertConds :: "goarch \<Rightarrow> (time \<Rightarrow> string) \<Rightarrow> time \<Rightarrow> Model \<Rightarrow> conditions" where
  "currentAlertConds arch hms now m =
     (let c = m_cfg m;
          cs = write_conds (temp_conds c (cs_Temperatures (m_cpuSnap m))) Map.empty;
          cs = write_conds (mem_conds c (m_memSnap m)) cs;
          w = eventWindow arch c;
          cs = (if w > 0
                then Kernlog.conds hms (m_klog m) (alertNow now m) w (mountOf (m_disks m))
                       (Oom.conds hms (m_oom m) (alertNow now m) w cs)
                else cs);
          cs = write_conds (disk_conds c (m_disks m)) cs;
          cs = write_conds (batt_conds c (pw_Battery (m_powerSnap m))) cs;
          cs = write_conds (throttle_conds (pw_Throttle (m_powerSnap m))) cs;
          cs = write_conds (load_conds c (pw_Load (m_powerSnap m))) cs;
          cs = write_conds (wifi_conds arch c (ns_Ifaces (m_netSnap m))) cs;
          cs = overlay ''ping:'' (ping_cond c (m_lossWin m)) cs;
          cs = write_conds (storage_conds (m_storage m)) cs;
          cs = write_conds (modem_conds c (m_modem m)) cs;
          cs = trendConds arch m cs
      in write_conds (psi_conds c (m_psi m)) cs)"

section \<open>Feeding the trends\<close>

text \<open>\<open>ks\<close> is the order in which \<open>evict\<close> walks its map.\<close>

definition recordTrend :: "string list \<Rightarrow> time \<Rightarrow> time \<Rightarrow> Model \<Rightarrow> Model" where
  "recordTrend ks clock now m =
     (let now = (if isZero now then clock else now);
          t = evict ks now (m_trends m);
          b = pw_Battery (m_powerSnap m);
          t = (if ba_Present b \<and> ba_Capacity b \<ge> 0 then Trend.observe ''batt'' (of_int (ba_Capacity b)) now t else t);
          t = fold (\<lambda>d t. if ReadOnlyByDesign (di_FSType d) then t
                else Trend.observe (''disk:'' @ di_MountPoint d) (di_UsedPct d) now t) (m_disks m) t;
          t = fold (\<lambda>r. Trend.observe (''temp:'' @ tr_Label r) (tr_Temp r) now) (cs_Temperatures (m_cpuSnap m)) t;
          t = (if ms_Total (m_memSnap m) > 0 then Trend.observe ''mem'' (ms_UsedPct (m_memSnap m)) now t else t)
      in m\<lparr>m_trends := t\<rparr>)"

section \<open>Delivery\<close>

definition formatAlertLogLine :: "(time \<Rightarrow> string) \<Rightarrow> alertEntry \<Rightarrow> string" where
  "formatAlertLogLine ymdhms ev =
     ymdhms (en_when ev) @ '' '' @ (if en_cleared ev then ''CLEAR'' else ''RAISE'') @ '' '' @ label (en_sev ev) @ '' '' @
     en_msg ev @ [NL]"

definition alertCmdEnv :: "alertEntry \<Rightarrow> string list" where
  "alertCmdEnv ev =
     [''UCMON_ALERT_STATE='' @ (if en_cleared ev then ''clear'' else ''raise''),
      ''UCMON_ALERT_SEV='' @ label (en_sev ev),
      ''UCMON_ALERT_MSG='' @ en_msg ev]"

definition hookQueueLen :: nat where "hookQueueLen = 64"

text \<open>The jobs waiting for the one worker; a full queue refuses.\<close>

definition hook_enqueue :: "string \<times> alertEntry \<Rightarrow> (string \<times> alertEntry) list \<Rightarrow> (string \<times> alertEntry) list \<times> bool" where
  "hook_enqueue job q = (if length q < hookQueueLen then (q @ [job], True) else (q, False))"

section \<open>Which block writes which key\<close>

named_theorems other_keys \<open>a block leaves the keys of the other blocks alone\<close>

lemma write_conds_apply: "write_conds es cs k = (case map_of (rev es) k of None \<Rightarrow> cs k | Some c \<Rightarrow> Some c)"
  by (induction es arbitrary: cs) (auto simp: write_conds_def map_add_def split: option.splits)

lemma write_conds_Nil [simp]: "write_conds [] cs = cs"
  by (simp add: write_conds_def)

lemma write_conds_Cons [simp]: "write_conds ((k, c) # es) cs = write_conds es (cs(k \<mapsto> c))"
  by (simp add: write_conds_def)

lemma write_conds_append: "write_conds (es @ fs) cs = write_conds fs (write_conds es cs)"
  by (simp add: write_conds_def)

lemma write_other: "k \<notin> fst ` set es \<Longrightarrow> write_conds es cs k = cs k"
  using map_of_eq_None_iff [of "rev es" k] by (simp add: write_conds_apply)

lemma write_cong: "cs k = cs' k \<Longrightarrow> write_conds es cs k = write_conds es cs' k"
  unfolding write_conds_apply by (simp split: option.split)

lemma temp_other [other_keys]: "\<not> hasPrefix k ''temp:'' \<Longrightarrow> write_conds (temp_conds c ts) cs k = cs k"
  by (rule write_other) (auto simp: temp_conds_def split: if_splits)

lemma mem_other [other_keys]: "k \<noteq> ''mem'' \<Longrightarrow> k \<noteq> ''swap'' \<Longrightarrow> write_conds (mem_conds c s) cs k = cs k"
  by (rule write_other) (auto simp: mem_conds_def split: if_splits)

lemma disk_other [other_keys]:
  "\<not> hasPrefix k ''disk:'' \<Longrightarrow> \<not> hasPrefix k ''diskro:'' \<Longrightarrow> write_conds (disk_conds c ds) cs k = cs k"
  by (rule write_other) (auto simp: disk_conds_def disk_entries_def split: if_splits)

lemma batt_other [other_keys]: "k \<noteq> ''batt'' \<Longrightarrow> write_conds (batt_conds c b) cs k = cs k"
  by (rule write_other) (auto simp: batt_conds_def split: if_splits)

lemma throttle_other [other_keys]: "\<not> hasPrefix k ''throttle:'' \<Longrightarrow> write_conds (throttle_conds th) cs k = cs k"
  by (rule write_other) (auto simp: throttle_conds_def split: if_splits)

lemma load_other [other_keys]: "k \<noteq> ''load'' \<Longrightarrow> write_conds (load_conds c l) cs k = cs k"
  by (rule write_other) (auto simp: load_conds_def Let_def split: if_splits)

lemma wifi_other [other_keys]: "\<not> hasPrefix k ''wifi:'' \<Longrightarrow> write_conds (wifi_conds arch c is) cs k = cs k"
  by (rule write_other) (auto simp: wifi_conds_def split: if_splits)

lemma storage_other [other_keys]: "\<not> hasPrefix k ''storage:'' \<Longrightarrow> write_conds (storage_conds hs) cs k = cs k"
  by (rule write_other) (auto simp: storage_conds_def split: if_splits)

lemma modem_other [other_keys]: "k \<noteq> ''modem'' \<Longrightarrow> write_conds (modem_conds c mo) cs k = cs k"
  by (rule write_other) (auto simp: modem_conds_def split: if_splits)

lemma psi_other [other_keys]: "\<not> hasPrefix k ''psi:'' \<Longrightarrow> write_conds (psi_conds c s) cs k = cs k"
  by (rule write_other) (auto simp: psi_conds_def split: if_splits)

lemma write_single: "k \<noteq> key \<Longrightarrow> write_conds (if P then [(key, a)] else []) cs k = cs k"
  by simp

lemma drain_other [other_keys]: "k \<noteq> ''batt:rate'' \<Longrightarrow> write_conds (drain_conds c t b) cs k = cs k"
  unfolding drain_conds_def by (cases "rate t ''batt''") (simp_all only: option.case write_single if_cancel write_conds_Nil split: if_split, simp_all)

lemma fill_other [other_keys]: "\<not> hasPrefix k ''diskfill:'' \<Longrightarrow> write_conds (fill_conds c t ds) cs k = cs k"
  by (rule write_other) (auto simp: fill_conds_def split: if_splits option.splits)

lemma overlay_other [other_keys]: "\<not> hasPrefix k px \<Longrightarrow> overlay px f cs k = cs k"
  by (simp add: overlay_def after_def)

lemma trend_other [other_keys]:
  "k \<noteq> ''batt:rate'' \<Longrightarrow> \<not> hasPrefix k ''diskfill:'' \<Longrightarrow> \<not> hasPrefix k ''temprise:'' \<Longrightarrow>
   trendConds arch m cs k = cs k"
  by (simp add: trendConds_def Let_def other_keys)

text \<open>Event keys are those of the kill tracker and of the kernel log's groups.\<close>

definition event_keys_ok :: "Model \<Rightarrow> bool" where
  "event_keys_ok m \<longleftrightarrow>
     (\<forall>e \<in> set (ot_events (m_oom m)). hasPrefix (oe_key e) ''oom:'') \<and> groups_ok (kl_groups (m_klog m))"

lemma oom_other:
  "\<forall>e \<in> set es. hasPrefix (oe_key e) ''oom:'' \<Longrightarrow> \<not> hasPrefix k ''oom:'' \<Longrightarrow>
   fold (\<lambda>e cs. if timeSub now (oe_at e) \<ge> window then cs else cs(oe_key e \<mapsto> f e)) es cs k = cs k"
  by (induction es arbitrary: cs) auto

lemma events_other [other_keys]:
  assumes "event_keys_ok m" "\<not> hasPrefix k ''oom:''" "k \<noteq> ''kuv''" "\<not> hasPrefix k ''kio:''"
  shows "Kernlog.conds hms (m_klog m) now w mnt (Oom.conds hms (m_oom m) now w cs) k = cs k"
proof -
  have "kl_groups (m_klog m) k = None"
  proof (rule ccontr)
    assume "kl_groups (m_klog m) k \<noteq> None"
    then obtain g where "kl_groups (m_klog m) k = Some g" by blast
    then have "k = ''kuv'' \<or> k = ''kio:'' @ kg_device g"
      using assms(1) unfolding event_keys_ok_def groups_ok_def by blast
    with assms(3,4) show False by auto
  qed
  then have "Kernlog.conds hms (m_klog m) now w mnt (Oom.conds hms (m_oom m) now w cs) k =
      Oom.conds hms (m_oom m) now w cs k"
    by (simp add: Kernlog.conds_def)
  also have "\<dots> = cs k"
    unfolding Oom.conds_def using assms by (intro oom_other) (auto simp: event_keys_ok_def)
  finally show ?thesis .
qed

text \<open>Entries made per element of a list whose keys are distinct.\<close>

lemma write_concat_distinct:
  assumes "distinct (map key xs)" "x \<in> set xs"
    and keys: "\<And>y. y \<in> set xs \<Longrightarrow> fst ` set (f y) \<subseteq> K y" and "k \<in> K x"
    and apart: "\<And>y. y \<in> set xs \<Longrightarrow> key y \<noteq> key x \<Longrightarrow> k \<notin> K y"
  shows "write_conds (concat (map f xs)) cs k = write_conds (f x) cs k"
  using assms
proof (induction xs arbitrary: cs)
  case (Cons y ys)
  show ?case
  proof (cases "y = x")
    case True
    have "k \<notin> fst ` set (f z)" if "z \<in> set ys" for z
    proof -
      have "key z \<in> key ` set ys" using that by (rule imageI)
      then have "key z \<noteq> key x" using Cons.prems(1) True by auto
      then show ?thesis using Cons.prems(3,5) [of z] that by auto
    qed
    then have "k \<notin> fst ` set (concat (map f ys))" by auto
    then show ?thesis by (simp add: write_conds_append write_other True)
  next
    case False
    then have "key y \<noteq> key x" using Cons.prems(1,2) by auto
    then have "k \<notin> fst ` set (f y)" using Cons.prems(3,5) by (meson list.set_intros(1) subsetD)
    then have "write_conds (concat (map f ys)) (write_conds (f y) cs) k = write_conds (concat (map f ys)) cs k"
      by (intro write_cong write_other)
    also have "\<dots> = write_conds (f x) cs k"
      using Cons False by (intro Cons.IH) auto
    finally show ?thesis by (simp add: write_conds_append)
  qed
qed simp

section \<open>What is announced\<close>

lemma events_if_other [other_keys]:
  assumes "event_keys_ok m" "\<not> hasPrefix k ''oom:''" "k \<noteq> ''kuv''" "\<not> hasPrefix k ''kio:''"
  shows "(if w > 0 then Kernlog.conds hms (m_klog m) now w mnt (Oom.conds hms (m_oom m) now w cs) else cs) k = cs k"
  using events_other [OF assms] by simp

definition past :: "bool \<Rightarrow> alertSeverity \<Rightarrow> alertSeverity option" where
  "past reached sev = (if reached then Some sev else None)"

lemma past_simps [simp]:
  "past True s = Some s" "past False s = None" "(past b s = None) = (\<not> b)"
  "map_option ac_sev (if b then Some c else None) = past b (ac_sev c)"
  by (simp_all add: past_def)

lemma conds_temp:
  assumes "event_keys_ok m" "distinct (map tr_Label (cs_Temperatures (m_cpuSnap m)))"
    "t \<in> set (cs_Temperatures (m_cpuSnap m))"
  shows "map_option ac_sev (currentAlertConds arch hms now m (''temp:'' @ tr_Label t)) =
    (if tr_Temp t \<ge> TempCrit (m_cfg m) then Some SevCrit else past (tr_Temp t \<ge> TempHot (m_cfg m)) SevWarn)"
proof -
  have "currentAlertConds arch hms now m (''temp:'' @ tr_Label t) =
      write_conds (temp_conds (m_cfg m) (cs_Temperatures (m_cpuSnap m))) Map.empty (''temp:'' @ tr_Label t)"
    by (simp add: currentAlertConds_def Let_def other_keys assms(1))
  also have "map_option ac_sev \<dots> = (if tr_Temp t \<ge> TempCrit (m_cfg m) then Some SevCrit
     else past (tr_Temp t \<ge> TempHot (m_cfg m)) SevWarn)"
    unfolding temp_conds_def
    by (subst write_concat_distinct [where key = tr_Label and x = t and K = "\<lambda>t. {''temp:'' @ tr_Label t}"])
      (use assms in \<open>auto split: if_splits\<close>)
  finally show ?thesis .
qed

lemma conds_disk:
  assumes "event_keys_ok m" "distinct (map di_MountPoint (m_disks m))" "d \<in> set (m_disks m)"
  shows "map_option ac_sev (currentAlertConds arch hms now m (''diskro:'' @ di_MountPoint d)) =
      past (di_RemountedRO d) SevCrit"
    and "map_option ac_sev (currentAlertConds arch hms now m (''disk:'' @ di_MountPoint d)) =
      past (\<not> ReadOnlyByDesign (di_FSType d) \<and> di_UsedPct d \<ge> DiskWarnPct (m_cfg m)) SevWarn"
proof -
  define earlier where "earlier = (let c = m_cfg m;
          cs = write_conds (temp_conds c (cs_Temperatures (m_cpuSnap m))) Map.empty;
          cs = write_conds (mem_conds c (m_memSnap m)) cs;
          w = eventWindow arch c
      in (if w > 0
                then Kernlog.conds hms (m_klog m) (alertNow now m) w (mountOf (m_disks m))
                       (Oom.conds hms (m_oom m) (alertNow now m) w cs)
                else cs))"
  have e: "earlier (''diskro:'' @ x) = None" "earlier (''disk:'' @ x) = None" for x
    by (simp_all add: earlier_def Let_def other_keys assms(1))
  let ?K = "\<lambda>d. {''diskro:'' @ di_MountPoint d, ''disk:'' @ di_MountPoint d}"
  have "currentAlertConds arch hms now m (''diskro:'' @ di_MountPoint d) =
      write_conds (disk_conds (m_cfg m) (m_disks m)) earlier (''diskro:'' @ di_MountPoint d)"
    "currentAlertConds arch hms now m (''disk:'' @ di_MountPoint d) =
      write_conds (disk_conds (m_cfg m) (m_disks m)) earlier (''disk:'' @ di_MountPoint d)"
    by (simp_all add: currentAlertConds_def earlier_def Let_def other_keys)
  moreover have "write_conds (disk_conds (m_cfg m) (m_disks m)) earlier k = write_conds (disk_entries (m_cfg m) d) earlier k"
    if "k \<in> ?K d" for k
    unfolding disk_conds_def
    by (rule write_concat_distinct [where key = di_MountPoint and K = ?K])
      (use assms that in \<open>auto simp: disk_entries_def split: if_splits\<close>)
  ultimately show "map_option ac_sev (currentAlertConds arch hms now m (''diskro:'' @ di_MountPoint d)) =
      past (di_RemountedRO d) SevCrit"
    "map_option ac_sev (currentAlertConds arch hms now m (''disk:'' @ di_MountPoint d)) =
      past (\<not> ReadOnlyByDesign (di_FSType d) \<and> di_UsedPct d \<ge> DiskWarnPct (m_cfg m)) SevWarn"
    by (simp_all add: past_def disk_entries_def e [simplified])
qed

lemma conds_batt:
  assumes "event_keys_ok m"
  shows "map_option ac_sev (currentAlertConds arch hms now m ''batt'') =
    (let b = pw_Battery (m_powerSnap m); c = m_cfg m
     in if \<not> on_battery b then None else if ba_Capacity b \<le> BattCritPct c then Some SevCrit
        else past (ba_Capacity b \<le> BattLowPct c) SevWarn)"
  by (simp add: currentAlertConds_def past_def Let_def other_keys assms batt_conds_def)

lemma conds_throttle:
  fixes arch hms now m
  assumes "event_keys_ok m"
  defines "th \<equiv> pw_Throttle (m_powerSnap m)" and "cs \<equiv> currentAlertConds arch hms now m"
  shows "map_option ac_sev (cs ''throttle:uv'') = past (th_Available th \<and> th_UnderVoltageNow th) SevCrit"
    and "map_option ac_sev (cs ''throttle:thr'') = past (th_Available th \<and> th_ThrottledNow th) SevCrit"
    and "map_option ac_sev (cs ''throttle:cap'') = past (th_Available th \<and> th_FreqCappedNow th) SevWarn"
    and "map_option ac_sev (cs ''throttle:soft'') = past (th_Available th \<and> th_SoftTempLimitNow th) SevWarn"
  unfolding th_def cs_def by (simp_all add: currentAlertConds_def past_def Let_def other_keys assms(1) throttle_conds_def)

lemma conds_mem:
  assumes "event_keys_ok m"
  shows "map_option ac_sev (currentAlertConds arch hms now m ''mem'') =
      past (ms_Total (m_memSnap m) > 0 \<and> ms_UsedPct (m_memSnap m) \<ge> MemWarnPct (m_cfg m)) SevWarn"
    and "map_option ac_sev (currentAlertConds arch hms now m ''swap'') =
      past (ms_SwapTotal (m_memSnap m) > 0 \<and> ms_SwapUsedPct (m_memSnap m) \<ge> SwapWarnPct (m_cfg m)) SevWarn"
  by (simp_all add: currentAlertConds_def past_def Let_def other_keys assms mem_conds_def write_conds_append)

lemma conds_load:
  assumes "event_keys_ok m"
  shows "map_option ac_sev (currentAlertConds arch hms now m ''load'') =
    (let l = pw_Load (m_powerSnap m)
     in past (ld_CPUCount l > 0 \<and> ld_Load1 l \<ge> of_int (ld_CPUCount l) * LoadWarnFactor (m_cfg m)) SevWarn)"
  by (simp add: currentAlertConds_def past_def Let_def other_keys assms load_conds_def)

lemma conds_ping:
  assumes "event_keys_ok m"
  shows "map_option ac_sev (currentAlertConds arch hms now m (''ping:'' @ target)) =
    past (PingEnabled (m_cfg m) \<and> PingLossWarnPct (m_cfg m) > 0 \<and>
      (case m_lossWin m target of None \<Rightarrow> False
       | Some win \<Rightarrow> 10 \<le> length win \<and> lossPct win \<ge> PingLossWarnPct (m_cfg m))) SevWarn"
  by (simp add: currentAlertConds_def past_def Let_def other_keys assms overlay_def after_def ping_cond_def
      split: option.splits)

lemma conds_modem:
  assumes "event_keys_ok m"
  shows "map_option ac_sev (currentAlertConds arch hms now m ''modem'') =
    past (ModemEnabled (m_cfg m) \<and> mo_Present (m_modem m) \<and> \<not> Registered (m_modem m)) SevWarn"
  by (simp add: currentAlertConds_def past_def Let_def other_keys assms modem_conds_def)

lemma conds_psi:
  fixes arch hms now m
  assumes "event_keys_ok m"
  defines "cs \<equiv> currentAlertConds arch hms now m" and "c \<equiv> m_cfg m" and "s \<equiv> m_psi m"
  shows "map_option ac_sev (cs ''psi:cpu'') =
      past (PSIWarnPct c > 0 \<and> ps_Present s \<and> HasSome (ps_CPU s) \<and> SomeAvg10 (ps_CPU s) \<ge> PSIWarnPct c) SevWarn"
    and "map_option ac_sev (cs ''psi:mem'') =
      past (PSIWarnPct c > 0 \<and> ps_Present s \<and> HasSome (ps_Mem s) \<and> SomeAvg10 (ps_Mem s) \<ge> PSIWarnPct c) SevWarn"
    and "map_option ac_sev (cs ''psi:io'') =
      past (PSIWarnPct c > 0 \<and> ps_Present s \<and> HasSome (ps_IO s) \<and> SomeAvg10 (ps_IO s) \<ge> PSIWarnPct c) SevWarn"
  unfolding cs_def c_def s_def
  by (simp_all add: currentAlertConds_def past_def Let_def other_keys assms(1) psi_conds_def write_conds_append)

lemma conds_wifi:
  assumes "event_keys_ok m" "distinct (map if_Name (ns_Ifaces (m_netSnap m)))" "i \<in> set (ns_Ifaces (m_netSnap m))"
  shows "map_option ac_sev (currentAlertConds arch hms now m (''wifi:'' @ if_Name i)) =
    past (WifiLowDBm (m_cfg m) \<noteq> 0 \<and> if_IsUp i \<and> wf_Present (if_WiFi i) \<and> wf_SignalDBm (if_WiFi i) < 0 \<and>
      f2i arch (wf_SignalDBm (if_WiFi i)) \<le> WifiLowDBm (m_cfg m)) SevWarn"
proof -
  let ?k = "''wifi:'' @ if_Name i"
  have "map_option ac_sev (write_conds (wifi_conds arch (m_cfg m) (ns_Ifaces (m_netSnap m))) cs ?k) =
      past (WifiLowDBm (m_cfg m) \<noteq> 0 \<and> if_IsUp i \<and> wf_Present (if_WiFi i) \<and> wf_SignalDBm (if_WiFi i) < 0 \<and>
        f2i arch (wf_SignalDBm (if_WiFi i)) \<le> WifiLowDBm (m_cfg m)) SevWarn" if none: "cs ?k = None" for cs
  proof (cases "WifiLowDBm (m_cfg m) = 0")
    case False
    then show ?thesis
      unfolding wifi_conds_def if_not_P [OF False]
      by (subst write_concat_distinct [where key = if_Name and x = i and K = "\<lambda>i. {''wifi:'' @ if_Name i}"])
        (use assms none in \<open>auto simp: past_def split: if_splits\<close>)
  qed (simp add: wifi_conds_def past_def none [simplified])
  then show ?thesis
    by (simp add: currentAlertConds_def past_def Let_def other_keys assms(1))
qed

lemma conds_storage:
  assumes "event_keys_ok m" "distinct (map sh_Device (m_storage m))" "h \<in> set (m_storage m)"
  shows "map_option ac_sev (currentAlertConds arch hms now m (''storage:'' @ sh_Device h)) =
    (if Severity h = 2 then Some SevCrit else past (Severity h = 1) SevWarn)"
proof -
  let ?k = "''storage:'' @ sh_Device h"
  have "map_option ac_sev (write_conds (storage_conds (m_storage m)) cs ?k) =
      (if Severity h = 2 then Some SevCrit else past (Severity h = 1) SevWarn)" if none: "cs ?k = None" for cs
    unfolding storage_conds_def
    by (subst write_concat_distinct [where key = sh_Device and x = h and K = "\<lambda>h. {''storage:'' @ sh_Device h}"])
      (use assms none in \<open>auto simp: past_def split: if_splits\<close>)
  then show ?thesis
    by (simp add: currentAlertConds_def past_def Let_def other_keys assms(1))
qed

lemma conds_drain:
  assumes "event_keys_ok m"
  shows "map_option ac_sev (currentAlertConds arch hms now m ''batt:rate'') =
    past (BattDrainWarnPctH (m_cfg m) > 0 \<and> on_battery (pw_Battery (m_powerSnap m)) \<and>
      (case rate (m_trends m) ''batt'' of None \<Rightarrow> False | Some r \<Rightarrow> - r \<ge> BattDrainWarnPctH (m_cfg m))) SevWarn"
  by (simp add: currentAlertConds_def past_def trendConds_def Let_def other_keys assms drain_conds_def split: option.split)

lemma conds_fill:
  assumes "event_keys_ok m" "distinct (map di_MountPoint (m_disks m))" "d \<in> set (m_disks m)"
  shows "map_option ac_sev (currentAlertConds arch hms now m (''diskfill:'' @ di_MountPoint d)) =
    (if DiskFullWarnHours (m_cfg m) \<le> 0 \<or> ReadOnlyByDesign (di_FSType d) \<or> di_UsedPct d \<ge> 100 then None
     else case etaTo (m_trends m) (''disk:'' @ di_MountPoint d) (di_UsedPct d) 100 of
       None \<Rightarrow> None
     | Some eta \<Rightarrow> past (hours eta \<le> DiskFullWarnHours (m_cfg m)) (if eta < hour then SevCrit else SevWarn))"
    (is "_ = ?r")
proof -
  let ?k = "''diskfill:'' @ di_MountPoint d"
  have "map_option ac_sev (write_conds (fill_conds (m_cfg m) (m_trends m) (m_disks m)) cs ?k) = ?r"
    if none: "cs ?k = None" for cs
  proof (cases "DiskFullWarnHours (m_cfg m) > 0")
    case True
    then show ?thesis
      unfolding fill_conds_def if_P [OF True]
      by (subst write_concat_distinct [where key = di_MountPoint and x = d and K = "\<lambda>d. {''diskfill:'' @ di_MountPoint d}"])
        (use assms none in \<open>auto simp: past_def split: if_splits option.splits\<close>)
  qed (simp add: fill_conds_def past_def none [simplified])
  then show ?thesis
    by (simp add: currentAlertConds_def past_def trendConds_def Let_def other_keys assms(1))
qed

text \<open>A sensor that climbs fast enough to reach critical within the horizon.\<close>

definition rising :: "goarch \<Rightarrow> Config \<Rightarrow> trendTracker \<Rightarrow> TempReading \<Rightarrow> bool" where
  "rising arch c tr t \<longleftrightarrow>
     (case sustainedRate tr (''temp:'' @ tr_Label t) of
        None \<Rightarrow> False
      | Some perHour \<Rightarrow> perHour / 60 \<ge> TempRiseWarnCPerMin c \<and> tr_Temp t < TempCrit c \<and>
          f2i arch ((TempCrit c - tr_Temp t) / (perHour / 60) * of_int minute) \<le> 10 * minute)"

lemma rise_step_dom:
  "dom (rise_step arch c tr t byChip) = (if rising arch c tr t then {sensorChip (tr_Label t)} else {}) \<union> dom byChip"
  by (auto simp: rise_step_def rising_def Let_def tempRiseHorizon_def domIff split: option.splits if_splits)

lemma rises_dom:
  "(rises arch c tr ts chip \<noteq> None) =
    (TempRiseWarnCPerMin c > 0 \<and> (\<exists>t \<in> set ts. sensorChip (tr_Label t) = chip \<and> rising arch c tr t))"
proof -
  have "dom (fold (rise_step arch c tr) ts m) =
      {sensorChip (tr_Label t) | t. t \<in> set ts \<and> rising arch c tr t} \<union> dom m" for m
    by (induction ts arbitrary: m) (auto simp: rise_step_dom)
  then have "chip \<in> dom (fold (rise_step arch c tr) ts Map.empty) \<longleftrightarrow>
      (\<exists>t \<in> set ts. sensorChip (tr_Label t) = chip \<and> rising arch c tr t)"
    by auto
  then show ?thesis by (simp add: rises_def domIff)
qed

lemma conds_rise:
  assumes "event_keys_ok m"
  shows "map_option ac_sev (currentAlertConds arch hms now m (''temprise:'' @ chip)) =
    past (TempRiseWarnCPerMin (m_cfg m) > 0 \<and>
      (\<exists>t \<in> set (cs_Temperatures (m_cpuSnap m)). sensorChip (tr_Label t) = chip \<and>
        rising arch (m_cfg m) (m_trends m) t)) SevWarn"
proof -
  have "map_option ac_sev (currentAlertConds arch hms now m (''temprise:'' @ chip)) =
      past (rises arch (m_cfg m) (m_trends m) (cs_Temperatures (m_cpuSnap m)) chip \<noteq> None) SevWarn"
    by (simp add: currentAlertConds_def past_def trendConds_def Let_def other_keys assms overlay_def after_def rise_cond_def
        split: option.splits)
  then show ?thesis by (simp only: rises_dom)
qed


text \<open>A fresh model whose one sensor is past critical while its battery runs low and its two cores are
  overloaded.\<close>

definition hot_model :: Model where
  "hot_model = (new_from 0 (\<lambda>s. s) Default)
     \<lparr>m_cpuSnap := zeroCPU\<lparr>cs_Temperatures := [\<lparr>tr_Label = ''cpu'', tr_Temp = 85\<rparr>]\<rparr>,
      m_powerSnap := zeroPower\<lparr>pw_Battery := noBattery\<lparr>ba_Present := True, ba_Capacity := 15\<rparr>,
        pw_Load := (pw_Load zeroPower)\<lparr>ld_CPUCount := 2, ld_Load1 := 9\<rparr>\<rparr>\<rparr>"

lemma hot_model_fields:
  "cs_Temperatures (m_cpuSnap hot_model) = [\<lparr>tr_Label = ''cpu'', tr_Temp = 85\<rparr>]"
  "pw_Battery (m_powerSnap hot_model) = noBattery\<lparr>ba_Present := True, ba_Capacity := 15\<rparr>"
  "ld_CPUCount (pw_Load (m_powerSnap hot_model)) = 2" "ld_Load1 (pw_Load (m_powerSnap hot_model)) = 9"
  "m_disks hot_model = []" "m_cfg hot_model = Default" "event_keys_ok hot_model"
  "ns_Ifaces (m_netSnap hot_model) = []" "m_storage hot_model = []"
  by (simp_all add: hot_model_def new_from_def zeroCPU_def zeroPower_def zeroNet_def event_keys_ok_def newOomTracker_def
      newKernelLog_def groups_ok_def)


end
