(* ===== verification/Screen.thy ===== *)
theory Screen
  imports Screen_Ops Conditions
begin

text \<open>
  The event loop's reducer, \<open>Update\<close> of \<open>internal/ui/model.go\<close>: every message, every key. What it does
  besides changing the model - commands dispatched, signals sent, files written - is the list of
  actions it returns, in order. What the world answers (errors of those actions, the clock, the
  text-input and viewport widgets, the iteration orders of maps, the styles) is the record \<open>env\<close>.
\<close>

section \<open>The world\<close>

record env =
  en_arch :: goarch
  en_now :: time
  en_low :: "nat \<Rightarrow> nat"
  en_setY :: "int \<Rightarrow> int \<Rightarrow> int \<Rightarrow> int"
  en_keepY :: "int \<Rightarrow> int \<Rightarrow> int \<Rightarrow> int"
  en_hms :: "time \<Rightarrow> string"
  en_kill :: "int \<Rightarrow> 64 word \<Rightarrow> bool \<Rightarrow> string option"
  en_stop :: "int \<Rightarrow> 64 word \<Rightarrow> string option"
  en_cont :: "int \<Rightarrow> 64 word \<Rightarrow> string option"
  en_nice :: "int \<Rightarrow> 64 word \<Rightarrow> int \<Rightarrow> string option"
  en_setGov :: "string \<Rightarrow> string \<Rightarrow> string option"
  en_setBl :: "string \<Rightarrow> int \<Rightarrow> string option"
  en_export :: "string + string"
  en_append :: "string option"
  en_hook :: "alertEntry \<Rightarrow> bool"
  en_input :: "string \<Rightarrow> string \<Rightarrow> string"
  en_conds :: "string list"
  en_active :: "string list"
  en_trends :: "string list"
  en_ok :: "string \<Rightarrow> string"
  en_warn :: "string \<Rightarrow> string"
  en_err :: "string \<Rightarrow> string"
  en_subtle :: "string \<Rightarrow> string"

datatype act =
  Dispatch Cmd | Kill int "64 word" bool | Stop int "64 word" | Resume int "64 word"
  | Renice int "64 word" int | SetGov string string | SetBl string int | Export | Bell
  | LogAppend "alertEntry list" | Hook alertEntry | CloseKmsg

datatype Msg =
  WindowSizeMsg int int | TickMsg time | CpuMsg CPUSnapshot | MemMsg MemSnapshot | PowerMsg PowerSnapshot
  | PsiMsg PSISnapshot | LatencyMsg "PingResult list" | DetailMsg int "ProcDetail option"
  | ProcMsg "string option" "ProcInfo list" | DiskMsg "DiskInfo list" "DiskIOInfo list" | NetMsg NetSnapshot
  | ConnMsg "ConnInfo list" | SysMsg GPUInfo BacklightInfo "string \<rightharpoonup> IWLink"
  | HealthMsg "StorageHealth list" ModemInfo | KmsgMsg "KernelEvent list" "string option"
  | ErrorNoticeMsg string | OomCountMsg "64 word" bool time | ErrMsg fetchKind string
  | KeyMsg string | WheelMsg int

abbreviation ARROW :: string where "ARROW \<equiv> [CHR 0xE2, CHR 0x86, CHR 0x92]"

section \<open>Small steps\<close>

definition setNotice :: "env \<Rightarrow> string \<Rightarrow> Model \<Rightarrow> Model" where
  "setNotice e s m = m\<lparr>m_notice := notice_set (en_now e) s\<rparr>"

definition setProcsNotice :: "env \<Rightarrow> string \<Rightarrow> Model \<Rightarrow> Model" where
  "setProcsNotice e s m = m\<lparr>m_procsNotice := notice_set (en_now e) s\<rparr>"

definition setSysNotice :: "env \<Rightarrow> string \<Rightarrow> Model \<Rightarrow> Model" where
  "setSysNotice e s m = m\<lparr>m_sysNotice := notice_set (en_now e) s\<rparr>"

definition landed :: "fetchKind \<Rightarrow> Model \<Rightarrow> Model" where
  "landed k m = m\<lparr>m_guards := fetch_done k (m_guards m)\<rparr>"

definition follow_procs :: "env \<Rightarrow> Model \<Rightarrow> Model" where
  "follow_procs e m =
     m\<lparr>m_pp := refreshProcsFollow (en_low e) (procsCap (m_cfg m)) (en_setY e) (en_keepY e) (m_pp m)\<rparr>"

text \<open>The keys that change the view: the cursor and the viewport go to the top, a notice is cleared or not.\<close>

definition restart_procs :: "env \<Rightarrow> (ProcsPane \<Rightarrow> ProcsPane) \<Rightarrow> Model \<Rightarrow> Model" where
  "restart_procs e f m =
     m\<lparr>m_pp := restart (en_low e) (procsCap (m_cfg m)) (en_setY e) (en_keepY e) (f (m_pp m))\<rparr>"

section \<open>Data messages\<close>

definition on_resize :: "env \<Rightarrow> int \<Rightarrow> int \<Rightarrow> Model \<Rightarrow> Model" where
  "on_resize e w h m =
     (let m = m\<lparr>m_w := w, m_h := h\<rparr>;
          m = m\<lparr>m_pp := (m_pp m)\<lparr>pp_height := max 1 (bodyHeight h - 7)\<rparr>,
            m_alertsVPHeight := max 1 (bodyHeight h - 2)\<rparr>
      in follow_procs e (fit_net m))"

definition grow :: "nat \<Rightarrow> 'a list list \<Rightarrow> 'a list list" where
  "grow n xs = xs @ replicate (n - length xs) []"

definition on_cpu :: "CPUSnapshot \<Rightarrow> Model \<Rightarrow> Model" where
  "on_cpu s m =
     (let m = landed fetchCPU m;
          s = s\<lparr>cs_Temperatures := keepTemps (m_cfg m) (cs_Temperatures s)\<rparr>;
          cores = grow (length (cs_PerCorePercent s)) (m_coreHists m)
      in m\<lparr>m_cpuSnap := s, m_err := None,
           m_cpuHist := add_point m (cs_TotalPercent s) (m_cpuHist m),
           m_coreHists := map (\<lambda>(i, h). if i < length (cs_PerCorePercent s)
               then add_point m (cs_PerCorePercent s ! i) h else h) (enumerate 0 cores),
           m_tempHist := fold (\<lambda>t hs. hs(tr_Label t := add_point m (tr_Temp t) (hs (tr_Label t))))
               (cs_Temperatures s) (m_tempHist m),
           m_freqHist := fold (\<lambda>f hs. hs(pf_Policy f := add_point m (pf_CurMHz f) (hs (pf_Policy f))))
               (cs_Freqs s) (m_freqHist m),
           m_peaks := observeCPU (cs_TotalPercent s) (cs_Temperatures s) (m_peaks m)\<rparr>)"

definition on_mem :: "env \<Rightarrow> MemSnapshot \<Rightarrow> Model \<Rightarrow> Model" where
  "on_mem e s m =
     (let m = landed fetchMem m;
          m = m\<lparr>m_memSnap := s, m_memHist := add_point m (ms_UsedPct s) (m_memHist m)\<rparr>;
          m = (if ms_SwapTotal s > 0 then m\<lparr>m_swapHist := add_point m (ms_SwapUsedPct s) (m_swapHist m)\<rparr> else m);
          m = m\<lparr>m_peaks := observeMem (ms_UsedPct s) (m_peaks m)\<rparr>
      in if ms_OOMKillsOK s
         then m\<lparr>m_oom := Oom.observe (ms_OOMKills s) (ms_TakenAt s) (eventWindow (en_arch e) (m_cfg m)) (m_oom m)\<rparr>
         else m)"

definition on_power :: "PowerSnapshot \<Rightarrow> Model \<Rightarrow> Model" where
  "on_power s m =
     (let m = (landed fetchPower m)\<lparr>m_powerSnap := s\<rparr>;
          b = pw_Battery s;
          m = (if ba_Present b \<and> ba_Capacity b \<ge> 0
               then m\<lparr>m_battHist := add_point m (of_int (ba_Capacity b)) (m_battHist m),
                      m_peaks := observeBattery (ba_Capacity b) (m_peaks m)\<rparr>
               else m);
          m = (if ba_Present b \<and> ba_PowerW b > 0
               then m\<lparr>m_battWHist := add_point m (if ba_Status b = ''Discharging'' then - ba_PowerW b else ba_PowerW b)
                   (m_battWHist m)\<rparr>
               else m)
      in m\<lparr>m_loadHist := add_point m (ld_Load1 (pw_Load s)) (m_loadHist m),
           m_peaks := observeLoad (ld_Load1 (pw_Load s)) (m_peaks m)\<rparr>)"

definition lossWindow :: nat where "lossWindow = 50"

definition window_of :: "(string \<rightharpoonup> bool list) \<Rightarrow> string \<Rightarrow> bool list" where
  "window_of wins t = (case wins t of Some w \<Rightarrow> w | None \<Rightarrow> [])"

definition push_loss :: "bool \<Rightarrow> bool list \<Rightarrow> bool list" where
  "push_loss ok win =
     (let win = win @ [ok]
      in if length win > lossWindow then drop (length win - lossWindow) win else win)"

definition on_ping :: "PingResult \<Rightarrow> Model \<Rightarrow> Model" where
  "on_ping r m =
     (let m = m\<lparr>m_lossWin := (m_lossWin m)(pr_Target r \<mapsto> push_loss (pr_OK r) (window_of (m_lossWin m) (pr_Target r)))\<rparr>
      in if pr_OK r
         then m\<lparr>m_rttHist := (m_rttHist m)(pr_Target r :=
                 add_point m (of_int (pr_RTT r sdiv 1000) / 1000) (m_rttHist m (pr_Target r)))\<rparr>
         else m)"

definition on_latency :: "PingResult list \<Rightarrow> Model \<Rightarrow> Model" where
  "on_latency rs m = fit_net (fold on_ping rs ((landed fetchLatency m)\<lparr>m_pings := rs\<rparr>))"

definition on_detail :: "env \<Rightarrow> int \<Rightarrow> ProcDetail option \<Rightarrow> Model \<Rightarrow> Model" where
  "on_detail e pid reply m =
     (let m = landed fetchDetail m
      in case m_detail m of
           None \<Rightarrow> m
         | Some st \<Rightarrow> if pid = dt_pid st then m\<lparr>m_detail := Some (detail_apply (en_err e) reply st)\<rparr> else m)"

definition on_procs :: "env \<Rightarrow> string option \<Rightarrow> ProcInfo list \<Rightarrow> Model \<Rightarrow> Model" where
  "on_procs e err procs m =
     (let m = landed fetchProcs m
      in case err of
           Some x \<Rightarrow> m\<lparr>m_err := Some x\<rparr>
         | None \<Rightarrow> follow_procs e (m\<lparr>m_pp := (m_pp m)\<lparr>pp_procs := procs\<rparr>\<rparr>))"

definition on_disks :: "DiskInfo list \<Rightarrow> DiskIOInfo list \<Rightarrow> Model \<Rightarrow> Model" where
  "on_disks ds ios m =
     (landed fetchDisk m)\<lparr>m_hiddenDisks := hiddenDisksOf (m_cfg m) ds, m_disks := keepDisks (m_cfg m) ds, m_diskIOs := ios\<rparr>"

definition hist_of :: "(string \<rightharpoonup> f64 list) \<Rightarrow> string \<Rightarrow> f64 list" where
  "hist_of hs k = (case hs k of Some h \<Rightarrow> h | None \<Rightarrow> [])"

definition on_iface :: "IfaceInfo \<Rightarrow> Model \<Rightarrow> Model" where
  "on_iface i m =
     (if \<not> if_IsUp i then m
      else m\<lparr>m_rxHist := (m_rxHist m)(if_Name i \<mapsto> add_point m (if_RxBps i) (hist_of (m_rxHist m) (if_Name i))),
             m_txHist := (m_txHist m)(if_Name i \<mapsto> add_point m (if_TxBps i) (hist_of (m_txHist m) (if_Name i)))\<rparr>)"

definition on_net :: "NetSnapshot \<Rightarrow> Model \<Rightarrow> Model" where
  "on_net s m =
     (let s = s\<lparr>ns_Ifaces := keepIfaces (m_cfg m) (ns_Ifaces s)\<rparr>;
          m = fold on_iface (ns_Ifaces s) ((landed fetchNet m)\<lparr>m_netSnap := s\<rparr>)
      in fit_net (evictIfaceHistory (set (map if_Name (ns_Ifaces s))) m))"

definition on_sys :: "GPUInfo \<Rightarrow> BacklightInfo \<Rightarrow> (string \<rightharpoonup> IWLink) \<Rightarrow> Model \<Rightarrow> Model" where
  "on_sys g b iw m = fit_net ((landed fetchSys m)\<lparr>m_gpuSnap := g, m_backlight := b, m_iwLinks := iw\<rparr>)"

definition on_health :: "StorageHealth list \<Rightarrow> ModemInfo \<Rightarrow> Model \<Rightarrow> Model" where
  "on_health st mo m =
     (let m' = (landed fetchHealth m)\<lparr>m_storage := st, m_modem := mo\<rparr>
      in if mo_Present (m_modem m) \<noteq> mo_Present mo then fit_net m' else m')"

definition handleKmsg :: "env \<Rightarrow> KernelEvent list \<Rightarrow> string option \<Rightarrow> Model \<Rightarrow> Model \<times> act list" where
  "handleKmsg e evs err m =
     (let m = landed fetchKmsg m;
          w = eventWindow (en_arch e) (m_cfg m);
          m = m\<lparr>m_oom := fold (\<lambda>ev o'. if ke_Kind ev = KernelOOMKill
                then addVictim (ke_At ev) (ke_PID ev) (ke_Comm ev) (ms_OOMKillsOK (m_memSnap m)) w o' else o')
              evs (m_oom m),
                m_klog := Kernlog.observe evs (alertNow (en_now e) m) w (\<lambda>d. d \<in> m_hiddenDisks m) (m_klog m)\<rparr>
      in case err of
           None \<Rightarrow> (m\<lparr>m_klog := (m_klog m)\<lparr>kl_errs := 0\<rparr>\<rparr>, [])
         | Some x \<Rightarrow>
             let m = m\<lparr>m_klog := (m_klog m)\<lparr>kl_errs := kl_errs (m_klog m) + 1\<rparr>\<rparr>
             in if kl_errs (m_klog m) \<ge> kmsgMaxErrors
                then (setNotice e (en_err e (''kernel log: '' @ x @ '' '' @ EMDASH @ '' stopped following it''))
                        (m\<lparr>m_kmsg := False\<rparr>), [CloseKmsg])
                else (m, []))"

section \<open>The tick\<close>

definition delivered :: "env \<Rightarrow> alertEntry list \<Rightarrow> Model \<Rightarrow> Model \<times> act list" where
  "delivered e events m =
     (if events = [] then (m, [])
      else
        let bell = (if AlertBell (m_cfg m) \<and> \<not> ae_muted (m_alerts m) \<and>
                list_ex (\<lambda>ev. \<not> en_cleared ev \<and> en_sev ev = SevCrit) events then [Bell] else []);
            (m, logged) = (if AlertLogFile (m_cfg m) \<noteq> []
              then (case en_append e of
                      Some x \<Rightarrow> setNotice e (en_err e (''alert log: '' @ x)) m
                    | None \<Rightarrow> m, [LogAppend events])
              else (m, []));
            dropped = length (filter (\<lambda>ev. \<not> en_hook e ev) events);
            (m, hooked) = (if AlertCmd (m_cfg m) \<noteq> []
              then (if dropped > 0
                    then setNotice e (en_err e (''alert_cmd is falling behind: '' @ nat_digits dropped @ '' event(s) dropped'')) m
                    else m, map Hook events)
              else (m, []))
        in (m, bell @ logged @ hooked))"

text \<open>The rounds a tick asks for, in order; \<open>None\<close> is a disabled fetch.\<close>

definition paused_rounds :: "Model \<Rightarrow> (fetchKind \<times> Cmd option) list" where
  "paused_rounds m =
     [(fetchMem, Some CmdOOMCount)] @ (if m_kmsg m then [(fetchKmsg, Some CmdKmsg)] else [])"

definition due_rounds :: "Model \<Rightarrow> (fetchKind \<times> Cmd option) list" where
  "due_rounds m =
     [(fetchCPU, Some CmdCPU), (fetchMem, Some CmdMem), (fetchPSI, Some CmdPSI), (fetchNet, Some CmdNet)] @
     (if m_kmsg m then [(fetchKmsg, Some CmdKmsg)] else []) @
     (if m_tickCount m smod m_procEvery m = 0 then
        [(fetchProcs, Some CmdProcs), (fetchLatency, if m_latSampler m then Some CmdLatency else None),
         (fetchConns, Some CmdConns)] @
        (case m_detail m of
           Some st \<Rightarrow> if dt_gone st then [] else [(fetchDetail, Some (CmdDetail (dt_pid st)))]
         | None \<Rightarrow> [])
      else []) @
     (if m_tickCount m smod m_slowEvery m = 0 then
        [(fetchDisk, Some CmdDisk), (fetchPower, Some CmdPower), (fetchSys, Some CmdSys), (fetchHealth, Some CmdHealth)]
      else [])"

definition queue_all :: "time \<Rightarrow> (fetchKind \<times> Cmd option) list \<Rightarrow> guards \<times> Cmd list \<Rightarrow> guards \<times> Cmd list" where
  "queue_all now rounds = fold (\<lambda>(k, c). queue now k c) rounds"

text \<open>The alerts of a tick; they run whether or not sampling is paused.\<close>

definition alert_round :: "env \<Rightarrow> time \<Rightarrow> Model \<Rightarrow> Model \<times> act list" where
  "alert_round e t m =
     (if AlertsEnabled (m_cfg m)
      then
        let (alerts, events) = update (m_alerts m) (currentAlertConds (en_arch e) (en_hms e) (en_now e) m) t
              (en_conds e) (en_active e)
        in delivered e events (m\<lparr>m_alerts := alerts\<rparr>)
      else (m, []))"

definition on_tick :: "env \<Rightarrow> time \<Rightarrow> Model \<Rightarrow> Model \<times> act list" where
  "on_tick e t m =
     (let m = m\<lparr>m_now := t\<rparr>;
          m = (if m_paused m then m else m\<lparr>m_tickCount := m_tickCount m + 1\<rparr>);
          rounds = (if m_paused m then paused_rounds m else due_rounds m);
          (g, cmds) = queue_all (en_now e) rounds (m_guards m, [CmdTick]);
          (m, acts) = alert_round e t (m\<lparr>m_guards := g\<rparr>)
      in (recordTrend (en_trends e) (en_now e) t m, acts @ map Dispatch cmds))"

section \<open>Keys\<close>

text \<open>A command a key asked for, when the guard lets it through.\<close>

definition ask :: "fetchKind \<Rightarrow> Cmd \<Rightarrow> Model \<Rightarrow> Model \<times> act list" where
  "ask k c m =
     (let (g, r) = queueUser k (Some c) (m_guards m)
      in (m\<lparr>m_guards := g\<rparr>, case r of Some c \<Rightarrow> [Dispatch c] | None \<Rightarrow> []))"

definition detail_notice :: "string \<Rightarrow> Model \<Rightarrow> Model" where
  "detail_notice s m = m\<lparr>m_detail := map_option (\<lambda>st. st\<lparr>dt_notice := s\<rparr>) (m_detail m)\<rparr>"

definition on_kill_key :: "env \<Rightarrow> killPrompt \<Rightarrow> string \<Rightarrow> Model \<Rightarrow> Model \<times> act list" where
  "on_kill_key e kp key m =
     (let m = m\<lparr>m_procsKill := None\<rparr>
      in if key \<in> {''y'', ''Y'', ''enter''} then
           let text = (case en_kill e (kp_pid kp) (kp_start kp) (kp_hard kp) of
                   None \<Rightarrow> en_ok e (''sent '' @ kill_signal kp @ '' to '' @ kp_name kp @ '' ('' @ itoa (kp_pid kp) @ '')'')
                 | Some x \<Rightarrow> en_err e (kill_signal kp @ '' '' @ itoa (kp_pid kp) @ '' failed: '' @ x));
               (m, acts) = ask fetchProcs CmdProcs (setProcsNotice e text m);
               m = detail_notice text m
           in (m, Kill (kp_pid kp) (kp_start kp) (kp_hard kp) # acts @
                 (case m_detail m of Some st \<Rightarrow> [Dispatch (CmdDetail (dt_pid st))] | None \<Rightarrow> []))
         else (m, []))"

definition snapshot :: "env \<Rightarrow> Model \<Rightarrow> Model \<times> act list" where
  "snapshot e m =
     (case en_export e of
        Inl x \<Rightarrow> setNotice e (en_err e (''snapshot failed: '' @ x)) m
      | Inr path \<Rightarrow> setNotice e (en_ok e (''snapshot written: '' @ path)) m, [Export])"

definition on_zoom_key :: "env \<Rightarrow> string \<Rightarrow> Model \<Rightarrow> Model \<times> act list" where
  "on_zoom_key e key m =
     (if key = ''ctrl+c'' then (m, [Dispatch CmdQuit])
      else if key \<in> {''z'', ''esc'', ''q'', ''enter''} then (m\<lparr>m_zoom := None\<rparr>, [])
      else if key \<in> {''right'', ''down'', ''j'', ''tab''} then (cycleZoom 1 m, [])
      else if key \<in> {''left'', ''up'', ''k'', ''shift+tab''} then (cycleZoom (-1) m, [])
      else if key = '' '' then (m\<lparr>m_paused := \<not> m_paused m\<rparr>, [])
      else if key = ''w'' then snapshot e m
      else (m, []))"

definition reniceDetail :: "env \<Rightarrow> procDetailState \<Rightarrow> int \<Rightarrow> Model \<Rightarrow> Model \<times> act list" where
  "reniceDetail e st delta m =
     (case dt_d st of
        None \<Rightarrow> (m, [])
      | Some d \<Rightarrow>
          let target = ClampNice (pd_Nice d + delta)
          in case en_nice e (dt_pid st) (dt_start st) target of
               Some x \<Rightarrow> (detail_notice (en_err e (''renice '' @ itoa target @ '' failed: '' @ x @
                   '' (negative values need root)'')) m, [Renice (dt_pid st) (dt_start st) target])
             | None \<Rightarrow> (detail_notice (en_ok e (''nice '' @ ARROW @ '' '' @ itoa target)) m,
                 [Renice (dt_pid st) (dt_start st) target, Dispatch (CmdDetail (dt_pid st))]))"

definition detail_signal :: "string \<Rightarrow> act \<Rightarrow> procDetailState \<Rightarrow> Model \<Rightarrow> Model \<times> act list" where
  "detail_signal text a st m = (detail_notice text m, [a, Dispatch (CmdDetail (dt_pid st))])"

definition ask_kill :: "int \<Rightarrow> 64 word \<Rightarrow> string \<Rightarrow> bool \<Rightarrow> Model \<Rightarrow> Model" where
  "ask_kill pid start name hard m =
     m\<lparr>m_procsKill := Some \<lparr>kp_pid = pid, kp_start = start, kp_name = name, kp_hard = hard\<rparr>\<rparr>"

definition updateProcDetail :: "env \<Rightarrow> procDetailState \<Rightarrow> string \<Rightarrow> Model \<Rightarrow> Model \<times> act list" where
  "updateProcDetail e st key m =
     (if key \<in> {''esc'', ''q'', ''enter''} then (m\<lparr>m_detail := None\<rparr>, [])
      else if key = ''ctrl+c'' then (m, [Dispatch CmdQuit])
      else if dt_gone st then (m, [])
      else if key \<in> {''+'', ''=''} then reniceDetail e st 1 m
      else if key \<in> {''-'', ''_''} then reniceDetail e st (-1) m
      else if key = ''p'' then
        (case en_stop e (dt_pid st) (dt_start st) of
           Some x \<Rightarrow> detail_signal (en_err e (''SIGSTOP failed: '' @ x)) (Stop (dt_pid st) (dt_start st)) st m
         | None \<Rightarrow> detail_signal (en_warn e (''sent SIGSTOP to '' @ itoa (dt_pid st))) (Stop (dt_pid st) (dt_start st)) st m)
      else if key = ''c'' then
        (case en_cont e (dt_pid st) (dt_start st) of
           Some x \<Rightarrow> detail_signal (en_err e (''SIGCONT failed: '' @ x)) (Resume (dt_pid st) (dt_start st)) st m
         | None \<Rightarrow> detail_signal (en_ok e (''sent SIGCONT to '' @ itoa (dt_pid st))) (Resume (dt_pid st) (dt_start st)) st m)
      else if key = ''k'' then (ask_kill (dt_pid st) (dt_start st) (displayName st) False m, [])
      else if key = ''K'' then (ask_kill (dt_pid st) (dt_start st) (displayName st) True m, [])
      else (m, []))"

definition openProcDetail :: "Model \<Rightarrow> Model \<times> act list" where
  "openProcDetail m =
     (case selectedProc (m_pp m) of
        None \<Rightarrow> (m, [])
      | Some p \<Rightarrow>
          (m\<lparr>m_detail := Some \<lparr>dt_pid = pi_PID p, dt_start = pi_StartTime p, dt_gone = False, dt_name = pi_Name p,
              dt_d = None, dt_notice = []\<rparr>\<rparr>, [Dispatch (CmdDetail (pi_PID p))]))"

definition kill_selected :: "bool \<Rightarrow> Model \<Rightarrow> Model" where
  "kill_selected hard m =
     (case selectedProc (m_pp m) of
        None \<Rightarrow> m
      | Some p \<Rightarrow> ask_kill (pi_PID p) (pi_StartTime p) (pi_Name p) hard m)"

text \<open>Every policy in turn, up to the first that refuses.\<close>

fun set_governors :: "env \<Rightarrow> string \<Rightarrow> PolicyFreq list \<Rightarrow> string option \<times> act list" where
  "set_governors e gov [] = (None, [])"
| "set_governors e gov (f # fs) =
     (case en_setGov e (pf_Policy f) gov of
        Some x \<Rightarrow> (Some x, [SetGov (pf_Policy f) gov])
      | None \<Rightarrow> (let (r, acts) = set_governors e gov fs in (r, SetGov (pf_Policy f) gov # acts)))"

definition cycleGovernor :: "env \<Rightarrow> Model \<Rightarrow> Model \<times> act list" where
  "cycleGovernor e m =
     (case cs_Freqs (m_cpuSnap m) of
        [] \<Rightarrow> (setNotice e (en_subtle e ''no cpufreq policies detected'') m, [])
      | first # _ \<Rightarrow>
          if length (pf_Available first) < 2
          then (setNotice e (en_subtle e ''no alternative governors available'') m, [])
          else
            let gov = NextGovernor (pf_Governor first) (pf_Available first);
                (r, acts) = set_governors e gov (cs_Freqs (m_cpuSnap m))
            in case r of
                 Some x \<Rightarrow> (setNotice e (en_err e (''governor: '' @ x)) m, acts)
               | None \<Rightarrow>
                   ((setNotice e (en_ok e (''governor '' @ ARROW @ '' '' @ gov)) m)
                      \<lparr>m_cpuSnap := (m_cpuSnap m)\<lparr>cs_Freqs := map (\<lambda>f. f\<lparr>pf_Governor := gov\<rparr>) (cs_Freqs (m_cpuSnap m))\<rparr>\<rparr>,
                    acts))"

definition backlight_target :: "int \<Rightarrow> int \<Rightarrow> int" where
  "backlight_target percent delta =
     (let target = percent + delta; target = (if target < 0 then 0 else target)
      in if target > 100 then 100 else target)"

definition adjustBacklight :: "env \<Rightarrow> int \<Rightarrow> Model \<Rightarrow> Model \<times> act list" where
  "adjustBacklight e delta m =
     (if \<not> bl_Present (m_backlight m)
      then (setSysNotice e (en_subtle e ''no backlight device detected'') m, [])
      else
        let target = backlight_target (bl_Percent (m_backlight m)) delta;
            a = SetBl (bl_Device (m_backlight m)) target
        in case en_setBl e (bl_Device (m_backlight m)) target of
             Some x \<Rightarrow> (setSysNotice e (en_err e (''brightness: '' @ x)) m, [a])
           | None \<Rightarrow>
               let m = m\<lparr>m_backlight := (m_backlight m)\<lparr>bl_Percent := target\<rparr>\<rparr>;
                   m = setSysNotice e (en_ok e (''brightness '' @ ARROW @ '' '' @ itoa target @ ''%'')) m;
                   (m, acts) = ask fetchSys CmdSys m
               in (m, a # acts))"

text \<open>The global key map, by tab; \<open>None\<close> is a key that falls out of it.\<close>

definition tab_of_digit :: "string \<Rightarrow> tab option" where
  "tab_of_digit key =
     map_of [(''1'', tabCPU), (''2'', tabMem), (''3'', tabProc), (''4'', tabDisk), (''5'', tabNet), (''6'', tabPower),
       (''7'', tabGPU), (''8'', tabAlerts)] key"

definition cursor_of :: "string \<Rightarrow> cursor_key option" where
  "cursor_of key =
     map_of [(''up'', KUp), (''down'', KDown), (''pgup'', KPgUp), (''pgdown'', KPgDown), (''home'', KHome), (''end'', KEnd)] key"

definition proc_key :: "env \<Rightarrow> string \<Rightarrow> Model \<Rightarrow> (Model \<times> act list) option" where
  "proc_key e key m =
     (case cursor_of key of
        Some k \<Rightarrow> Some (m\<lparr>m_pp := cursor_move (en_setY e) (en_keepY e) k (m_pp m)\<rparr>, [])
      | None \<Rightarrow>
          if key = ''s'' then
            Some (restart_procs e (\<lambda>p. p\<lparr>pp_sort := next_sort (pp_sort p)\<rparr>) (m\<lparr>m_procsNotice := noNotice\<rparr>), [])
          else if key = ''t'' then
            Some (restart_procs e (\<lambda>p. p\<lparr>pp_tree := \<not> pp_tree p\<rparr>) (m\<lparr>m_procsNotice := noNotice\<rparr>), [])
          else if key = ''K'' then Some (kill_selected True m, [])
          else if key = ''k'' then Some (kill_selected False m, [])
          else if key = ''enter'' then Some (openProcDetail m)
          else if key = ''/'' then
            Some (m\<lparr>m_procsSearching := True, m_procsSearch := pp_query (m_pp m)\<rparr>, [])
          else if key = ''ctrl+u'' then
            Some (restart_procs e (\<lambda>p. p\<lparr>pp_query := []\<rparr>) (m\<lparr>m_procsSearch := [], m_procsNotice := noNotice\<rparr>), [])
          else None)"

definition net_key :: "string \<Rightarrow> Model \<Rightarrow> (Model \<times> act list) option" where
  "net_key key m =
     (if key = ''f'' then Some (m\<lparr>m_connFilter := next_conn (m_connFilter m)\<rparr>, [])
      else if key = ''/'' then Some (m\<lparr>m_netSearching := True, m_netSearch := m_netQuery m\<rparr>, [])
      else if key = ''j'' then Some (moveIfaceSel 1 m, [])
      else if key = ''k'' then Some (moveIfaceSel (-1) m, [])
      else if key = ''ctrl+u'' then Some (m\<lparr>m_netQuery := [], m_netSearch := []\<rparr>, [])
      else None)"

definition alerts_key :: "env \<Rightarrow> string \<Rightarrow> Model \<Rightarrow> (Model \<times> act list) option" where
  "alerts_key e key m =
     (if key = ''m'' then
        let muted = \<not> ae_muted (m_alerts m); m = m\<lparr>m_alerts := (m_alerts m)\<lparr>ae_muted := muted\<rparr>\<rparr>
        in Some (setNotice e (if muted then en_subtle e ''alert banner muted'' else en_ok e ''alert banner unmuted'') m, [])
      else if key = ''c'' then
        Some (setNotice e (en_subtle e ''alert log cleared'') (m\<lparr>m_alerts := clearLog (m_alerts m)\<rparr>), [])
      else None)"

definition tab_key :: "env \<Rightarrow> string \<Rightarrow> Model \<Rightarrow> (Model \<times> act list) option" where
  "tab_key e key m =
     (case m_activeTab m of
        tabProc \<Rightarrow> proc_key e key m
      | tabNet \<Rightarrow> net_key key m
      | tabAlerts \<Rightarrow> alerts_key e key m
      | tabGPU \<Rightarrow>
          if key \<in> {''+'', ''=''} then Some (adjustBacklight e (BacklightStep (m_cfg m)) m)
          else if key \<in> {''-'', ''_''} then Some (adjustBacklight e (- BacklightStep (m_cfg m)) m)
          else None
      | tabCPU \<Rightarrow> if key = ''g'' then Some (cycleGovernor e m) else None
      | _ \<Rightarrow> None)"

definition global_key :: "env \<Rightarrow> string \<Rightarrow> Model \<Rightarrow> (Model \<times> act list) option" where
  "global_key e key m =
     (if key = ''ctrl+c'' then Some (m, [Dispatch CmdQuit])
      else if key = ''?'' then Some (m\<lparr>m_showHelp := True\<rparr>, [])
      else if key = '' '' then
        let m = m\<lparr>m_paused := \<not> m_paused m\<rparr>
        in Some (setNotice e (if m_paused m then en_warn e ''sampling paused (space to resume)''
                   else en_ok e ''sampling resumed'') m, [])
      else if key = ''z'' then Some (toggleZoom (en_now e) (en_subtle e) m, [])
      else if key = ''Z'' then
        Some (setNotice e (en_ok e ''session peaks reset'')
          (m\<lparr>m_peaks := newSessionPeaks, m_trends := reset (m_trends m), m_peaksReset := en_now e\<rparr>), [])
      else if key \<in> {''tab'', ''right''} then Some (m\<lparr>m_activeTab := step_tab 1 (m_activeTab m)\<rparr>, [])
      else if key \<in> {''shift+tab'', ''left''} then Some (m\<lparr>m_activeTab := step_tab 7 (m_activeTab m)\<rparr>, [])
      else case tab_of_digit key of
        Some t \<Rightarrow> Some (m\<lparr>m_activeTab := t\<rparr>, [])
      | None \<Rightarrow> if key = ''w'' then Some (snapshot e m) else tab_key e key m)"

text \<open>A focused search box; its widget has seen the key already.\<close>

definition proc_search_key :: "env \<Rightarrow> string \<Rightarrow> Model \<Rightarrow> Model" where
  "proc_search_key e key m =
     (let m = m\<lparr>m_procsSearch := en_input e (m_procsSearch m) key\<rparr>
      in if key = ''enter'' then
           restart_procs e (\<lambda>p. p\<lparr>pp_query := trimSpace (m_procsSearch m)\<rparr>) (m\<lparr>m_procsSearching := False\<rparr>)
         else if key = ''esc'' then m\<lparr>m_procsSearching := False\<rparr>
         else if key = ''ctrl+u'' then m\<lparr>m_procsSearch := []\<rparr>
         else m)"

definition net_search_key :: "env \<Rightarrow> string \<Rightarrow> Model \<Rightarrow> Model" where
  "net_search_key e key m =
     (let m = m\<lparr>m_netSearch := en_input e (m_netSearch m) key\<rparr>
      in if key = ''enter'' then m\<lparr>m_netQuery := trimSpace (m_netSearch m), m_netSearching := False\<rparr>
         else if key = ''esc'' then m\<lparr>m_netSearching := False\<rparr>
         else if key = ''ctrl+u'' then m\<lparr>m_netSearch := []\<rparr>
         else m)"

definition focus_key :: "env \<Rightarrow> string \<Rightarrow> Model \<Rightarrow> Model" where
  "focus_key e key m =
     (if m_activeTab m = tabProc \<and> m_procsSearching m then proc_search_key e key m
      else if m_activeTab m = tabNet \<and> m_netSearching m then net_search_key e key m
      else m)"

definition on_key :: "env \<Rightarrow> string \<Rightarrow> Model \<Rightarrow> Model \<times> act list" where
  "on_key e key m =
     (case (if m_activeTab m = tabProc then m_procsKill m else None) of
        Some kp \<Rightarrow> on_kill_key e kp key m
      | None \<Rightarrow>
     (if m_showHelp m then
        (if key = ''ctrl+c'' then (m, [Dispatch CmdQuit])
         else if key \<in> {''?'', ''esc'', ''q'', ''enter''} then (m\<lparr>m_showHelp := False\<rparr>, [])
         else (m, []))
      else if m_zoom m \<noteq> None then on_zoom_key e key m
      else
     (case (if m_activeTab m = tabProc \<and> \<not> m_procsSearching m then m_detail m else None) of
        Some st \<Rightarrow> updateProcDetail e st key m
      | None \<Rightarrow>
          if m_procsSearching m \<or> m_netSearching m then
            (if key = ''ctrl+c'' then (m, [Dispatch CmdQuit]) else (focus_key e key m, []))
          else
            (case global_key e key m of Some r \<Rightarrow> r | None \<Rightarrow> (focus_key e key m, [])))))"

section \<open>The reducer\<close>

fun Update :: "env \<Rightarrow> Msg \<Rightarrow> Model \<Rightarrow> Model \<times> act list" where
  "Update e (WindowSizeMsg w h) m = (on_resize e w h m, [])"
| "Update e (TickMsg t) m = on_tick e t m"
| "Update e (CpuMsg s) m = (on_cpu s m, [])"
| "Update e (MemMsg s) m = (on_mem e s m, [])"
| "Update e (PowerMsg s) m = (on_power s m, [])"
| "Update e (PsiMsg s) m = ((landed fetchPSI m)\<lparr>m_psi := s\<rparr>, [])"
| "Update e (LatencyMsg rs) m = (on_latency rs m, [])"
| "Update e (DetailMsg pid r) m = (on_detail e pid r m, [])"
| "Update e (ProcMsg err ps) m = (on_procs e err ps m, [])"
| "Update e (DiskMsg ds ios) m = (on_disks ds ios m, [])"
| "Update e (NetMsg s) m = (on_net s m, [])"
| "Update e (ConnMsg cs) m = ((landed fetchConns m)\<lparr>m_conns := cs\<rparr>, [])"
| "Update e (SysMsg g b iw) m = (on_sys g b iw m, [])"
| "Update e (HealthMsg st mo) m = (on_health st mo m, [])"
| "Update e (KmsgMsg evs err) m = handleKmsg e evs err m"
| "Update e (ErrorNoticeMsg x) m = (setNotice e (en_err e x) m, [])"
| "Update e (OomCountMsg n ok when) m =
     (let m = landed fetchMem m
      in if ok then m\<lparr>m_oom := Oom.observe n when (eventWindow (en_arch e) (m_cfg m)) (m_oom m)\<rparr> else m, [])"
| "Update e (ErrMsg k x) m = ((landed k m)\<lparr>m_err := Some x\<rparr>, [])"
| "Update e (KeyMsg key) m = on_key e key m"
| "Update e (WheelMsg y) m =
     (if m_activeTab m = tabProc \<and> \<not> m_procsSearching m then m\<lparr>m_pp := (m_pp m)\<lparr>pp_yoff := y\<rparr>\<rparr> else m, [])"

end
