(* ===== verification/Screen_Runs.thy ===== *)
theory Screen_Runs
  imports Screen
begin

text \<open>
  Runs of the reducer: which commands are outstanding, what a kill is preceded by, what holds of the
  screen after any sequence of messages.
\<close>

section \<open>Outstanding fetches\<close>

text \<open>The guard a command runs under, and the guard a message lowers.\<close>

definition kind_of :: "Cmd \<Rightarrow> fetchKind option" where
  "kind_of c =
     (case c of CmdCPU \<Rightarrow> Some fetchCPU | CmdMem \<Rightarrow> Some fetchMem | CmdOOMCount \<Rightarrow> Some fetchMem
      | CmdPSI \<Rightarrow> Some fetchPSI | CmdNet \<Rightarrow> Some fetchNet | CmdKmsg \<Rightarrow> Some fetchKmsg | CmdProcs \<Rightarrow> Some fetchProcs
      | CmdLatency \<Rightarrow> Some fetchLatency | CmdConns \<Rightarrow> Some fetchConns | CmdDetail _ \<Rightarrow> Some fetchDetail
      | CmdDisk \<Rightarrow> Some fetchDisk | CmdPower \<Rightarrow> Some fetchPower | CmdSys \<Rightarrow> Some fetchSys | CmdHealth \<Rightarrow> Some fetchHealth
      | CmdTick \<Rightarrow> None | CmdQuit \<Rightarrow> None)"

definition reply_kind :: "Msg \<Rightarrow> fetchKind option" where
  "reply_kind msg =
     (case msg of CpuMsg _ \<Rightarrow> Some fetchCPU | MemMsg _ \<Rightarrow> Some fetchMem | OomCountMsg _ _ _ \<Rightarrow> Some fetchMem
      | PsiMsg _ \<Rightarrow> Some fetchPSI | NetMsg _ \<Rightarrow> Some fetchNet | KmsgMsg _ _ \<Rightarrow> Some fetchKmsg
      | ProcMsg _ _ \<Rightarrow> Some fetchProcs | LatencyMsg _ \<Rightarrow> Some fetchLatency | ConnMsg _ \<Rightarrow> Some fetchConns
      | DetailMsg _ _ \<Rightarrow> Some fetchDetail | DiskMsg _ _ \<Rightarrow> Some fetchDisk | PowerMsg _ \<Rightarrow> Some fetchPower
      | SysMsg _ _ _ \<Rightarrow> Some fetchSys | HealthMsg _ _ \<Rightarrow> Some fetchHealth | ErrMsg k _ \<Rightarrow> Some k | _ \<Rightarrow> None)"

definition cmds_of :: "act list \<Rightarrow> Cmd list" where
  "cmds_of acts = concat (map (\<lambda>a. case a of Dispatch c \<Rightarrow> [c] | _ \<Rightarrow> []) acts)"

definition outstanding :: "fetchKind \<Rightarrow> Cmd list \<Rightarrow> nat" where
  "outstanding k cs = length (filter (\<lambda>c. kind_of c = Some k) cs)"

text \<open>\<open>Init\<close> primes every reading once, past the guards.\<close>

definition Init :: "Model \<Rightarrow> Cmd list" where
  "Init m =
     [CmdCPU, CmdMem, CmdProcs, CmdDisk, CmdNet, CmdConns, CmdPower, CmdPSI, CmdSys, CmdHealth, CmdTick] @
     (if m_latSampler m then [CmdLatency] else [])"

text \<open>
  The screen with its outstanding commands: a message that answers none of them, or the reply to one
  of them, whichever the scheduler picks. A key may ask for the process detail past its guard; \<open>n\<close>
  counts the rounds that keys asked for this way.
\<close>

definition asked :: "Msg \<Rightarrow> act list \<Rightarrow> nat" where
  "asked msg acts = (case msg of KeyMsg _ \<Rightarrow> outstanding fetchDetail (cmds_of acts) | _ \<Rightarrow> 0)"

inductive sys :: "Model \<Rightarrow> Cmd list \<Rightarrow> Model \<Rightarrow> Cmd list \<Rightarrow> nat \<Rightarrow> bool" for m0 :: Model and out0 :: "Cmd list" where
  start: "sys m0 out0 m0 out0 0"
| event: "sys m0 out0 m out n \<Longrightarrow> reply_kind msg = None \<Longrightarrow> Update e msg m = (m', acts) \<Longrightarrow>
    sys m0 out0 m' (out @ cmds_of acts) (n + asked msg acts)"
| reply: "sys m0 out0 m (out1 @ c # out2) n \<Longrightarrow> kind_of c = Some k \<Longrightarrow> reply_kind msg = Some k \<Longrightarrow>
    Update e msg m = (m', acts) \<Longrightarrow> sys m0 out0 m' (out1 @ out2 @ cmds_of acts) n"

lemma cmds_of_simps [simp]:
  "cmds_of [] = []" "cmds_of (a # acts) = (case a of Dispatch c \<Rightarrow> [c] | _ \<Rightarrow> []) @ cmds_of acts"
  "cmds_of (acts @ acts') = cmds_of acts @ cmds_of acts'" "cmds_of (map Dispatch cs) = cs"
  by (simp_all add: cmds_of_def concat_map_singleton comp_def split: act.split)

lemma outstanding_simps [simp]:
  "outstanding k [] = 0" "outstanding k (c # cs) = (if kind_of c = Some k then 1 else 0) + outstanding k cs"
  "outstanding k (cs @ cs') = outstanding k cs + outstanding k cs'"
  by (simp_all add: outstanding_def)

text \<open>
  Guards and dispatches in step: every guarded dispatch raises its guard, and only when it is down. Beside
  them \<open>n\<close> rounds of the process detail may be dispatched past its guard.
\<close>

definition in_step :: "nat \<Rightarrow> guards \<Rightarrow> guards \<Rightarrow> Cmd list \<Rightarrow> bool" where
  "in_step n g g' cs \<longleftrightarrow>
     (\<forall>k. of_bool (gd_inFlight g' k) + (if k = fetchDetail then n else 0) = of_bool (gd_inFlight g k) + outstanding k cs)"

lemma in_step_refl [simp]: "in_step 0 g g []"
  by (simp add: in_step_def)

lemma in_step_trans: "in_step n g g' cs \<Longrightarrow> in_step n' g' g'' cs' \<Longrightarrow> in_step (n + n') g g'' (cs @ cs')"
  unfolding in_step_def outstanding_simps(3)
proof (rule allI)
  fix k
  assume "\<forall>k. of_bool (gd_inFlight g' k) + (if k = fetchDetail then n else 0) = of_bool (gd_inFlight g k) + outstanding k cs"
    "\<forall>k. of_bool (gd_inFlight g'' k) + (if k = fetchDetail then n' else 0) = of_bool (gd_inFlight g' k) + outstanding k cs'"
  from this [THEN spec [of _ k]]
  show "of_bool (gd_inFlight g'' k) + (if k = fetchDetail then n + n' else 0) =
      of_bool (gd_inFlight g k) + (outstanding k cs + outstanding k cs')"
    by (cases "k = fetchDetail") simp_all
qed

lemma in_step_trans0: "in_step 0 g g' cs \<Longrightarrow> in_step 0 g' g'' cs' \<Longrightarrow> in_step 0 g g'' (cs @ cs')"
  using in_step_trans [of 0 g g' cs 0] by simp

lemma outstanding_none: "\<forall>c \<in> set cs. kind_of c = None \<or> kind_of c = Some fetchDetail \<Longrightarrow> k \<noteq> fetchDetail \<Longrightarrow> outstanding k cs = 0"
  by (induction cs) auto

lemma in_step_unguarded: "\<forall>c \<in> set cs. kind_of c = None \<or> kind_of c = Some fetchDetail \<Longrightarrow>
    in_step (outstanding fetchDetail cs) g g cs"
  by (simp add: in_step_def outstanding_none)

lemma in_step_queue:
  assumes "\<forall>c. build = Some c \<longrightarrow> kind_of c = Some k" "queue now k build (g, cs) = (g', cs')"
  shows "\<exists>new. cs' = cs @ new \<and> in_step 0 g g' new"
  using assms by (auto simp: queue_def in_step_def split: if_splits option.splits)

lemma in_step_queue_all:
  assumes "\<forall>(k, b) \<in> set rounds. \<forall>c. b = Some c \<longrightarrow> kind_of c = Some k" "queue_all now rounds (g, cs) = (g', cs')"
  shows "\<exists>new. cs' = cs @ new \<and> in_step 0 g g' new"
  using assms
proof (induction rounds arbitrary: g cs)
  case Nil
  then show ?case by (simp add: queue_all_def)
next
  case (Cons r rounds)
  obtain k b where r: "r = (k, b)" by (cases r)
  obtain g1 cs1 where q: "queue now k b (g, cs) = (g1, cs1)" by fastforce
  then have "queue_all now rounds (g1, cs1) = (g', cs')" using Cons.prems(2) by (simp add: queue_all_def r)
  moreover have "\<forall>(k, b) \<in> set rounds. \<forall>c. b = Some c \<longrightarrow> kind_of c = Some k" using Cons.prems(1) by auto
  ultimately obtain new2 where n2: "cs' = cs1 @ new2" "in_step 0 g1 g' new2" using Cons.IH by blast
  obtain new1 where n1: "cs1 = cs @ new1" "in_step 0 g g1 new1"
    using in_step_queue [OF _ q] Cons.prems(1) by (auto simp: r)
  show ?case using n1 n2 in_step_trans0 by auto
qed

lemma rounds_kinds:
  "\<forall>(k, b) \<in> set (paused_rounds m). \<forall>c. b = Some c \<longrightarrow> kind_of c = Some k"
  "\<forall>(k, b) \<in> set (due_rounds m). \<forall>c. b = Some c \<longrightarrow> kind_of c = Some k"
  by (auto simp: paused_rounds_def due_rounds_def kind_of_def split: if_splits option.splits)

subsection \<open>Which handlers touch the guards\<close>

named_theorems guard_simps \<open>what a handler does to the guards\<close>

lemma small_guards [guard_simps]:
  "m_guards (setNotice e s m) = m_guards m" "m_guards (setProcsNotice e s m) = m_guards m"
  "m_guards (setSysNotice e s m) = m_guards m" "m_guards (landed k m) = fetch_done k (m_guards m)"
  "m_guards (follow_procs e m) = m_guards m" "m_guards (restart_procs e f m) = m_guards m"
  "m_guards (fit_net m) = m_guards m" "m_guards (detail_notice s m) = m_guards m"
  "m_guards (ask_kill pid st n h m) = m_guards m" "m_guards (recordTrend ks c t m) = m_guards m"
  "m_guards (evictIfaceHistory p m) = m_guards m"
  by (simp_all add: setNotice_def setProcsNotice_def setSysNotice_def landed_def follow_procs_def restart_procs_def
      fit_net_def detail_notice_def ask_kill_def recordTrend_def evictIfaceHistory_def Let_def)

lemma fold_guards:
  "(\<And>x m. m_guards (f x m) = m_guards m) \<Longrightarrow> m_guards (fold f xs m) = m_guards m"
  by (induction xs arbitrary: m) auto

lemma data_guards [guard_simps]:
  "m_guards (on_resize e w h m) = m_guards m"
  "m_guards (on_cpu s m) = fetch_done fetchCPU (m_guards m)"
  "m_guards (on_mem e ms m) = fetch_done fetchMem (m_guards m)"
  "m_guards (on_power p m) = fetch_done fetchPower (m_guards m)"
  "m_guards (on_latency rs m) = fetch_done fetchLatency (m_guards m)"
  "m_guards (on_detail e pid r m) = fetch_done fetchDetail (m_guards m)"
  "m_guards (on_procs e err ps m) = fetch_done fetchProcs (m_guards m)"
  "m_guards (on_disks ds ios m) = fetch_done fetchDisk (m_guards m)"
  "m_guards (on_net ns m) = fetch_done fetchNet (m_guards m)"
  "m_guards (on_sys g b iw m) = fetch_done fetchSys (m_guards m)"
  "m_guards (on_health st mo m) = fetch_done fetchHealth (m_guards m)"
  by (auto simp: on_resize_def on_cpu_def on_mem_def on_power_def on_latency_def on_detail_def on_procs_def
      on_disks_def on_net_def on_sys_def on_health_def Let_def guard_simps fold_guards on_ping_def on_iface_def
      split: option.split)

lemma kmsg_guards [guard_simps]:
  "m_guards (fst (handleKmsg e evs err m)) = fetch_done fetchKmsg (m_guards m)" "cmds_of (snd (handleKmsg e evs err m)) = []"
  by (auto simp: handleKmsg_def Let_def guard_simps split: option.split)

lemma delivered_guards [guard_simps]:
  "m_guards (fst (delivered e evs m)) = m_guards m" "cmds_of (snd (delivered e evs m)) = []"
  by (auto simp: delivered_def Let_def guard_simps cmds_of_def split: option.split)

lemma alert_round_guards [guard_simps]:
  "m_guards (fst (alert_round e t m)) = m_guards m" "cmds_of (snd (alert_round e t m)) = []"
  by (simp_all add: alert_round_def Let_def case_prod_beta guard_simps)

lemma tick_in_step: "in_step 0 (m_guards m) (m_guards (fst (on_tick e t m))) (cmds_of (snd (on_tick e t m)))"
proof -
  define m1 where "m1 = (let m = m\<lparr>m_now := t\<rparr> in if m_paused m then m else m\<lparr>m_tickCount := m_tickCount m + 1\<rparr>)"
  define rounds where "rounds = (if m_paused m1 then paused_rounds m1 else due_rounds m1)"
  obtain g cmds where q: "queue_all (en_now e) rounds (m_guards m1, [CmdTick]) = (g, cmds)" by fastforce
  have g1: "m_guards m1 = m_guards m" by (simp add: m1_def Let_def)
  have p: "m_paused (m\<lparr>m_now := t\<rparr>) = m_paused m1" by (simp add: m1_def Let_def)
  have "m_guards (fst (on_tick e t m)) = g \<and> cmds_of (snd (on_tick e t m)) = cmds"
    using q unfolding on_tick_def Let_def p [symmetric] rounds_def m1_def
    by (auto simp: guard_simps Let_def case_prod_beta)
  moreover have "\<forall>(k, b) \<in> set rounds. \<forall>c. b = Some c \<longrightarrow> kind_of c = Some k"
    unfolding rounds_def using rounds_kinds by (cases "m_paused m1") (simp_all only: if_True if_False)
  then obtain new where "cmds = [CmdTick] @ new" "in_step 0 (m_guards m1) g new"
    using in_step_queue_all [OF _ q] by blast
  ultimately show ?thesis by (simp add: g1 in_step_def kind_of_def)
qed

subsection \<open>What a key map owes\<close>

text \<open>
  The handlers of the keys are nested choices; a postcondition of them all is shown branch by branch.
  \<open>map_post\<close> is the same for a key map, where \<open>None\<close> is a key it does not have.
\<close>

definition map_post :: "('a \<Rightarrow> bool) \<Rightarrow> 'a option \<Rightarrow> bool" where
  "map_post P r \<longleftrightarrow> (case r of Some x \<Rightarrow> P x | None \<Rightarrow> True)"

lemma branch:
  "(c \<Longrightarrow> P a) \<Longrightarrow> (\<not> c \<Longrightarrow> P b) \<Longrightarrow> P (if c then a else b)"
  "(opt = None \<Longrightarrow> P a) \<Longrightarrow> (\<And>x. opt = Some x \<Longrightarrow> P (f x)) \<Longrightarrow> P (case opt of None \<Rightarrow> a | Some x \<Rightarrow> f x)"
  by (cases opt; simp)+

lemma map_branch:
  "(c \<Longrightarrow> map_post P a) \<Longrightarrow> (\<not> c \<Longrightarrow> map_post P b) \<Longrightarrow> map_post P (if c then a else b)"
  "(opt = None \<Longrightarrow> map_post P a) \<Longrightarrow> (\<And>x. opt = Some x \<Longrightarrow> map_post P (f x)) \<Longrightarrow>
    map_post P (case opt of None \<Rightarrow> a | Some x \<Rightarrow> f x)"
  "P x \<Longrightarrow> map_post P (Some x)"
  "map_post P None"
  by (cases opt; simp add: map_post_def)+

lemma tab_key_post:
  assumes "m_activeTab m = tabProc \<Longrightarrow> map_post P (proc_key e key m)"
    "m_activeTab m = tabNet \<Longrightarrow> map_post P (net_key key m)" "map_post P (alerts_key e key m)"
    "\<And>d. P (adjustBacklight e d m)" "P (cycleGovernor e m)"
  shows "map_post P (tab_key e key m)"
  using assms by (cases "m_activeTab m") (simp_all add: tab_key_def map_branch)

lemma on_key_post:
  assumes "\<And>kp. m_activeTab m = tabProc \<Longrightarrow> m_procsKill m = Some kp \<Longrightarrow> P (on_kill_key e kp key m)"
    "P (m, [Dispatch CmdQuit])" "P (m\<lparr>m_showHelp := False\<rparr>, [])" "P (m, [])" "P (on_zoom_key e key m)"
    "\<And>st. m_activeTab m = tabProc \<Longrightarrow> m_detail m = Some st \<Longrightarrow> P (updateProcDetail e st key m)"
    "P (focus_key e key m, [])"
    "m_activeTab m = tabProc \<longrightarrow> m_procsKill m = None \<Longrightarrow> \<not> m_procsSearching m \<Longrightarrow> \<not> m_netSearching m \<Longrightarrow>
      map_post P (global_key e key m)"
  shows "P (on_key e key m)"
proof -
  have g: "P (case global_key e key m of Some r \<Rightarrow> r | None \<Rightarrow> (focus_key e key m, []))"
    if "m_activeTab m = tabProc \<longrightarrow> m_procsKill m = None" "\<not> (m_procsSearching m \<or> m_netSearching m)"
    using assms(8) that assms(7) by (cases "global_key e key m") (simp_all add: map_post_def)
  show ?thesis
    unfolding on_key_def
    by (intro branch [where P = P] assms(1-7) g) (auto split: if_splits)
qed

subsection \<open>Keys\<close>

text \<open>A handler that keeps guards and dispatches in step.\<close>

definition steps_ok :: "Model \<Rightarrow> Model \<times> act list \<Rightarrow> bool" where
  "steps_ok m r \<longleftrightarrow>
     in_step (outstanding fetchDetail (cmds_of (snd r))) (m_guards m) (m_guards (fst r)) (cmds_of (snd r))"

lemma steps_same: "m_guards m' = m_guards m \<Longrightarrow> \<forall>c \<in> set (cmds_of acts). kind_of c = None \<or> kind_of c = Some fetchDetail \<Longrightarrow>
    steps_ok m (m', acts)"
  by (simp add: steps_ok_def in_step_unguarded)

lemma steps_ask: "kind_of c = Some k \<Longrightarrow> k \<noteq> fetchDetail \<Longrightarrow> m_guards m' = m_guards m \<Longrightarrow> steps_ok m (ask k c m')"
  by (auto simp: steps_ok_def ask_def queueUser_def in_step_def Let_def)

lemma steps_append:
  assumes "steps_ok m (m1, acts)" "m_guards m2 = m_guards m1"
    "\<forall>c \<in> set (cmds_of pre @ cmds_of post). kind_of c = None \<or> kind_of c = Some fetchDetail"
  shows "steps_ok m (m2, pre @ acts @ post)"
proof -
  have u: "in_step (outstanding fetchDetail (cmds_of l)) g g (cmds_of l)" if "l \<in> {pre, post}" for l g
    using assms(3) that by (auto intro!: in_step_unguarded)
  show ?thesis
    using in_step_trans [OF u in_step_trans [OF assms(1) [unfolded steps_ok_def] u], of pre post]
    by (simp add: steps_ok_def assms(2) add.assoc)
qed

lemma set_governors_cmds [simp]: "cmds_of (snd (set_governors e gov fs)) = []"
  by (induction fs) (auto split: option.split prod.split)

lemma cycleGovernor_ok: "steps_ok m (cycleGovernor e m)"
proof -
  have "cmds_of acts = []" if "set_governors e gov fs = (r, acts)" for gov fs r acts
    using set_governors_cmds [of e gov fs] that by simp
  then show ?thesis
    by (auto simp: cycleGovernor_def Let_def steps_ok_def guard_simps split: list.split option.split prod.split)
qed

lemma zoom_guards [guard_simps]: "m_guards (cycleZoom d m) = m_guards m" "m_guards (toggleZoom n s m) = m_guards m"
  by (auto simp: cycleZoom_def toggleZoom_def Let_def split: option.split)

lemma iface_guards [guard_simps]: "m_guards (moveIfaceSel d m) = m_guards m"
  by (simp add: moveIfaceSel_def Let_def guard_simps)

lemma search_guards [guard_simps]: "m_guards (focus_key e key m) = m_guards m"
  by (simp add: focus_key_def proc_search_key_def net_search_key_def Let_def guard_simps)

lemma kill_selected_guards [guard_simps]: "m_guards (kill_selected h m) = m_guards m"
  by (simp add: kill_selected_def guard_simps split: option.split)

lemma adjustBacklight_ok: "steps_ok m (adjustBacklight e d m)"
proof -
  let ?t = "backlight_target (bl_Percent (m_backlight m)) d"
  have a: "steps_ok m (fst r, SetBl dev t # snd r)" if "steps_ok m r" for dev t r
    using that by (simp add: steps_ok_def)
  show ?thesis
  proof (cases "en_setBl e (bl_Device (m_backlight m)) ?t")
    case None
    let ?m = "setSysNotice e (en_ok e (''brightness '' @ ARROW @ '' '' @ itoa ?t @ ''%''))
      (m\<lparr>m_backlight := (m_backlight m)\<lparr>bl_Percent := ?t\<rparr>\<rparr>)"
    have "steps_ok m (ask fetchSys CmdSys ?m)"
      by (rule steps_ask) (simp_all add: kind_of_def guard_simps)
    from a [OF this] None show ?thesis
      by (simp add: adjustBacklight_def Let_def steps_ok_def guard_simps case_prod_beta)
  qed (simp add: adjustBacklight_def Let_def steps_ok_def guard_simps)
qed

lemmas steps_intros = branch [where P = "steps_ok m" for m] steps_same

lemma detail_key_ok: "steps_ok m (updateProcDetail e st key m)"
  unfolding updateProcDetail_def reniceDetail_def detail_signal_def Let_def
  by (intro steps_intros) (simp_all add: guard_simps kind_of_def)

lemma openProcDetail_ok: "steps_ok m (openProcDetail m)"
  unfolding openProcDetail_def by (intro steps_intros) (simp_all add: kind_of_def)

lemma kill_key_ok: "steps_ok m (on_kill_key e kp key m)"
proof -
  have ask: "steps_ok m (ask fetchProcs CmdProcs m')" if "m_guards m' = m_guards m" for m'
    by (rule steps_ask) (simp_all add: kind_of_def that)
  have a: "steps_ok m (m2, Kill p s h # snd (ask fetchProcs CmdProcs m') @ post)"
    if "m_guards m' = m_guards m" "m_guards m2 = m_guards (fst (ask fetchProcs CmdProcs m'))"
      "post = [] \<or> (\<exists>pid. post = [Dispatch (CmdDetail pid)])" for m2 p s h post m'
  proof -
    have "steps_ok m (m2, [Kill p s h] @ snd (ask fetchProcs CmdProcs m') @ post)"
      by (rule steps_append [of m "fst (ask fetchProcs CmdProcs m')"])
        (use ask [OF that(1)] that(2,3) in \<open>auto simp: kind_of_def\<close>)
    then show ?thesis by simp
  qed
  show ?thesis
    unfolding on_kill_key_def Let_def case_prod_beta
    by (rule steps_intros(1), rule a, simp_all add: guard_simps steps_same split: option.split)
qed

lemma snapshot_ok: "steps_ok m (snapshot e m)"
  unfolding snapshot_def by (rule steps_same) (simp_all add: guard_simps split: sum.split)

lemma zoom_key_ok: "steps_ok m (on_zoom_key e key m)"
  unfolding on_zoom_key_def by (intro steps_intros snapshot_ok) (simp_all add: guard_simps kind_of_def)

lemmas key_map_intros = map_branch [where P = "steps_ok m" for m] adjustBacklight_ok cycleGovernor_ok openProcDetail_ok snapshot_ok steps_same

lemma proc_key_ok: "map_post (steps_ok m) (proc_key e key m)"
  unfolding proc_key_def by (intro key_map_intros) (simp_all add: guard_simps)

lemma net_key_ok: "map_post (steps_ok m) (net_key key m)"
  unfolding net_key_def by (intro key_map_intros) (simp_all add: guard_simps)

lemma alerts_key_ok: "map_post (steps_ok m) (alerts_key e key m)"
  unfolding alerts_key_def Let_def by (intro key_map_intros) (simp_all add: guard_simps)

lemma tab_key_ok: "map_post (steps_ok m) (tab_key e key m)"
  by (rule tab_key_post) (intro proc_key_ok net_key_ok alerts_key_ok adjustBacklight_ok cycleGovernor_ok)+

lemma global_key_ok: "map_post (steps_ok m) (global_key e key m)"
  unfolding global_key_def Let_def
  by (intro key_map_intros tab_key_ok) (simp_all add: guard_simps kind_of_def)

lemma key_ok: "steps_ok m (on_key e key m)"
  by (rule on_key_post)
    (intro kill_key_ok zoom_key_ok detail_key_ok global_key_ok steps_same; simp add: guard_simps kind_of_def)+

subsection \<open>Every message\<close>

lemma Update_in_step:
  assumes "Update e msg m = (m', acts)"
  shows "in_step (asked msg acts) (case reply_kind msg of Some k \<Rightarrow> fetch_done k (m_guards m) | None \<Rightarrow> m_guards m)
    (m_guards m') (cmds_of acts)"
proof -
  have fs: "m_guards m' = m_guards (fst (Update e msg m))" "cmds_of acts = cmds_of (snd (Update e msg m))"
      "asked msg acts = asked msg (snd (Update e msg m))"
    using assms by simp_all
  show ?thesis
    unfolding fs
  proof (cases msg)
    case (TickMsg t)
    then show "in_step (asked msg (snd (Update e msg m)))
        (case reply_kind msg of Some k \<Rightarrow> fetch_done k (m_guards m) | None \<Rightarrow> m_guards m)
        (m_guards (fst (Update e msg m))) (cmds_of (snd (Update e msg m)))"
      using tick_in_step by (simp add: reply_kind_def asked_def)
  next
    case (KeyMsg key)
    then show "in_step (asked msg (snd (Update e msg m)))
        (case reply_kind msg of Some k \<Rightarrow> fetch_done k (m_guards m) | None \<Rightarrow> m_guards m)
        (m_guards (fst (Update e msg m))) (cmds_of (snd (Update e msg m)))"
      using key_ok [of m e key] by (simp add: reply_kind_def steps_ok_def asked_def)
  qed (simp_all add: reply_kind_def asked_def guard_simps Let_def)
qed

text \<open>What the keys asked for past a guard: \<open>n\<close> of the detail's rounds, none of another kind.\<close>

definition past_guard :: "fetchKind \<Rightarrow> nat \<Rightarrow> nat" where
  "past_guard k n = (if k = fetchDetail then n else 0)"

lemma sys_bounds:
  assumes "sys m0 out0 m out n"
    "of_bool (gd_inFlight (m_guards m0) k) \<le> outstanding k out0"
    "outstanding k out0 \<le> of_bool (gd_inFlight (m_guards m0) k) + i"
  shows "of_bool (gd_inFlight (m_guards m) k) \<le> outstanding k out \<and>
    outstanding k out \<le> of_bool (gd_inFlight (m_guards m) k) + i + past_guard k n"
  using assms
proof (induction rule: sys.induct)
  case start
  then show ?case by simp
next
  case (event m out n msg e m' acts)
  then show ?case
    using Update_in_step [OF event(3)] by (auto simp: in_step_def past_guard_def dest!: spec [of _ k])
next
  case (reply m out1 c out2 n k' msg e m' acts)
  have "asked msg acts = 0" using reply(3) by (auto simp: asked_def reply_kind_def split: Msg.splits)
  then have s: "of_bool (gd_inFlight (m_guards m') k) =
      of_bool (gd_inFlight (fetch_done k' (m_guards m)) k) + outstanding k (cmds_of acts)"
    using Update_in_step [OF reply(4)] reply(3) by (simp add: in_step_def)
  show ?case
    using reply s by (cases "k' = k") (auto simp: fetch_done_def of_bool_def split: if_splits)
qed

text \<open>C2: Whatever the order of ticks, keys, other messages and replies from \<open>Init\<close> on, every kind of fetch
  has at most one round outstanding beside the one \<open>Init\<close> started past its guard, and beside the rounds of
  the process detail that a key asked for past its guard (opening the detail, renicing, a confirmed kill):
  the ticks never pile up rounds of a slow probe, the detail's included. The guard is up only while a round
  is outstanding: no failure or lost reply leaves it up with nothing to lower it.\<close>

theorem one_fetch_in_flight:
  assumes "sys m0 (Init m0) m out n" "m_guards m0 = newGuards"
  shows "of_bool (gd_inFlight (m_guards m) k) \<le> outstanding k out \<and>
    outstanding k out \<le> of_bool (gd_inFlight (m_guards m) k) + of_bool (k \<notin> {fetchKmsg, fetchDetail}) +
      past_guard k n"
  using assms by (intro sys_bounds) (auto simp: newGuards_def Init_def kind_of_def)

text \<open>Once a fetch's guard is in step with its rounds - the first time a reply comes with the guard
  down - it stays so: exactly one round is outstanding while the guard is up, and none while it is down.\<close>

theorem guard_settles:
  assumes "sys m0 out0 m out n" "k \<noteq> fetchDetail" "outstanding k out0 = of_bool (gd_inFlight (m_guards m0) k)"
  shows "outstanding k out = of_bool (gd_inFlight (m_guards m) k)"
  using sys_bounds [OF assms(1), of k 0] assms(2,3) by (simp add: past_guard_def)

subsection \<open>Two rounds of one fetch\<close>

lemma queue_keeps: "gd_inFlight g k \<Longrightarrow> gd_inFlight (fst (queue now k' b (g, cs))) k"
  by (auto simp: queue_def split: option.split)

lemma queue_all_keeps: "gd_inFlight g k \<Longrightarrow> gd_inFlight (fst (queue_all now rounds (g, cs))) k"
proof (induction rounds arbitrary: g cs)
  case Nil
  then show ?case by (simp add: queue_all_def)
next
  case (Cons r rounds)
  obtain k' b where r: "r = (k', b)" by (cases r)
  show ?case
    using Cons.IH [OF queue_keeps [OF Cons.prems, of now k' b cs], of "snd (queue now k' b (g, cs))"]
    by (simp add: queue_all_def r)
qed

lemma queue_all_first:
  assumes "(k, Some c) \<in> set rounds"
  shows "gd_inFlight (fst (queue_all now rounds (g, cs))) k"
  using assms
proof (induction rounds arbitrary: g cs)
  case (Cons r rounds)
  obtain k' b where r: "r = (k', b)" by (cases r)
  have step: "queue_all now (r # rounds) (g, cs) =
      queue_all now rounds (fst (queue now k' b (g, cs)), snd (queue now k' b (g, cs)))"
    by (simp add: queue_all_def r)
  show ?case
  proof (cases "(k, Some c) = r")
    case True
    then have "gd_inFlight (fst (queue now k' b (g, cs))) k" using r by (auto simp: queue_def)
    then show ?thesis unfolding step by (rule queue_all_keeps)
  next
    case False
    then have "(k, Some c) \<in> set rounds" using Cons.prems by simp
    then show ?thesis unfolding step by (rule Cons.IH)
  qed
qed simp

lemma tick_guards:
  assumes "\<not> m_paused m"
  shows "m_guards (fst (on_tick e t m)) =
    fst (queue_all (en_now e) (due_rounds (m\<lparr>m_now := t, m_tickCount := m_tickCount m + 1\<rparr>)) (m_guards m, [CmdTick]))"
  using assms by (simp add: on_tick_def Let_def case_prod_beta guard_simps)

lemma tick_raises:
  assumes "\<not> m_paused m" "k \<in> {fetchCPU, fetchMem, fetchPSI, fetchNet}"
  shows "gd_inFlight (m_guards (fst (on_tick e t m))) k"
proof -
  have "\<exists>c. (k, Some c) \<in> set (due_rounds (m\<lparr>m_now := t, m_tickCount := m_tickCount m + 1\<rparr>))"
    using assms(2) unfolding due_rounds_def by auto
  then show ?thesis using queue_all_first unfolding tick_guards [OF assms(1)] by blast
qed

lemma tick_second_round:
  assumes "\<not> m_paused m" "k \<in> {fetchCPU, fetchMem, fetchPSI, fetchNet}" "m_guards m = newGuards"
    "Update e (TickMsg t) m = (m', acts)"
  shows "outstanding k (Init m @ cmds_of acts) = 2"
proof -
  have "m' = fst (on_tick e t m)" "acts = snd (on_tick e t m)" using assms(4) by simp_all
  moreover have "k \<noteq> fetchDetail" using assms(2) by auto
  ultimately have "of_bool (gd_inFlight (m_guards m') k) = outstanding k (cmds_of acts)"
    using tick_in_step [of m e t] assms(3) by (simp add: in_step_def newGuards_def)
  moreover have "gd_inFlight (m_guards m') k" using tick_raises [OF assms(1,2)] \<open>m' = _\<close> by simp
  moreover have "outstanding k (Init m) = 1" using assms(2) by (auto simp: Init_def kind_of_def)
  ultimately show ?thesis by simp
qed

definition quiet_env :: env where
  "quiet_env =
     \<lparr>en_arch = AMD64, en_now = 0, en_low = (\<lambda>c. c), en_setY = (\<lambda>_ _ y. y), en_keepY = (\<lambda>_ _ y. y),
      en_hms = (\<lambda>_. ''12:00:00''), en_kill = (\<lambda>_ _ _. None), en_stop = (\<lambda>_ _. None), en_cont = (\<lambda>_ _. None),
      en_nice = (\<lambda>_ _ _. None), en_setGov = (\<lambda>_ _. None), en_setBl = (\<lambda>_ _. None), en_export = Inr ''out.json'',
      en_append = None, en_hook = (\<lambda>_. True), en_input = (\<lambda>s k. s @ k), en_conds = [], en_active = [],
      en_trends = [], en_ok = (\<lambda>s. s), en_warn = (\<lambda>s. s), en_err = (\<lambda>s. s), en_subtle = (\<lambda>s. s)\<rparr>"

definition fresh_model :: Model where
  "fresh_model = new_from 0 (\<lambda>s. s) Default"

lemma fresh_model_simps [simp]:
  "m_guards fresh_model = newGuards" "m_paused fresh_model = False" "m_procsKill fresh_model = None"
  by (simp_all add: fresh_model_def new_from_def)

definition ticked :: "Model \<times> act list" where
  "ticked = Update quiet_env (TickMsg 1) fresh_model"

lemma sys_ticked: "sys fresh_model out0 (fst ticked) (out0 @ cmds_of (snd ticked)) 0"
  using event [OF start, of "TickMsg 1" quiet_env fresh_model "fst ticked" "snd ticked" out0]
  by (simp add: reply_kind_def ticked_def asked_def del: Update.simps)

lemma ticked_guards: "k \<in> {fetchCPU, fetchMem, fetchPSI, fetchNet} \<Longrightarrow> gd_inFlight (m_guards (fst ticked)) k"
  unfolding ticked_def using tick_raises [of fresh_model] by simp

text \<open>The bound of two is reached: the first tick starts a second round of the CPU beside \<open>Init\<close>'s.\<close>

theorem one_fetch_in_flight_witness:
  "outstanding fetchCPU (Init fresh_model @ cmds_of (snd ticked)) = 2 \<and>
   outstanding fetchCPU (Init fresh_model @ cmds_of (snd ticked)) \<le>
     of_bool (gd_inFlight (m_guards (fst ticked)) fetchCPU) + 1 + past_guard fetchCPU 0 \<and>
   outstanding fetchDetail (Init fresh_model @ cmds_of (snd ticked)) \<le>
     of_bool (gd_inFlight (m_guards (fst ticked)) fetchDetail) + past_guard fetchDetail 0"
proof (intro conjI)
  show "outstanding fetchCPU (Init fresh_model @ cmds_of (snd ticked)) = 2"
    by (rule tick_second_round [of fresh_model fetchCPU quiet_env 1 "fst ticked"])
      (simp_all add: ticked_def del: Update.simps)
  show "outstanding fetchCPU (Init fresh_model @ cmds_of (snd ticked)) \<le>
     of_bool (gd_inFlight (m_guards (fst ticked)) fetchCPU) + 1 + past_guard fetchCPU 0"
    using one_fetch_in_flight [OF sys_ticked [of "Init fresh_model"], of fetchCPU] by simp
  show "outstanding fetchDetail (Init fresh_model @ cmds_of (snd ticked)) \<le>
     of_bool (gd_inFlight (m_guards (fst ticked)) fetchDetail) + past_guard fetchDetail 0"
    using one_fetch_in_flight [OF sys_ticked [of "Init fresh_model"], of fetchDetail] by simp
qed

theorem guard_settles_witness:
  "outstanding fetchCPU ([] @ cmds_of (snd ticked)) = 1"
  using guard_settles [OF sys_ticked [of "[]"], of fetchCPU] ticked_guards [of fetchCPU]
  by (simp add: newGuards_def)

end
