(* ===== verification/Screen_Safety.thy ===== *)
theory Screen_Safety
  imports Screen_Runs
begin

text \<open>
  What holds of every run of the screen: a signal is never sent without its prompt, and the invariant
  of the model's fields.
\<close>

section \<open>Runs\<close>

fun run :: "(env \<times> Msg) list \<Rightarrow> Model \<Rightarrow> Model" where
  "run [] m = m"
| "run ((e, msg) # steps) m = run steps (fst (Update e msg m))"

lemma run_append: "run (xs @ ys) m = run ys (run xs m)"
  by (induction xs arbitrary: m) (auto simp del: Update.simps)

section \<open>The kill prompt\<close>

text \<open>The process on screen: the selected row, or the open detail overlay while it has not gone.\<close>

definition on_screen :: "Model \<Rightarrow> int \<Rightarrow> 64 word \<Rightarrow> bool" where
  "on_screen m pid start \<longleftrightarrow>
     (case selectedProc (m_pp m) of Some p \<Rightarrow> pi_PID p = pid \<and> pi_StartTime p = start | None \<Rightarrow> False) \<or>
     (case m_detail m of Some st \<Rightarrow> \<not> dt_gone st \<and> dt_pid st = pid \<and> dt_start st = start | None \<Rightarrow> False)"

definition no_kill :: "act list \<Rightarrow> bool" where
  "no_kill acts = list_all (\<lambda>a. case a of Kill _ _ _ \<Rightarrow> False | _ \<Rightarrow> True) acts"

lemma no_kill_simps [simp]:
  "no_kill []" "no_kill (a # acts) \<longleftrightarrow> (case a of Kill _ _ _ \<Rightarrow> False | _ \<Rightarrow> True) \<and> no_kill acts"
  "no_kill (acts @ acts') \<longleftrightarrow> no_kill acts \<and> no_kill acts'" "no_kill (map Dispatch cs)" "no_kill (map Hook hs)"
  by (auto simp: no_kill_def list_all_iff)

named_theorems prompt_simps \<open>what a handler does to the prompt and the tab\<close>

abbreviation same_prompt :: "Model \<Rightarrow> Model \<Rightarrow> bool" where
  "same_prompt m' m \<equiv> m_procsKill m' = m_procsKill m \<and> m_activeTab m' = m_activeTab m"

lemma small_prompts [prompt_simps]:
  "same_prompt (setNotice e s m) m" "same_prompt (setProcsNotice e s m) m" "same_prompt (setSysNotice e s m) m"
  "same_prompt (landed k m) m" "same_prompt (follow_procs e m) m" "same_prompt (restart_procs e f m) m"
  "same_prompt (fit_net m) m" "same_prompt (detail_notice s m) m" "same_prompt (recordTrend ks c t m) m"
  "same_prompt (evictIfaceHistory p m) m" "same_prompt (fst (ask k cmd m)) m"
  by (simp_all add: setNotice_def setProcsNotice_def setSysNotice_def landed_def follow_procs_def restart_procs_def
      fit_net_def detail_notice_def recordTrend_def evictIfaceHistory_def ask_def case_prod_beta Let_def)

lemma fold_prompts:
  "(\<And>x m. same_prompt (f x m) m) \<Longrightarrow> same_prompt (fold f xs m) m"
  by (induction xs arbitrary: m) auto

lemma data_prompts [prompt_simps]:
  "same_prompt (on_resize e w h m) m" "same_prompt (on_cpu s m) m" "same_prompt (on_mem e ms m) m"
  "same_prompt (on_power p m) m" "same_prompt (on_latency rs m) m" "same_prompt (on_detail e pid r m) m"
  "same_prompt (on_procs e err ps m) m" "same_prompt (on_disks ds ios m) m" "same_prompt (on_net ns m) m"
  "same_prompt (on_sys g b iw m) m" "same_prompt (on_health st mo m) m"
  by (auto simp: on_resize_def on_cpu_def on_mem_def on_power_def on_latency_def on_detail_def on_procs_def
      on_disks_def on_net_def on_sys_def on_health_def Let_def prompt_simps fold_prompts on_ping_def on_iface_def
      split: option.split)

lemma round_prompts [prompt_simps]:
  "same_prompt (fst (handleKmsg e evs err m)) m" "no_kill (snd (handleKmsg e evs err m))"
  "same_prompt (fst (delivered e al m)) m" "no_kill (snd (delivered e al m))"
  by (auto simp: handleKmsg_def delivered_def Let_def prompt_simps split: option.split)

lemma alert_prompts [prompt_simps]:
  "same_prompt (fst (alert_round e t m)) m" "no_kill (snd (alert_round e t m))"
  by (simp_all add: alert_round_def Let_def case_prod_beta prompt_simps)

lemma tick_prompts [prompt_simps]: "same_prompt (fst (on_tick e t m)) m" "no_kill (snd (on_tick e t m))"
  by (simp_all add: on_tick_def Let_def case_prod_beta prompt_simps)

lemma other_message:
  assumes "\<forall>key. msg \<noteq> KeyMsg key"
  shows "same_prompt (fst (Update e msg m)) m" "no_kill (snd (Update e msg m))"
  using assms by (cases msg; simp add: prompt_simps Let_def)+

subsection \<open>Keys\<close>

text \<open>A key without a prompt sends no signal to kill, and raises a prompt only for what is on screen.\<close>

definition asks_for :: "Model \<Rightarrow> string \<Rightarrow> killPrompt \<Rightarrow> bool" where
  "asks_for m key kp \<longleftrightarrow> key = (if kp_hard kp then ''K'' else ''k'') \<and> on_screen m (kp_pid kp) (kp_start kp)"

definition quiet :: "Model \<Rightarrow> string \<Rightarrow> Model \<times> act list \<Rightarrow> bool" where
  "quiet m key r \<longleftrightarrow> no_kill (snd r) \<and>
     (m_procsKill (fst r) = m_procsKill m \<or>
      m_activeTab (fst r) = tabProc \<and> (\<exists>kp. m_procsKill (fst r) = Some kp \<and> asks_for m key kp))"

lemma quiet_same: "m_procsKill m' = m_procsKill m \<Longrightarrow> no_kill acts \<Longrightarrow> quiet m key (m', acts)"
  by (simp add: quiet_def)

lemmas quiet_intros = branch [where P = "quiet m key" for m key] quiet_same

lemma quiet_ask_kill:
  assumes "m_activeTab m = tabProc" "on_screen m pid start" "key = (if hard then ''K'' else ''k'')"
  shows "quiet m key (ask_kill pid start n hard m, [])"
  using assms by (simp add: quiet_def ask_kill_def asks_for_def)

lemma kill_selected_quiet:
  assumes "m_activeTab m = tabProc" "key = (if hard then ''K'' else ''k'')"
  shows "quiet m key (kill_selected hard m, [])"
proof (cases "selectedProc (m_pp m)")
  case None
  then show ?thesis by (simp add: kill_selected_def quiet_same)
next
  case (Some p)
  then have "on_screen m (pi_PID p) (pi_StartTime p)" by (simp add: on_screen_def)
  then show ?thesis unfolding kill_selected_def Some option.case by (rule quiet_ask_kill [OF assms(1) _ assms(2)])
qed

lemma set_governors_quiet [simp]: "no_kill (snd (set_governors e gov fs))"
  by (induction fs) (auto simp: case_prod_beta split: option.split)

lemma cycleGovernor_quiet: "quiet m key (cycleGovernor e m)"
proof (cases "cs_Freqs (m_cpuSnap m)")
  case Nil
  then show ?thesis by (simp add: cycleGovernor_def quiet_same prompt_simps)
next
  case (Cons f fs)
  then show ?thesis
    unfolding cycleGovernor_def Cons list.case Let_def case_prod_beta
    by (intro quiet_intros) (simp_all add: prompt_simps del: set_governors.simps)
qed

lemma adjustBacklight_quiet: "quiet m key (adjustBacklight e d m)"
proof -
  have [simp]: "no_kill (snd (ask k c m))" for k c m
    by (simp add: ask_def case_prod_beta Let_def split: option.split)
  show ?thesis
    unfolding adjustBacklight_def Let_def case_prod_beta
    by (intro quiet_intros) (simp_all add: prompt_simps)
qed

lemma detail_quiet:
  assumes "m_activeTab m = tabProc" "m_detail m = Some st"
  shows "quiet m key (updateProcDetail e st key m)"
proof -
  have r: "quiet m key (reniceDetail e st d m)" for d
    unfolding reniceDetail_def Let_def by (intro quiet_intros) (simp_all add: prompt_simps)
  have s: "quiet m key (detail_signal s a st m)" if "no_kill [a]" for s a
    unfolding detail_signal_def by (rule quiet_same) (use that in \<open>simp_all add: prompt_simps\<close>)
  have o: "on_screen m (dt_pid st) (dt_start st)" if "\<not> dt_gone st"
    using that assms(2) by (simp add: on_screen_def)
  show ?thesis
    unfolding updateProcDetail_def
    by (intro quiet_intros r s quiet_ask_kill assms o) simp_all
qed

lemma openProcDetail_quiet: "quiet m key (openProcDetail m)"
  unfolding openProcDetail_def by (intro quiet_intros) simp_all

lemma snapshot_quiet: "quiet m key (snapshot e m)"
  unfolding snapshot_def by (rule quiet_same) (simp_all add: prompt_simps split: sum.split)

lemma zoom_prompts [prompt_simps]: "same_prompt (cycleZoom d m) m" "same_prompt (toggleZoom n s m) m"
  by (auto simp: cycleZoom_def toggleZoom_def Let_def prompt_simps split: option.split)

lemma iface_prompts [prompt_simps]: "same_prompt (moveIfaceSel d m) m"
  by (simp add: moveIfaceSel_def Let_def prompt_simps)

lemma focus_prompts [prompt_simps]: "same_prompt (focus_key e key m) m"
  by (simp add: focus_key_def proc_search_key_def net_search_key_def Let_def prompt_simps)

lemma zoom_key_quiet: "quiet m key (on_zoom_key e key m)"
  unfolding on_zoom_key_def by (intro quiet_intros snapshot_quiet) (simp_all add: prompt_simps)

lemmas map_quiet_intros = map_branch [where P = "quiet m key" for m key]

lemmas key_quiet_intros = map_quiet_intros adjustBacklight_quiet cycleGovernor_quiet openProcDetail_quiet
  snapshot_quiet quiet_same

lemma proc_key_quiet: "m_activeTab m = tabProc \<Longrightarrow> map_post (quiet m key) (proc_key e key m)"
  unfolding proc_key_def
  by (intro map_quiet_intros openProcDetail_quiet; (rule kill_selected_quiet quiet_same)?)
    (simp_all add: prompt_simps)

lemma net_key_quiet: "map_post (quiet m key) (net_key key m)"
  unfolding net_key_def by (intro key_quiet_intros) (simp_all add: prompt_simps)

lemma alerts_key_quiet: "map_post (quiet m key) (alerts_key e key m)"
  unfolding alerts_key_def Let_def by (intro key_quiet_intros) (simp_all add: prompt_simps)

lemma tab_key_quiet: "map_post (quiet m key) (tab_key e key m)"
  by (rule tab_key_post) (intro proc_key_quiet net_key_quiet alerts_key_quiet adjustBacklight_quiet cycleGovernor_quiet; simp)+

lemma global_key_quiet: "map_post (quiet m key) (global_key e key m)"
  unfolding global_key_def Let_def
  by (intro key_quiet_intros tab_key_quiet) (simp_all add: prompt_simps)

lemma key_quiet:
  assumes "m_procsKill m = None"
  shows "quiet m key (on_key e key m)"
proof (rule on_key_post)
  show "quiet m key (on_kill_key e kp key m)" if "m_procsKill m = Some kp" for kp
    using that assms by simp
qed (auto intro: detail_quiet zoom_key_quiet global_key_quiet quiet_same simp: prompt_simps)

text \<open>With a prompt on the processes tab, any key settles it.\<close>

lemma key_prompted:
  assumes "m_procsKill m = Some kp" "m_activeTab m = tabProc"
  shows "m_procsKill (fst (on_key e key m)) = None \<and>
    (\<forall>p s h. Kill p s h \<in> set (snd (on_key e key m)) \<longrightarrow>
       key \<in> {''y'', ''Y'', ''enter''} \<and> p = kp_pid kp \<and> s = kp_start kp \<and> h = kp_hard kp)"
proof -
  have n: "Kill p s h \<notin> set (snd (ask k c m'))" for p s h k c m'
    by (simp add: ask_def case_prod_beta Let_def split: option.split)
  have "on_key e key m = on_kill_key e kp key m" using assms by (simp add: on_key_def)
  then show ?thesis
    by (auto simp: on_kill_key_def Let_def case_prod_beta prompt_simps n split: option.splits if_splits)
qed


subsection \<open>Where a kill comes from\<close>

definition keyless :: "(env \<times> Msg) list \<Rightarrow> bool" where
  "keyless = list_all (\<lambda>(_, msg). case msg of KeyMsg _ \<Rightarrow> False | _ \<Rightarrow> True)"

definition asked :: "(env \<times> Msg) list \<Rightarrow> Model \<Rightarrow> killPrompt \<Rightarrow> bool" where
  "asked steps m0 kp \<longleftrightarrow>
     (\<exists>pre e key post. steps = pre @ (e, KeyMsg key) # post \<and> keyless post \<and> asks_for (run pre m0) key kp)"

lemma asked_now: "asks_for (run steps m0) key kp \<Longrightarrow> asked (steps @ [(e, KeyMsg key)]) m0 kp"
  unfolding asked_def keyless_def by fastforce

lemma asked_before:
  assumes "asked steps m0 kp" "\<forall>key. msg \<noteq> KeyMsg key"
  shows "asked (steps @ [(e, msg)]) m0 kp"
proof -
  obtain pre e' key post where s: "steps = pre @ (e', KeyMsg key) # post" "keyless post" "asks_for (run pre m0) key kp"
    using assms(1) unfolding asked_def by blast
  then have "steps @ [(e, msg)] = pre @ (e', KeyMsg key) # (post @ [(e, msg)])" "keyless (post @ [(e, msg)])"
    using assms(2) by (simp_all add: keyless_def split: Msg.split)
  then show ?thesis using s(3) unfolding asked_def by blast
qed

lemma prompt_origin:
  assumes "m_procsKill m0 = None" "m_procsKill (run steps m0) = Some kp"
  shows "m_activeTab (run steps m0) = tabProc \<and> asked steps m0 kp"
  using assms(2)
proof (induction steps arbitrary: kp rule: rev_induct)
  case Nil
  then show ?case using assms(1) by simp
next
  case (snoc step steps)
  obtain e msg where st: "step = (e, msg)" by (cases step)
  let ?m = "run steps m0"
  have r: "run (steps @ [step]) m0 = fst (Update e msg ?m)" by (simp add: run_append st del: Update.simps)
  show ?case
  proof (cases "\<exists>key. msg = KeyMsg key")
    case False
    then have n: "\<forall>key. msg \<noteq> KeyMsg key" by simp
    then have p: "same_prompt (fst (Update e msg ?m)) ?m" by (rule other_message)
    then have "m_activeTab ?m = tabProc \<and> asked steps m0 kp" using snoc by (simp add: r del: Update.simps)
    then show ?thesis using p asked_before [OF _ n] unfolding r by (simp add: st del: Update.simps)
  next
    case True
    then obtain key where k: "msg = KeyMsg key" by blast
    have some: "m_procsKill (fst (on_key e key ?m)) = Some kp" using snoc.prems by (simp add: r k)
    have none: "m_procsKill ?m = None"
    proof (cases "m_procsKill ?m")
      case (Some kp')
      then have "m_activeTab ?m = tabProc" using snoc.IH by blast
      from key_prompted [OF Some this] some show ?thesis by simp
    qed
    then show ?thesis
      using key_quiet [OF none, of key e] some asked_now [of steps m0 key kp e] unfolding r by (auto simp: quiet_def k st)
  qed
qed

text \<open>C1: A kill is always confirmed. Whenever the screen sends SIGTERM or SIGKILL, the message it answers is
  a y, Y or enter, and the last key before it was the k (SIGTERM) or K (SIGKILL) that named that very
  process - PID and start time - while it was the selected row or the open detail overlay; any other key
  in between would have cancelled.\<close>

theorem kill_confirmed:
  assumes "m_procsKill m0 = None" "Kill pid start hard \<in> set (snd (Update e msg (run steps m0)))"
  shows "(\<exists>key. msg = KeyMsg key \<and> key \<in> {''y'', ''Y'', ''enter''}) \<and>
    (\<exists>pre e' post. steps = pre @ (e', KeyMsg (if hard then ''K'' else ''k'')) # post \<and> keyless post \<and>
       on_screen (run pre m0) pid start)"
proof -
  have k: "\<not> no_kill (snd (Update e msg (run steps m0)))"
    using assms(2) by (auto simp: no_kill_def list_all_iff intro!: bexI simp del: Update.simps)
  then obtain key where key: "msg = KeyMsg key" using other_message(2) [of msg e "run steps m0"] by blast
  have "m_procsKill (run steps m0) \<noteq> None" using key_quiet [of "run steps m0" key e] k by (auto simp: key quiet_def)
  then obtain kp where kp: "m_procsKill (run steps m0) = Some kp" by blast
  from prompt_origin [OF assms(1) kp] have tab: "m_activeTab (run steps m0) = tabProc" and "asked steps m0 kp" by auto
  moreover have "key \<in> {''y'', ''Y'', ''enter''}" "pid = kp_pid kp" "start = kp_start kp" "hard = kp_hard kp"
    using key_prompted [OF kp tab, of e key] assms(2) by (auto simp: key)
  ultimately show ?thesis unfolding asked_def asks_for_def key by blast
qed

text \<open>A screen with one process selected: k and then y kill it.\<close>

definition one_proc_model :: Model where
  "one_proc_model = fresh_model\<lparr>m_activeTab := tabProc,
     m_pp := newPane\<lparr>pp_procs := [example_proc 30 20 ''worker''], pp_view := [example_proc 30 20 ''worker'']\<rparr>\<rparr>"

lemma one_proc_fields:
  "m_activeTab one_proc_model = tabProc" "m_procsKill one_proc_model = None" "\<not> m_showHelp one_proc_model"
  "m_zoom one_proc_model = None" "\<not> m_procsSearching one_proc_model" "m_detail one_proc_model = None"
  "\<not> m_netSearching one_proc_model"
  "selectedProc (m_pp one_proc_model) = Some (example_proc 30 20 ''worker'')"
  by (simp_all add: one_proc_model_def fresh_model_def new_from_def selectedProc_def newPane_def)

lemma one_proc_k:
  "on_key quiet_env ''k'' one_proc_model = (ask_kill 30 1 ''worker'' False one_proc_model, [])"
proof -
  have "kill_selected False one_proc_model = ask_kill 30 1 ''worker'' False one_proc_model"
    by (simp add: kill_selected_def one_proc_fields example_proc_def)
  then show ?thesis
    by (simp add: on_key_def one_proc_fields global_key_def tab_of_digit_def tab_key_def proc_key_def cursor_of_def)
qed

theorem kill_confirmed_witness:
  "\<exists>pre e' post. [(quiet_env, KeyMsg ''k'')] = pre @ (e', KeyMsg (if False then ''K'' else ''k'')) # post \<and>
     keyless post \<and> on_screen (run pre one_proc_model) 30 1"
proof -
  define m where "m = ask_kill 30 1 ''worker'' False one_proc_model"
  have f: "m_activeTab m = tabProc" "m_procsKill m = Some \<lparr>kp_pid = 30, kp_start = 1, kp_name = ''worker'', kp_hard = False\<rparr>"
    by (simp_all add: m_def ask_kill_def one_proc_fields)
  have "Kill 30 1 False \<in> set (snd (on_key quiet_env ''y'' m))"
    by (simp add: on_key_def f on_kill_key_def Let_def case_prod_beta)
  then have "Kill 30 1 False \<in>
      set (snd (Update quiet_env (KeyMsg ''y'') (run [(quiet_env, KeyMsg ''k'')] one_proc_model)))"
    by (simp add: one_proc_k m_def)
  with one_proc_fields(2) show ?thesis by (rule kill_confirmed [THEN conjunct2])
qed

section \<open>The invariant of the fields\<close>

text \<open>Every history the model keeps, and the windows the packet loss is computed from.\<close>

definition histories :: "Model \<Rightarrow> f64 list set" where
  "histories m =
     {m_cpuHist m, m_memHist m, m_swapHist m, m_battHist m, m_battWHist m, m_loadHist m} \<union> set (m_coreHists m) \<union>
     range (m_tempHist m) \<union> range (m_freqHist m) \<union> range (m_rttHist m) \<union> ran (m_rxHist m) \<union> ran (m_txHist m)"

definition hist_cap :: "Config \<Rightarrow> int" where
  "hist_cap c = (if HistoryLen c > 0 then HistoryLen c else defaultHistoryLen)"

definition short :: "Config \<Rightarrow> 'a list \<Rightarrow> bool" where
  "short c h \<longleftrightarrow> int (length h) \<le> hist_cap c"

definition hists_ok :: "Model \<Rightarrow> bool" where
  "hists_ok m \<longleftrightarrow> (\<forall>h \<in> histories m. short (m_cfg m) h) \<and>
     (\<forall>w \<in> ran (m_lossWin m). length w \<le> lossWindow)"

definition focus_ok :: "Model \<Rightarrow> bool" where
  "focus_ok m \<longleftrightarrow> (m_procsKill m \<noteq> None \<or> m_procsSearching m \<longrightarrow> m_activeTab m = tabProc) \<and>
     (m_netSearching m \<longrightarrow> m_activeTab m = tabNet) \<and> (\<forall>i. m_zoom m = Some i \<longrightarrow> 0 \<le> i)"

lemma add_point_short [simp]: "m_cfg m = c \<Longrightarrow> short c (add_point m x h)"
proof -
  have "histLen m = hist_cap (m_cfg m)" "0 < histLen m" by (simp_all add: histLen_def hist_cap_def defaultHistoryLen_def)
  then show "m_cfg m = c \<Longrightarrow> ?thesis" by (auto simp: short_def add_point_def ClampHistory_def)
qed

lemma short_Nil [simp]: "short c []"
  by (simp add: short_def hist_cap_def defaultHistoryLen_def)

lemma push_loss_length [simp]: "length (push_loss ok win) \<le> lossWindow"
  by (simp add: push_loss_def lossWindow_def Let_def)

text \<open>One conjunct for each field, for the simplifier.\<close>

lemma hists_ok_fields:
  "hists_ok m \<longleftrightarrow> (\<exists>c. c = m_cfg m \<and>
     short c (m_cpuHist m) \<and> short c (m_memHist m) \<and> short c (m_swapHist m) \<and> short c (m_battHist m) \<and>
     short c (m_battWHist m) \<and> short c (m_loadHist m) \<and> (\<forall>h \<in> set (m_coreHists m). short c h) \<and>
     (\<forall>k. short c (m_tempHist m k)) \<and> (\<forall>k. short c (m_freqHist m k)) \<and> (\<forall>k. short c (m_rttHist m k)) \<and>
     (\<forall>h \<in> ran (m_rxHist m). short c h) \<and> (\<forall>h \<in> ran (m_txHist m). short c h) \<and>
     (\<forall>w \<in> ran (m_lossWin m). length w \<le> lossWindow))"
  unfolding hists_ok_def histories_def by blast

lemma fold_point_ok:
  assumes "\<And>k. short c (hs k)" "m_cfg m = c"
  shows "short c (fold (\<lambda>x hs. hs(key x := add_point m (val x) (hs (key x)))) xs hs k)"
  using assms by (induction xs arbitrary: hs) simp_all

text \<open>The settings, and the two periods in ticks, which the tick's counter is divided by.\<close>

definition clock_ok :: "Model \<Rightarrow> bool" where
  "clock_ok m \<longleftrightarrow> config_wf (m_cfg m) \<and> 1 \<le> m_procEvery m \<and> 1 \<le> m_slowEvery m"

definition screen_inv :: "Model \<Rightarrow> bool" where
  "screen_inv m \<longleftrightarrow> hists_ok m \<and> focus_ok m \<and> pane_inv (m_pp m) \<and> clock_ok m"

text \<open>The fields the invariant reads; most handlers keep them all.\<close>

definition view_of where
  "view_of m = ((m_cfg m, m_procEvery m, m_slowEvery m, m_procsKill m, m_procsSearching m, m_netSearching m, m_activeTab m, m_zoom m, m_pp m),
     (m_cpuHist m, m_memHist m, m_swapHist m, m_battHist m, m_battWHist m, m_loadHist m, m_coreHists m),
     (m_tempHist m, m_freqHist m, m_rttHist m, m_rxHist m, m_txHist m, m_lossWin m))"

lemma view_inv: "view_of m' = view_of m \<Longrightarrow> screen_inv m \<Longrightarrow> screen_inv m'"
  by (simp add: view_of_def screen_inv_def hists_ok_fields focus_ok_def clock_ok_def)

named_theorems view_simps \<open>handlers that keep every field the invariant reads\<close>

lemma small_views [view_simps]:
  "view_of (setNotice e s m) = view_of m" "view_of (setProcsNotice e s m) = view_of m"
  "view_of (setSysNotice e s m) = view_of m" "view_of (landed k m) = view_of m" "view_of (fit_net m) = view_of m"
  "view_of (detail_notice s m) = view_of m" "view_of (recordTrend ks c t m) = view_of m"
  "view_of (fst (ask k cmd m)) = view_of m"
  by (simp_all add: view_of_def setNotice_def setProcsNotice_def setSysNotice_def landed_def fit_net_def
      detail_notice_def recordTrend_def ask_def case_prod_beta Let_def)

lemma field_views [view_simps]:
  "view_of (m\<lparr>m_oom := o'\<rparr>) = view_of m" "view_of (m\<lparr>m_klog := kl\<rparr>) = view_of m" "view_of (m\<lparr>m_kmsg := b\<rparr>) = view_of m"
  "view_of (m\<lparr>m_alerts := al\<rparr>) = view_of m" "view_of (m\<lparr>m_now := t\<rparr>) = view_of m" "view_of (m\<lparr>m_tickCount := n\<rparr>) = view_of m"
  "view_of (m\<lparr>m_guards := g\<rparr>) = view_of m" "view_of (m\<lparr>m_detail := d\<rparr>) = view_of m" "view_of (m\<lparr>m_psi := p\<rparr>) = view_of m"
  "view_of (m\<lparr>m_conns := cs\<rparr>) = view_of m" "view_of (m\<lparr>m_err := x\<rparr>) = view_of m" "view_of (m\<lparr>m_paused := b\<rparr>) = view_of m"
  "view_of (m\<lparr>m_showHelp := b\<rparr>) = view_of m" "view_of (m\<lparr>m_backlight := bl\<rparr>) = view_of m" "view_of (m\<lparr>m_cpuSnap := c\<rparr>) = view_of m"
  "view_of (m\<lparr>m_w := w\<rparr>) = view_of m" "view_of (m\<lparr>m_h := w\<rparr>) = view_of m" "view_of (m\<lparr>m_netIfaceName := s\<rparr>) = view_of m"
  "view_of (m\<lparr>m_pings := rs\<rparr>) = view_of m" "view_of (m\<lparr>m_netSnap := sn\<rparr>) = view_of m" "view_of (m\<lparr>m_powerSnap := pw\<rparr>) = view_of m"
  "view_of (m\<lparr>m_peaks := pk\<rparr>) = view_of m" "view_of (m\<lparr>m_trends := tr\<rparr>) = view_of m" "view_of (m\<lparr>m_peaksReset := t\<rparr>) = view_of m"
  "view_of (m\<lparr>m_procsNotice := nt\<rparr>) = view_of m" "view_of (m\<lparr>m_procsSearch := s\<rparr>) = view_of m"
  "view_of (m\<lparr>m_netSearch := s\<rparr>) = view_of m" "view_of (m\<lparr>m_netQuery := s\<rparr>) = view_of m" "view_of (m\<lparr>m_connFilter := cf\<rparr>) = view_of m"
  by (simp_all add: view_of_def)

lemma data_views [view_simps]:
  "view_of (on_disks ds ios m) = view_of m" "view_of (on_sys g b iw m) = view_of m"
  "view_of (on_health st mo m) = view_of m" "view_of (on_detail e pid r m) = view_of m"
  by (auto simp: on_disks_def on_sys_def on_health_def on_detail_def Let_def view_of_def landed_def fit_net_def
      split: option.split)

lemma round_views [view_simps]:
  "view_of (fst (handleKmsg e evs err m)) = view_of m" "view_of (fst (delivered e al m)) = view_of m"
  by (auto simp: handleKmsg_def delivered_def Let_def view_simps split: option.split)

lemma tick_views [view_simps]: "view_of (fst (alert_round e t m)) = view_of m" "view_of (fst (on_tick e t m)) = view_of m"
  by (simp_all add: on_tick_def alert_round_def Let_def case_prod_beta view_simps)

lemma key_views [view_simps]:
  "view_of (fst (snapshot e m)) = view_of m" "view_of (moveIfaceSel d m) = view_of m"
  "view_of (fst (openProcDetail m)) = view_of m" "view_of (fst (reniceDetail e st d m)) = view_of m"
  "view_of (fst (detail_signal s a st m)) = view_of m" "view_of (fst (adjustBacklight e d m)) = view_of m"
  by (auto simp: snapshot_def moveIfaceSel_def openProcDetail_def reniceDetail_def detail_signal_def adjustBacklight_def
      Let_def case_prod_beta view_simps split: sum.split option.split)

lemma governor_views [view_simps]: "view_of (fst (cycleGovernor e m)) = view_of m"
  by (auto simp: cycleGovernor_def Let_def case_prod_beta view_simps simp del: set_governors.simps
      split: list.split option.split)

subsection \<open>Samples\<close>

lemmas inv_defs = screen_inv_def hists_ok_fields focus_ok_def clock_ok_def

lemma landed_fields [simp]:
  "m_cfg (landed k m) = m_cfg m" "m_procEvery (landed k m) = m_procEvery m" "m_slowEvery (landed k m) = m_slowEvery m"
  "m_procsKill (landed k m) = m_procsKill m" "m_procsSearching (landed k m) = m_procsSearching m"
  "m_netSearching (landed k m) = m_netSearching m" "m_activeTab (landed k m) = m_activeTab m" "m_zoom (landed k m) = m_zoom m"
  "m_pp (landed k m) = m_pp m" "m_cpuHist (landed k m) = m_cpuHist m" "m_memHist (landed k m) = m_memHist m"
  "m_swapHist (landed k m) = m_swapHist m" "m_battHist (landed k m) = m_battHist m" "m_battWHist (landed k m) = m_battWHist m"
  "m_loadHist (landed k m) = m_loadHist m" "m_coreHists (landed k m) = m_coreHists m" "m_tempHist (landed k m) = m_tempHist m"
  "m_freqHist (landed k m) = m_freqHist m" "m_rttHist (landed k m) = m_rttHist m" "m_rxHist (landed k m) = m_rxHist m"
  "m_txHist (landed k m) = m_txHist m" "m_lossWin (landed k m) = m_lossWin m"
  by (simp_all add: landed_def)

lemma cores_ok:
  assumes "\<forall>h \<in> set hs. short c h" "m_cfg m = c"
  shows "\<forall>x \<in> set (enumerate 0 (grow n hs)). short c (case x of (i, h) \<Rightarrow> if P i then add_point m (f i) h else h)"
proof -
  have "\<forall>h \<in> set (grow n hs). short c h" using assms(1) by (auto simp: grow_def)
  then show ?thesis using assms(2) by (auto simp: set_conv_nth nth_enumerate_eq)
qed

lemma cpu_inv: "screen_inv m \<Longrightarrow> screen_inv (on_cpu s m)"
  by (simp add: inv_defs on_cpu_def Let_def fold_point_ok) (rule cores_ok; simp)

lemma mem_inv: "screen_inv m \<Longrightarrow> screen_inv (on_mem e s m)"
  by (simp add: inv_defs on_mem_def Let_def)

lemma power_inv: "screen_inv m \<Longrightarrow> screen_inv (on_power s m)"
  by (simp add: inv_defs on_power_def Let_def)

lemma ran_upd_ok: "(\<forall>h \<in> ran f. P h) \<Longrightarrow> P x \<Longrightarrow> h \<in> ran (f(k \<mapsto> x)) \<Longrightarrow> P h"
  by (auto simp: ran_def split: if_splits)

lemma fold_inv: "(\<And>x m. screen_inv m \<Longrightarrow> screen_inv (f x m)) \<Longrightarrow> screen_inv m \<Longrightarrow> screen_inv (fold f xs m)"
  by (induction xs arbitrary: m) simp_all

lemma ping_inv: "screen_inv m \<Longrightarrow> screen_inv (on_ping r m)"
  by (auto simp: inv_defs on_ping_def Let_def elim: ran_upd_ok [rotated 2])

lemma latency_inv: "screen_inv m \<Longrightarrow> screen_inv (on_latency rs m)"
proof -
  assume i: "screen_inv m"
  have "screen_inv ((landed fetchLatency m)\<lparr>m_pings := rs\<rparr>)" by (rule view_inv [OF _ i]) (simp add: view_simps)
  then show ?thesis
    unfolding on_latency_def by (intro view_inv [OF small_views(5)] fold_inv ping_inv)
qed

lemma iface_inv: "screen_inv m \<Longrightarrow> screen_inv (on_iface i m)"
  by (auto simp: inv_defs on_iface_def elim: ran_upd_ok [rotated 2])

lemma evict_inv: "screen_inv m \<Longrightarrow> screen_inv (evictIfaceHistory p m)"
  by (auto simp: inv_defs evictIfaceHistory_def Let_def ran_def restrict_map_def split: if_splits)

lemma net_inv: "screen_inv m \<Longrightarrow> screen_inv (on_net s m)"
proof -
  assume i: "screen_inv m"
  have "screen_inv ((landed fetchNet m)\<lparr>m_netSnap := s\<rparr>)" for s by (rule view_inv [OF _ i]) (simp add: view_simps)
  then show ?thesis
    unfolding on_net_def Let_def by (intro view_inv [OF small_views(5)] evict_inv fold_inv iface_inv)
qed

lemma follow_inv: "screen_inv m \<Longrightarrow> screen_inv (follow_procs e m)"
  using pane_step_inv [of "m_pp m" "en_low e" "procsCap (m_cfg m)" "en_setY e" "en_keepY e" "Sample_procs (pp_procs (m_pp m))"]
  by (simp add: inv_defs follow_procs_def)

lemma restart_inv': "screen_inv m \<Longrightarrow> screen_inv (restart_procs e f m)"
  by (simp add: inv_defs restart_procs_def restart_inv)

lemma resize_inv: "screen_inv m \<Longrightarrow> screen_inv (on_resize e w h m)"
proof -
  assume i: "screen_inv m"
  have "screen_inv (m\<lparr>m_w := w, m_h := h, m_pp := (m_pp m)\<lparr>pp_height := ph\<rparr>, m_alertsVPHeight := ah\<rparr>)" for ph ah
    using i by (simp add: inv_defs pane_inv_def sel_ok_def view_ok_def)
  then show ?thesis
    unfolding on_resize_def Let_def by (simp add: follow_inv view_inv [OF small_views(5)])
qed

lemma procs_inv: "screen_inv m \<Longrightarrow> screen_inv (on_procs e err ps m)"
proof -
  assume i: "screen_inv m"
  have n: "view_of ((landed k m)\<lparr>m_err := x\<rparr>) = view_of m" for k x by (simp add: view_simps)
  show ?thesis
  proof (cases err)
    case None
    have p: "pane_inv (refreshProcsFollow low rcap setY keepY ((m_pp m)\<lparr>pp_procs := ps\<rparr>))" for low rcap setY keepY
      using pane_step_inv [of "m_pp m" low rcap setY keepY "Sample_procs ps"] i by (simp add: inv_defs)
    then show ?thesis using i None by (simp add: inv_defs on_procs_def Let_def follow_procs_def)
  qed (simp add: on_procs_def Let_def view_inv [OF n i])
qed

subsection \<open>Keys\<close>

lemma field_inv:
  assumes "screen_inv m"
  shows "screen_inv (m\<lparr>m_zoom := None\<rparr>)" "screen_inv (m\<lparr>m_procsKill := None\<rparr>)"
    "screen_inv (m\<lparr>m_procsSearching := False\<rparr>)" "screen_inv (m\<lparr>m_netSearching := False\<rparr>)"
    "m_activeTab m = tabProc \<Longrightarrow> screen_inv (m\<lparr>m_procsSearching := True\<rparr>)"
    "m_activeTab m = tabProc \<Longrightarrow> screen_inv (ask_kill pid st n h m)"
    "m_activeTab m = tabNet \<Longrightarrow> screen_inv (m\<lparr>m_netSearching := True\<rparr>)"
    "m_procsKill m = None \<Longrightarrow> \<not> m_procsSearching m \<Longrightarrow> \<not> m_netSearching m \<Longrightarrow> screen_inv (m\<lparr>m_activeTab := t\<rparr>)"
    "screen_inv (m\<lparr>m_pp := (m_pp m)\<lparr>pp_yoff := y\<rparr>\<rparr>)"
    "screen_inv (m\<lparr>m_pp := cursor_move sY kY ck (m_pp m)\<rparr>)"
  using assms pane_step_inv [of "m_pp m" _ _ sY kY "Cursor ck"]
  by (simp_all add: inv_defs ask_kill_def) (auto simp: pane_inv_def sel_ok_def view_ok_def)

lemma zoom_inv: "screen_inv m \<Longrightarrow> screen_inv (toggleZoom t s m)" "screen_inv m \<Longrightarrow> screen_inv (cycleZoom d m)"
proof -
  assume i: "screen_inv m"
  then show "screen_inv (toggleZoom t s m)" by (simp add: inv_defs toggleZoom_def)
  have "0 \<le> (k smod n + n) smod n" if "0 < n" for k n :: int
  proof -
    have b: "- k mod n \<le> n" using pos_mod_bound [OF that, of "- k"] by linarith
    have "0 \<le> k smod n + n" using that b by (cases "k \<ge> 0") (simp_all add: signed_modulo_int_def sgn_if)
    then show ?thesis using that by (simp add: signed_modulo_int_def sgn_if)
  qed
  then show "screen_inv (cycleZoom d m)" using i by (auto simp: inv_defs cycleZoom_def Let_def split: option.split)
qed

lemma inv_same: "screen_inv m' \<Longrightarrow> screen_inv (fst (m', acts))"
  by simp

lemmas inv_intros = branch [where P = "\<lambda>r. screen_inv (fst r)"] inv_same

lemmas map_inv_intros = map_branch [where P = "\<lambda>r. screen_inv (fst r)"]

lemmas viewed = key_views [THEN view_inv] governor_views [THEN view_inv] small_views [THEN view_inv]

lemma field_views_inv:
  assumes "screen_inv m"
  shows "screen_inv (m\<lparr>m_procsNotice := nt\<rparr>)" "screen_inv (m\<lparr>m_connFilter := cf\<rparr>)" "screen_inv (m\<lparr>m_showHelp := b\<rparr>)"
    "screen_inv (m\<lparr>m_paused := b\<rparr>)" "screen_inv (m\<lparr>m_detail := d\<rparr>)" "screen_inv (m\<lparr>m_alerts := al\<rparr>)"
    "screen_inv (m\<lparr>m_procsSearch := s\<rparr>)" "screen_inv (m\<lparr>m_netSearch := s\<rparr>)" "screen_inv (m\<lparr>m_netQuery := s\<rparr>)"
    "screen_inv (m\<lparr>m_peaks := pk, m_trends := tr, m_peaksReset := t\<rparr>)"
    "screen_inv (m\<lparr>m_procsSearch := s, m_procsNotice := nt\<rparr>)" "screen_inv (m\<lparr>m_psi := ps\<rparr>)"
    "screen_inv (m\<lparr>m_conns := cs\<rparr>)" "screen_inv (m\<lparr>m_oom := om\<rparr>)" "screen_inv (m\<lparr>m_err := er\<rparr>)" "screen_inv (m\<lparr>m_netQuery := s, m_netSearch := s'\<rparr>)"
  by (rule view_inv [OF _ assms], simp add: view_simps)+

lemma kill_key_inv: "screen_inv m \<Longrightarrow> screen_inv (fst (on_kill_key e kp key m))"
  unfolding on_kill_key_def Let_def case_prod_beta by (intro inv_intros viewed field_inv)

lemma zoom_key_inv: "screen_inv m \<Longrightarrow> screen_inv (fst (on_zoom_key e key m))"
  unfolding on_zoom_key_def by (intro inv_intros viewed field_inv zoom_inv field_views_inv)

lemma detail_key_inv:
  "screen_inv m \<Longrightarrow> m_activeTab m = tabProc \<Longrightarrow> screen_inv (fst (updateProcDetail e st key m))"
  unfolding updateProcDetail_def by (intro inv_intros viewed field_inv field_views_inv)

lemma kill_selected_inv: "screen_inv m \<Longrightarrow> m_activeTab m = tabProc \<Longrightarrow> screen_inv (kill_selected h m)"
  by (auto simp: kill_selected_def field_inv split: option.split)

lemma proc_key_inv: "screen_inv m \<Longrightarrow> m_activeTab m = tabProc \<Longrightarrow> map_post (\<lambda>r. screen_inv (fst r)) (proc_key e key m)"
  unfolding proc_key_def
  by (intro map_inv_intros inv_intros viewed restart_inv' kill_selected_inv field_inv(10) field_views_inv)
    (simp_all add: inv_defs)

lemma net_key_inv: "screen_inv m \<Longrightarrow> m_activeTab m = tabNet \<Longrightarrow> map_post (\<lambda>r. screen_inv (fst r)) (net_key key m)"
  unfolding net_key_def
  by (intro map_inv_intros inv_intros viewed field_views_inv) (simp_all add: inv_defs)

lemma alerts_key_inv: "screen_inv m \<Longrightarrow> map_post (\<lambda>r. screen_inv (fst r)) (alerts_key e key m)"
  unfolding alerts_key_def Let_def by (intro map_inv_intros inv_intros viewed field_views_inv)

lemma tab_key_inv: "screen_inv m \<Longrightarrow> map_post (\<lambda>r. screen_inv (fst r)) (tab_key e key m)"
  by (rule tab_key_post) (intro proc_key_inv net_key_inv alerts_key_inv viewed; simp)+

lemma global_key_inv:
  assumes "screen_inv m" "m_procsKill m = None" "\<not> m_procsSearching m" "\<not> m_netSearching m"
  shows "map_post (\<lambda>r. screen_inv (fst r)) (global_key e key m)"
  unfolding global_key_def Let_def
  by (intro map_inv_intros inv_intros viewed field_inv(8) zoom_inv tab_key_inv field_views_inv assms)

lemma inv_if: "(c \<Longrightarrow> screen_inv a) \<Longrightarrow> (\<not> c \<Longrightarrow> screen_inv b) \<Longrightarrow> screen_inv (if c then a else b)"
  by simp

lemma search_inv: "screen_inv m \<Longrightarrow> screen_inv (focus_key e key m)"
proof -
  assume i: "screen_inv m"
  have "screen_inv (proc_search_key e key m)"
    unfolding proc_search_key_def Let_def
    by (intro inv_if restart_inv' field_inv(3) field_views_inv i)
  moreover have "screen_inv (net_search_key e key m)"
    unfolding net_search_key_def Let_def
    by (intro inv_if field_inv(4) field_views_inv i)
  ultimately show ?thesis using i by (simp add: focus_key_def)
qed

lemma key_inv:
  assumes "screen_inv m"
  shows "screen_inv (fst (on_key e key m))"
proof (rule on_key_post)
  show "map_post (\<lambda>r. screen_inv (fst r)) (global_key e key m)"
    if "m_activeTab m = tabProc \<longrightarrow> m_procsKill m = None" "\<not> m_procsSearching m" "\<not> m_netSearching m"
    using that assms by (intro global_key_inv) (auto simp: inv_defs)
qed (use assms in \<open>simp_all add: kill_key_inv zoom_key_inv detail_key_inv search_inv field_views_inv\<close>)

lemma run_inv: "screen_inv m \<Longrightarrow> screen_inv (run steps m)"
proof (induction steps arbitrary: m)
  case (Cons step steps)
  obtain e msg where st: "step = (e, msg)" by (cases step)
  have "screen_inv (fst (Update e msg m))"
  proof (cases msg)
    case (WheelMsg y)
    then show ?thesis using Cons.prems by (simp add: field_inv)
  qed (use Cons.prems in \<open>simp_all add: Let_def resize_inv cpu_inv mem_inv power_inv latency_inv net_inv procs_inv key_inv
      data_views [THEN view_inv] round_views [THEN view_inv] tick_views [THEN view_inv] small_views [THEN view_inv]
      field_views_inv\<close>)
  then show ?case using Cons.IH by (simp add: st del: Update.simps)
qed simp

lemma calibrate_wf: "config_wf (calibrateTemps fuel h (Sanitize cfg))"
  by (simp add: calibrateTemps_def Sanitize_wf split: option.split)

lemma every_pos: "1 \<le> every interval fast"
  by (simp add: every_def Let_def)

lemma NewModel_inv: "screen_inv (NewModel fuel h now style cfg)"
  by (simp add: NewModel_def new_from_def inv_defs newPane_inv calibrate_wf every_pos)

text \<open>From start-up on, whatever messages arrive, every history stays within the configured length and
  every packet-loss window within 50 samples; the processes pane keeps its rows among the last sample's
  with the cursor on one of them; the kill prompt and the process search are only ever open on the
  processes tab, the connection search on the network tab, and a zoom index never goes below zero;
  the settings are well-formed and the two periods the tick's counter is divided by at least one.\<close>

theorem screen_run_invariant:
  "screen_inv (run steps (FollowKernelLog opened (NewModel fuel h now style cfg)))"
proof (rule run_inv)
  have "view_of (FollowKernelLog opened m) = view_of m" for m by (simp add: FollowKernelLog_def view_simps)
  then show "screen_inv (FollowKernelLog opened (NewModel fuel h now style cfg))" by (rule view_inv) (rule NewModel_inv)
qed

end
