(* ===== verification/Metrics.thy ===== *)
theory Metrics
  imports Conditions "HOL-Library.Sublist"
begin

text \<open>
  The exposition of the readings (\<open>internal/ui/metrics.go\<close>): the Prometheus text format with its
  label escapes, and the helpers it shares with the JSON snapshot. A float printed the shortest way,
  \<open>strconv.FormatFloat(v, 'g', -1, 64)\<close>, is the argument \<open>num\<close>.
\<close>

section \<open>Labels\<close>

text \<open>\<open>strings.ToValidUTF8(v, U+FFFD)\<close>: a run of invalid bytes becomes one replacement rune.\<close>

function toValid :: "bool \<Rightarrow> string \<Rightarrow> string" where
  "toValid bad s =
     (if s = [] then []
      else let (r, n) = decodeRune s
        in if r = RuneError \<and> n = 1
           then (if bad then [] else encodeRune RuneError) @ toValid True (drop 1 s)
           else take n s @ toValid False (drop n s))"
  by pat_completeness auto
termination
proof (relation "measure (\<lambda>(_, s). length s)", goal_cases)
  case (3 bad s x r n)
  then have "n = snd (decodeRune s)" by (metis snd_conv)
  then have "0 < n" by (simp add: decodeRune_width)
  with 3 show ?case by (cases s) auto
qed simp_all

declare toValid.simps [simp del]

definition ToValidUTF8 :: "string \<Rightarrow> string" where
  "ToValidUTF8 s = toValid False s"

definition prom_escape :: "nat \<Rightarrow> string" where
  "prom_escape r =
     (if r = 0x5C then [BACKSLASH, BACKSLASH]
      else if r = 0x22 then [BACKSLASH, DQUOTE]
      else if r = 0x0A then [BACKSLASH, CHR ''n'']
      else encodeRune r)"

definition promLabel :: "string \<Rightarrow> string" where
  "promLabel v = [DQUOTE] @ concat (map prom_escape (runes (ToValidUTF8 v))) @ [DQUOTE]"

definition boolMetric :: "bool \<Rightarrow> string" where
  "boolMetric v = (if v then ''1'' else ''0'')"

section \<open>Devices and processes\<close>

definition is_letter :: "char \<Rightarrow> bool" where
  "is_letter b \<longleftrightarrow> 97 \<le> code b \<and> code b \<le> 122 \<or> 65 \<le> code b \<and> code b \<le> 90"

definition allDigits :: "string \<Rightarrow> bool" where
  "allDigits s \<longleftrightarrow> s \<noteq> [] \<and> list_all is_digit s"

text \<open>The index the loop over the trailing digits stops at.\<close>

definition before_digits :: "string \<Rightarrow> nat" where
  "before_digits d = length (dropWhile is_digit (rev d))"

definition baseDevice :: "string \<Rightarrow> string" where
  "baseDevice dev =
     (let d = trimPrefix dev ''/dev/'';
          tail_base = (let i = before_digits d
            in if i > 0 \<and> i < length d \<and> is_letter (d ! (i - 1)) then take i d else d)
      in case lastIndexByte d (CHR ''p'') of
           Some i \<Rightarrow> if i > 0 \<and> i + 1 < length d \<and> is_digit (d ! (i - 1)) \<and> allDigits (drop (i + 1) d)
             then take i d else tail_base
         | None \<Rightarrow> tail_base)"

definition io_by_dev :: "DiskIOInfo list \<Rightarrow> string \<rightharpoonup> DiskIOInfo" where
  "io_by_dev ios = map_of (rev (map (\<lambda>io. (io_Device io, io)) ios))"

definition diskIOFor :: "(string \<rightharpoonup> DiskIOInfo) \<Rightarrow> string \<Rightarrow> DiskIOInfo option" where
  "diskIOFor ioByDev dev =
     (let name = trimPrefix dev ''/dev/''
      in case ioByDev name of
           Some io \<Rightarrow> Some io
         | None \<Rightarrow> if baseDevice dev \<noteq> name then ioByDev (baseDevice dev) else None)"

definition topProcs :: "int \<Rightarrow> Model \<Rightarrow> ProcInfo list" where
  "topProcs n m =
     (let ps = sort_by (\<lambda>a b. pi_CPUPct a > pi_CPUPct b) (pp_procs (m_pp m))
      in if int (length ps) > n then take (nat n) ps else ps)"

definition oomKillsJSON :: "MemSnapshot \<Rightarrow> 64 word option" where
  "oomKillsJSON s = (if \<not> ms_OOMKillsOK s then None else Some (ms_OOMKills s))"

text \<open>A device with a row of its own is never given another's; without one it may get that of its base.\<close>

lemma diskIOFor_own: "ioByDev (trimPrefix dev ''/dev/'') = Some io \<Longrightarrow> diskIOFor ioByDev dev = Some io"
  by (simp add: diskIOFor_def Let_def)

lemma baseDevice_shapes:
  "baseDevice ''/dev/nvme0n1p3'' = ''nvme0n1''" "baseDevice ''/dev/mmcblk0p2'' = ''mmcblk0''" "baseDevice ''/dev/sda1'' = ''sda''"
  "baseDevice ''/dev/dm-0'' = ''dm-0''" "baseDevice ''/dev/sda'' = ''sda''"
  by (simp_all add: baseDevice_def trimPrefix_def hasPrefix_def before_digits_def is_digit_def is_letter_def allDigits_def)

text \<open>Whole-device names that end in an index after a letter are cut too.\<close>

lemma baseDevice_whole_disks: "baseDevice ''/dev/mmcblk0'' = ''mmcblk'' \<and> baseDevice ''/dev/nvme0n1'' = ''nvme0n''"
  by (simp add: baseDevice_def trimPrefix_def hasPrefix_def before_digits_def is_digit_def is_letter_def allDigits_def)

section \<open>Families\<close>

text \<open>
  A sample is its labels and its value; a family its name, help, type and samples, written only when
  it has any. A constant label such as \<open>{flag="throttled"}\<close> is the quoting of its plain text.
\<close>

type_synonym sample = "(string \<times> string) list \<times> string"

record family =
  fa_name :: string
  fa_help :: string
  fa_typ :: string
  fa_samples :: "sample list"

definition gauge :: "string \<Rightarrow> string \<Rightarrow> sample list \<Rightarrow> family" where
  "gauge name hlp ss = \<lparr>fa_name = name, fa_help = hlp, fa_typ = ''gauge'', fa_samples = ss\<rparr>"

definition counter :: "string \<Rightarrow> string \<Rightarrow> sample list \<Rightarrow> family" where
  "counter name hlp ss = \<lparr>fa_name = name, fa_help = hlp, fa_typ = ''counter'', fa_samples = ss\<rparr>"

definition kv_text :: "string \<times> string \<Rightarrow> string" where
  "kv_text kv = fst kv @ ''='' @ promLabel (snd kv)"

definition labels_text :: "(string \<times> string) list \<Rightarrow> string" where
  "labels_text kvs =
     (if kvs = [] then []
      else ''{'' @ join (map kv_text kvs) '','' @ ''}'')"

definition sample_line :: "string \<Rightarrow> sample \<Rightarrow> string" where
  "sample_line name s = ''ucmon_'' @ name @ labels_text (fst s) @ '' '' @ snd s"

definition family_text :: "family \<Rightarrow> string" where
  "family_text f =
     (if fa_samples f = [] then []
      else ''# HELP ucmon_'' @ fa_name f @ '' '' @ fa_help f @ [NL] @
           ''# TYPE ucmon_'' @ fa_name f @ '' '' @ fa_typ f @ [NL] @
           concat (map (\<lambda>s. sample_line (fa_name f) s @ [NL]) (fa_samples f)))"

definition temp_samples :: "(f64 \<Rightarrow> string) \<Rightarrow> Model \<Rightarrow> sample list" where
  "temp_samples num m =
     sort_by (\<lambda>a b. labels_text (fst a) < labels_text (fst b))
       (map (\<lambda>t. ([(''sensor'', tr_Label t)], num (tr_Temp t))) (cs_Temperatures (m_cpuSnap m)))"

definition cpu_families :: "(f64 \<Rightarrow> string) \<Rightarrow> Model \<Rightarrow> family list" where
  "cpu_families num m =
     [gauge ''cpu_usage_percent'' ''Total CPU utilisation.'' [([], num (cs_TotalPercent (m_cpuSnap m)))]] @
     (let bd = cs_Breakdown (m_cpuSnap m)
      in if cb_Valid bd then
           [gauge ''cpu_mode_percent'' ''CPU time by mode over the last interval.''
              (map (\<lambda>(mode, v). ([(''mode'', mode)], num v))
                [(''user'', cb_User bd), (''system'', cb_System bd), (''nice'', cb_Nice bd), (''iowait'', cb_Iowait bd),
                 (''irq'', cb_IRQ bd), (''steal'', cb_Steal bd), (''idle'', cb_Idle bd)])]
         else []) @
     [gauge ''temperature_celsius'' ''Temperature sensor readings.'' (temp_samples num m)]"

definition word_num :: "64 word \<Rightarrow> f64" where
  "word_num w = of_nat (unat w)"

definition mem_families :: "(f64 \<Rightarrow> string) \<Rightarrow> Model \<Rightarrow> family list" where
  "mem_families num m =
     (let s = m_memSnap m in
     [gauge ''memory_used_percent'' ''RAM in use.'' [([], num (ms_UsedPct s))],
      gauge ''memory_used_bytes'' ''RAM in use.'' [([], num (word_num (ms_Used s)))],
      gauge ''memory_total_bytes'' ''Installed RAM.'' [([], num (word_num (ms_Total s)))]] @
     (if ms_SwapTotal s > 0 then [gauge ''swap_used_percent'' ''Swap in use.'' [([], num (ms_SwapUsedPct s))]] else []) @
     (if ms_OOMKillsOK s then
        [counter ''oom_kills_total'' ''Processes killed by the kernel OOM killer since boot.''
           [([], num (word_num (ms_OOMKills s)))]]
      else []) @
     [gauge ''load1'' ''1-minute load average.'' [([], num (ld_Load1 (pw_Load (m_powerSnap m))))]])"

definition disk_labels :: "DiskInfo \<Rightarrow> (string \<times> string) list" where
  "disk_labels d = [(''mount'', di_MountPoint d), (''fstype'', di_FSType d)]"

definition disk_families :: "(f64 \<Rightarrow> string) \<Rightarrow> Model \<Rightarrow> family list" where
  "disk_families num m =
     [gauge ''filesystem_used_percent'' ''Filesystem utilisation.''
        (map (\<lambda>d. (disk_labels d, num (di_UsedPct d))) (m_disks m)),
      gauge ''filesystem_free_bytes'' ''Filesystem free space.''
        (map (\<lambda>d. (disk_labels d, num (of_nat (di_Free d)))) (m_disks m)),
      gauge ''filesystem_readonly'' ''1 when the filesystem is mounted read-only.''
        (map (\<lambda>d. (disk_labels d, boolMetric (di_ReadOnly d))) (m_disks m)),
      gauge ''filesystem_remounted_readonly''
        ''1 when a filesystem meant to be read-write is read-only (errors=remount-ro).''
        (map (\<lambda>d. (disk_labels d, boolMetric (di_RemountedRO d))) (m_disks m))]"

definition net_families :: "(f64 \<Rightarrow> string) \<Rightarrow> Model \<Rightarrow> family list" where
  "net_families num m =
     [gauge ''network_receive_bytes_per_second'' ''Interface receive rate.''
        (map (\<lambda>i. ([(''device'', if_Name i)], num (if_RxBps i))) (upIfaces m)),
      gauge ''network_transmit_bytes_per_second'' ''Interface transmit rate.''
        (map (\<lambda>i. ([(''device'', if_Name i)], num (if_TxBps i))) (upIfaces m)),
      counter ''network_bad_frames_total'' ''Interface errors plus drops since boot.''
        (map (\<lambda>i. ([(''device'', if_Name i)], num (word_num (BadFramesTotal i)))) (upIfaces m)),
      gauge ''wifi_signal_dbm'' ''Wireless signal level.''
        (map (\<lambda>i. ([(''device'', if_Name i)], num (wf_SignalDBm (if_WiFi i))))
          (filter (\<lambda>i. if_IsUp i \<and> wf_Present (if_WiFi i)) (ns_Ifaces (m_netSnap m))))]"

definition power_families :: "(f64 \<Rightarrow> string) \<Rightarrow> Model \<Rightarrow> family list" where
  "power_families num m =
     (let b = pw_Battery (m_powerSnap m); t = pw_Throttle (m_powerSnap m) in
     (if ba_Present b \<and> ba_Capacity b \<ge> 0 then
        [gauge ''battery_percent'' ''Battery charge.'' [([], num (of_int (ba_Capacity b)))]] @
        (if ba_PowerW b > 0 then [gauge ''battery_power_watts'' ''Instantaneous battery power.'' [([], num (ba_PowerW b))]]
         else []) @
        (if ba_HealthPct b > 0 then
           [gauge ''battery_health_percent'' ''Battery capacity versus design.'' [([], num (ba_HealthPct b))]]
         else [])
      else []) @
     (if th_Available t then
        [gauge ''throttled'' ''Raspberry Pi throttle flags, as live bits.''
           [([(''flag'', ''under_voltage'')], boolMetric (th_UnderVoltageNow t)),
            ([(''flag'', ''throttled'')], boolMetric (th_ThrottledNow t)),
            ([(''flag'', ''freq_capped'')], boolMetric (th_FreqCappedNow t)),
            ([(''flag'', ''soft_temp_limit'')], boolMetric (th_SoftTempLimitNow t))]]
      else []))"

definition storage_families :: "(f64 \<Rightarrow> string) \<Rightarrow> Model \<Rightarrow> family list" where
  "storage_families num m =
     [gauge ''storage_wear_percent'' ''Share of rated write endurance consumed.''
        (concat (map (\<lambda>h. case WearPct h of
           Some pct \<Rightarrow> [([(''device'', sh_Device h), (''kind'', sh_Kind h)], num pct)] | None \<Rightarrow> []) (m_storage m)))]"

definition ping_families :: "(f64 \<Rightarrow> string) \<Rightarrow> Model \<Rightarrow> family list" where
  "ping_families num m =
     [gauge ''ping_rtt_milliseconds'' ''Round-trip time to a monitored target.''
        (map (\<lambda>r. ([(''target'', pr_Target r)], num (of_int (pr_RTT r sdiv 1000) / 1000))) (filter pr_OK (m_pings m))),
      gauge ''ping_loss_percent'' ''Packet loss over the rolling window.''
        (concat (map (\<lambda>r. case m_lossWin m (pr_Target r) of
           Some win \<Rightarrow> if win \<noteq> [] then [([(''target'', pr_Target r)], num (lossPct win))] else []
         | None \<Rightarrow> []) (m_pings m)))]"

definition psi_families :: "(f64 \<Rightarrow> string) \<Rightarrow> Model \<Rightarrow> family list" where
  "psi_families num m =
     (if ps_Present (m_psi m) then
        [gauge ''pressure_some_avg10'' ''PSI some-avg10 by resource.''
           (map (\<lambda>(name, r). ([(''resource'', name)], num (SomeAvg10 r)))
             (filter (\<lambda>(name, r). HasSome r)
               [(''cpu'', ps_CPU (m_psi m)), (''memory'', ps_Mem (m_psi m)), (''io'', ps_IO (m_psi m))]))]
      else [])"

definition active_count :: "alertEngine \<Rightarrow> string list \<Rightarrow> nat" where
  "active_count e ks = (case summary e ks of Some (_, n) \<Rightarrow> n | None \<Rightarrow> 0)"

definition prom_families :: "(f64 \<Rightarrow> string) \<Rightarrow> string list \<Rightarrow> Model \<Rightarrow> family list" where
  "prom_families num ks m =
     cpu_families num m @ mem_families num m @ disk_families num m @ net_families num m @ power_families num m @
     storage_families num m @ ping_families num m @ psi_families num m @
     [gauge ''alerts_active'' ''Alert conditions currently firing.'' [([], nat_digits (active_count (m_alerts m) ks))]]"

definition buildPrometheus :: "(f64 \<Rightarrow> string) \<Rightarrow> string list \<Rightarrow> Model \<Rightarrow> string" where
  "buildPrometheus num ks m = concat (map family_text (prom_families num ks m))"

section \<open>Reading the text back\<close>

definition prepend :: "'a list \<Rightarrow> ('a list \<times> string) option \<Rightarrow> ('a list \<times> string) option" where
  "prepend x r = map_option (\<lambda>(v, t). (x @ v, t)) r"

lemma prepend_simps [simp]:
  "prepend x None = None" "prepend x (Some (v, t)) = Some (x @ v, t)" "prepend x (prepend y r) = prepend (x @ y) r"
  "prepend [] r = r" "prepend x r = Some q \<longleftrightarrow> (\<exists>v t. r = Some (v, t) \<and> q = (x @ v, t))"
  by (cases r; auto simp: prepend_def)+

text \<open>The exposition format, as its reader sees it: a quoted label value up to the closing quote, ...\<close>

fun read_label :: "string \<Rightarrow> (string \<times> string) option" where
  "read_label [] = None"
| "read_label (c # s) =
     (if c = DQUOTE then Some ([], s)
      else if c = BACKSLASH then
        (case s of
           [] \<Rightarrow> None
         | d # t \<Rightarrow>
             if d = BACKSLASH \<or> d = DQUOTE then prepend [d] (read_label t)
             else if d = CHR ''n'' then prepend [NL] (read_label t)
             else None)
      else prepend [c] (read_label s))"

lemma read_label_length: "read_label s = Some (v, t) \<Longrightarrow> length t < length s"
  by (induction s arbitrary: v t rule: read_label.induct) (fastforce split: if_splits list.splits)+

text \<open>... the labels up to the closing brace, ...\<close>

function parse_labels :: "string \<Rightarrow> ((string \<times> string) list \<times> string) option" where
  "parse_labels s =
     (let key = takeWhile (\<lambda>c. c \<noteq> CHR ''='') s; rest = dropWhile (\<lambda>c. c \<noteq> CHR ''='') s
      in if take 2 rest = [CHR ''='', DQUOTE] then
           (case read_label (drop 2 rest) of
              None \<Rightarrow> None
            | Some (v, t) \<Rightarrow>
                if take 1 t = '','' then prepend [(key, v)] (parse_labels (drop 1 t))
                else if take 1 t = ''}'' then Some ([(key, v)], drop 1 t)
                else None)
         else None)"
  by pat_completeness auto
termination
proof (relation "measure length", goal_cases)
  case (2 s key rest a v t)
  then have "length t < length (drop 2 rest)" using read_label_length [of "drop 2 rest" v t] by simp
  moreover have "length rest \<le> length s" using 2 by (simp add: length_dropWhile_le)
  ultimately show ?case by simp
qed simp

declare parse_labels.simps [simp del]

text \<open>... and a line: a metric's name, its labels and its value. A comment is none.\<close>

definition parse_sample :: "string \<Rightarrow> (string \<times> (string \<times> string) list \<times> string) option" where
  "parse_sample line =
     (let name = takeWhile (\<lambda>c. c \<noteq> CHR ''{'' \<and> c \<noteq> CHR '' '') line; rest = drop (length name) line;
          labels = (if take 1 rest = ''{'' then parse_labels (drop 1 rest) else Some ([], rest))
      in if hasPrefix line ''# '' then None
         else case labels of
           None \<Rightarrow> None
         | Some (kvs, t) \<Rightarrow> if take 1 t = '' '' then Some (name, kvs, drop 1 t) else None)"

definition exposition_lines :: "string \<Rightarrow> string list" where
  "exposition_lines s = butlast (split s NL)"

definition family_rows :: "family \<Rightarrow> (string \<times> (string \<times> string) list \<times> string) list" where
  "family_rows f =
     map (\<lambda>(kvs, v). (''ucmon_'' @ fa_name f, map (apsnd ToValidUTF8) kvs, v)) (fa_samples f)"

subsection \<open>Labels\<close>

lemma valid_error: "valid_rune RuneError"
  by (simp add: valid_rune_def)

lemma toValid_runes: "\<exists>rs. toValid bad s = concat (map encodeRune rs) \<and> list_all valid_rune rs"
proof (induction bad s rule: toValid.induct)
  case (1 bad s)
  show ?case
  proof (cases "s = []")
    case True
    then show ?thesis by (intro exI [of _ "[]"]) (simp add: toValid.simps)
  next
    case False
    obtain r n where d: "decodeRune s = (r, n)" by fastforce
    show ?thesis
    proof (cases "r = RuneError \<and> n = 1")
      case True
      then obtain rs where "toValid True (drop 1 s) = concat (map encodeRune rs)" "list_all valid_rune rs"
        using 1(1) [OF False d [symmetric]] by blast
      then show ?thesis using True False d
        by (intro exI [of _ "(if bad then [] else [RuneError]) @ rs"]) (simp add: toValid.simps [of bad s] valid_error)
    next
      case ok: False
      then obtain rs where "toValid False (drop n s) = concat (map encodeRune rs)" "list_all valid_rune rs"
        using 1(2) [OF False d [symmetric]] by blast
      then show ?thesis using ok False d encode_decode [OF d False ok]
        by (intro exI [of _ "r # rs"]) (auto simp: toValid.simps [of bad s])
    qed
  qed
qed

lemma encodeRune_bytes: "c \<in> set (encodeRune r) \<Longrightarrow> code c = r \<or> 0x80 \<le> code c"
proof -
  assume c: "c \<in> set (encodeRune r)"
  define q :: nat where "q = (if r > 0x10FFFF \<or> 0xD800 \<le> r \<and> r \<le> 0xDFFF then RuneError else r)"
  have q: "q \<le> 0x10FFFF" "q = r \<or> q = RuneError" by (auto simp: q_def)
  have b: "code (char_of (m + x)) = m + x" if "x < 64" "m \<le> 0xC0" for m x :: nat
    using that by simp
  have d: "q div 64 < 32" if "q < 0x800" using that by simp
  have d': "q div 4096 < 16" if "q < 0x10000" using that by simp
  have d'': "q div 262144 < 5" using q(1) by simp
  consider "q < 0x80" | "0x80 \<le> q" "q < 0x800" | "\<not> q < 0x800" "q < 0x10000" | "\<not> q < 0x10000" by linarith
  then show ?thesis
  proof cases
    case 1
    then show ?thesis using c q by (auto simp: encodeRune_def q_def [symmetric])
  next
    case 2
    then have "c \<in> {char_of (0xC0 + q div 64), char_of (0x80 + q mod 64)}"
      using c by (simp add: encodeRune_def q_def [symmetric])
    then show ?thesis using b [of "q div 64" "0xC0"] b [of "q mod 64" "0x80"] d 2 by auto
  next
    case 3
    then have "c \<in> {char_of (0xE0 + q div 4096), char_of (0x80 + q div 64 mod 64), char_of (0x80 + q mod 64)}"
      using c by (simp add: encodeRune_def q_def [symmetric])
    moreover have "code (char_of (0xE0 + q div 4096)) = 0xE0 + q div 4096" using d' 3 by simp
    ultimately show ?thesis using b [of "q div 64 mod 64" "0x80"] b [of "q mod 64" "0x80"] by auto
  next
    case 4
    then have "c \<in> {char_of (0xF0 + q div 262144), char_of (0x80 + q div 4096 mod 64), char_of (0x80 + q div 64 mod 64),
        char_of (0x80 + q mod 64)}"
      using c by (simp add: encodeRune_def q_def [symmetric])
    moreover have "code (char_of (0xF0 + q div 262144)) = 0xF0 + q div 262144" using d'' by simp
    ultimately show ?thesis
      using b [of "q div 4096 mod 64" "0x80"] b [of "q div 64 mod 64" "0x80"] b [of "q mod 64" "0x80"] by auto
  qed
qed
lemma read_label_steps:
  "c \<noteq> DQUOTE \<Longrightarrow> c \<noteq> BACKSLASH \<Longrightarrow> read_label (c # s) = prepend [c] (read_label s)"
  "read_label (BACKSLASH # BACKSLASH # s) = prepend [BACKSLASH] (read_label s)"
  "read_label (BACKSLASH # DQUOTE # s) = prepend [DQUOTE] (read_label s)"
  "read_label (BACKSLASH # CHR ''n'' # s) = prepend [NL] (read_label s)"
  "read_label (DQUOTE # s) = Some ([], s)"
  by simp_all

declare read_label.simps [simp del]

lemma read_label_plain:
  assumes "\<forall>c \<in> set x. c \<noteq> DQUOTE \<and> c \<noteq> BACKSLASH"
  shows "read_label (x @ t) = prepend x (read_label t)"
  using assms by (induction x) (simp_all add: read_label_steps)

lemma encode_specials:
  "encodeRune 0x5C = [BACKSLASH]" "encodeRune 0x22 = [DQUOTE]" "encodeRune 0x0A = [NL]"
  by (simp_all add: encodeRune_def char_of_eq_iff)

lemma read_escape:
  assumes "valid_rune r"
  shows "read_label (prom_escape r @ t) = prepend (encodeRune r) (read_label t)"
proof -
  have "c \<noteq> DQUOTE \<and> c \<noteq> BACKSLASH" if "c \<in> set (encodeRune r)" "r \<noteq> 0x5C" "r \<noteq> 0x22" for c
    using encodeRune_bytes [OF that(1)] that(2,3) by (cases "c = DQUOTE"; cases "c = BACKSLASH"; simp)
  then have plain: ?thesis if "r \<noteq> 0x5C" "r \<noteq> 0x22" "r \<noteq> 0x0A"
    using that read_label_plain [of "encodeRune r" t] by (simp add: prom_escape_def)
  consider "r = 0x5C" | "r = 0x22" | "r = 0x0A" | "r \<noteq> 0x5C" "r \<noteq> 0x22" "r \<noteq> 0x0A" by blast
  then show ?thesis
  proof cases
    case 4
    then show ?thesis by (rule plain)
  next
    case 1
    then show ?thesis by (simp only: encode_specials) (simp add: prom_escape_def read_label_steps)
  next
    case 2
    then show ?thesis by (simp only: encode_specials) (simp add: prom_escape_def read_label_steps)
  next
    case 3
    then show ?thesis by (simp only: encode_specials) (simp add: prom_escape_def read_label_steps)
  qed
qed

lemma read_escapes:
  "list_all valid_rune rs \<Longrightarrow>
    read_label (concat (map prom_escape rs) @ DQUOTE # t) = Some (concat (map encodeRune rs), t)"
  by (induction rs) (simp_all add: read_escape read_label_steps)

lemma read_promLabel: "read_label (drop 1 (promLabel v) @ t) = Some (ToValidUTF8 v, t)"
proof -
  obtain rs where rs: "ToValidUTF8 v = concat (map encodeRune rs)" "list_all valid_rune rs"
    using toValid_runes unfolding ToValidUTF8_def by blast
  then have "runes (ToValidUTF8 v) = rs" by (simp add: runes_encode)
  then show ?thesis using read_escapes [OF rs(2), of t] rs(1) by (simp add: promLabel_def)
qed

lemma promLabel_line: "NL \<notin> set (promLabel v)"
proof -
  have "c \<noteq> NL" if "c \<in> set (prom_escape r)" for c r
  proof (cases "r \<in> {0x5C, 0x22, 0x0A}")
    case True
    then show ?thesis using that by (auto simp: prom_escape_def)
  next
    case False
    then show ?thesis using that encodeRune_bytes [of c r] by (cases "c = NL") (simp_all add: prom_escape_def)
  qed
  then show ?thesis by (auto simp: promLabel_def)
qed

subsection \<open>Lines\<close>

definition plain_key :: "string \<Rightarrow> bool" where
  "plain_key k \<longleftrightarrow> list_all (\<lambda>c. c \<notin> {CHR ''='', CHR ''{'', CHR '' '', NL}) k"

lemma takeWhile_key: "plain_key k \<Longrightarrow> takeWhile (\<lambda>c. c \<noteq> CHR ''='') (k @ CHR ''='' # t) = k"
  "plain_key k \<Longrightarrow> dropWhile (\<lambda>c. c \<noteq> CHR ''='') (k @ CHR ''='' # t) = CHR ''='' # t"
  by (induction k) (auto simp: plain_key_def)

lemma parse_one:
  assumes "plain_key k"
  shows "parse_labels (k @ ''='' @ promLabel v @ t) =
    (if take 1 t = '','' then prepend [(k, ToValidUTF8 v)] (parse_labels (drop 1 t))
     else if take 1 t = ''}'' then Some ([(k, ToValidUTF8 v)], drop 1 t) else None)"
proof -
  obtain l where l: "promLabel v = DQUOTE # l" by (simp add: promLabel_def)
  have "k @ ''='' @ promLabel v @ t = k @ CHR ''='' # DQUOTE # l @ t" by (simp add: l)
  moreover have "read_label (l @ t) = Some (ToValidUTF8 v, t)" using read_promLabel [of v t] by (simp add: l)
  ultimately show ?thesis by (subst parse_labels.simps) (simp add: takeWhile_key assms Let_def)
qed

lemma parse_labels_text:
  "kvs \<noteq> [] \<Longrightarrow> list_all (\<lambda>kv. plain_key (fst kv)) kvs \<Longrightarrow>
    parse_labels (join (map kv_text kvs) '','' @ ''}'' @ t) = Some (map (apsnd ToValidUTF8) kvs, t)"
proof (induction kvs rule: induct_list012)
  case (2 kv)
  then show ?case using parse_one [of "fst kv" "snd kv" "''}'' @ t"] by (simp add: kv_text_def apsnd_def map_prod_def case_prod_beta)
next
  case (3 kv kv' kvs)
  define rest where "rest = join (map kv_text (kv' # kvs)) '','' @ ''}'' @ t"
  have "parse_labels rest = Some (map (apsnd ToValidUTF8) (kv' # kvs), t)" unfolding rest_def using 3 by simp
  moreover have "parse_labels (kv_text kv @ '','' @ rest) = prepend [(fst kv, ToValidUTF8 (snd kv))] (parse_labels rest)"
    using parse_one [of "fst kv" "snd kv" "'','' @ rest"] 3 by (simp add: kv_text_def)
  ultimately have "parse_labels (kv_text kv @ '','' @ rest) = Some (map (apsnd ToValidUTF8) (kv # kv' # kvs), t)"
    by (simp add: apsnd_def map_prod_def case_prod_beta)
  then show ?case by (simp add: rest_def)
qed simp

definition sample_ok :: "sample \<Rightarrow> bool" where
  "sample_ok s \<longleftrightarrow> list_all (\<lambda>kv. plain_key (fst kv)) (fst s) \<and> NL \<notin> set (snd s)"

definition family_ok :: "family \<Rightarrow> bool" where
  "family_ok f \<longleftrightarrow> plain_key (fa_name f) \<and> NL \<notin> set (fa_help f) \<and> NL \<notin> set (fa_typ f) \<and> list_all sample_ok (fa_samples f)"

lemma takeWhile_name:
  "plain_key n \<Longrightarrow> c = CHR ''{'' \<or> c = CHR '' '' \<Longrightarrow> takeWhile (\<lambda>c. c \<noteq> CHR ''{'' \<and> c \<noteq> CHR '' '') (n @ c # t) = n"
  by (induction n) (auto simp: plain_key_def)

lemma parse_sample_line:
  assumes "plain_key n" "sample_ok s"
  shows "parse_sample (sample_line n s) = Some (''ucmon_'' @ n, map (apsnd ToValidUTF8) (fst s), snd s)"
proof -
  have n: "plain_key (''ucmon_'' @ n)" using assms(1) by (simp add: plain_key_def)
  have no: "\<not> hasPrefix (''ucmon_'' @ t) ''# ''" for t by (simp add: hasPrefix_def)
  show ?thesis
  proof (cases "fst s = []")
    case True
    then show ?thesis
      using takeWhile_name [OF n, of "CHR '' ''" "snd s"] no [of "n @ '' '' @ snd s"]
      by (simp add: parse_sample_def sample_line_def labels_text_def Let_def)
  next
    case False
    define kvt where "kvt = join (map kv_text (fst s)) '','' @ ''}'' @ '' '' @ snd s"
    have l: "sample_line n s = (''ucmon_'' @ n) @ CHR ''{'' # kvt" using False
      by (simp add: sample_line_def labels_text_def kvt_def)
    have p: "parse_labels kvt = Some (map (apsnd ToValidUTF8) (fst s), '' '' @ snd s)"
      unfolding kvt_def using parse_labels_text [OF False] assms(2) by (simp add: sample_ok_def)
    show ?thesis
      using takeWhile_name [OF n, of "CHR ''{''" kvt] no [of "n @ CHR ''{'' # kvt"] p
      unfolding l parse_sample_def Let_def by simp
  qed
qed

lemma sample_line_no: "plain_key n \<Longrightarrow> sample_ok s \<Longrightarrow> NL \<notin> set (sample_line n s)"
proof -
  assume a: "plain_key n" "sample_ok s"
  have key: "NL \<notin> set k" if "plain_key k" for k using that by (auto simp: plain_key_def list_all_iff)
  have "NL \<notin> set (kv_text kv)" if "plain_key (fst kv)" for kv
    using key [OF that] promLabel_line by (simp add: kv_text_def)
  then have "NL \<notin> set (join (map kv_text kvs) '','')" if "list_all (\<lambda>kv. plain_key (fst kv)) kvs" for kvs
    using that by (induction kvs rule: induct_list012) simp_all
  then show ?thesis using a
    by (simp add: sample_line_def labels_text_def sample_ok_def key)
qed

definition family_lines :: "family \<Rightarrow> string list" where
  "family_lines f =
     (if fa_samples f = [] then []
      else [''# HELP ucmon_'' @ fa_name f @ '' '' @ fa_help f, ''# TYPE ucmon_'' @ fa_name f @ '' '' @ fa_typ f] @
           map (sample_line (fa_name f)) (fa_samples f))"

lemma split_samples:
  "plain_key n \<Longrightarrow> list_all sample_ok ss \<Longrightarrow>
    split (concat (map (\<lambda>s. sample_line n s @ [NL]) ss) @ t) NL = map (sample_line n) ss @ split t NL"
  by (induction ss) (simp_all add: split_sep sample_line_no)

lemma split_family:
  assumes "family_ok f"
  shows "split (family_text f @ t) NL = family_lines f @ split t NL"
proof -
  have ok: "plain_key (fa_name f)" "NL \<notin> set (fa_help f)" "NL \<notin> set (fa_typ f)" "list_all sample_ok (fa_samples f)"
    using assms by (simp_all add: family_ok_def)
  then have n: "NL \<notin> set (fa_name f)" by (auto simp: plain_key_def list_all_iff)
  define hl tl' where lines: "hl = ''# HELP ucmon_'' @ fa_name f @ '' '' @ fa_help f"
    "tl' = ''# TYPE ucmon_'' @ fa_name f @ '' '' @ fa_typ f"
  have no: "NL \<notin> set hl" "NL \<notin> set tl'" using ok n by (simp_all add: lines)
  have "split (family_text f @ t) NL = hl # tl' # map (sample_line (fa_name f)) (fa_samples f) @ split t NL"
    if "fa_samples f \<noteq> []"
  proof -
    have "family_text f @ t = hl @ NL # tl' @ NL # concat (map (\<lambda>s. sample_line (fa_name f) s @ [NL]) (fa_samples f)) @ t"
      using that by (simp add: family_text_def lines)
    then show ?thesis by (simp only: split_sep [OF no(1)] split_sep [OF no(2)] split_samples [OF ok(1,4)])
  qed
  moreover have "family_lines f = hl # tl' # map (sample_line (fa_name f)) (fa_samples f)" if "fa_samples f \<noteq> []"
    using that by (simp add: family_lines_def lines)
  ultimately show ?thesis
    by (cases "fa_samples f = []") (simp_all add: family_text_def family_lines_def [of f] del: split.simps)
qed

lemma split_families: "list_all family_ok fs \<Longrightarrow>
    split (concat (map family_text fs) @ t) NL = concat (map family_lines fs) @ split t NL"
  by (induction fs) (simp_all add: split_family)

lemma parse_family:
  assumes "family_ok f"
  shows "map parse_sample (filter (\<lambda>l. \<not> hasPrefix l ''# '') (family_lines f)) = map Some (family_rows f)"
proof -
  have c: "hasPrefix (''# HELP ucmon_'' @ x) ''# ''" "hasPrefix (''# TYPE ucmon_'' @ x) ''# ''"
    "\<not> hasPrefix (sample_line n s) ''# ''" for x n s
    by (simp_all add: hasPrefix_def sample_line_def)
  have p: "parse_sample (sample_line (fa_name f) x) = Some (case x of (kvs, v) \<Rightarrow> (''ucmon_'' @ fa_name f, map (apsnd ToValidUTF8) kvs, v))"
    if "x \<in> set (fa_samples f)" for x
    using that assms parse_sample_line [of "fa_name f" x] by (simp add: family_ok_def list_all_iff case_prod_beta)
  have "filter (\<lambda>l. \<not> hasPrefix l ''# '') (map (sample_line (fa_name f)) ss) = map (sample_line (fa_name f)) ss" for ss
    by (induction ss) (simp_all add: c)
  then show ?thesis
    using c p by (simp add: family_lines_def family_rows_def)
qed

subsection \<open>The exposition\<close>

lemma digits_no_NL: "NL \<notin> set (nat_digits n)"
  by (rule nat_digits_no) (simp add: is_digit_def)

lemma groups_ok:
  assumes "\<And>v. NL \<notin> set (num v)"
  shows "list_all family_ok (cpu_families num m)" "list_all family_ok (mem_families num m)"
    "list_all family_ok (disk_families num m)" "list_all family_ok (net_families num m)"
    "list_all family_ok (power_families num m)" "list_all family_ok (storage_families num m)"
    "list_all family_ok (ping_families num m)" "list_all family_ok (psi_families num m)"
proof -
  have b: "NL \<notin> set (boolMetric v)" for v by (simp add: boolMetric_def)
  have s: "list_all sample_ok (sort_by r xs) = list_all sample_ok xs" for r xs
    by (simp add: list_all_iff set_sort_by)
  note defs = family_ok_def gauge_def counter_def plain_key_def sample_ok_def assms b s Let_def list_all_iff
  show "list_all family_ok (cpu_families num m)"
    by (auto simp: cpu_families_def temp_samples_def defs)
  show "list_all family_ok (mem_families num m)"
    by (auto simp: mem_families_def defs)
  show "list_all family_ok (disk_families num m)"
    by (auto simp: disk_families_def disk_labels_def defs)
  show "list_all family_ok (net_families num m)"
    by (auto simp: net_families_def defs)
  show "list_all family_ok (power_families num m)"
    by (auto simp: power_families_def defs)
  show "list_all family_ok (storage_families num m)"
    by (auto simp: storage_families_def defs split: option.splits)
  show "list_all family_ok (ping_families num m)"
    by (auto simp: ping_families_def defs split: option.splits if_splits)
  show "list_all family_ok (psi_families num m)"
    by (auto simp: psi_families_def defs)
qed

definition family_order :: "string list" where
  "family_order =
     [''cpu_usage_percent'', ''cpu_mode_percent'', ''temperature_celsius''] @
     [''memory_used_percent'', ''memory_used_bytes'', ''memory_total_bytes'', ''swap_used_percent'', ''oom_kills_total'', ''load1''] @
     [''filesystem_used_percent'', ''filesystem_free_bytes'', ''filesystem_readonly'', ''filesystem_remounted_readonly''] @
     [''network_receive_bytes_per_second'', ''network_transmit_bytes_per_second'', ''network_bad_frames_total'',
      ''wifi_signal_dbm''] @
     [''battery_percent'', ''battery_power_watts'', ''battery_health_percent'', ''throttled''] @
     [''storage_wear_percent''] @ [''ping_rtt_milliseconds'', ''ping_loss_percent''] @ [''pressure_some_avg10''] @
     [''alerts_active'']"

lemma family_order_distinct: "distinct family_order"
  unfolding family_order_def by code_simp

lemma family_names_order: "subseq (map fa_name (prom_families num ks m)) family_order"
  unfolding prom_families_def family_order_def map_append
  by (intro list_emb_append_mono; simp add: cpu_families_def mem_families_def disk_families_def net_families_def
      power_families_def storage_families_def ping_families_def psi_families_def gauge_def counter_def Let_def)

lemma family_names: "distinct (map fa_name (prom_families num ks m))"
  using family_names_order [of num ks m] family_order_distinct by (auto simp: subseq_conv_nths)

lemma prom_families_ok: "(\<And>v. NL \<notin> set (num v)) \<Longrightarrow> list_all family_ok (prom_families num ks m)"
proof -
  assume num: "\<And>v. NL \<notin> set (num v)"
  have "family_ok (gauge ''alerts_active'' h [([], nat_digits n)])" if "NL \<notin> set h" for h n
    using that digits_no_NL by (simp add: family_ok_def gauge_def plain_key_def sample_ok_def)
  then show ?thesis using groups_ok [OF num] by (simp add: prom_families_def)
qed

text \<open>Families written one after the other read back as their rows.\<close>

lemma families_parse:
  assumes "list_all family_ok fs"
  shows "map parse_sample (filter (\<lambda>l. \<not> hasPrefix l ''# '') (exposition_lines (concat (map family_text fs)))) =
    map Some (concat (map family_rows fs))"
proof -
  have "exposition_lines (concat (map family_text fs)) = concat (map family_lines fs)"
    using split_families [OF assms, of "[]"] by (simp add: exposition_lines_def)
  moreover have "map parse_sample (filter (\<lambda>l. \<not> hasPrefix l ''# '') (concat (map family_lines fs))) =
      map Some (concat (map family_rows fs))"
    using assms by (induction fs) (simp_all add: parse_family)
  ultimately show ?thesis by simp
qed

text \<open>C19: What a scrape is served parses: read back by the exposition format's own rules, its lines are
  exactly the samples of the families, in order, with every label's value as it was but for invalid
  UTF-8 - no mount path, sensor name or interface can break a line or leak into another sample - and
  no family occurs twice.\<close>

theorem prometheus_parses:
  assumes "\<And>v. NL \<notin> set (num v)"
  shows "map parse_sample (filter (\<lambda>l. \<not> hasPrefix l ''# '') (exposition_lines (buildPrometheus num ks m))) =
      map Some (concat (map family_rows (prom_families num ks m))) \<and>
    distinct (map fa_name (prom_families num ks m))"
  using families_parse [OF prom_families_ok [OF assms]] family_names by (simp add: buildPrometheus_def)

text \<open>A mount point with a quote and a line break in it comes back whole.\<close>

definition odd_mount_model :: Model where
  "odd_mount_model = hot_model\<lparr>m_disks := [\<lparr>di_Device = ''/dev/sda1'', di_MountPoint = [CHR ''/'', DQUOTE, NL],
     di_FSType = ''ext4'', di_Total = 10, di_Used = 5, di_Free = 5, di_UsedPct = 50, di_ReadOnly = False,
     di_RemountedRO = False\<rparr>]\<rparr>"

theorem prometheus_parses_witness:
  "Some (''ucmon_filesystem_used_percent'', [(''mount'', [CHR ''/'', DQUOTE, NL]), (''fstype'', ''ext4'')], ''1'') \<in>
    set (map parse_sample (filter (\<lambda>l. \<not> hasPrefix l ''# '')
      (exposition_lines (buildPrometheus (\<lambda>_. ''1'') [] odd_mount_model))))"
proof -
  have u: "ToValidUTF8 [CHR ''/'', DQUOTE, NL] = [CHR ''/'', DQUOTE, NL]" "ToValidUTF8 ''ext4'' = ''ext4''"
    by (simp_all add: ToValidUTF8_def toValid.simps decodeRune_def)
  have "m_disks odd_mount_model = [\<lparr>di_Device = ''/dev/sda1'', di_MountPoint = [CHR ''/'', DQUOTE, NL],
     di_FSType = ''ext4'', di_Total = 10, di_Used = 5, di_Free = 5, di_UsedPct = 50, di_ReadOnly = False,
     di_RemountedRO = False\<rparr>]" by (simp add: odd_mount_model_def)
  then have "(''ucmon_filesystem_used_percent'', [(''mount'', [CHR ''/'', DQUOTE, NL]), (''fstype'', ''ext4'')], ''1'') \<in>
      set (concat (map family_rows (disk_families (\<lambda>_. ''1'') odd_mount_model)))"
    by (simp add: disk_families_def family_rows_def gauge_def disk_labels_def u)
  then have mem: "(''ucmon_filesystem_used_percent'', [(''mount'', [CHR ''/'', DQUOTE, NL]), (''fstype'', ''ext4'')], ''1'') \<in>
      set (concat (map family_rows (prom_families (\<lambda>_. ''1'') [] odd_mount_model)))"
    by (simp only: prom_families_def map_append concat_append set_append Un_iff) blast
  have "NL \<notin> set ((\<lambda>_ :: f64. ''1'') v)" for v by simp
  note eq = prometheus_parses [OF this, THEN conjunct1, of "[]" odd_mount_model]
  show ?thesis unfolding eq set_map by (rule imageI) (fact mem)
qed

end
