(* ===== verification/Snapshot.thy ===== *)
theory Snapshot
  imports Metrics
begin

text \<open>
  The machine-readable snapshot (\<open>SnapshotJSON\<close> of \<open>internal/ui/metrics.go\<close>): what every section takes
  from the model. A map of the JSON is a map here; a pointer left out is \<open>None\<close>.
\<close>

section \<open>The document\<close>

record cpuJSON =
  jc_TotalPct :: f64
  jc_PerCore :: "f64 list"
  jc_Breakdown :: "string \<rightharpoonup> f64"
  jc_Busiest :: string
  jc_Temps :: "string \<rightharpoonup> f64"
  jc_Governors :: "string \<rightharpoonup> string"
  jc_ClocksMHz :: "string \<rightharpoonup> f64"

record memJSON =
  jm_TotalB :: "64 word"
  jm_UsedB :: "64 word"
  jm_AvailableB :: "64 word"
  jm_UsedPct :: f64
  jm_SwapTotalB :: "64 word"
  jm_SwapUsedB :: "64 word"
  jm_SwapPct :: f64
  jm_OOMKills :: "64 word option"

record loadJSON =
  jl_Load1 :: f64
  jl_Load5 :: f64
  jl_Load15 :: f64
  jl_CPUs :: int

record psiJSON =
  jp_SomeAvg10 :: f64
  jp_SomeAvg60 :: f64
  jp_FullAvg10 :: f64

record batteryJSON =
  jb_Name :: string
  jb_Pct :: int
  jb_Status :: string
  jb_VoltageV :: f64
  jb_PowerW :: f64
  jb_HealthPct :: f64
  jb_SecondsLef :: f64
  jb_ACOnline :: "bool option"

record throttleJSON =
  jt_Raw :: "64 word"
  jt_UnderVoltageNow :: bool
  jt_ThrottledNow :: bool
  jt_FreqCappedNow :: bool
  jt_SoftTempLimitNow :: bool

record diskJSON =
  jd_Mount :: string
  jd_Device :: string
  jd_FSType :: string
  jd_TotalB :: nat
  jd_UsedB :: nat
  jd_UsedPct :: f64
  jd_ReadBps :: f64
  jd_WriteBps :: f64
  jd_ReadOnly :: bool
  jd_RemountedRO :: bool

record storageJSON =
  js_Device :: string
  js_Kind :: string
  js_Name :: string
  js_SizeB :: "64 word"
  js_WearPct :: f64
  js_PreEOL :: string
  js_ReadOnly :: bool
  js_Severity :: nat

record ifaceJSON =
  ji_Name :: string
  ji_Up :: bool
  ji_Addrs :: "string list"
  ji_RxBps :: f64
  ji_TxBps :: f64
  ji_ErrIn :: "64 word"
  ji_ErrOut :: "64 word"
  ji_DropIn :: "64 word"
  ji_DropOut :: "64 word"
  ji_BadPs :: f64
  ji_WiFiPct :: f64
  ji_WiFiDBm :: f64
  ji_SSID :: string
  ji_ChannelNo :: int

record latencyJSON =
  jr_Target :: string
  jr_Addr :: string
  jr_OK :: bool
  jr_RTTms :: f64
  jr_LossPct :: f64
  jr_Method :: string

record modemJSON =
  jo_Model :: string
  jo_State :: string
  jo_Registered :: bool
  jo_Operator :: string
  jo_AccessTech :: string
  jo_SignalPct :: int
  jo_RSSIdBm :: f64

record gpuJSON =
  jg_CoreTempC :: f64
  jg_CoreVolts :: f64
  jg_MemARMMB :: int
  jg_MemGPUMB :: int
  jg_Clocks :: "string \<rightharpoonup> f64"

record procJSON =
  jx_PID :: int
  jx_Name :: string
  jx_User :: string
  jx_CPUPct :: f64
  jx_MemPct :: f64
  jx_RSSB :: "64 word"
  jx_IOReadBps :: f64
  jx_IOWriteBps :: f64

record peaksJSON =
  jk_CPUPct :: f64
  jk_TempC :: f64
  jk_TempLabel :: string
  jk_Load1 :: f64
  jk_MemPct :: f64
  jk_BattMin :: int

record alertJSON =
  ja_Severity :: string
  ja_Message :: string

record SnapshotJSON =
  sj_Version :: string
  sj_Timestamp :: time
  sj_Host :: string
  sj_UptimeSec :: f64
  sj_CPU :: cpuJSON
  sj_Memory :: memJSON
  sj_Load :: loadJSON
  sj_Pressure :: "string \<rightharpoonup> psiJSON"
  sj_Battery :: "batteryJSON option"
  sj_Throttle :: "throttleJSON option"
  sj_Disks :: "diskJSON list"
  sj_Storage :: "storageJSON list"
  sj_Network :: "ifaceJSON list"
  sj_Latency :: "latencyJSON list"
  sj_Modem :: "modemJSON option"
  sj_GPU :: "gpuJSON option"
  sj_TopProcs :: "procJSON list"
  sj_Peaks :: peaksJSON
  sj_Alerts :: "alertJSON list"

section \<open>Its sections\<close>

text \<open>A map filled in a loop: the last entry of a key stays.\<close>

definition keyed :: "('k \<times> 'v) list \<Rightarrow> 'k \<rightharpoonup> 'v" where
  "keyed kvs = map_of (rev kvs)"

definition seconds_of :: "duration \<Rightarrow> f64" where
  "seconds_of d = of_int d / of_int second"

definition cpu_json :: "CPUSnapshot \<Rightarrow> cpuJSON" where
  "cpu_json s =
     (let b = cs_Breakdown s in
      \<lparr>jc_TotalPct = cs_TotalPercent s, jc_PerCore = cs_PerCorePercent s,
       jc_Breakdown = (if cb_Valid b then keyed [(''user'', cb_User b), (''system'', cb_System b), (''nice'', cb_Nice b),
         (''iowait'', cb_Iowait b), (''irq'', cb_IRQ b), (''steal'', cb_Steal b), (''idle'', cb_Idle b)] else Map.empty),
       jc_Busiest = (if cb_Valid b then cb_Busiest b else []),
       jc_Temps = keyed (map (\<lambda>t. (tr_Label t, tr_Temp t)) (cs_Temperatures s)),
       jc_Governors = keyed (map (\<lambda>f. (pf_Policy f, pf_Governor f)) (cs_Freqs s)),
       jc_ClocksMHz = keyed (map (\<lambda>f. (pf_Policy f, pf_CurMHz f)) (cs_Freqs s))\<rparr>)"

definition mem_json :: "MemSnapshot \<Rightarrow> memJSON" where
  "mem_json s = \<lparr>jm_TotalB = ms_Total s, jm_UsedB = ms_Used s, jm_AvailableB = ms_Available s, jm_UsedPct = ms_UsedPct s,
     jm_SwapTotalB = ms_SwapTotal s, jm_SwapUsedB = ms_SwapUsed s, jm_SwapPct = ms_SwapUsedPct s,
     jm_OOMKills = oomKillsJSON s\<rparr>"

definition pressure_json :: "PSISnapshot \<Rightarrow> string \<rightharpoonup> psiJSON" where
  "pressure_json p =
     (if ps_Present p then
        keyed (map (\<lambda>(name, r). (name, \<lparr>jp_SomeAvg10 = SomeAvg10 r, jp_SomeAvg60 = SomeAvg60 r, jp_FullAvg10 = FullAvg10 r\<rparr>))
          (filter (\<lambda>(name, r). HasSome r) [(''cpu'', ps_CPU p), (''memory'', ps_Mem p), (''io'', ps_IO p)]))
      else Map.empty)"

definition battery_json :: "PowerSnapshot \<Rightarrow> batteryJSON option" where
  "battery_json p =
     (let b = pw_Battery p in
      if ba_Present b then
        Some \<lparr>jb_Name = ba_Name b, jb_Pct = ba_Capacity b, jb_Status = ba_Status b, jb_VoltageV = ba_VoltageV b,
          jb_PowerW = ba_PowerW b, jb_HealthPct = ba_HealthPct b, jb_SecondsLef = seconds_of (ba_TimeLeft b),
          jb_ACOnline = (if pw_ACKnown p then Some (pw_ACOnline p) else None)\<rparr>
      else None)"

definition throttle_json :: "ThrottleInfo \<Rightarrow> throttleJSON option" where
  "throttle_json t =
     (if th_Available t then
        Some \<lparr>jt_Raw = th_Raw t, jt_UnderVoltageNow = th_UnderVoltageNow t, jt_ThrottledNow = th_ThrottledNow t,
          jt_FreqCappedNow = th_FreqCappedNow t, jt_SoftTempLimitNow = th_SoftTempLimitNow t\<rparr>
      else None)"

definition disk_json :: "(string \<rightharpoonup> DiskIOInfo) \<Rightarrow> DiskInfo \<Rightarrow> diskJSON" where
  "disk_json ioByDev d =
     (let (r, w) = (case diskIOFor ioByDev (di_Device d) of Some io \<Rightarrow> (io_ReadBps io, io_WriteBps io) | None \<Rightarrow> (0, 0)) in
      \<lparr>jd_Mount = di_MountPoint d, jd_Device = di_Device d, jd_FSType = di_FSType d, jd_TotalB = di_Total d,
       jd_UsedB = di_Used d, jd_UsedPct = di_UsedPct d, jd_ReadBps = r, jd_WriteBps = w, jd_ReadOnly = di_ReadOnly d,
       jd_RemountedRO = di_RemountedRO d\<rparr>)"

definition storage_json :: "StorageHealth \<Rightarrow> storageJSON" where
  "storage_json h = \<lparr>js_Device = sh_Device h, js_Kind = sh_Kind h, js_Name = sh_Name h, js_SizeB = sh_SizeB h,
     js_WearPct = (case WearPct h of Some pct \<Rightarrow> pct | None \<Rightarrow> 0), js_PreEOL = EOLLabel h, js_ReadOnly = sh_ReadOnly h,
     js_Severity = Severity h\<rparr>"

definition iface_json :: "(string \<rightharpoonup> IWLink) \<Rightarrow> IfaceInfo \<Rightarrow> ifaceJSON" where
  "iface_json links i =
     \<lparr>ji_Name = if_Name i, ji_Up = if_IsUp i, ji_Addrs = if_Addrs i, ji_RxBps = if_RxBps i, ji_TxBps = if_TxBps i,
      ji_ErrIn = if_ErrIn i, ji_ErrOut = if_ErrOut i, ji_DropIn = if_DropIn i, ji_DropOut = if_DropOut i,
      ji_BadPs = BadFrames i,
      ji_WiFiPct = (if wf_Present (if_WiFi i) then wf_QualityPct (if_WiFi i) else 0),
      ji_WiFiDBm = (if wf_Present (if_WiFi i) then wf_SignalDBm (if_WiFi i) else 0),
      ji_SSID = (case links (if_Name i) of Some l \<Rightarrow> iw_SSID l | None \<Rightarrow> []),
      ji_ChannelNo = (case links (if_Name i) of Some l \<Rightarrow> iw_Channel l | None \<Rightarrow> 0)\<rparr>"

definition latency_json :: "(string \<rightharpoonup> bool list) \<Rightarrow> PingResult \<Rightarrow> latencyJSON" where
  "latency_json wins r =
     \<lparr>jr_Target = pr_Target r, jr_Addr = pr_Addr r, jr_OK = pr_OK r,
      jr_RTTms = (if pr_OK r then of_int (pr_RTT r sdiv 1000) / 1000 else 0),
      jr_LossPct = (case wins (pr_Target r) of Some win \<Rightarrow> if win \<noteq> [] then lossPct win else 0 | None \<Rightarrow> 0),
      jr_Method = pr_Method r\<rparr>"

definition modem_json :: "ModemInfo \<Rightarrow> modemJSON option" where
  "modem_json m =
     (if mo_Present m then
        Some \<lparr>jo_Model = mo_Model m, jo_State = mo_State m, jo_Registered = Registered m, jo_Operator = mo_Operator m,
          jo_AccessTech = mo_AccessTech m, jo_SignalPct = mo_SignalPct m, jo_RSSIdBm = mo_RSSIdBm m\<rparr>
      else None)"

definition gpu_json :: "GPUInfo \<Rightarrow> gpuJSON option" where
  "gpu_json g =
     (if gp_Available g then
        Some \<lparr>jg_CoreTempC = gp_CoreTempC g, jg_CoreVolts = gp_CoreVolts g, jg_MemARMMB = gp_MemARMMB g,
          jg_MemGPUMB = gp_MemGPUMB g, jg_Clocks = keyed (map (\<lambda>c. (cr_Name c, cr_MHz c)) (gp_Clocks g))\<rparr>
      else None)"

definition proc_json :: "ProcInfo \<Rightarrow> procJSON" where
  "proc_json p = \<lparr>jx_PID = pi_PID p, jx_Name = pi_Name p, jx_User = pi_User p, jx_CPUPct = pi_CPUPct p,
     jx_MemPct = pi_MemPct p, jx_RSSB = pi_MemRSS p, jx_IOReadBps = pi_IOReadBps p, jx_IOWriteBps = pi_IOWriteBps p\<rparr>"

definition peaks_json :: "sessionPeaks \<Rightarrow> peaksJSON" where
  "peaks_json p = \<lparr>jk_CPUPct = pk_cpuPct p, jk_TempC = pk_tempC p, jk_TempLabel = pk_tempLabel p, jk_Load1 = pk_load1 p,
     jk_MemPct = pk_memPct p, jk_BattMin = max (pk_battMin p) 0\<rparr>"

definition alert_json :: "alertCond \<Rightarrow> alertJSON" where
  "alert_json a = \<lparr>ja_Severity = label (ac_sev a), ja_Message = ac_msg a\<rparr>"

definition snapshotJSON :: "string \<Rightarrow> time \<Rightarrow> string list \<Rightarrow> Model \<Rightarrow> SnapshotJSON" where
  "snapshotJSON version now ks m =
     (let l = pw_Load (m_powerSnap m) in
      \<lparr>sj_Version = version, sj_Timestamp = now, sj_Host = ns_Hostname (m_netSnap m),
       sj_UptimeSec = seconds_of (ns_Uptime (m_netSnap m)),
       sj_CPU = cpu_json (m_cpuSnap m), sj_Memory = mem_json (m_memSnap m),
       sj_Load = \<lparr>jl_Load1 = ld_Load1 l, jl_Load5 = ld_Load5 l, jl_Load15 = ld_Load15 l, jl_CPUs = ld_CPUCount l\<rparr>,
       sj_Pressure = pressure_json (m_psi m), sj_Battery = battery_json (m_powerSnap m),
       sj_Throttle = throttle_json (pw_Throttle (m_powerSnap m)),
       sj_Disks = map (disk_json (io_by_dev (m_diskIOs m))) (m_disks m), sj_Storage = map storage_json (m_storage m),
       sj_Network = map (iface_json (m_iwLinks m)) (upIfaces m),
       sj_Latency = map (latency_json (m_lossWin m)) (m_pings m), sj_Modem = modem_json (m_modem m),
       sj_GPU = gpu_json (m_gpuSnap m), sj_TopProcs = map proc_json (topProcs 10 m),
       sj_Peaks = peaks_json (m_peaks m), sj_Alerts = map alert_json (activeList (m_alerts m) ks)\<rparr>)"

end
