(* ===== verification/History.thy ===== *)
theory History
  imports Screen_Safety
begin

text \<open>
  The sparkline history that outlives a session (\<open>internal/ui/history.go\<close>): what is written, how the
  file is replaced, what a later session takes back. \<open>encoding/json\<close> is a pair of arguments,
  \<open>marshal\<close> (which may refuse) and \<open>unmarshal\<close>; what a power cut leaves of the file system is spelled out.
\<close>

section \<open>What is kept\<close>

definition historyFormat :: int where "historyFormat = 1"

definition historyMaxAge :: duration where "historyMaxAge = 6 * 3600 * second"

text \<open>The peaks have the fields of the session's own; a Go map without a key is \<open>Map.empty\<close> there.\<close>

record persistedHistory =
  ph_Format :: int
  ph_SavedAt :: time
  ph_Version :: string
  ph_CPU :: "f64 list"
  ph_Mem :: "f64 list"
  ph_Swap :: "f64 list"
  ph_Load :: "f64 list"
  ph_Batt :: "f64 list"
  ph_BattW :: "f64 list"
  ph_Cores :: "f64 list list"
  ph_Temps :: "string \<rightharpoonup> f64 list"
  ph_Freqs :: "string \<rightharpoonup> f64 list"
  ph_Rx :: "string \<rightharpoonup> f64 list"
  ph_Tx :: "string \<rightharpoonup> f64 list"
  ph_RTT :: "string \<rightharpoonup> f64 list"
  ph_Peaks :: sessionPeaks

text \<open>Reading a Go map at a missing key gives the empty slice; such a key is not in the file.\<close>

definition entries_of :: "(string \<Rightarrow> f64 list) \<Rightarrow> string \<rightharpoonup> f64 list" where
  "entries_of h k = (if h k = [] then None else Some (h k))"

definition persisted :: "string \<Rightarrow> time \<Rightarrow> Model \<Rightarrow> persistedHistory" where
  "persisted version now m =
     \<lparr>ph_Format = historyFormat, ph_SavedAt = now, ph_Version = version,
      ph_CPU = m_cpuHist m, ph_Mem = m_memHist m, ph_Swap = m_swapHist m, ph_Load = m_loadHist m,
      ph_Batt = m_battHist m, ph_BattW = m_battWHist m, ph_Cores = m_coreHists m,
      ph_Temps = entries_of (m_tempHist m), ph_Freqs = entries_of (m_freqHist m),
      ph_Rx = m_rxHist m, ph_Tx = m_txHist m, ph_RTT = entries_of (m_rttHist m), ph_Peaks = m_peaks m\<rparr>"

section \<open>Loading\<close>

definition clampMap :: "int \<Rightarrow> (string \<rightharpoonup> f64 list) \<Rightarrow> string \<rightharpoonup> f64 list" where
  "clampMap limit mp k =
     (case mp k of Some v \<Rightarrow> if v \<noteq> [] then Some (ClampHistory v limit) else None | None \<Rightarrow> None)"

definition restore_peaks :: "sessionPeaks \<Rightarrow> sessionPeaks \<Rightarrow> sessionPeaks" where
  "restore_peaks h p =
     \<lparr>pk_cpuPct = pk_cpuPct h, pk_tempC = pk_tempC h, pk_tempLabel = pk_tempLabel h, pk_load1 = pk_load1 h,
      pk_memPct = pk_memPct h, pk_battMin = (if pk_battMin h \<ge> 0 then pk_battMin h else pk_battMin p)\<rparr>"

definition take_history :: "persistedHistory \<Rightarrow> Model \<Rightarrow> Model" where
  "take_history h m =
     (let limit = histLen m; clamp = (\<lambda>s. ClampHistory s limit)
      in m\<lparr>m_cpuHist := clamp (ph_CPU h), m_memHist := clamp (ph_Mem h), m_swapHist := clamp (ph_Swap h),
           m_loadHist := clamp (ph_Load h), m_battHist := clamp (ph_Batt h), m_battWHist := clamp (ph_BattW h),
           m_coreHists := map clamp (ph_Cores h),
           m_tempHist := (if ph_Temps h = Map.empty then m_tempHist m else hist_of (clampMap limit (ph_Temps h))),
           m_freqHist := (if ph_Freqs h = Map.empty then m_freqHist m else hist_of (clampMap limit (ph_Freqs h))),
           m_rxHist := (if ph_Rx h = Map.empty then m_rxHist m else clampMap limit (ph_Rx h)),
           m_txHist := (if ph_Tx h = Map.empty then m_txHist m else clampMap limit (ph_Tx h)),
           m_rttHist := (if ph_RTT h = Map.empty then m_rttHist m else hist_of (clampMap limit (ph_RTT h))),
           m_peaks := restore_peaks (ph_Peaks h) (m_peaks m)\<rparr>)"

text \<open>\<open>Some\<close> is a successful restore, the \<open>restored\<close> flag of the model.\<close>

definition loadHistory :: "(string \<Rightarrow> persistedHistory option) \<Rightarrow> (string \<rightharpoonup> string) \<Rightarrow> time \<Rightarrow> Model \<Rightarrow> Model option" where
  "loadHistory unmarshal files now m =
     (if HistoryFile (m_cfg m) = [] then None
      else case files (HistoryFile (m_cfg m)) of
        None \<Rightarrow> None
      | Some b \<Rightarrow>
          (case unmarshal b of
             None \<Rightarrow> None
           | Some h \<Rightarrow>
               if ph_Format h \<noteq> historyFormat then None
               else if isZero (ph_SavedAt h) \<or> timeSub now (ph_SavedAt h) > historyMaxAge then None
               else Some (take_history h m)))"

definition Restore :: "(string \<Rightarrow> persistedHistory option) \<Rightarrow> (string \<rightharpoonup> string) \<Rightarrow> time \<Rightarrow> (string \<Rightarrow> string) \<Rightarrow> Model \<Rightarrow> Model" where
  "Restore unmarshal files now subtle m =
     (case loadHistory unmarshal files now m of
        None \<Rightarrow> m
      | Some m' \<Rightarrow> m'\<lparr>m_notice := notice_set now (subtle ''sparkline history restored from the previous session'')\<rparr>)"

definition Ran :: "Model \<Rightarrow> bool" where
  "Ran m \<longleftrightarrow> \<not> isZero (m_now m)"

text \<open>The start of a session (\<open>runTUI\<close> of \<open>cmd/ucmon/main.go\<close>).\<close>

definition start_tui where
  "start_tui fuel h now subtle warn unmarshal files opened cfg =
     FollowKernelLog opened (Restore unmarshal files now subtle (NewModel fuel h now warn cfg))"

section \<open>Saving\<close>

text \<open>
  The files by name and inode, and what of them a power cut spares: the names as they were at the last
  sync of the directory or as they are, and of a file written since its last sync some leading part.
\<close>

record disk_state =
  ds_names :: "string \<rightharpoonup> nat"
  ds_synced_names :: "string \<rightharpoonup> nat"
  ds_data :: "nat \<Rightarrow> string"
  ds_synced :: "nat \<Rightarrow> bool"

definition read_file :: "disk_state \<Rightarrow> string \<rightharpoonup> string" where
  "read_file st p = map_option (ds_data st) (ds_names st p)"

definition after_cut :: "disk_state \<Rightarrow> string \<Rightarrow> string option \<Rightarrow> bool" where
  "after_cut st p c \<longleftrightarrow>
     (\<exists>names \<in> {ds_names st, ds_synced_names st}.
        case names p of
          None \<Rightarrow> c = None
        | Some i \<Rightarrow> (\<exists>n. c = Some (take n (ds_data st i)) \<and> (ds_synced st i \<longrightarrow> c = Some (ds_data st i))))"

datatype save_op = Op_mkdir | Op_create | Op_write | Op_chmod | Op_sync | Op_close | Op_rename

definition save_ops :: "save_op list" where
  "save_ops = [Op_mkdir, Op_create, Op_write, Op_chmod, Op_sync, Op_close, Op_rename]"

definition do_op :: "string \<Rightarrow> nat \<Rightarrow> string \<Rightarrow> string \<Rightarrow> save_op \<Rightarrow> disk_state \<Rightarrow> disk_state" where
  "do_op tmp i path b op' st =
     (case op' of
        Op_create \<Rightarrow> st\<lparr>ds_names := (ds_names st)(tmp \<mapsto> i), ds_data := (ds_data st)(i := []), ds_synced := (ds_synced st)(i := False)\<rparr>
      | Op_write \<Rightarrow> st\<lparr>ds_data := (ds_data st)(i := b), ds_synced := (ds_synced st)(i := False)\<rparr>
      | Op_sync \<Rightarrow> st\<lparr>ds_synced := (ds_synced st)(i := True)\<rparr>
      | Op_rename \<Rightarrow> st\<lparr>ds_names := ((ds_names st)(path \<mapsto> i))(tmp := None)\<rparr>
      | _ \<Rightarrow> st)"

text \<open>A call that fails: a write may have put some of the bytes there, anything else has changed nothing.\<close>

definition fail_op :: "nat \<Rightarrow> nat \<Rightarrow> string \<Rightarrow> save_op \<Rightarrow> disk_state \<Rightarrow> disk_state" where
  "fail_op i n b op' st =
     (if op' = Op_write then st\<lparr>ds_data := (ds_data st)(i := take n b), ds_synced := (ds_synced st)(i := False)\<rparr> else st)"

definition remove_tmp :: "string \<Rightarrow> disk_state \<Rightarrow> disk_state" where
  "remove_tmp tmp st = st\<lparr>ds_names := (ds_names st)(tmp := None)\<rparr>"

text \<open>
  The calls in order up to the first that fails, the states they pass through, and whether all succeeded.
  The deferred removal runs once the temporary file exists; after the rename there is nothing to remove,
  and the directory is synced if it can be opened.
\<close>

fun save_run :: "(save_op \<Rightarrow> bool) \<Rightarrow> nat \<Rightarrow> string \<Rightarrow> nat \<Rightarrow> string \<Rightarrow> string \<Rightarrow> save_op list \<Rightarrow> disk_state \<Rightarrow> bool \<times> disk_state list" where
  "save_run fails n tmp i path b [] st = (True, [])"
| "save_run fails n tmp i path b (o' # os) st =
     (if fails o'
      then (False, [fail_op i n b o' st] @
             (if o' \<in> {Op_mkdir, Op_create} then [] else [remove_tmp tmp (fail_op i n b o' st)]))
      else let st' = do_op tmp i path b o' st; (ok, trace) = save_run fails n tmp i path b os st' in (ok, st' # trace))"

definition sync_dir :: "disk_state \<Rightarrow> disk_state" where
  "sync_dir st = st\<lparr>ds_synced_names := ds_names st\<rparr>"

record save_env =
  sv_version :: string
  sv_now :: time
  sv_marshal :: "persistedHistory \<Rightarrow> string option"
  sv_fails :: "save_op \<Rightarrow> bool"
  sv_part :: nat
  sv_tmp :: string
  sv_inode :: nat
  sv_opens_dir :: bool

text \<open>Every state the file system is in, the first one before the save; and whether the save succeeded.\<close>

definition saveHistory :: "save_env \<Rightarrow> Model \<Rightarrow> disk_state \<Rightarrow> bool \<times> disk_state list" where
  "saveHistory s m st =
     (if HistoryFile (m_cfg m) = [] then (True, [st])
      else case sv_marshal s (persisted (sv_version s) (sv_now s) m) of
        None \<Rightarrow> (False, [st])
      | Some b \<Rightarrow>
          let (ok, trace) = save_run (sv_fails s) (sv_part s) (sv_tmp s) (sv_inode s) (HistoryFile (m_cfg m)) b save_ops st
          in (ok, [st] @ trace @ (if ok \<and> sv_opens_dir s then [sync_dir (last trace)] else [])))"

section \<open>What a later session takes back\<close>

text \<open>Every series of a model, with the series behind a key as it is read.\<close>

definition series where
  "series m = (m_cpuHist m, m_memHist m, m_swapHist m, m_loadHist m, m_battHist m, m_battWHist m, m_coreHists m,
     m_tempHist m, m_freqHist m, hist_of (m_rxHist m), hist_of (m_txHist m), m_rttHist m)"

lemma clamp_short: "short c h \<Longrightarrow> ClampHistory h (hist_cap c) = h"
  by (auto simp: short_def ClampHistory_def hist_cap_def defaultHistoryLen_def)

lemma short_clamp [simp]: "short c (ClampHistory h (hist_cap c))"
  by (auto simp: short_def ClampHistory_def hist_cap_def defaultHistoryLen_def)

lemma histLen_cap: "histLen m = hist_cap (m_cfg m)"
  by (simp add: histLen_def hist_cap_def)

lemma hist_clampMap: "hist_of (clampMap limit mp) k = ClampHistory (hist_of mp k) limit"
  by (auto simp: hist_of_def clampMap_def ClampHistory_def split: option.split)

lemma hist_entries [simp]: "hist_of (entries_of h) k = h k"
  by (simp add: hist_of_def entries_of_def)

lemma hist_of_short: "\<forall>h \<in> ran mp. short c h \<Longrightarrow> short c (hist_of mp k)"
  by (auto simp: hist_of_def ran_def split: option.split)

lemma hist_clampMap_short: "(\<And>k. short c (hist_of mp k)) \<Longrightarrow> hist_of (clampMap (hist_cap c) mp) = hist_of mp"
  by (rule ext) (simp add: hist_clampMap clamp_short)

lemma restored_series:
  assumes "\<And>k. short c (f k)" "\<And>k. f0 k = []"
  shows "(if entries_of f = Map.empty then f0 else hist_of (clampMap (hist_cap c) (entries_of f))) = f"
proof (cases "entries_of f = Map.empty")
  case True
  then have "f k = []" for k using hist_entries [of f k] by (simp add: hist_of_def)
  then show ?thesis using True assms(2) by (simp add: fun_eq_iff)
next
  case False
  then show ?thesis using hist_clampMap_short [of c "entries_of f"] assms(1)
    by (simp only: if_False) (rule ext, simp)
qed

lemma restored_map:
  assumes "\<And>k. short c (hist_of mp k)"
  shows "hist_of (if mp = Map.empty then Map.empty else clampMap (hist_cap c) mp) = hist_of mp"
  using hist_clampMap_short [OF assms] by (cases "mp = Map.empty") (simp_all only: if_True if_False refl)

lemma take_history_series:
  assumes "hists_ok m" "m_cfg (new_from now warn cfg) = m_cfg m"
  shows "series (take_history (persisted v t m) (new_from now warn cfg)) = series m"
proof -
  define m0 m2 where "m0 = new_from now warn cfg" and "m2 = take_history (persisted v t m) m0"
  let ?c = "m_cfg m"
  have h: "histLen m0 = hist_cap ?c" using assms(2) by (simp add: histLen_cap m0_def)
  have e: "m_tempHist m0 k = []" "m_freqHist m0 k = []" "m_rttHist m0 k = []" "m_rxHist m0 = Map.empty"
    "m_txHist m0 = Map.empty" for k by (simp_all add: m0_def new_from_def)
  have ok: "short ?c (m_cpuHist m)" "short ?c (m_memHist m)" "short ?c (m_swapHist m)" "short ?c (m_battHist m)"
    "short ?c (m_battWHist m)" "short ?c (m_loadHist m)" "\<And>x. x \<in> set (m_coreHists m) \<Longrightarrow> short ?c x"
    "\<And>k. short ?c (m_tempHist m k)" "\<And>k. short ?c (m_freqHist m k)" "\<And>k. short ?c (m_rttHist m k)"
    "\<And>k. short ?c (hist_of (m_rxHist m) k)" "\<And>k. short ?c (hist_of (m_txHist m) k)"
    using assms(1) hist_of_short [of "m_rxHist m" ?c] hist_of_short [of "m_txHist m" ?c] unfolding hists_ok_fields by auto
  have lists: "m_cpuHist m2 = m_cpuHist m" "m_memHist m2 = m_memHist m" "m_swapHist m2 = m_swapHist m"
    "m_loadHist m2 = m_loadHist m" "m_battHist m2 = m_battHist m" "m_battWHist m2 = m_battWHist m"
    by (simp_all add: m2_def take_history_def persisted_def h Let_def ok clamp_short)
  have cores: "m_coreHists m2 = m_coreHists m"
    by (simp add: m2_def take_history_def persisted_def h Let_def ok clamp_short map_idI)
  have "m_tempHist m2 = (if entries_of (m_tempHist m) = Map.empty then m_tempHist m0
      else hist_of (clampMap (hist_cap ?c) (entries_of (m_tempHist m))))"
    "m_freqHist m2 = (if entries_of (m_freqHist m) = Map.empty then m_freqHist m0
      else hist_of (clampMap (hist_cap ?c) (entries_of (m_freqHist m))))"
    "m_rttHist m2 = (if entries_of (m_rttHist m) = Map.empty then m_rttHist m0
      else hist_of (clampMap (hist_cap ?c) (entries_of (m_rttHist m))))"
    by (simp_all add: m2_def take_history_def persisted_def h Let_def)
  then have keyed: "m_tempHist m2 = m_tempHist m" "m_freqHist m2 = m_freqHist m" "m_rttHist m2 = m_rttHist m"
    using restored_series [of ?c "m_tempHist m" "m_tempHist m0"] restored_series [of ?c "m_freqHist m" "m_freqHist m0"]
      restored_series [of ?c "m_rttHist m" "m_rttHist m0"] ok e by simp_all
  have "m_rxHist m2 = (if m_rxHist m = Map.empty then Map.empty else clampMap (hist_cap ?c) (m_rxHist m))"
    "m_txHist m2 = (if m_txHist m = Map.empty then Map.empty else clampMap (hist_cap ?c) (m_txHist m))"
    by (simp_all add: m2_def take_history_def persisted_def h Let_def e)
  then have "hist_of (m_rxHist m2) = hist_of (m_rxHist m)" "hist_of (m_txHist m2) = hist_of (m_txHist m)"
    using restored_map [of ?c "m_rxHist m"] restored_map [of ?c "m_txHist m"] ok by simp_all
  then show ?thesis using lists cores keyed by (simp add: series_def m2_def m0_def)
qed

lemma take_history_peaks:
  "m_peaks (take_history (persisted v t m) (new_from now warn cfg)) =
    (m_peaks m)\<lparr>pk_battMin := if pk_battMin (m_peaks m) \<ge> 0 then pk_battMin (m_peaks m) else -1\<rparr>"
  by (simp add: take_history_def persisted_def restore_peaks_def new_from_def newSessionPeaks_def Let_def)

subsection \<open>The file\<close>

lemma save_run_append:
  "save_run fails n tmp i path b (xs @ ys) st =
    (let (ok, tr) = save_run fails n tmp i path b xs st
     in if ok then (let (ok', tr') = save_run fails n tmp i path b ys (last (st # tr)) in (ok', tr @ tr')) else (False, tr))"
  by (induction xs arbitrary: st) (simp_all add: Let_def case_prod_beta)

lemma save_run_fold:
  "fst (save_run fails n tmp i path b xs st) \<Longrightarrow>
    last (st # snd (save_run fails n tmp i path b xs st)) = fold (do_op tmp i path b) xs st"
proof (induction xs arbitrary: st)
  case (Cons o' os)
  then have "\<not> fails o'" by auto
  then show ?case using Cons.IH [of "do_op tmp i path b o' st"] Cons.prems by (simp add: Let_def case_prod_beta)
qed simp

lemma save_run_nonempty: "os \<noteq> [] \<Longrightarrow> snd (save_run fails n tmp i path b os st) \<noteq> []"
  by (cases os) (simp_all add: Let_def case_prod_beta)

text \<open>Until the rename, the file's name, and every other file, are as they were.\<close>

definition untouched :: "string \<Rightarrow> nat \<Rightarrow> disk_state \<Rightarrow> disk_state \<Rightarrow> bool" where
  "untouched path i st0 st \<longleftrightarrow> ds_names st path = ds_names st0 path \<and> ds_synced_names st = ds_synced_names st0 \<and>
     (\<forall>j. j \<noteq> i \<longrightarrow> ds_data st j = ds_data st0 j \<and> ds_synced st j = ds_synced st0 j)"

lemma save_run_untouched:
  "tmp \<noteq> path \<Longrightarrow> Op_rename \<notin> set os \<Longrightarrow> untouched path i st0 st \<Longrightarrow>
    st' \<in> set (snd (save_run fails n tmp i path b os st)) \<Longrightarrow> untouched path i st0 st'"
proof (induction os arbitrary: st)
  case (Cons o' os)
  have d: "untouched path i st0 (do_op tmp i path b o' st)" "untouched path i st0 (fail_op i n b o' st)"
    "untouched path i st0 (remove_tmp tmp (fail_op i n b o' st))"
    using Cons.prems by (cases o'; simp add: untouched_def do_op_def fail_op_def remove_tmp_def)+
  show ?case
  proof (cases "fails o'")
    case True
    then show ?thesis using Cons.prems(4) d by (auto split: if_splits)
  next
    case False
    then show ?thesis using Cons.prems Cons.IH [OF _ _ d(1)] d(1) by (auto simp: Let_def case_prod_beta)
  qed
qed simp

abbreviation pre_ops :: "save_op list" where
  "pre_ops \<equiv> [Op_mkdir, Op_create, Op_write, Op_chmod, Op_sync, Op_close]"

text \<open>Once renamed, the file is the synced one.\<close>

definition replaced :: "string \<Rightarrow> nat \<Rightarrow> string \<Rightarrow> disk_state \<Rightarrow> disk_state \<Rightarrow> bool" where
  "replaced path i b st0 st \<longleftrightarrow> ds_names st path = Some i \<and> ds_data st i = b \<and> ds_synced st i \<and>
     ds_synced_names st path \<in> {ds_synced_names st0 path, Some i} \<and>
     (\<forall>j. j \<noteq> i \<longrightarrow> ds_data st j = ds_data st0 j \<and> ds_synced st j = ds_synced st0 j)"

lemma save_run_states:
  assumes "tmp \<noteq> path" "save_run fails n tmp i path b save_ops st = (ok, trace)" "st' \<in> set trace"
  shows "untouched path i st st' \<or> ok \<and> st' = last trace \<and> replaced path i b st st' \<and> ds_names st' tmp = None"
proof -
  let ?r = "save_run fails n tmp i path b pre_ops st"
  have pre: "untouched path i st x" if "x \<in> set (snd ?r)" for x
    using save_run_untouched [OF assms(1) _ _ that, of st] by (simp add: untouched_def)
  have eq: "(ok, trace) = (if fst ?r
      then (fst (save_run fails n tmp i path b [Op_rename] (last (st # snd ?r))),
            snd ?r @ snd (save_run fails n tmp i path b [Op_rename] (last (st # snd ?r))))
      else (False, snd ?r))"
    using save_run_append [of fails n tmp i path b pre_ops "[Op_rename]" st] assms(2)
    by (simp only: save_ops_def append_Cons append_Nil Let_def case_prod_beta)
  show ?thesis
  proof (cases "fst ?r")
    case False
    then show ?thesis using eq pre assms(3) by simp
  next
    case True
    define m where "m = fold (do_op tmp i path b) pre_ops st"
    have m: "last (st # snd ?r) = m" unfolding m_def by (rule save_run_fold [OF True])
    have u: "untouched path i st m"
      using m pre [of "last (snd ?r)"] by (cases "snd ?r = []") (auto simp: untouched_def)
    have i: "ds_data m i = b" "ds_synced m i" by (simp_all add: m_def do_op_def)
    have tr: "trace = snd ?r @ snd (save_run fails n tmp i path b [Op_rename] m)"
        "ok = fst (save_run fails n tmp i path b [Op_rename] m)"
      using eq True m by simp_all
    show ?thesis
    proof (cases "fails Op_rename")
      case True
      then have "trace = snd ?r @ [m, remove_tmp tmp m]" using tr(1) by (simp add: fail_op_def)
      then show ?thesis using assms(1,3) pre u by (auto simp: untouched_def remove_tmp_def)
    next
      case False
      then have "trace = snd ?r @ [do_op tmp i path b Op_rename m]" "ok" using tr by simp_all
      moreover have "replaced path i b st (do_op tmp i path b Op_rename m)" "ds_names (do_op tmp i path b Op_rename m) tmp = None"
        using assms(1) u i by (simp_all add: replaced_def untouched_def do_op_def)
      ultimately show ?thesis using assms(3) pre by auto
    qed
  qed
qed

lemma save_outcomes:
  assumes "sv_tmp s \<noteq> HistoryFile (m_cfg m)" "\<And>p. ds_names st p \<noteq> Some (sv_inode s)"
    "ds_synced_names st = ds_names st" "\<And>p i. ds_names st p = Some i \<Longrightarrow> ds_synced st i"
    "saveHistory s m st = (ok, trace)"
  shows "(\<forall>st' \<in> set trace. \<forall>c. after_cut st' (HistoryFile (m_cfg m)) c \<longrightarrow>
      c = read_file st (HistoryFile (m_cfg m)) \<or>
      c \<noteq> None \<and> c = sv_marshal s (persisted (sv_version s) (sv_now s) m)) \<and>
    (ok \<and> HistoryFile (m_cfg m) \<noteq> [] \<longrightarrow>
      read_file (last trace) (HistoryFile (m_cfg m)) = sv_marshal s (persisted (sv_version s) (sv_now s) m))"
proof -
  define path i new where defs: "path = HistoryFile (m_cfg m)" "i = sv_inode s"
    "new = sv_marshal s (persisted (sv_version s) (sv_now s) m)"
  have names: "j \<noteq> i" "ds_synced st j" if "ds_names st path = Some j" for j
    using assms(2) [of path] assms(4) [OF that] that by (auto simp: defs)
  have old: "c = read_file st path" if "untouched path i st st'" "after_cut st' path c" for st' c
    using that assms(3) names by (cases "ds_names st path") (auto simp: untouched_def after_cut_def read_file_def)
  have rep: "c = read_file st path \<or> c = Some b" if "replaced path i b st st'" "after_cut st' path c" for st' c b
    using that assms(3) names by (cases "ds_names st path") (auto simp: replaced_def after_cut_def read_file_def)
  have st: "untouched path i st st" by (simp add: untouched_def)
  show ?thesis
  proof (cases "path = [] \<or> new = None")
    case True
    then have "trace = [st]" "ok \<longrightarrow> path = []" using assms(5) by (cases "path = []"; auto simp: saveHistory_def defs split: if_splits)+
    then show ?thesis using old [OF st] by (auto simp: defs)
  next
    case False
    then obtain b where b: "new = Some b" by auto
    obtain ok' tr where r: "save_run (sv_fails s) (sv_part s) (sv_tmp s) i path b save_ops st = (ok', tr)" by fastforce
    note states = save_run_states [OF assms(1) [folded defs(1)] r]
    have e: "ok = ok'" "trace = [st] @ tr @ (if ok \<and> sv_opens_dir s then [sync_dir (last tr)] else [])"
      using assms(5) False b r by (auto simp: saveHistory_def defs Let_def case_prod_beta)
    have ne: "tr \<noteq> []"
      using save_run_nonempty [of save_ops "sv_fails s" "sv_part s" "sv_tmp s" i path b st] r by (simp add: save_ops_def)
    have fin: "replaced path i b st (last tr)" if ok
    proof -
      have "last (st # tr) = fold (do_op (sv_tmp s) i path b) save_ops st"
        using save_run_fold [of "sv_fails s" "sv_part s" "sv_tmp s" i path b save_ops st] r \<open>ok\<close> e(1) by simp
      then have "ds_names (last tr) path = Some i"
        using ne assms(1) by (simp add: save_ops_def do_op_def defs)
      then have "\<not> untouched path i st (last tr)" using assms(2) [of path] by (auto simp: untouched_def defs(2))
      then show ?thesis using states [of "last tr"] ne by auto
    qed
    have "replaced path i b st (sync_dir (last tr))" if ok
      using fin [OF that] by (simp add: replaced_def sync_dir_def)
    then have "untouched path i st x \<or> replaced path i b st x" if "x \<in> set trace" for x
      using that st states e by (auto split: if_splits)
    then have "\<forall>st' \<in> set trace. \<forall>c. after_cut st' path c \<longrightarrow> c = read_file st path \<or> c \<noteq> None \<and> c = new"
      using old rep b by blast
    moreover have "read_file (last trace) path = new" if ok
      using fin [OF that] ne that b by (auto simp: e read_file_def replaced_def sync_dir_def)
    ultimately show ?thesis by (simp add: defs)
  qed
qed

lemmas history_file_read = save_outcomes [THEN conjunct2]

text \<open>C3: The history file is never torn. Whichever call of a save fails, and wherever a power cut comes -
  with or without the last changes of the directory on the disk, and with any leading part of a file
  written since its last sync - what the next session reads under the file's name is the old
  contents or the new ones, whole; and a save that reports success leaves the new ones there.\<close>

theorem history_file_never_torn:
  assumes "sv_tmp s \<noteq> HistoryFile (m_cfg m)" "\<And>p. ds_names st p \<noteq> Some (sv_inode s)"
    "ds_synced_names st = ds_names st" "\<And>p i. ds_names st p = Some i \<Longrightarrow> ds_synced st i"
    "saveHistory s m st = (ok, trace)"
  shows "(\<forall>st' \<in> set trace. \<forall>c. after_cut st' (HistoryFile (m_cfg m)) c \<longrightarrow>
      c = read_file st (HistoryFile (m_cfg m)) \<or>
      c \<noteq> None \<and> c = sv_marshal s (persisted (sv_version s) (sv_now s) m)) \<and>
    (ok \<and> HistoryFile (m_cfg m) \<noteq> [] \<longrightarrow>
      read_file (last trace) (HistoryFile (m_cfg m)) = sv_marshal s (persisted (sv_version s) (sv_now s) m))"
  by (rule save_outcomes [OF assms])

definition example_save :: save_env where
  "example_save = \<lparr>sv_version = ''1'', sv_now = 1, sv_marshal = (\<lambda>_. Some ''new''), sv_fails = (\<lambda>o'. o' = Op_rename),
     sv_part = 0, sv_tmp = ''h.tmp'', sv_inode = 7, sv_opens_dir = True\<rparr>"

definition example_disk :: disk_state where
  "example_disk = \<lparr>ds_names = [''h'' \<mapsto> 1], ds_synced_names = [''h'' \<mapsto> 1], ds_data = (\<lambda>_. ''old''), ds_synced = (\<lambda>_. True)\<rparr>"

definition example_saver :: Model where
  "example_saver = fresh_model\<lparr>m_cfg := Default\<lparr>HistoryFile := ''h''\<rparr>\<rparr>"

text \<open>A save whose rename fails leaves the old file; the same save without the failure puts the new one there.\<close>

theorem history_file_never_torn_witness:
  "fst (saveHistory example_save example_saver example_disk) = False \<and>
   read_file (last (snd (saveHistory (example_save\<lparr>sv_fails := \<lambda>_. False\<rparr>) example_saver example_disk))) ''h'' = Some ''new''"
proof -
  have h: "HistoryFile (m_cfg example_saver) = ''h''" by (simp add: example_saver_def)
  have f: "fst (saveHistory example_save example_saver example_disk) = False"
    by (simp add: saveHistory_def h example_save_def save_ops_def Let_def case_prod_beta)
  have t: "fst (saveHistory (example_save\<lparr>sv_fails := \<lambda>_. False\<rparr>) example_saver example_disk) = True"
    by (simp add: saveHistory_def h example_save_def save_ops_def Let_def case_prod_beta)
  show ?thesis
    using history_file_never_torn [of "example_save\<lparr>sv_fails := \<lambda>_. False\<rparr>" example_saver example_disk, OF _ _ _ _ surjective_pairing] f t
    by (simp add: h example_save_def example_disk_def)
qed

section \<open>Sessions\<close>

lemma ran_clampMap: "h \<in> ran (clampMap limit mp) \<Longrightarrow> \<exists>v. h = ClampHistory v limit"
  by (auto simp: ran_def clampMap_def split: option.splits if_splits)

lemma clampMap_short: "short c (hist_of (clampMap (hist_cap c) mp) k)"
  by (simp add: hist_clampMap)

lemma take_history_inv: "screen_inv m \<Longrightarrow> screen_inv (take_history h m)"
proof -
  assume i: "screen_inv m"
  define m' c where "m' = take_history h m" and "c = m_cfg m"
  have r: "\<forall>x \<in> ran (clampMap (hist_cap c) mp). short c x" for mp using ran_clampMap by fastforce
  have old: "\<forall>k. short c (m_tempHist m k)" "\<forall>k. short c (m_freqHist m k)" "\<forall>k. short c (m_rttHist m k)"
    "\<forall>x \<in> ran (m_rxHist m). short c x" "\<forall>x \<in> ran (m_txHist m). short c x"
    using i by (simp_all add: inv_defs c_def)
  have same: "m_cfg m' = c" "m_procsKill m' = m_procsKill m" "m_procsSearching m' = m_procsSearching m"
    "m_netSearching m' = m_netSearching m" "m_activeTab m' = m_activeTab m" "m_zoom m' = m_zoom m" "m_pp m' = m_pp m"
    "m_lossWin m' = m_lossWin m" "m_procEvery m' = m_procEvery m" "m_slowEvery m' = m_slowEvery m"
    by (simp_all add: m'_def c_def take_history_def Let_def)
  have lists: "short c (m_cpuHist m')" "short c (m_memHist m')" "short c (m_swapHist m')" "short c (m_battHist m')"
    "short c (m_battWHist m')" "short c (m_loadHist m')" "\<forall>x \<in> set (m_coreHists m'). short c x"
    by (simp_all add: m'_def c_def take_history_def Let_def histLen_cap)
  have keyed: "\<forall>k. short c (m_tempHist m' k)" "\<forall>k. short c (m_freqHist m' k)" "\<forall>k. short c (m_rttHist m' k)"
    "\<forall>x \<in> ran (m_rxHist m'). short c x" "\<forall>x \<in> ran (m_txHist m'). short c x"
    using old clampMap_short [of c] r unfolding m'_def c_def by (simp_all add: take_history_def Let_def histLen_cap)
  show ?thesis using i same lists keyed unfolding m'_def [symmetric] by (simp add: inv_defs c_def)
qed

lemma notice_view: "view_of (m\<lparr>m_notice := nt\<rparr>) = view_of m"
  by (simp add: view_of_def)

lemma Restore_inv: "screen_inv m \<Longrightarrow> screen_inv (Restore unmarshal files now subtle m)"
proof -
  assume i: "screen_inv m"
  have "screen_inv m'" if "loadHistory unmarshal files now m = Some m'" for m'
    using that take_history_inv [OF i]
    by (auto simp: loadHistory_def split: if_splits option.splits)
  then show ?thesis using i by (auto simp: Restore_def intro: view_inv [OF notice_view] split: option.split)
qed

lemma start_tui_inv: "screen_inv (start_tui fuel h now subtle warn unmarshal files opened cfg)"
proof -
  have "view_of (FollowKernelLog opened m) = view_of m" for m by (simp add: FollowKernelLog_def view_simps)
  then show ?thesis unfolding start_tui_def by (rule view_inv) (intro Restore_inv NewModel_inv)
qed

text \<open>C4: From start-up on - a history taken back from any file, whatever its bytes, included - and
  whatever messages arrive, the model stays well-formed: every history within the configured length and
  every packet-loss window within 50 samples; the rows of the processes pane among the last sample's with
  the cursor on one of them; the kill prompt and the process search open only on the processes tab, the
  connection search only on the network tab; no zoom index below zero; the settings within their bounds
  and the periods the tick counter is divided by at least one.\<close>

theorem session_invariant:
  "screen_inv (run steps (start_tui fuel h now subtle warn unmarshal files opened cfg))"
  by (intro run_inv start_tui_inv)

text \<open>C18: What one session saves the next one shows: within six hours, under the same settings, every
  series comes back as it was at the end of any run of the earlier session, and the peaks with it
  (a battery never seen stays unseen).\<close>

theorem history_roundtrip:
  assumes "m = run steps (start_tui fuel h0 t0 subtle0 warn0 unmarshal0 files0 opened cfg0)"
    "HistoryFile (m_cfg m) \<noteq> []" "sv_tmp s \<noteq> HistoryFile (m_cfg m)"
    "\<And>p. ds_names st p \<noteq> Some (sv_inode s)" "ds_synced_names st = ds_names st"
    "\<And>p i. ds_names st p = Some i \<Longrightarrow> ds_synced st i"
    "saveHistory s m st = (True, trace)"
    "\<And>b. sv_marshal s (persisted (sv_version s) (sv_now s) m) = Some b \<Longrightarrow>
      unmarshal b = Some (persisted (sv_version s) (sv_now s) m)"
    "\<not> isZero (sv_now s)" "timeSub now (sv_now s) \<le> historyMaxAge"
    "m_cfg (NewModel fuel h now warn cfg) = m_cfg m"
  shows "\<exists>m'. loadHistory unmarshal (read_file (last trace)) now (NewModel fuel h now warn cfg) = Some m' \<and>
    series m' = series m \<and>
    m_peaks m' = (m_peaks m)\<lparr>pk_battMin := if pk_battMin (m_peaks m) \<ge> 0 then pk_battMin (m_peaks m) else -1\<rparr>"
proof -
  define new where "new = persisted (sv_version s) (sv_now s) m"
  have hist: "hists_ok m" using run_inv [OF start_tui_inv] assms(1) by (simp add: screen_inv_def)
  have "sv_marshal s new \<noteq> None" using assms(2,7) by (auto simp: saveHistory_def new_def split: option.splits)
  then obtain b where b: "sv_marshal s new = Some b" by blast
  have "read_file (last trace) (HistoryFile (m_cfg m)) = Some b"
    using history_file_read [OF assms(3,4,5,6,7)] assms(2) b by (simp add: new_def)
  moreover have "unmarshal b = Some new" using assms(8) b by (simp add: new_def)
  moreover have "ph_Format new = historyFormat" "ph_SavedAt new = sv_now s" by (simp_all add: new_def persisted_def)
  ultimately have "loadHistory unmarshal (read_file (last trace)) now (NewModel fuel h now warn cfg) =
      Some (take_history new (NewModel fuel h now warn cfg))"
    using assms(2,9,10,11) by (simp add: loadHistory_def)
  then show ?thesis
    using take_history_series [OF hist, of now warn] take_history_peaks [of _ _ m now warn] assms(11)
    by (auto simp: new_def NewModel_def)
qed

text \<open>A session that is saved at once and one that takes it back.\<close>

abbreviation example_settings :: Config where
  "example_settings \<equiv> Default\<lparr>HistoryFile := ''h'', TempExplicit := True\<rparr>"

lemma Sanitize_keeps: "TempExplicit (Sanitize c) = TempExplicit c" "HistoryFile (Sanitize c) = HistoryFile c"
  by (simp_all add: Sanitize_def Let_def)

theorem history_roundtrip_witness:
  defines "m \<equiv> start_tui 0 example_host 0 (\<lambda>s. s) (\<lambda>s. s) (\<lambda>_. None) Map.empty True example_settings"
  shows "\<exists>m'. loadHistory (\<lambda>_. Some (persisted ''1'' 1 m))
      (read_file (last (snd (saveHistory (example_save\<lparr>sv_fails := \<lambda>_. False\<rparr>) m example_disk)))) 2
      (NewModel 0 example_host 2 (\<lambda>s. s) example_settings) = Some m' \<and> series m' = series m"
proof -
  have s: "TempExplicit (Sanitize example_settings)" "HistoryFile (Sanitize example_settings) = ''h''"
    by (simp_all add: Sanitize_keeps)
  have c: "m_cfg (NewModel fuel h now warn example_settings) = Sanitize example_settings" for fuel h now warn
    by (simp add: NewModel_def new_from_def calibrateTemps_def s(1))
  have "m_cfg m = Sanitize example_settings"
    by (simp add: m_def start_tui_def FollowKernelLog_def Restore_def loadHistory_def c)
  then have cfg: "m_cfg m = Sanitize example_settings" "HistoryFile (m_cfg m) = ''h''"
    by (simp_all add: s(2))
  let ?s = "example_save\<lparr>sv_fails := \<lambda>_. False\<rparr>"
  have t: "fst (saveHistory ?s m example_disk) = True"
    by (simp add: saveHistory_def cfg(2) example_save_def save_ops_def Let_def case_prod_beta)
  then obtain trace where tr: "saveHistory ?s m example_disk = (True, trace)" by (cases "saveHistory ?s m example_disk") simp
  have "\<exists>m'. loadHistory (\<lambda>_. Some (persisted ''1'' 1 m)) (read_file (last trace)) 2
      (NewModel 0 example_host 2 (\<lambda>s. s) example_settings) = Some m' \<and> series m' = series m \<and>
    m_peaks m' = (m_peaks m)\<lparr>pk_battMin := if pk_battMin (m_peaks m) \<ge> 0 then pk_battMin (m_peaks m) else -1\<rparr>"
  proof (rule history_roundtrip [where s = ?s and st = example_disk and steps = "[]", OF _ _ _ _ _ _ tr])
    show "m = run [] (start_tui 0 example_host 0 (\<lambda>s. s) (\<lambda>s. s) (\<lambda>_. None) Map.empty True example_settings)"
      by (simp only: m_def run.simps)
    show "\<not> isZero (sv_now ?s)" "timeSub 2 (sv_now ?s) \<le> historyMaxAge"
      by (simp_all add: example_save_def isZero_def zeroTime_def timeSub_def historyMaxAge_def minDuration_def maxDuration_def)
    show "m_cfg (NewModel 0 example_host 2 (\<lambda>s. s) example_settings) = m_cfg m" by (simp only: c cfg(1))
  qed (simp_all add: cfg(2) example_save_def example_disk_def)
  then show ?thesis unfolding tr by auto
qed

end
