(* ===== verification/Exporter.thy ===== *)
theory Exporter
  imports Snapshot
begin

text \<open>
  The HTTP exporter (\<open>internal/ui/exporter.go\<close>): the cached snapshot, the one collection that may run,
  and the scrapes that wait for it, as steps between the points where the mutex is released. What a
  collection gathers is any value of the type \<open>'m\<close>; times are in nanoseconds.
\<close>

section \<open>State\<close>

definition exporterMinInterval :: duration where "exporterMinInterval = 5 * second"

definition exporterWait :: duration where "exporterWait = 8 * second"

text \<open>
  \<open>running\<close> holds the number of the collection in flight, the identity of its channel; a scrape that
  waits holds the number it waits for and the time it began to.
\<close>

record 'm Exporter =
  ex_model :: "('m \<times> int) option"
  ex_running :: "nat option"
  ex_next :: nat
  ex_waiting :: "nat \<rightharpoonup> nat \<times> int"

definition NewExporter :: "'m Exporter" where
  "NewExporter = \<lparr>ex_model = None, ex_running = None, ex_next = 0, ex_waiting = Map.empty\<rparr>"

datatype 'm answer = Served 'm int | NoSnapshot | Cancelled

text \<open>
  What happened, with its time: the fast path, a collection started, a collection finished, a scrape answered
  after waiting.
\<close>

datatype 'm event = Hit nat 'm int int | Started nat int | Finished nat 'm int | Answered nat "'m answer" int int

section \<open>Steps\<close>

text \<open>
  The first critical section of \<open>snapshot\<close>, for scrape \<open>s\<close> at time \<open>t\<close>: the cache if it is fresh, else
  the collection to wait for, started when none is running.
\<close>

definition fresh :: "int \<Rightarrow> 'm Exporter \<Rightarrow> ('m \<times> int) option" where
  "fresh t e =
     (case ex_model e of
        Some (m, at') \<Rightarrow> if t - at' < exporterMinInterval then Some (m, at') else None
      | None \<Rightarrow> None)"

definition ensure_running :: "int \<Rightarrow> 'm Exporter \<Rightarrow> 'm Exporter \<times> 'm event list" where
  "ensure_running t e =
     (if ex_running e = None
      then (e\<lparr>ex_running := Some (ex_next e), ex_next := ex_next e + 1\<rparr>, [Started (ex_next e) t])
      else (e, []))"

definition scrape :: "nat \<Rightarrow> int \<Rightarrow> 'm Exporter \<Rightarrow> 'm Exporter \<times> 'm event list" where
  "scrape s t e =
     (case fresh t e of
        Some (m, at') \<Rightarrow> (e, [Hit s m at' t])
      | None \<Rightarrow>
          let (e, new) = ensure_running t e
          in (e\<lparr>ex_waiting := (ex_waiting e)(s \<mapsto> (the (ex_running e), t))\<rparr>, new))"

text \<open>The collecting goroutine publishes what it gathered; \<open>running\<close> is set to nil whoever runs.\<close>

definition finish :: "nat \<Rightarrow> 'm \<Rightarrow> int \<Rightarrow> 'm Exporter \<Rightarrow> 'm Exporter \<times> 'm event list" where
  "finish k m t e = (e\<lparr>ex_model := Some (m, t), ex_running := None\<rparr>, [Finished k m t])"

text \<open>The second critical section, for a scrape that began to wait at \<open>t0\<close>, when the wait is over; the request's end is answered without it.\<close>

definition resume :: "nat \<Rightarrow> int \<Rightarrow> int \<Rightarrow> 'm Exporter \<Rightarrow> 'm Exporter \<times> 'm event list" where
  "resume s t0 t e =
     (e\<lparr>ex_waiting := (ex_waiting e)(s := None)\<rparr>,
      [Answered s (case ex_model e of None \<Rightarrow> NoSnapshot | Some (m, at') \<Rightarrow> Served m at') t0 t])"

definition cancel :: "nat \<Rightarrow> int \<Rightarrow> int \<Rightarrow> 'm Exporter \<Rightarrow> 'm Exporter \<times> 'm event list" where
  "cancel s t0 t e = (e\<lparr>ex_waiting := (ex_waiting e)(s := None)\<rparr>, [Answered s Cancelled t0 t])"

text \<open>
  Runs, with the clock: a scrape arrives; the running collection finishes, if ever; a waiting scrape goes
  on once the collection it waits for is over or its own wait has passed, and may be cancelled at any time.
\<close>

inductive exporter_run :: "'m Exporter \<Rightarrow> int \<Rightarrow> 'm event list \<Rightarrow> bool" where
  boot: "exporter_run NewExporter t []"
| later: "exporter_run e t evs \<Longrightarrow> t \<le> t' \<Longrightarrow> exporter_run e t' evs"
| arrives: "exporter_run e t evs \<Longrightarrow> ex_waiting e s = None \<Longrightarrow> scrape s t e = (e', new) \<Longrightarrow> exporter_run e' t (evs @ new)"
| collected: "exporter_run e t evs \<Longrightarrow> ex_running e = Some k \<Longrightarrow> finish k m t e = (e', new) \<Longrightarrow>
    exporter_run e' t (evs @ new)"
| resumed: "exporter_run e t evs \<Longrightarrow> ex_waiting e s = Some (k, t0) \<Longrightarrow>
    ex_running e \<noteq> Some k \<or> t0 + exporterWait \<le> t \<Longrightarrow> resume s t0 t e = (e', new) \<Longrightarrow> exporter_run e' t (evs @ new)"
| cancelled: "exporter_run e t evs \<Longrightarrow> ex_waiting e s = Some (k, t0) \<Longrightarrow> cancel s t0 t e = (e', new) \<Longrightarrow>
    exporter_run e' t (evs @ new)"

section \<open>What scrapes are served\<close>

definition finished :: "'m event list \<Rightarrow> ('m \<times> int) list" where
  "finished evs = concat (map (\<lambda>ev. case ev of Finished k m t \<Rightarrow> [(m, t)] | _ \<Rightarrow> []) evs)"

definition starts :: "'m event list \<Rightarrow> int list" where
  "starts evs = concat (map (\<lambda>ev. case ev of Started k t \<Rightarrow> [t] | _ \<Rightarrow> []) evs)"

lemma event_lists [simp]:
  "finished [] = []" "finished (evs @ evs') = finished evs @ finished evs'" "finished [Hit s m t' t] = []"
  "finished [Started k t] = []" "finished [Finished k m t] = [(m, t)]" "finished [Answered s a t0 t] = []"
  "starts [] = []" "starts (evs @ evs') = starts evs @ starts evs'" "starts [Hit s m t' t] = []"
  "starts [Started k t] = [t]" "starts [Finished k m t] = []" "starts [Answered s a t0 t] = []"
  by (simp_all add: finished_def starts_def)

text \<open>What may be said to a scrape, given what happened before.\<close>

definition event_ok :: "'m event list \<Rightarrow> 'm event \<Rightarrow> bool" where
  "event_ok pre ev =
     (case ev of
        Hit s m at' t \<Rightarrow> finished pre \<noteq> [] \<and> last (finished pre) = (m, at') \<and> t - at' < exporterMinInterval
      | Started k t \<Rightarrow> length (starts pre) = length (finished pre) \<and>
          (finished pre \<noteq> [] \<longrightarrow> snd (last (finished pre)) + exporterMinInterval \<le> t)
      | Finished k m t \<Rightarrow> length (starts pre) = length (finished pre) + 1
      | Answered s (Served m at') t0 t \<Rightarrow>
          finished pre \<noteq> [] \<and> last (finished pre) = (m, at') \<and> (t0 \<le> at' \<or> t0 + exporterWait \<le> t)
      | Answered s NoSnapshot t0 t \<Rightarrow> finished pre = [] \<and> t0 + exporterWait \<le> t
      | Answered s Cancelled t0 t \<Rightarrow> True)"

definition history_ok :: "'m event list \<Rightarrow> bool" where
  "history_ok evs \<longleftrightarrow> (\<forall>pre ev post. evs = pre @ ev # post \<longrightarrow> event_ok pre ev)"

lemma history_ok_snoc: "history_ok (evs @ [ev]) \<longleftrightarrow> history_ok evs \<and> event_ok evs ev"
proof -
  have "(\<exists>pre ev' post. evs @ [ev] = pre @ ev' # post \<and> \<not> event_ok pre ev') \<longleftrightarrow>
      (\<exists>pre ev' post. evs = pre @ ev' # post \<and> \<not> event_ok pre ev') \<or> \<not> event_ok evs ev"
  proof
    assume "\<exists>pre ev' post. evs @ [ev] = pre @ ev' # post \<and> \<not> event_ok pre ev'"
    then obtain pre ev' post where s: "evs @ [ev] = pre @ ev' # post" "\<not> event_ok pre ev'" by blast
    then show "(\<exists>pre ev' post. evs = pre @ ev' # post \<and> \<not> event_ok pre ev') \<or> \<not> event_ok evs ev"
      by (cases post rule: rev_cases) auto
  next
    assume "(\<exists>pre ev' post. evs = pre @ ev' # post \<and> \<not> event_ok pre ev') \<or> \<not> event_ok evs ev"
    then show "\<exists>pre ev' post. evs @ [ev] = pre @ ev' # post \<and> \<not> event_ok pre ev'" by force
  qed
  then show ?thesis unfolding history_ok_def by blast
qed

lemma history_ok_Nil [simp]: "history_ok []"
  by (simp add: history_ok_def)

text \<open>The cache is the last collection that finished, one collection at most is running, and a scrape whose
  collection is over has a snapshot no older than its wait.\<close>

definition exporter_ok :: "'m Exporter \<Rightarrow> int \<Rightarrow> 'm event list \<Rightarrow> bool" where
  "exporter_ok e t evs \<longleftrightarrow>
     ex_model e = (if finished evs = [] then None else Some (last (finished evs))) \<and>
     length (starts evs) = length (finished evs) + of_bool (ex_running e \<noteq> None) \<and>
     (\<forall>k. ex_running e = Some k \<longrightarrow> k < ex_next e) \<and>
     (\<forall>m t'. ex_model e = Some (m, t') \<longrightarrow> t' \<le> t) \<and>
     (\<forall>s k t0. ex_waiting e s = Some (k, t0) \<longrightarrow> t0 \<le> t \<and> k < ex_next e \<and>
        (ex_running e \<noteq> Some k \<longrightarrow> (\<exists>m t'. ex_model e = Some (m, t') \<and> t0 \<le> t')))"

lemma exporter_ok_answered:
  "exporter_ok e t evs \<Longrightarrow> exporter_ok (e\<lparr>ex_waiting := (ex_waiting e)(s := None)\<rparr>) t (evs @ [Answered s a t0 t])"
  unfolding exporter_ok_def by auto

lemma exporter_ok_waits:
  assumes "exporter_ok e t evs" "ex_running e = Some k"
  shows "exporter_ok (e\<lparr>ex_waiting := (ex_waiting e)(s \<mapsto> (k, t))\<rparr>) t evs"
  using assms unfolding exporter_ok_def by auto

lemma exporter_ok_running:
  assumes "exporter_ok e t evs" "history_ok evs" "fresh t e = None" "ensure_running t e = (e', new)"
  shows "exporter_ok e' t (evs @ new) \<and> history_ok (evs @ new) \<and> ex_running e' \<noteq> None"
proof (cases "ex_running e")
  case (Some k)
  then show ?thesis using assms by (auto simp: ensure_running_def)
next
  case None
  then have e: "e' = e\<lparr>ex_running := Some (ex_next e), ex_next := ex_next e + 1\<rparr>" "new = [Started (ex_next e) t]"
    using assms(4) by (simp_all add: ensure_running_def)
  have "finished evs \<noteq> [] \<longrightarrow> snd (last (finished evs)) + exporterMinInterval \<le> t"
    using assms(1,3) by (auto simp: exporter_ok_def fresh_def split: option.splits if_splits prod.splits)
  moreover have "length (starts evs) = length (finished evs)" using assms(1) None by (simp add: exporter_ok_def)
  ultimately have "history_ok (evs @ new)" using assms(2) by (simp add: e history_ok_snoc event_ok_def)
  moreover have "k < Suc (ex_next e)" "ex_next e \<noteq> k" if "ex_waiting e s' = Some (k, t0)" for s' k t0
  proof -
    have "k < ex_next e" using assms(1) that unfolding exporter_ok_def by blast
    then show "k < Suc (ex_next e)" "ex_next e \<noteq> k" by simp_all
  qed
  then have "exporter_ok e' t (evs @ new)" using assms(1) None unfolding exporter_ok_def e by auto
  ultimately show ?thesis by (simp add: e)
qed

lemma exporter_run_ok: "exporter_run e t evs \<Longrightarrow> exporter_ok e t evs \<and> history_ok evs"
proof (induction rule: exporter_run.induct)
  case (boot t)
  then show ?case by (simp add: exporter_ok_def NewExporter_def)
next
  case (later e t evs t')
  then show ?case by (fastforce simp: exporter_ok_def)
next
  case (arrives e t evs s e' new)
  show ?case
  proof (cases "fresh t e")
    case None
    obtain e1 new1 where r: "ensure_running t e = (e1, new1)" by fastforce
    then have e: "e' = e1\<lparr>ex_waiting := (ex_waiting e1)(s \<mapsto> (the (ex_running e1), t))\<rparr>" "new = new1"
      using arrives(3) None by (simp_all add: scrape_def)
    have ok: "exporter_ok e1 t (evs @ new1)" "history_ok (evs @ new1)" "ex_running e1 \<noteq> None"
      using exporter_ok_running [OF _ _ None r] arrives.IH by blast+
    then obtain k where "ex_running e1 = Some k" by auto
    then show ?thesis using exporter_ok_waits [OF ok(1)] ok(2) by (simp add: e)
  next
    case (Some p)
    then have "e' = e" "new = [Hit s (fst p) (snd p) t]" using arrives(3) by (simp_all add: scrape_def case_prod_beta)
    moreover have "exporter_ok e t (evs @ [Hit s (fst p) (snd p) t])"
      using arrives.IH unfolding exporter_ok_def event_lists append_Nil2 by blast
    moreover have "ex_model e = Some p" "t - snd p < exporterMinInterval"
      using Some by (auto simp: fresh_def split: option.splits if_splits)
    then have "event_ok evs (Hit s (fst p) (snd p) t)"
      using arrives.IH by (cases p) (auto simp: event_ok_def exporter_ok_def split: if_splits)
    ultimately show ?thesis using arrives.IH by (simp add: history_ok_snoc)
  qed
next
  case (collected e t evs k m e' new)
  then show ?case by (auto simp: finish_def exporter_ok_def history_ok_snoc event_ok_def)
next
  case (resumed e t evs s k t0 e' new)
  then have w: "t0 \<le> t \<and> (ex_running e \<noteq> Some k \<longrightarrow> (\<exists>m t'. ex_model e = Some (m, t') \<and> t0 \<le> t'))"
      and m: "ex_model e = (if finished evs = [] then None else Some (last (finished evs)))"
    unfolding exporter_ok_def by blast+
  have "event_ok evs (Answered s (case ex_model e of None \<Rightarrow> NoSnapshot | Some (m, at') \<Rightarrow> Served m at') t0 t)"
  proof (cases "ex_model e")
    case None
    then show ?thesis using w m resumed(3) by (auto simp: event_ok_def split: if_splits)
  next
    case (Some p)
    then show ?thesis using w m resumed(3) by (cases p) (auto simp: event_ok_def split: if_splits)
  qed
  then show ?case using resumed exporter_ok_answered by (auto simp: resume_def history_ok_snoc)
next
  case (cancelled e t evs s k t0 e' new)
  then show ?case using exporter_ok_answered by (auto simp: cancel_def history_ok_snoc event_ok_def)
qed

text \<open>C10: Whatever scrapes arrive, however long a collection takes or if it never ends: collections run one at
  a time, each starting at least five seconds after the one before finished; a scrape is always served
  the latest collection that finished - one younger than five seconds without waiting, one that finished
  after it began to wait, or, when eight seconds have passed, the last there is; and it is refused only
  when nothing has been collected yet in those eight seconds, or when it was cancelled.\<close>

theorem exporter_serves_latest:
  assumes "exporter_run e t evs"
  shows "history_ok evs \<and> length (starts evs) \<le> length (finished evs) + 1"
  using exporter_run_ok [OF assms] by (auto simp: exporter_ok_def)

text \<open>Two scrapes, a collection of one second, and a third scrape that finds the cache fresh.\<close>

theorem exporter_serves_latest_witness:
  "history_ok [Started 0 0, Finished 0 ''snapshot'' second, Answered 1 (Served ''snapshot'' second) 0 second,
     Hit 2 ''snapshot'' second second]"
proof -
  have r0: "exporter_run (NewExporter :: string Exporter) 0 []" by (rule boot)
  have r1: "exporter_run \<lparr>ex_model = None, ex_running = Some 0, ex_next = 1, ex_waiting = [1 \<mapsto> (0, 0)]\<rparr> 0
      ([] @ [Started 0 0 :: string event])"
    by (rule arrives [OF r0, of 1]) (simp_all add: NewExporter_def scrape_def fresh_def ensure_running_def)
  have r2: "exporter_run \<lparr>ex_model = None, ex_running = Some 0, ex_next = 1, ex_waiting = [1 \<mapsto> (0, 0)]\<rparr> second
      ([] @ [Started 0 0 :: string event])"
    by (rule later [OF r1]) simp
  have r3: "exporter_run \<lparr>ex_model = Some (''snapshot'', second), ex_running = None, ex_next = 1, ex_waiting = [1 \<mapsto> (0, 0)]\<rparr> second
      (([] @ [Started 0 0]) @ [Finished 0 ''snapshot'' second])"
    by (rule collected [OF r2, of 0]) (simp_all add: finish_def)
  have r4: "exporter_run \<lparr>ex_model = Some (''snapshot'', second), ex_running = None, ex_next = 1, ex_waiting = Map.empty\<rparr> second
      ((([] @ [Started 0 0]) @ [Finished 0 ''snapshot'' second]) @ [Answered 1 (Served ''snapshot'' second) 0 second])"
    by (rule resumed [OF r3, of 1 0 0]) (simp_all add: resume_def)
  have r5: "exporter_run \<lparr>ex_model = Some (''snapshot'', second), ex_running = None, ex_next = 1, ex_waiting = Map.empty\<rparr> second
      (((([] @ [Started 0 0]) @ [Finished 0 ''snapshot'' second]) @ [Answered 1 (Served ''snapshot'' second) 0 second])
        @ [Hit 2 ''snapshot'' second second])"
    by (rule arrives [OF r4, of 2]) (simp_all add: scrape_def fresh_def exporterMinInterval_def)
  show ?thesis using exporter_serves_latest [OF r5, THEN conjunct1] by simp
qed

section \<open>Routes\<close>

record response =
  re_status :: int
  re_type :: string
  re_body :: string

text \<open>\<open>http.Error\<close> answers in plain text and ends the line.\<close>

definition http_error :: "string \<Rightarrow> int \<Rightarrow> response" where
  "http_error msg code' = \<lparr>re_status = code', re_type = ''text/plain; charset=utf-8'', re_body = msg @ [NL]\<rparr>"

definition age_family :: "duration \<Rightarrow> string" where
  "age_family age =
     ''# HELP ucmon_snapshot_age_seconds Age of the readings served, in seconds.'' @ [NL] @
     ''# TYPE ucmon_snapshot_age_seconds gauge'' @ [NL] @
     ''ucmon_snapshot_age_seconds '' @ fmt_f 3 (seconds_of age) @ [NL]"

definition errNoSnapshot :: string where
  "errNoSnapshot = ''no snapshot yet: the first collection is still running''"

text \<open>
  What a scrape was answered, its error text if it was cancelled (the context's), the JSON text or the
  marshaller's error; \<open>now\<close> is the time the reply is written.
\<close>

definition metrics_reply :: "(f64 \<Rightarrow> string) \<Rightarrow> string list \<Rightarrow> string \<Rightarrow> time \<Rightarrow> Model answer \<Rightarrow> response" where
  "metrics_reply num ks ctxErr now a =
     (case a of
        Served m at' \<Rightarrow> \<lparr>re_status = 200, re_type = ''text/plain; version=0.0.4; charset=utf-8'',
          re_body = buildPrometheus num ks m @ age_family (timeSub now at')\<rparr>
      | NoSnapshot \<Rightarrow> http_error (''ucmon: '' @ errNoSnapshot) 503
      | Cancelled \<Rightarrow> http_error (''ucmon: '' @ ctxErr) 503)"

definition snapshot_reply :: "(SnapshotJSON \<Rightarrow> string + string) \<Rightarrow> string \<Rightarrow> string list \<Rightarrow> string \<Rightarrow> time \<Rightarrow> Model answer \<Rightarrow> response" where
  "snapshot_reply marshal version ks ctxErr now a =
     (case a of
        Served m at' \<Rightarrow>
          (case marshal (snapshotJSON version now ks m) of
             Inl x \<Rightarrow> http_error (''ucmon: '' @ x) 500
           | Inr b \<Rightarrow> \<lparr>re_status = 200, re_type = ''application/json; charset=utf-8'', re_body = b @ [NL]\<rparr>)
      | NoSnapshot \<Rightarrow> http_error (''ucmon: '' @ errNoSnapshot) 503
      | Cancelled \<Rightarrow> http_error (''ucmon: '' @ ctxErr) 503)"

text \<open>\<open>net.Listen\<close> takes an address with a port; \<open>splits\<close> says whether \<open>net.SplitHostPort\<close> reads one.\<close>

definition ListenAddr :: "(string \<Rightarrow> bool) \<Rightarrow> string \<Rightarrow> string" where
  "ListenAddr splits s = (if s = [] then [] else if splits s then s else '':'' @ s)"

end
