(* ===== verification/Graphs.thy ===== *)
theory Graphs
  imports Screen_Ops
begin

text \<open>
  The expanded graph of a metric (\<open>internal/ui/zoom.go\<close>): the plot in braille cells, two sample columns
  and four rows each, with its axis and its frame. The styles are arguments.
\<close>

section \<open>Numbers\<close>

definition lastValue :: "f64 list \<Rightarrow> f64 option" where
  "lastValue vs = (if vs = [] then None else Some (last vs))"

function rate_loop :: "f64 \<Rightarrow> f64 \<Rightarrow> nat \<Rightarrow> f64 \<times> nat" where
  "rate_loop n dv ex = (if n \<ge> 1024 \<and> ex < 4 then rate_loop (n / 1024) (dv * 1024) (ex + 1) else (dv, ex))"
  by pat_completeness auto
termination by (relation "measure (\<lambda>(n, dv, ex). 4 - ex)") auto

declare rate_loop.simps [simp del]

definition humanRate :: "f64 \<Rightarrow> string" where
  "humanRate bps =
     (if bps < 1024 then fmt_f 0 bps @ '' B/s''
      else
        let (dv, ex) = rate_loop (bps / 1024) 1024 0
        in fmt_f 1 (bps / dv) @ '' '' @ [''KiB/s'', ''MiB/s'', ''GiB/s'', ''TiB/s'', ''PiB/s''] ! ex)"

definition fmtMetric :: "f64 \<Rightarrow> string \<Rightarrow> string" where
  "fmtMetric v unit' =
     (if unit' = '' B/s'' then humanRate v
      else if unit' \<in> {''%'', DEGREE @ ''C'', '' MHz'', '' ms'', '' W''} then fmt_f 1 v @ unit'
      else fmt_f 2 v)"

section \<open>The plot\<close>

text \<open>The dot at a column and a row of a cell, in the block of runes from U+2800 on.\<close>

definition brailleDots :: "nat \<Rightarrow> nat \<Rightarrow> nat" where
  "brailleDots x y = [[0x01, 0x02, 0x04, 0x40], [0x08, 0x10, 0x20, 0x80]] ! x ! y"

type_synonym grid = "nat list list"

text \<open>The row of dots a value falls on, counted from the top; the clamps are the code's.\<close>

definition unit_clamp :: "f64 \<Rightarrow> f64" where
  "unit_clamp n = (let n = (if n < 0 then 0 else n) in if n > 1 then 1 else n)"

definition dot_row :: "nat \<Rightarrow> f64 \<Rightarrow> f64 \<Rightarrow> f64 \<Rightarrow> nat" where
  "dot_row totalRows lo sp v =
     (let y = round_away ((1 - unit_clamp ((v - lo) / sp)) * of_nat (totalRows - 1));
          y = (if y < 0 then 0 else y)
      in nat (if y \<ge> int totalRows then int totalRows - 1 else y))"

text \<open>One point at column \<open>x\<close> of dots and row \<open>y\<close> of dots.\<close>

definition plot_dot :: "nat \<times> nat \<Rightarrow> grid \<Rightarrow> grid" where
  "plot_dot p g =
     (case p of (x, y) \<Rightarrow>
        g[y div 4 := (g ! (y div 4))[x div 2 := Bit_Operations.or (g ! (y div 4) ! (x div 2)) (brailleDots (x mod 2) (y mod 4))]])"

definition dots :: "f64 list \<Rightarrow> nat \<Rightarrow> nat \<Rightarrow> f64 \<Rightarrow> f64 \<Rightarrow> (nat \<times> nat) list" where
  "dots values width rows lo sp =
     (let cols = width * 2;
          pts = (if length values > cols then drop (length values - cols) values else values);
          offset = cols - length pts
      in map (\<lambda>(i, v). (offset + i, dot_row (rows * 4) lo sp v)) (enumerate 0 pts))"

definition plot :: "f64 list \<Rightarrow> nat \<Rightarrow> nat \<Rightarrow> f64 \<Rightarrow> f64 \<Rightarrow> grid" where
  "plot values width rows lo sp =
     fold plot_dot (dots values width rows lo sp) (replicate rows (replicate width 0))"

definition cell_text :: "nat \<Rightarrow> string" where
  "cell_text c = (if c = 0 then '' '' else encodeRune (Bit_Operations.or 0x2800 c))"

definition renderBraille where
  "renderBraille lipWidth subtle color values width rows lo hi unit' labelW =
     (if width \<le> 0 \<or> rows \<le> 0 then []
      else
        let sp = (if hi - lo \<le> 0 then 1 else hi - lo);
            g = plot values (nat width) (nat rows) lo sp;
            label = (\<lambda>r. if r = 0 then fmtMetric hi unit'
               else if r = rows - 1 then fmtMetric lo unit'
               else if r = rows div 2 then fmtMetric (lo + sp / 2) unit'
               else [])
        in join (map (\<lambda>r. subtle (padTo lipWidth labelW (label (int r))) @ '' '' @ color (concat (map cell_text (g ! r))))
             [0..<nat rows]) [NL])"

definition viewZoom where
  "viewZoom rw lipWidth title subtle ok color m =
     (case zoomed m of
        None \<Rightarrow> box_content rw (m_w m) (m_h m) (subtle ''nothing to expand on this tab'')
      | Some z \<Rightarrow>
          let ms = zoomMetrics m;
              idx = (case m_zoom m of Some i \<Rightarrow> if i \<ge> int (length ms) then int (length ms) - 1 else i | None \<Rightarrow> 0);
              w = max 20 (boxWidth (m_w m) - 2);
              (lo, hi) = graphBounds z;
              summary = (case lastValue (zm_hist z) of
                  None \<Rightarrow> subtle ''no samples yet''
                | Some cur \<Rightarrow>
                    let (lv, hv, avg) = seriesStats (zm_hist z)
                    in subtle ''now'' @ '' '' @ ok (fmtMetric cur (zm_unit z)) @ ''   '' @
                       subtle ''min'' @ '' '' @ fmtMetric lv (zm_unit z) @ ''   '' @
                       subtle ''max'' @ '' '' @ fmtMetric hv (zm_unit z) @ ''   '' @
                       subtle ''avg'' @ '' '' @ fmtMetric avg (zm_unit z));
              rows = max 2 (bodyHeight (m_h m) - 4);
              labelW = max (int (length (fmtMetric hi (zm_unit z))) + 1) (int (length (fmtMetric lo (zm_unit z))) + 1);
              plotW = max 8 (w - labelW - 1);
              kept = int (length (zm_hist z))
          in box_content rw (m_w m) (m_h m)
               (title (zm_title z) @ ''  '' @
                subtle (''('' @ itoa (idx + 1) @ ''/'' @ itoa (int (length ms)) @ '' '' @ EMDASH @
                  '' '' @ [CHR 0xE2, CHR 0x86, CHR 0x90] @ ''/'' @ [CHR 0xE2, CHR 0x86, CHR 0x92] @
                  '' or j/k switch, z or esc close)'') @ [NL] @
                summary @ [NL, NL] @
                renderBraille lipWidth subtle (color (zm_color z)) (zm_hist z) plotW rows lo hi (zm_unit z) labelW @ [NL] @
                subtle (itoa (min (plotW * 2) kept) @ '' samples shown of '' @ itoa kept @ '' kept  '' @
                  [CHR 0xE2, CHR 0x80, CHR 0xA2] @ ''  oldest left, newest right'')))"

section \<open>What is drawn\<close>

lemma unit_clamp_range: "0 \<le> unit_clamp n" "unit_clamp n \<le> 1"
  by (simp_all add: unit_clamp_def)

lemma dot_row_less: "0 < totalRows \<Longrightarrow> dot_row totalRows lo sp v < totalRows"
  by (auto simp: dot_row_def Let_def)

definition sized :: "nat \<Rightarrow> nat \<Rightarrow> grid \<Rightarrow> bool" where
  "sized width rows g \<longleftrightarrow> length g = rows \<and> (\<forall>r \<in> set g. length r = width)"

lemma sized_nth: "sized width rows g \<Longrightarrow> r < rows \<Longrightarrow> length (g ! r) = width"
  by (simp add: sized_def)

lemma plot_dot_sized: "sized width rows g \<Longrightarrow> y div 4 < rows \<Longrightarrow> sized width rows (plot_dot (x, y) g)"
  by (auto simp: plot_dot_def sized_def dest!: set_update_subset_insert [THEN subsetD])

text \<open>
  The Unicode layout of a braille cell, which the terminal draws: the dots of the left column are numbered
  1, 2, 3 and 7 from the top, those of the right column 4, 5, 6 and 8, and dot \<open>n\<close> is bit \<open>n - 1\<close> of the
  pattern's offset in the block from U+2800 on.
\<close>

definition dot_number :: "nat \<Rightarrow> nat \<Rightarrow> nat" where
  "dot_number x y = (if y = 3 then 7 + x else 3 * x + y + 1)"

definition lit_dot :: "grid \<Rightarrow> nat \<Rightarrow> nat \<Rightarrow> bool" where
  "lit_dot g x y \<longleftrightarrow> bit (g ! (y div 4) ! (x div 2)) (dot_number (x mod 2) (y mod 4) - 1)"

lemma below_two: "x < 2 \<longleftrightarrow> x = 0 \<or> x = (1::nat)"
  by arith

lemma below_four: "x < 4 \<longleftrightarrow> x = 0 \<or> x = 1 \<or> x = 2 \<or> x = (3::nat)"
  by arith

lemma dots_bits:
  assumes "dx < 2" "dy < 4" "x < 2" "y < 4"
  shows "bit (brailleDots dx dy) (dot_number x y - 1) \<longleftrightarrow> dx = x \<and> dy = y"
  using assms unfolding below_two below_four
  by (elim disjE) (simp_all add: brailleDots_def dot_number_def bit_nat_def)

lemma brailleDots_less: "x < 2 \<Longrightarrow> y < 4 \<Longrightarrow> brailleDots x y < 256"
  unfolding below_two below_four by (elim disjE) (simp_all add: brailleDots_def)

lemma or_less_byte:
  assumes "a < 256" "b < (256::nat)"
  shows "Bit_Operations.or a b < 256"
proof -
  have "take_bit 8 a = a" "take_bit 8 b = b" using assms by (simp_all add: take_bit_nat_eq_self_iff)
  then have "take_bit 8 (Bit_Operations.or a b) = Bit_Operations.or a b" by (simp only: take_bit_or)
  then have "Bit_Operations.or a b < 2 ^ 8" by (simp only: take_bit_nat_eq_self_iff)
  then show ?thesis by simp
qed

lemma cell_code: "c < 256 \<Longrightarrow> Bit_Operations.or 0x2800 c = 0x2800 + (c::nat)"
proof -
  assume c: "c < 256"
  have "Bit_Operations.and 0x2800 c = Bit_Operations.and 0x2800 (take_bit 8 c)"
    using c by (simp add: take_bit_nat_eq_self)
  also have "\<dots> = Bit_Operations.and (take_bit 8 0x2800) c"
    by (simp only: take_bit_eq_mask and.assoc and.commute and.left_commute)
  also have "\<dots> = 0" by simp
  finally show ?thesis by (simp add: disjunctive_add_eq_or)
qed

lemma same_dot: "x div 2 = x' div 2 \<Longrightarrow> x mod 2 = x' mod 2 \<Longrightarrow> x = (x'::nat)"
  "y div 4 = y' div 4 \<Longrightarrow> y mod 4 = y' mod 4 \<Longrightarrow> y = (y'::nat)"
  by (metis div_mult_mod_eq)+

lemma lit_plot_dot:
  assumes "sized width rows g" "x' < 2 * width" "y' < 4 * rows" "x < 2 * width" "y < 4 * rows"
  shows "lit_dot (plot_dot (x', y') g) x y \<longleftrightarrow> lit_dot g x y \<or> x = x' \<and> y = y'"
proof (cases "y div 4 = y' div 4 \<and> x div 2 = x' div 2")
  case True
  have bounds: "y' div 4 < length g" "x' div 2 < length (g ! (y' div 4))"
    using assms by (auto simp: sized_def)
  have "plot_dot (x', y') g ! (y div 4) ! (x div 2) =
      Bit_Operations.or (g ! (y div 4) ! (x div 2)) (brailleDots (x' mod 2) (y' mod 4))"
    using True bounds by (simp add: plot_dot_def)
  then have "lit_dot (plot_dot (x', y') g) x y \<longleftrightarrow> lit_dot g x y \<or>
      bit (brailleDots (x' mod 2) (y' mod 4)) (dot_number (x mod 2) (y mod 4) - 1)"
    by (simp add: lit_dot_def bit_or_iff)
  moreover have "x = x' \<longleftrightarrow> x' mod 2 = x mod 2" "y = y' \<longleftrightarrow> y' mod 4 = y mod 4" using True same_dot by metis+
  ultimately show ?thesis using dots_bits [of "x' mod 2" "y' mod 4" "x mod 2" "y mod 4"] by simp
next
  case False
  then have "plot_dot (x', y') g ! (y div 4) ! (x div 2) = g ! (y div 4) ! (x div 2)"
    using assms by (auto simp: plot_dot_def sized_def nth_list_update)
  then show ?thesis using False by (auto simp: lit_dot_def)
qed

lemma lit_fold:
  "sized width rows g \<Longrightarrow> \<forall>(x', y') \<in> set ps. x' < 2 * width \<and> y' < 4 * rows \<Longrightarrow> x < 2 * width \<Longrightarrow> y < 4 * rows \<Longrightarrow>
    sized width rows (fold plot_dot ps g) \<and> (lit_dot (fold plot_dot ps g) x y \<longleftrightarrow> lit_dot g x y \<or> (x, y) \<in> set ps)"
proof (induction ps arbitrary: g)
  case (Cons p ps)
  obtain x' y' where p: "p = (x', y')" by fastforce
  have "sized width rows (plot_dot p g)" using Cons.prems p by (auto intro!: plot_dot_sized)
  then show ?case using Cons.IH [of "plot_dot p g"] Cons.prems lit_plot_dot [of width rows g x' y' x y] by (auto simp: p)
qed simp

definition bytes_only :: "grid \<Rightarrow> bool" where
  "bytes_only g \<longleftrightarrow> (\<forall>r \<in> set g. \<forall>c \<in> set r. c < 256)"

lemma bytes_only_plot_dot:
  assumes "sized width rows g" "x < 2 * width" "y < 4 * rows" "bytes_only g"
  shows "bytes_only (plot_dot (x, y) g)"
proof -
  let ?row = "g ! (y div 4)"
  let ?cell = "Bit_Operations.or (?row ! (x div 2)) (brailleDots (x mod 2) (y mod 4))"
  have inside: "y div 4 < length g" "x div 2 < length ?row" using assms by (auto simp: sized_def)
  then have row: "\<forall>c \<in> set ?row. c < 256" using assms(4) nth_mem [OF inside(1)] by (auto simp: bytes_only_def)
  then have "?row ! (x div 2) < 256" using nth_mem [OF inside(2)] by blast
  then have "?cell < 256" by (simp add: or_less_byte brailleDots_less)
  then have "\<forall>c \<in> set (?row[x div 2 := ?cell]). c < 256" using row set_update_subset_insert [of ?row "x div 2" ?cell] by blast
  moreover have "set (plot_dot (x, y) g) \<subseteq> insert (?row[x div 2 := ?cell]) (set g)"
    unfolding plot_dot_def prod.case by (rule set_update_subset_insert)
  ultimately show ?thesis using assms(4) unfolding bytes_only_def by blast
qed

lemma bytes_only_fold:
  "sized width rows g \<Longrightarrow> bytes_only g \<Longrightarrow> \<forall>(x', y') \<in> set ps. x' < 2 * width \<and> y' < 4 * rows \<Longrightarrow>
    bytes_only (fold plot_dot ps g)"
proof (induction ps arbitrary: g)
  case (Cons p ps)
  obtain x' y' where p: "p = (x', y')" by fastforce
  have "sized width rows (plot_dot p g)" using Cons.prems p by (auto intro!: plot_dot_sized)
  then show ?case using Cons.IH [of "plot_dot p g"] Cons.prems bytes_only_plot_dot [of width rows g x' y'] by (auto simp: p)
qed simp

text \<open>The points of the plot: the newest sample at the right edge, one column of dots to a sample.\<close>

lemma set_dots:
  "set (dots values width rows lo sp) =
     {(x, y). width * 2 - length (last_n (width * 2) values) \<le> x \<and> x < width * 2 \<and>
        y = dot_row (rows * 4) lo sp (last_n (width * 2) values ! (x - (width * 2 - length (last_n (width * 2) values))))}"
proof -
  define pts where "pts = last_n (width * 2) values"
  have len: "length pts \<le> width * 2" by (simp add: pts_def)
  have "(if length values > width * 2 then drop (length values - width * 2) values else values) = pts"
    by (simp add: pts_def last_n_def)
  then have "set (dots values width rows lo sp) =
      (\<lambda>i. (width * 2 - length pts + i, dot_row (rows * 4) lo sp (pts ! i))) ` {..<length pts}"
    by (force simp: dots_def Let_def in_set_conv_nth nth_enumerate_eq image_iff)
  also have "\<dots> = {(x, y). width * 2 - length pts \<le> x \<and> x < width * 2 \<and>
      y = dot_row (rows * 4) lo sp (pts ! (x - (width * 2 - length pts)))}" (is "?A = ?B")
  proof
    show "?A \<subseteq> ?B" using len by auto
    show "?B \<subseteq> ?A"
    proof (clarify)
      fix x assume "width * 2 - length pts \<le> x" "x < width * 2"
      then show "(x, dot_row (rows * 4) lo sp (pts ! (x - (width * 2 - length pts)))) \<in> ?A"
        by (intro image_eqI [of _ _ "x - (width * 2 - length pts)"]) auto
    qed
  qed
  finally show ?thesis by (simp only: pts_def)
qed

lemma dots_inside:
  assumes "0 < rows"
  shows "\<forall>(x, y) \<in> set (dots values width rows lo sp). x < 2 * width \<and> y < 4 * rows"
  using assms dot_row_less [of "rows * 4" lo sp] by (auto simp: set_dots mult.commute)

lemma round_mono: "0 \<le> a \<Longrightarrow> a \<le> b \<Longrightarrow> round_away a \<le> round_away b"
  by (simp add: round_away_nonneg floor_mono)

lemma round_away_of_nat [simp]: "round_away (of_nat n) = int n"
  by (simp add: round_away_def floor_eq_iff)

lemma dot_row_ends:
  assumes "0 < n" "0 < sp"
  shows "v \<le> lo \<Longrightarrow> dot_row n lo sp v = n - 1" "lo + sp \<le> v \<Longrightarrow> dot_row n lo sp v = 0"
proof -
  assume "v \<le> lo"
  then have "unit_clamp ((v - lo) / sp) = 0"
    using assms(2) by (auto simp: unit_clamp_def Let_def field_simps)
  then show "dot_row n lo sp v = n - 1" using assms(1) by (simp add: dot_row_def Let_def del: of_nat_diff)
next
  assume "lo + sp \<le> v"
  then have "1 \<le> (v - lo) / sp" using assms(2) by (simp add: field_simps)
  then have "unit_clamp ((v - lo) / sp) = 1" by (auto simp: unit_clamp_def Let_def)
  then show "dot_row n lo sp v = 0" using assms(1) round_away_of_nat [of 0] by (simp add: dot_row_def Let_def del: round_away_of_nat)
qed

lemma dot_row_antimono:
  assumes "0 < sp" "v \<le> w"
  shows "dot_row n lo sp w \<le> dot_row n lo sp v"
proof -
  have "(v - lo) / sp \<le> (w - lo) / sp" using assms by (simp add: divide_right_mono)
  then have "unit_clamp ((v - lo) / sp) \<le> unit_clamp ((w - lo) / sp)" by (auto simp: unit_clamp_def Let_def)
  then have "(1 - unit_clamp ((w - lo) / sp)) * of_nat (n - 1) \<le> (1 - unit_clamp ((v - lo) / sp)) * of_nat (n - 1)"
    by (intro mult_right_mono) auto
  moreover have "0 \<le> (1 - unit_clamp ((w - lo) / sp)) * of_nat (n - 1)"
    using unit_clamp_range(2) [of "(w - lo) / sp"] by simp
  ultimately have "round_away ((1 - unit_clamp ((w - lo) / sp)) * of_nat (n - 1)) \<le>
      round_away ((1 - unit_clamp ((v - lo) / sp)) * of_nat (n - 1))" by (rule round_mono [rotated])
  then show ?thesis by (auto simp: dot_row_def Let_def intro!: nat_mono)
qed

text \<open>C26: The expanded graph draws what it was given. Every point lands inside the grid, so that no index of
  the code can be out of range; after the plot a dot of the terminal, by Unicode's own layout of the braille
  cells, is lit exactly when it is the point of one of the samples that fit, the newest at the right edge and
  one column of dots to a sample; every cell is written as the braille pattern of its dots, or a blank when
  it has none; and the curve is monotone: a higher reading is never drawn below a lower one, readings
  at or past the ends of the axis lie on its first and last row.\<close>

theorem zoom_plot_exact:
  assumes "0 < width" "0 < rows" "0 < sp"
  shows "(let pts = last_n (width * 2) values; g = plot values width rows lo sp in
      length g = rows \<and>
      (\<forall>r \<in> set g. length r = width \<and>
        (\<forall>c \<in> set r. c < 256 \<and> cell_text c = (if c = 0 then '' '' else encodeRune (0x2800 + c)))) \<and>
      (\<forall>x y. x < 2 * width \<longrightarrow> y < 4 * rows \<longrightarrow>
        (lit_dot g x y \<longleftrightarrow> 2 * width - length pts \<le> x \<and> y = dot_row (rows * 4) lo sp (pts ! (x - (2 * width - length pts)))))) \<and>
    (\<forall>v w. v \<le> w \<longrightarrow> dot_row (rows * 4) lo sp w \<le> dot_row (rows * 4) lo sp v) \<and>
    (\<forall>v. v \<le> lo \<longrightarrow> dot_row (rows * 4) lo sp v = rows * 4 - 1) \<and>
    (\<forall>v. lo + sp \<le> v \<longrightarrow> dot_row (rows * 4) lo sp v = 0)"
proof -
  define pts where "pts = last_n (width * 2) values"
  define g where "g = plot values width rows lo sp"
  let ?g0 = "replicate rows (replicate width (0::nat))"
  have start: "sized width rows ?g0" "bytes_only ?g0" by (auto simp: sized_def bytes_only_def)
  have g: "g = fold plot_dot (dots values width rows lo sp) ?g0" by (simp add: g_def plot_def)
  have unlit: "\<not> lit_dot ?g0 x y" if "x < 2 * width" "y < 4 * rows" for x y
    using that by (auto simp: lit_dot_def)
  have lit_dot: "lit_dot g x y \<longleftrightarrow> (x, y) \<in> set (dots values width rows lo sp)" if "x < 2 * width" "y < 4 * rows" for x y
    unfolding g using lit_fold [OF start(1) dots_inside [OF assms(2)] that] unlit [OF that] by blast
  have "sized width rows g" unfolding g
    using lit_fold [OF start(1) dots_inside [OF assms(2)], of 0 0] assms(1,2) by auto
  moreover have "bytes_only g" unfolding g using start bytes_only_fold dots_inside [OF assms(2)] by blast
  ultimately show ?thesis using lit_dot dot_row_antimono [OF assms(3)] dot_row_ends(1) [of "rows * 4" sp _ lo] dot_row_ends(2) [of "rows * 4" sp lo] assms(2,3)
    by (auto simp: sized_def bytes_only_def set_dots g_def [symmetric] mult.commute Let_def cell_text_def cell_code)
qed

text \<open>Two of three samples fit a plot one cell wide: the older of them on the top row, the newer on the bottom.\<close>

theorem zoom_plot_exact_witness:
  "plot [7, 10, 0] 1 1 0 10 = [[0x81]] \<and> lit_dot (plot [7, 10, 0] 1 1 0 10) 0 0 \<and> \<not> lit_dot (plot [7, 10, 0] 1 1 0 10) 0 3 \<and>
    lit_dot (plot [7, 10, 0] 1 1 0 10) 1 3"
proof -
  have "dots [7, 10, 0] 1 1 0 10 = [(0, 0), (1, 3)]" by code_simp
  then have "plot [7, 10, 0] 1 1 0 10 = [[0x81]]"
    by (simp add: plot_def plot_dot_def brailleDots_def numeral_2_eq_2 [symmetric])
  moreover have "dot_row 4 0 10 10 = 0" "dot_row 4 0 10 0 = 3" by code_simp+
  moreover have "lit_dot (plot [7, 10, 0] 1 1 0 10) x y \<longleftrightarrow> y = dot_row 4 0 10 ([10, 0] ! x)" if "x < 2" "y < 4" for x y
    using zoom_plot_exact [of 1 1 10 "[7, 10, 0]" 0] that by (simp add: Let_def last_n_def)
  ultimately show ?thesis by simp
qed

end
