(* ===== verification/Text_Fmt.thy ===== *)
theory Text_Fmt
  imports Metrics
begin

text \<open>
  What the views and the reports print with: \<open>fmt\<close>'s padded and hexadecimal verbs, \<open>time.Duration\<close>
  and its rounding, and the drawing characters. \<open>%-ns\<close> pads by runes, as \<open>padRight\<close> does.
\<close>

section \<open>Characters\<close>

abbreviation BULLET :: string where "BULLET \<equiv> [CHR 0xE2, CHR 0x80, CHR 0xA2]"
abbreviation ENDASH :: string where "ENDASH \<equiv> [CHR 0xE2, CHR 0x80, CHR 0x93]"
abbreviation MINUS :: string where "MINUS \<equiv> [CHR 0xE2, CHR 0x88, CHR 0x92]"
abbreviation WARNSIGN :: string where "WARNSIGN \<equiv> [CHR 0xE2, CHR 0x9A, CHR 0xA0]"
abbreviation LEFT :: string where "LEFT \<equiv> [CHR 0xE2, CHR 0x86, CHR 0x90]"
abbreviation UP :: string where "UP \<equiv> [CHR 0xE2, CHR 0x86, CHR 0x91]"
abbreviation RIGHT :: string where "RIGHT \<equiv> [CHR 0xE2, CHR 0x86, CHR 0x92]"
abbreviation DOWN :: string where "DOWN \<equiv> [CHR 0xE2, CHR 0x86, CHR 0x93]"
abbreviation MIDDOT :: string where "MIDDOT \<equiv> [CHR 0xC2, CHR 0xB7]"
abbreviation PLUSMINUS :: string where "PLUSMINUS \<equiv> [CHR 0xC2, CHR 0xB1]"

section \<open>Verbs\<close>

text \<open>\<open>%ns\<close>; \<open>%-ns\<close> is \<open>padRight\<close>.\<close>

definition padLeft :: "string \<Rightarrow> int \<Rightarrow> string" where
  "padLeft s n = replicate (nat (n - runeCount s)) (CHR '' '') @ s"

definition fmt_u :: "64 word \<Rightarrow> string" where
  "fmt_u x = nat_digits (unat x)"

definition hex_digit :: "bool \<Rightarrow> nat \<Rightarrow> char" where
  "hex_digit upper d = char_of (if d < 10 then 48 + d else (if upper then 55 else 87) + d)"

fun fmt_hex :: "bool \<Rightarrow> nat \<Rightarrow> string" where
  "fmt_hex upper n = (if n < 16 then [hex_digit upper n] else fmt_hex upper (n div 16) @ [hex_digit upper (n mod 16)])"

declare fmt_hex.simps [simp del]

section \<open>Durations\<close>

text \<open>
  \<open>Duration.Truncate\<close> rounds towards zero, \<open>Duration.Round\<close> to the nearest multiple, halves away from zero;
  neither is near the ends of the range here.
\<close>

definition dur_truncate :: "duration \<Rightarrow> duration \<Rightarrow> duration" where
  "dur_truncate d m = (if m \<le> 0 then d else d - d smod m)"

definition dur_round :: "duration \<Rightarrow> duration \<Rightarrow> duration" where
  "dur_round d m =
     (if m \<le> 0 then d
      else
        let r = d smod m
        in if d < 0 then (if - r + - r < m then d - r else d - (m + r))
           else if r + r < m then d - r
           else d + (m - r))"

text \<open>The decimal fraction \<open>v / 10 ^ n\<close>, without trailing zeros, and the integer part.\<close>

fun frac_digits :: "nat \<Rightarrow> nat \<Rightarrow> bool \<Rightarrow> string \<Rightarrow> string" where
  "frac_digits v 0 started acc = (if started then CHR ''.'' # acc else acc)"
| "frac_digits v (Suc n) started acc =
     (let d = v mod 10; started = (started \<or> d \<noteq> 0)
      in frac_digits (v div 10) n started (if started then char_of (48 + d) # acc else acc))"

definition fmt_frac :: "nat \<Rightarrow> nat \<Rightarrow> string" where
  "fmt_frac v prec = nat_digits (v div 10 ^ prec) @ frac_digits v prec False []"

definition duration_string :: "duration \<Rightarrow> string" where
  "duration_string d =
     (let u = nat \<bar>d\<bar>
      in if u = 0 then ''0s''
         else (if d < 0 then ''-'' else []) @
           (if u < 1000 then nat_digits u @ ''ns''
            else if u < 1000000 then fmt_frac u 3 @ MU1
            else if u < 1000000000 then fmt_frac u 6 @ ''ms''
            else
              let s = u div 1000000000; mins = s div 60
              in (if mins > 0 then
                    (if mins div 60 > 0 then nat_digits (mins div 60) @ ''h'' else []) @ nat_digits (mins mod 60) @ ''m''
                  else []) @
                 fmt_frac (s mod 60 * 1000000000 + u mod 1000000000) 9 @ ''s''))"

lemma frac_digits_numeral [simp]:
  "frac_digits v (numeral k) started acc =
     (let d = v mod 10; started = (started \<or> d \<noteq> 0)
      in frac_digits (v div 10) (pred_numeral k) started (if started then char_of (48 + d) # acc else acc))"
  by (subst numeral_eq_Suc, subst frac_digits.simps(2)) (rule refl)

lemma duration_string_examples:
  "duration_string 0 = ''0s''" "duration_string (90 * second) = ''1m30s''" "duration_string (2 * hour + 5 * minute) = ''2h5m0s''"
  "duration_string 1500000 = ''1.5ms''" "duration_string (- 1500000000) = ''-1.5s''"
  by (simp_all add: duration_string_def fmt_frac_def Let_def nat_digits.simps char_of_def bit_0)

lemma dur_rounding_examples:
  "dur_round (90 * second) minute = 2 * minute" "dur_round (89 * second) minute = minute"
  "dur_truncate (119 * second) minute = minute" "dur_truncate (- 90 * second) minute = - minute"
  by (simp_all add: dur_round_def dur_truncate_def signed_modulo_int_def Let_def)

text \<open>A float of milliseconds, from whole microseconds.\<close>

definition ms_of :: "duration \<Rightarrow> f64" where
  "ms_of d = of_int (d sdiv 1000) / 1000"

section \<open>Plain text\<close>

text \<open>Text that moves no cursor: no control byte, newlines apart.\<close>

definition plain_char :: "char \<Rightarrow> bool" where
  "plain_char c \<longleftrightarrow> code c \<ge> 0x20 \<and> code c \<noteq> 0x7F"

definition plain :: "string \<Rightarrow> bool" where
  "plain s \<longleftrightarrow> list_all plain_char s"

definition plain_text :: "string \<Rightarrow> bool" where
  "plain_text s \<longleftrightarrow> list_all (\<lambda>c. plain_char c \<or> c = NL) s"

lemma plain_append [simp]: "plain (s @ t) \<longleftrightarrow> plain s \<and> plain t"
  by (simp add: plain_def)

lemma plain_Nil [simp]: "plain []"
  by (simp add: plain_def)

lemma plain_Cons [simp]: "plain (c # s) \<longleftrightarrow> plain_char c \<and> plain s"
  by (simp add: plain_def)

lemma plain_text_append [simp]: "plain_text (s @ t) \<longleftrightarrow> plain_text s \<and> plain_text t"
  by (simp add: plain_text_def)

lemma plain_text_Nil [simp]: "plain_text []"
  by (simp add: plain_text_def)

lemma plain_text_Cons [simp]: "plain_text (c # s) \<longleftrightarrow> (plain_char c \<or> c = NL) \<and> plain_text s"
  by (simp add: plain_text_def)

lemma plain_text_plain [simp]: "plain s \<Longrightarrow> plain_text s"
  by (auto simp: plain_def plain_text_def list_all_iff)

lemma plain_text_concat [simp]: "plain_text (concat ss) \<longleftrightarrow> (\<forall>s \<in> set ss. plain_text s)"
  by (induction ss) auto

lemma plain_replicate [simp]: "plain (replicate n c) \<longleftrightarrow> n = 0 \<or> plain_char c"
  by (induction n) auto

lemma plain_char_simps [simp]:
  "plain_char (Char b0 b1 b2 b3 b4 b5 b6 b7) \<longleftrightarrow> code (Char b0 b1 b2 b3 b4 b5 b6 b7) \<ge> 0x20 \<and>
     code (Char b0 b1 b2 b3 b4 b5 b6 b7) \<noteq> 0x7F"
  by (rule plain_char_def)

text \<open>What the verbs print is plain when what they are given is.\<close>

lemma plain_list: "plain s \<longleftrightarrow> (\<forall>c \<in> set s. plain_char c)"
  by (simp add: plain_def list_all_iff)

lemma plain_digits [simp]: "plain (nat_digits n)"
  using nat_digits_all_digits [of n] by (auto simp: plain_list list_all_iff is_digit_def plain_char_def)

lemma plain_itoa [simp]: "plain (itoa i)"
  by (simp add: itoa_def)

lemma plain_fmt_u [simp]: "plain (fmt_u x)"
  by (simp add: fmt_u_def)

lemma plain_take [simp]: "plain s \<Longrightarrow> plain (take n s)"
  by (auto simp: plain_list dest: in_set_takeD)

lemma plain_drop [simp]: "plain s \<Longrightarrow> plain (drop n s)"
  by (auto simp: plain_list dest: in_set_dropD)

lemma plain_pad_left [simp]: "plain_char c \<Longrightarrow> plain (pad_left c n s) \<longleftrightarrow> plain s"
  by (simp add: pad_left_def)

lemma plain_padRight [simp]: "plain (padRight s w) \<longleftrightarrow> plain s"
  by (simp add: padRight_def Let_def)

lemma plain_padLeft [simp]: "plain (padLeft s w) \<longleftrightarrow> plain s"
  by (simp add: padLeft_def)

lemma plain_fmt_f [simp]: "plain (fmt_f n x)"
  by (simp add: fmt_f_def Let_def)

lemma plain_hex_digit: "d < 16 \<Longrightarrow> plain_char (hex_digit u d)"
  by (auto simp: plain_char_def hex_digit_def)

lemma plain_hex [simp]: "plain (fmt_hex u n)"
  by (induction u n rule: fmt_hex.induct) (subst fmt_hex.simps, simp add: plain_hex_digit)

lemma plain_frac_digits: "plain acc \<Longrightarrow> plain (frac_digits v n b acc)"
proof (induction v n b acc rule: frac_digits.induct)
  case (2 v n b acc)
  have "plain_char (char_of (48 + v mod 10))" by (simp add: plain_char_def)
  then show ?case using 2 by (simp add: Let_def)
qed simp

lemma plain_fmt_frac [simp]: "plain (fmt_frac v n)"
  by (simp add: fmt_frac_def plain_frac_digits)

lemma plain_duration [simp]: "plain (duration_string d)"
  by (simp add: duration_string_def Let_def)

lemma unit_loop_f_bound: "e \<le> 5 \<Longrightarrow> snd (unit_loop_f n dv e) \<le> 5"
  by (induction n dv e rule: unit_loop_f.induct) (subst unit_loop_f.simps, auto)

lemma unit_loop_bound: "e \<le> 5 \<Longrightarrow> snd (unit_loop n dv e) \<le> 5"
  by (induction n dv e rule: unit_loop.induct) (subst unit_loop.simps, auto)

lemma plain_nth: "list_all plain xs \<Longrightarrow> i < length xs \<Longrightarrow> plain (xs ! i)"
  by (simp add: list_all_length)

lemma plain_bytes [simp]: "plain (HumanBytes n)" "plain (HumanBytesPerSec x)"
  using unit_loop_bound [of 0 "n div 1024" 1024] unit_loop_f_bound [of 0 "x / 1024" 1024]
  by (auto simp: HumanBytes_def HumanBytesPerSec_def suffixIndex_def Let_def split: prod.splits intro!: plain_nth)

lemma plain_FormatTemp [simp]: "plain (FormatTemp t)"
  by (simp add: FormatTemp_def)

lemma plain_join [simp]: "(\<And>s. s \<in> set ss \<Longrightarrow> plain s) \<Longrightarrow> plain sep \<Longrightarrow> plain (join ss sep)"
  by (induction ss sep rule: join.induct) auto

text \<open>A rune of plain text is no control byte, so cutting at runes keeps text plain.\<close>

lemma plain_runes: "plain s \<Longrightarrow> r \<in> set (runes s) \<Longrightarrow> 0x20 \<le> r \<and> r \<noteq> 0x7F"
proof (induction s rule: runes.induct)
  case (1 s)
  obtain q n where d: "decodeRune s = (q, n)" by fastforce
  have "s \<noteq> []" using 1 by auto
  moreover have "0x20 \<le> q \<and> q \<noteq> 0x7F"
  proof (cases "code (hd s) < 0x80")
    case True
    then show ?thesis using d 1(2) \<open>s \<noteq> []\<close> by (cases s) (auto simp: decodeRune_def plain_char_def)
  next
    case False
    have "\<not> q < 0x80"
    proof
      assume small: "q < 0x80"
      then have "encodeRune q = take n s" using encode_decode [OF d \<open>s \<noteq> []\<close>] by auto
      then have "take n s = [char_of q]" using small by (simp add: encodeRune_def)
      then have "hd s = char_of q" by (cases s; cases n) auto
      with small False show False by simp
    qed
    then show ?thesis by simp
  qed
  ultimately have "r = q \<or> r \<in> set (runes (drop n s))" using 1(3) d by (simp add: runes.simps [of s])
  then show ?case using 1(1) [OF \<open>s \<noteq> []\<close> d [symmetric] refl] 1(2) \<open>0x20 \<le> q \<and> q \<noteq> 0x7F\<close> by auto
qed

lemma plain_encodeRune: "0x20 \<le> r \<Longrightarrow> r \<noteq> 0x7F \<Longrightarrow> plain (encodeRune r)"
  using encodeRune_bytes [of _ r] by (force simp: plain_list plain_char_def)

lemma plain_trunc [simp]: "plain s \<Longrightarrow> plain (trunc_s s n)"
proof -
  assume "plain s"
  then have "\<forall>r \<in> set (take k (runes s)). plain (encodeRune r)" for k
    using plain_runes plain_encodeRune by (auto dest: in_set_takeD)
  then have "plain (encode (take k (runes s)))" for k by (simp add: encode_def plain_list)
  with \<open>plain s\<close> show ?thesis by (simp add: trunc_s_def)
qed

text \<open>What \<open>Printable\<close> lets through is plain.\<close>

lemma plain_of_runes: "list_all (\<lambda>r. \<not> isControl r) (runes s) \<Longrightarrow> plain s"
proof (induction s rule: runes.induct)
  case (1 s)
  show ?case
  proof (cases "s = []")
    case False
    obtain q n where d: "decodeRune s = (q, n)" by fastforce
    have rest: "list_all (\<lambda>r. \<not> isControl r) (runes (drop n s))" and q: "\<not> isControl q"
      using 1(2) d False by (simp_all add: runes.simps [of s])
    have "plain (take n s)"
    proof (cases "q = RuneError \<and> n = 1")
      case True
      then have "0x80 \<le> code (hd s)" using d False by (auto simp: decodeRune_def split: if_splits)
      then show ?thesis using True False by (cases s) (auto simp: plain_char_def)
    next
      case err: False
      then have "encodeRune q = take n s" using encode_decode [OF d False] by blast
      moreover have "0x20 \<le> q" "q \<noteq> 0x7F" using q by (auto simp: isControl_def)
      ultimately show ?thesis using plain_encodeRune by metis
    qed
    then show ?thesis using 1(1) [OF False _ refl] d rest plain_append [of "take n s" "drop n s"] by simp
  qed simp
qed

lemma plain_Printable [simp]: "plain (Printable s)"
  by (rule plain_of_runes) (rule Printable_runes)

section \<open>Names that others choose\<close>

text \<open>Text without a control character: no C0, DEL or C1 among its runes.\<close>

definition clean :: "string \<Rightarrow> bool" where
  "clean s \<longleftrightarrow> list_all (\<lambda>r. \<not> isControl r) (runes s)"

lemma clean_Printable [simp]: "clean (Printable s)"
  by (simp add: clean_def Printable_runes)

lemma clean_Nil [simp]: "clean []"
  by (simp add: clean_def)

text \<open>An ASCII byte is a rune of its own wherever it stands, so text can be cut at it.\<close>

lemma decode_ascii:
  assumes "a \<noteq> []" "code c < 0x80"
  shows "decodeRune (a @ c # b) = decodeRune a"
proof -
  have no: "\<not> byte_in lo hi c" if "0x80 \<le> lo" for lo hi using assms(2) that by (simp add: byte_in_def)
  obtain b0 a1 where a: "a = b0 # a1" using assms(1) by (cases a) auto
  have "decode2 (a @ c # b) = decode2 a" by (cases a1) (simp_all add: a decode2_def no)
  moreover have "decode3 (a @ c # b) = decode3 a"
    by (cases a1; cases "tl a1"; cases b) (auto simp: a decode3_def no)
  moreover have "decode4 (a @ c # b) = decode4 a"
    by (cases a1; cases "tl a1"; cases "tl (tl a1)"; cases b; cases "tl b") (auto simp: a decode4_def no)
  ultimately show ?thesis unfolding decodeRune_def by (auto simp: a split: option.split)
qed

lemma runes_ascii:
  assumes "code c < 0x80"
  shows "runes (a @ c # b) = runes a @ code c # runes b"
proof (induction a rule: runes.induct)
  case (1 a)
  show ?case
  proof (cases "a = []")
    case True
    have "decodeRune (c # b) = (code c, 1)" using assms by (simp add: decodeRune_def)
    then show ?thesis using True by (subst runes.simps) simp
  next
    case False
    obtain r w where d: "decodeRune a = (r, w)" by fastforce
    then have "w \<le> length a" using decodeRune_length [OF False] by simp
    then show ?thesis
      using False 1 [OF False _ refl] d decode_ascii [OF False assms, of b]
      by (simp add: runes.simps [of "a @ c # b"] runes.simps [of a])
  qed
qed

lemma clean_cut: "code c < 0x80 \<Longrightarrow> clean (a @ c # b) \<Longrightarrow> clean a \<and> clean b"
  by (simp add: clean_def runes_ascii)

lemma clean_split: "code c < 0x80 \<Longrightarrow> clean s \<Longrightarrow> p \<in> set (split s c) \<Longrightarrow> clean p"
proof (induction "length s" arbitrary: s rule: less_induct)
  case less
  show ?case
  proof (cases "c \<in> set s")
    case True
    then obtain x y where s: "s = x @ c # y" "c \<notin> set x" by (meson split_list_first)
    then have "clean x" "clean y" using less.prems clean_cut [of c x y] by simp_all
    then show ?thesis using less.hyps [of y] less.prems s by (auto simp: split_sep)
  qed (use less in \<open>simp add: split_none\<close>)
qed

lemma clean_base: "clean p \<Longrightarrow> clean (filepathBase p)"
proof -
  assume p: "clean p"
  define q where "q = rev (dropWhile (\<lambda>c. c = CHR ''/'') (rev p))"
  have "clean q"
  proof -
    have "clean (rev (dropWhile (\<lambda>c. c = CHR ''/'') s))" if "clean (rev s)" for s
      using that
    proof (induction s)
      case (Cons c s)
      then show ?case using clean_cut [of c "rev s" "[]"] by simp
    qed simp
    then show ?thesis using p by (simp add: q_def)
  qed
  moreover have "clean ''/''" "clean ''.''" by code_simp+
  ultimately show ?thesis
    using clean_split [of "CHR ''/''" q] by (simp add: filepathBase_def q_def [symmetric] Let_def)
qed

lemma clean_argv0: "clean s \<Longrightarrow> clean (argv0Base s)"
proof (cases "CHR '' '' \<in> set s")
  case True
  assume s: "clean s"
  obtain x y where x: "s = x @ CHR '' '' # y" "CHR '' '' \<notin> set x" using split_list_first [OF True] by blast
  then have "clean x" using s clean_cut [of "CHR '' ''" x y] by simp
  then show ?thesis using x by (simp add: argv0Base_def cut_def indexByte_append clean_base)
next
  case False
  then have "cut s (CHR '' '') = None" by (induction s) (auto simp: cut_def)
  then show "clean s \<Longrightarrow> ?thesis" by (simp add: argv0Base_def clean_base)
qed

lemma readProc_clean:
  assumes "readProc env h pid mt now s = (Some (i, cur), s')"
  shows "clean (pi_Name i) \<and> clean (pi_CmdLine i)"
proof -
  have keep: "pi_Name (proc_rates ticks prev cur info) = pi_Name info"
    "pi_CmdLine (proc_rates ticks prev cur info) = pi_CmdLine info" for ticks prev cur info
    by (simp_all add: proc_rates_def Let_def split: option.split)
  show ?thesis
    using assms
    by (auto simp: readProc_def Let_def keep clean_argv0 split: option.splits prod.splits if_splits)
qed

lemma list_loop_clean:
  "list_loop env h mt now es s seen = (infos, s', seen') \<Longrightarrow> \<forall>i \<in> set infos. clean (pi_Name i) \<and> clean (pi_CmdLine i)"
proof (induction es arbitrary: s seen infos s' seen')
  case (Cons e es)
  show ?case
  proof (cases "pid_of e")
    case None
    then show ?thesis using Cons by simp
  next
    case (Some pid)
    obtain r s1 where rd: "readProc env h pid mt now s = (r, s1)" by fastforce
    show ?thesis
    proof (cases r)
      case None
      then show ?thesis using Cons.prems Cons.IH [of s1 seen] Some rd by simp
    next
      case (Some x)
      obtain i cur where x: "x = (i, cur)" by (cases x)
      obtain rows s3 seen3 where loop: "list_loop env h mt now es (s1\<lparr>ps_prev := (ps_prev s1)(pid \<mapsto> cur)\<rparr>) (pid # seen) = (rows, s3, seen3)"
        by (metis prod_cases3)
      have "infos = i # rows" using Cons.prems \<open>pid_of e = Some pid\<close> rd Some x loop by simp
      then show ?thesis using Cons.IH [OF loop] readProc_clean rd Some x by auto
    qed
  qed
qed simp

lemma conns_clean: "r \<in> set (convertConns look cs) \<Longrightarrow> clean (cn_Process r)"
proof -
  have "list_all (\<lambda>r. clean (cn_Process r)) (conns_loop look st cs)" for st
    by (induction cs arbitrary: st) (simp_all add: Let_def split: prod.split)
  then show "r \<in> set (convertConns look cs) \<Longrightarrow> clean (cn_Process r)" by (simp add: convertConns_def list_all_iff)
qed

lemma link_clean: "clean (iw_SSID (parseIWLink arch out))"
proof -
  have "clean (iw_SSID (fold (iw_line arch) ls l))" if "clean (iw_SSID l)" for ls l
    using that
  proof (induction ls arbitrary: l)
    case (Cons x ls)
    have "clean (iw_SSID (iw_line arch x l))"
      using Cons.prems by (simp add: iw_line_def Let_def split: option.split floatParse.split)
    then show ?case using Cons.IH by simp
  qed simp
  then show ?thesis by (simp add: parseIWLink_def noLink_def)
qed

lemma operator_clean: "clean (mo_Operator (parseModem out))"
proof -
  have "clean (mo_Operator (fold modem_line ls m))" if "clean (mo_Operator m)" for ls m
    using that
  proof (induction ls arbitrary: m)
    case (Cons x ls)
    have "clean (mo_Operator (modem_line x m))"
      using Cons.prems by (simp add: modem_line_def split: option.split prod.split)
    then show ?case using Cons.IH by simp
  qed simp
  then show ?thesis by (simp add: parseModem_def noModem_def Let_def)
qed



end
