(* ===== verification/Report.thy ===== *)
theory Report
  imports Text_Fmt
begin

text \<open>
  The plain-text report (\<open>internal/ui/export.go\<close>): \<open>buildReport\<close> section by section, in the order it is
  written, and the file it goes to. \<open>printer\<close> holds the version, the two time layouts it prints with
  and \<open>%q\<close>, whose tables of printable runes are the library's.
\<close>

record printer =
  pn_version :: string
  pn_stamp :: "time \<Rightarrow> string"
  pn_hms :: "time \<Rightarrow> string"
  pn_quote :: "string \<Rightarrow> string"

section \<open>Words\<close>

definition boolWord :: "bool \<Rightarrow> string \<Rightarrow> string \<Rightarrow> string" where
  "boolWord v t f = (if v then t else f)"

definition throttleFlags :: "ThrottleInfo \<Rightarrow> string" where
  "throttleFlags t =
     (let f = (if th_UnderVoltageNow t then [''under-voltage''] else []) @
              (if th_FreqCappedNow t then [''freq-capped''] else []) @
              (if th_ThrottledNow t then [''throttled''] else []) @
              (if th_SoftTempLimitNow t then [''soft-temp-limit''] else [])
      in if f = [] then '' (ok)'' else '' ('' @ join f '', '' @ '')'')"

definition line :: "string \<Rightarrow> string" where
  "line s = s @ [NL]"

section \<open>Sections\<close>

definition cpu_section :: "CPUSnapshot \<Rightarrow> string" where
  "cpu_section s =
     line ''CPU'' @
     line (''  total          '' @ fmt_f 1 (cs_TotalPercent s) @ ''%'') @
     concat (map (\<lambda>(i, p). line (''  core '' @ padRight (nat_digits i) 2 @ ''        '' @ fmt_f 1 p @ ''%''))
       (enumerate 0 (cs_PerCorePercent s))) @
     (let bd = cs_Breakdown s
      in if cb_Valid bd then
           line (''  time           user '' @ fmt_f 0 (cb_User bd) @ ''%  sys '' @ fmt_f 0 (cb_System bd) @ ''%  nice '' @
             fmt_f 0 (cb_Nice bd) @ ''%  iowait '' @ fmt_f 0 (cb_Iowait bd) @ ''%  irq '' @ fmt_f 0 (cb_IRQ bd) @ ''%  steal '' @
             fmt_f 0 (cb_Steal bd) @ ''%  idle '' @ fmt_f 0 (cb_Idle bd) @ ''%'') @
           (if cb_Busiest bd \<noteq> [] then line (''  busiest        '' @ cb_Busiest bd) else [])
         else []) @
     (if cs_Temperatures s \<noteq> [] then
        line ''  temperatures:'' @
        (let w = fold (\<lambda>t w. max w (runeCount (tr_Label t))) (cs_Temperatures s) 16
         in concat (map (\<lambda>t. line (''    '' @ padRight (tr_Label t) w @ '' '' @ FormatTemp (tr_Temp t))) (cs_Temperatures s)))
      else []) @
     [NL]"

definition mem_section :: "oomTracker \<Rightarrow> MemSnapshot \<Rightarrow> string" where
  "mem_section o' s =
     line ''Memory'' @
     line (''  RAM            '' @ HumanBytes (unat (ms_Used s)) @ '' / '' @ HumanBytes (unat (ms_Total s)) @ '' ('' @
       fmt_f 1 (ms_UsedPct s) @ ''%)'') @
     line (''  available      '' @ HumanBytes (unat (ms_Available s))) @
     (if ms_SwapTotal s > 0 then
        line (''  swap           '' @ HumanBytes (unat (ms_SwapUsed s)) @ '' / '' @ HumanBytes (unat (ms_SwapTotal s)) @ '' ('' @
          fmt_f 1 (ms_SwapUsedPct s) @ ''%)'')
      else line ''  swap           not configured'') @
     (if ms_OOMKillsOK s then
        line (''  OOM kills      '' @ fmt_u (ms_OOMKills s) @ '' since boot, '' @ fmt_u (ot_session o') @ '' this session'')
      else []) @
     [NL]"

definition freq_section :: "PolicyFreq list \<Rightarrow> string" where
  "freq_section fs =
     (if fs \<noteq> [] then
        line ''Frequency'' @
        concat (map (\<lambda>f. line (''  '' @ padRight (pf_Policy f) 8 @ ''       '' @ fmt_f 0 (pf_CurMHz f) @ '' MHz ('' @
          fmt_f 0 (pf_MinMHz f) @ ENDASH @ fmt_f 0 (pf_MaxMHz f) @ ''), governor '' @ pf_Governor f)) fs) @
        [NL]
      else [])"

definition psi_section :: "PSISnapshot \<Rightarrow> string" where
  "psi_section p =
     (if ps_Present p then
        line ''Pressure (PSI, some avg10/avg60)'' @
        concat (map (\<lambda>(name, r).
          if HasSome r then
            line (''  '' @ padRight name 14 @ '' '' @ fmt_f 1 (SomeAvg10 r) @ ''% / '' @ fmt_f 1 (SomeAvg60 r) @ ''%'' @
              (if HasFull r then ''  (full '' @ fmt_f 1 (FullAvg10 r) @ ''% / '' @ fmt_f 1 (FullAvg60 r) @ ''%)'' else []))
          else []) [(''cpu'', ps_CPU p), (''memory'', ps_Mem p), (''io'', ps_IO p)]) @
        [NL]
      else [])"

definition power_section :: "PowerSnapshot \<Rightarrow> string" where
  "power_section p =
     (let l = pw_Load p; b = pw_Battery p; t = pw_Throttle p in
      line ''Power'' @
      line (''  load (1/5/15)  '' @ fmt_f 2 (ld_Load1 l) @ '' / '' @ fmt_f 2 (ld_Load5 l) @ '' / '' @ fmt_f 2 (ld_Load15 l) @
        ''  ('' @ itoa (ld_CPUCount l) @ '' cores)'') @
      (if ba_Present b then
         line (''  battery        '' @ (if ba_Capacity b \<ge> 0 then itoa (ba_Capacity b) @ ''%'' else ''n/a'') @ '' '' @ ba_Status b @
           (if ba_PowerW b > 0 then '', '' @ fmt_f 1 (ba_PowerW b) @ '' W'' else []) @
           (if ba_TimeLeft b > 0 then '', '' @ duration_string (dur_round (ba_TimeLeft b) minute) @ '' left'' else []) @
           (if ba_HealthPct b > 0 then '', health '' @ fmt_f 0 (ba_HealthPct b) @ ''%'' else []))
       else []) @
      (if pw_ACKnown p then line (''  AC             '' @ boolWord (pw_ACOnline p) ''online'' ''offline'') else []) @
      (if th_Available t then line (''  throttle       raw=0x'' @ fmt_hex False (unat (th_Raw t)) @ throttleFlags t) else []) @
      [NL])"

definition disk_section :: "DiskInfo list \<Rightarrow> string" where
  "disk_section ds =
     (if ds \<noteq> [] then
        line ''Disks'' @
        (let w = fold (\<lambda>d w. max w (runeCount (di_MountPoint d))) ds 18
         in concat (map (\<lambda>d. line (''  '' @ padRight (di_MountPoint d) w @ '' '' @ HumanBytes (di_Used d) @ '' / '' @
              HumanBytes (di_Total d) @ '' ('' @ fmt_f 1 (di_UsedPct d) @ ''%) '' @ di_FSType d @
              (if di_RemountedRO d then ''  [REMOUNTED READ-ONLY]'' else if di_ReadOnly d then ''  [ro]'' else []))) ds)) @
        [NL]
      else [])"

definition storage_line :: "StorageHealth \<Rightarrow> string" where
  "storage_line h =
     ''  '' @ padRight (sh_Device h) 10 @ '' '' @ padRight (sh_Kind h) 5 @ '' '' @ padRight (trunc_s (sh_Name h) 18) 18 @
     (case WearPct h of Some pct \<Rightarrow> '' wear '' @ pad_left (CHR '' '') 3 (fmt_f 0 pct) @ ''%'' | None \<Rightarrow> '' wear n/a '') @
     (if EOLLabel h \<noteq> [] then ''  reserve '' @ EOLLabel h else []) @
     (if sh_ReadOnly h then ''  READ-ONLY'' else [])"

definition storage_section :: "StorageHealth list \<Rightarrow> string" where
  "storage_section hs =
     (if hs \<noteq> [] then line ''Storage health'' @ concat (map (\<lambda>h. line (storage_line h)) hs) @ [NL] else [])"

definition iface_line :: "(string \<Rightarrow> string) \<Rightarrow> (string \<rightharpoonup> IWLink) \<Rightarrow> int \<Rightarrow> IfaceInfo \<Rightarrow> string" where
  "iface_line quote links w i =
     ''  '' @ padRight (if_Name i) w @ '' '' @ DOWN @ '' '' @ padRight (HumanBytesPerSec (if_RxBps i)) 12 @ '' '' @ UP @ '' '' @
     padRight (HumanBytesPerSec (if_TxBps i)) 12 @
     (if wf_Present (if_WiFi i) then
        ''  wifi '' @ fmt_f 0 (wf_QualityPct (if_WiFi i)) @ ''% '' @ fmt_f 0 (wf_SignalDBm (if_WiFi i)) @ '' dBm'' @
        (case links (if_Name i) of
           Some l \<Rightarrow> if iw_SSID l \<noteq> [] then ''  ssid '' @ quote (iw_SSID l) @ '' ch '' @ itoa (iw_Channel l) else []
         | None \<Rightarrow> [])
      else []) @
     (if BadFramesTotal i > 0 then ''  err/drop '' @ fmt_u (BadFramesTotal i) else [])"

definition net_section :: "(string \<Rightarrow> string) \<Rightarrow> Model \<Rightarrow> string" where
  "net_section quote m =
     (let up = upIfaces m
      in if up \<noteq> [] then
           line ''Network'' @
           (let w = fold (\<lambda>i w. max w (runeCount (if_Name i))) up 10
            in concat (map (\<lambda>i. line (iface_line quote (m_iwLinks m) w i)) up)) @
           [NL]
         else [])"

definition modem_section :: "ModemInfo \<Rightarrow> string" where
  "modem_section mo =
     (if mo_Present mo then
        line ''Modem'' @
        line (''  state          '' @ mo_State mo) @
        (if mo_Operator mo \<noteq> [] then line (''  operator       '' @ mo_Operator mo @ '' ('' @ mo_AccessTech mo @ '')'') else []) @
        (if mo_SignalPct mo \<ge> 0 then
           line (''  signal         '' @ itoa (mo_SignalPct mo) @ ''%'' @
             (if mo_HasRSSI mo then ''  '' @ fmt_f 0 (mo_RSSIdBm mo) @ '' dBm'' else []))
         else []) @
        [NL]
      else [])"

definition ping_line :: "(string \<rightharpoonup> bool list) \<Rightarrow> PingResult \<Rightarrow> string" where
  "ping_line lossWin r =
     ''  '' @ padRight (pr_Target r @ '' ('' @ pr_Addr r @ '')'') 24 @ '' '' @
     (if pr_OK r then fmt_f 1 (ms_of (pr_RTT r)) @ '' ms'' else ''lost'') @ '' ('' @ pr_Method r @ '')'' @
     (case lossWin (pr_Target r) of
        Some win \<Rightarrow> if win \<noteq> [] then '', loss '' @ fmt_f 0 (lossPct win) @ ''%/'' @ nat_digits (length win) else []
      | None \<Rightarrow> [])"

definition ping_section :: "Model \<Rightarrow> string" where
  "ping_section m =
     (if m_pings m \<noteq> [] then
        line ''Latency'' @ concat (map (\<lambda>r. line (ping_line (m_lossWin m) r)) (m_pings m)) @ [NL]
      else [])"

definition proc_line :: "ProcInfo \<Rightarrow> string" where
  "proc_line p =
     ''  '' @ padRight (itoa (pi_PID p)) 7 @ '' '' @ padRight (trunc_s (pi_Name p) 18) 18 @ '' '' @
     pad_left (CHR '' '') 6 (fmt_f 1 (pi_CPUPct p)) @ ''% '' @ pad_left (CHR '' '') 6 (fmt_f 1 (pi_MemPct p)) @ ''% '' @
     padLeft (if pi_IOKnown p then HumanBytesPerSec (pi_IOReadBps p + pi_IOWriteBps p) else ''-'') 12"

definition procs_section :: "Model \<Rightarrow> string" where
  "procs_section m =
     (if pp_procs (m_pp m) \<noteq> [] then
        line ''Top processes (CPU)'' @
        line (''  '' @ padRight ''PID'' 7 @ '' '' @ padRight ''NAME'' 18 @ '' '' @ padLeft ''CPU%'' 7 @ '' '' @ padLeft ''MEM%'' 7 @
          '' '' @ padLeft ''DISK I/O'' 12) @
        concat (map (\<lambda>p. line (proc_line p)) (topProcs 10 m)) @
        [NL]
      else [])"

definition peaks_section :: "sessionPeaks \<Rightarrow> string" where
  "peaks_section p =
     line ''Session peaks'' @
     line (''  cpu            '' @ fmt_f 1 (pk_cpuPct p) @ ''%'') @
     (if pk_tempC p > 0 then line (''  temperature    '' @ FormatTemp (pk_tempC p) @ '' ('' @ pk_tempLabel p @ '')'') else []) @
     line (''  memory         '' @ fmt_f 1 (pk_memPct p) @ ''%'') @
     line (''  load1          '' @ fmt_f 2 (pk_load1 p)) @
     (if pk_battMin p \<ge> 0 then line (''  battery min    '' @ itoa (pk_battMin p) @ ''%'') else []) @
     [NL]"

definition log_line :: "(time \<Rightarrow> string) \<Rightarrow> alertEntry \<Rightarrow> string" where
  "log_line hms en =
     ''    '' @ hms (en_when en) @ '' ['' @ padRight (if en_cleared en then ''OK'' else label (en_sev en)) 4 @ ''] '' @ en_msg en"

definition alerts_section :: "(time \<Rightarrow> string) \<Rightarrow> string list \<Rightarrow> alertEngine \<Rightarrow> string" where
  "alerts_section hms ks e =
     line ''Alerts'' @
     (if activeList e ks \<noteq> [] then
        line ''  active:'' @
        concat (map (\<lambda>a. line (''    ['' @ label (ac_sev a) @ ''] '' @ ac_msg a)) (activeList e ks))
      else line ''  active: none'') @
     (if ae_log e \<noteq> [] then
        line ''  recent log:'' @
        (let log = ae_log e; start = (if length log > 20 then length log - 20 else 0)
         in concat (map (\<lambda>en. line (log_line hms en)) (drop start log)))
      else [])"

section \<open>The report\<close>

definition buildReport :: "printer \<Rightarrow> time \<Rightarrow> string list \<Rightarrow> Model \<Rightarrow> string" where
  "buildReport pr now ks m =
     line (''ucmon '' @ pn_version pr @ '' '' @ EMDASH @ '' snapshot '' @ pn_stamp pr now) @
     line (concat (replicate 56 HLINE)) @ [NL] @
     cpu_section (m_cpuSnap m) @
     mem_section (m_oom m) (m_memSnap m) @
     freq_section (cs_Freqs (m_cpuSnap m)) @
     psi_section (m_psi m) @
     power_section (m_powerSnap m) @
     disk_section (m_disks m) @
     storage_section (m_storage m) @
     net_section (pn_quote pr) m @
     modem_section (m_modem m) @
     ping_section m @
     procs_section m @
     peaks_section (m_peaks m) @
     alerts_section (pn_hms pr) ks (m_alerts m)"

text \<open>
  The file it is written to: the directory of the configuration, else the home directory, else the
  working directory. \<open>write\<close> is the outcome of the write, \<open>fileStamp\<close> the time in the name.
\<close>

definition exportSnapshot ::
    "printer \<Rightarrow> (time \<Rightarrow> string) \<Rightarrow> (string \<Rightarrow> string option) \<Rightarrow> (string \<Rightarrow> string \<Rightarrow> string option) \<Rightarrow>
     string option \<Rightarrow> time \<Rightarrow> string list \<Rightarrow> Model \<Rightarrow> string + string" where
  "exportSnapshot pr fileStamp mkdir write home now ks m =
     (let report = buildReport pr now ks m;
          dir = (if ReportDir (m_cfg m) = [] then
                   (case home of Some h \<Rightarrow> if h = [] then ''.'' else h | None \<Rightarrow> ''.'')
                 else ReportDir (m_cfg m))
      in case mkdir dir of
           Some err \<Rightarrow> Inl err
         | None \<Rightarrow>
             let path = joinPath [dir, ''ucmon-report-'' @ fileStamp now @ ''.txt'']
             in case write path report of Some err \<Rightarrow> Inl err | None \<Rightarrow> Inr path)"

section \<open>The report is plain text\<close>

text \<open>Every name and message the readings carry is plain.\<close>

definition plain_readings :: "string list \<Rightarrow> Model \<Rightarrow> bool" where
  "plain_readings ks m \<longleftrightarrow>
     plain (cb_Busiest (cs_Breakdown (m_cpuSnap m))) \<and>
     (\<forall>t \<in> set (cs_Temperatures (m_cpuSnap m)). plain (tr_Label t)) \<and>
     (\<forall>f \<in> set (cs_Freqs (m_cpuSnap m)). plain (pf_Policy f) \<and> plain (pf_Governor f)) \<and>
     plain (ba_Status (pw_Battery (m_powerSnap m))) \<and>
     (\<forall>d \<in> set (m_disks m). plain (di_MountPoint d) \<and> plain (di_FSType d)) \<and>
     (\<forall>h \<in> set (m_storage m). plain (sh_Device h) \<and> plain (sh_Kind h) \<and> plain (sh_Name h)) \<and>
     (\<forall>i \<in> set (ns_Ifaces (m_netSnap m)). plain (if_Name i)) \<and>
     plain (mo_State (m_modem m)) \<and> plain (mo_Operator (m_modem m)) \<and> plain (mo_AccessTech (m_modem m)) \<and>
     (\<forall>r \<in> set (m_pings m). plain (pr_Target r) \<and> plain (pr_Addr r) \<and> plain (pr_Method r)) \<and>
     (\<forall>p \<in> set (pp_procs (m_pp m)). plain (pi_Name p)) \<and>
     plain (pk_tempLabel (m_peaks m)) \<and>
     (\<forall>a \<in> set (activeList (m_alerts m) ks). plain (ac_msg a)) \<and>
     (\<forall>en \<in> set (ae_log (m_alerts m)). plain (en_msg en))"

lemma plain_line [simp]: "plain_text (line s) \<longleftrightarrow> plain_text s"
  by (simp add: line_def)

lemma plain_words [simp]: "plain (throttleFlags t)" "plain (boolWord v a b) \<longleftrightarrow> plain (if v then a else b)"
    "plain (label sev)" "plain (EOLLabel h)"
  by (auto simp: throttleFlags_def boolWord_def label_def EOLLabel_def Let_def)

lemma plain_text_rows [simp]: "plain_text (concat (map f xs)) \<longleftrightarrow> (\<forall>x \<in> set xs. plain_text (f x))"
  by (induction xs) auto

lemma cpu_section_plain:
  "plain (cb_Busiest (cs_Breakdown s)) \<Longrightarrow> \<forall>t \<in> set (cs_Temperatures s). plain (tr_Label t) \<Longrightarrow> plain_text (cpu_section s)"
  by (auto simp: cpu_section_def Let_def in_set_enumerate_eq)

lemma mem_section_plain: "plain_text (mem_section o' s)"
  by (simp add: mem_section_def)

lemma freq_section_plain:
  "\<forall>f \<in> set fs. plain (pf_Policy f) \<and> plain (pf_Governor f) \<Longrightarrow> plain_text (freq_section fs)"
  by (simp add: freq_section_def)

lemma psi_section_plain: "plain_text (psi_section p)"
  by (simp add: psi_section_def)

lemma power_section_plain: "plain (ba_Status (pw_Battery p)) \<Longrightarrow> plain_text (power_section p)"
  by (simp add: power_section_def Let_def)

lemma disk_section_plain:
  "\<forall>d \<in> set ds. plain (di_MountPoint d) \<and> plain (di_FSType d) \<Longrightarrow> plain_text (disk_section ds)"
  by (simp add: disk_section_def Let_def)

lemma storage_section_plain:
  "\<forall>h \<in> set hs. plain (sh_Device h) \<and> plain (sh_Kind h) \<and> plain (sh_Name h) \<Longrightarrow> plain_text (storage_section hs)"
  by (simp add: storage_section_def storage_line_def split: option.splits)

lemma net_section_plain:
  "\<forall>i \<in> set (ns_Ifaces (m_netSnap m)). plain (if_Name i) \<Longrightarrow> \<forall>s. plain (quote s) \<Longrightarrow> plain_text (net_section quote m)"
  by (simp add: net_section_def iface_line_def upIfaces_def Let_def split: option.splits)

lemma modem_section_plain:
  "plain (mo_State mo) \<Longrightarrow> plain (mo_Operator mo) \<Longrightarrow> plain (mo_AccessTech mo) \<Longrightarrow> plain_text (modem_section mo)"
  by (simp add: modem_section_def)

lemma ping_section_plain:
  "\<forall>r \<in> set (m_pings m). plain (pr_Target r) \<and> plain (pr_Addr r) \<and> plain (pr_Method r) \<Longrightarrow> plain_text (ping_section m)"
  by (simp add: ping_section_def ping_line_def split: option.splits)

lemma topProcs_sub: "set (topProcs n m) \<subseteq> set (pp_procs (m_pp m))"
  by (auto simp: topProcs_def Let_def dest: in_set_takeD)

lemma procs_section_plain:
  "\<forall>p \<in> set (pp_procs (m_pp m)). plain (pi_Name p) \<Longrightarrow> plain_text (procs_section m)"
  using topProcs_sub [of 10 m] by (auto simp: procs_section_def proc_line_def)

lemma peaks_section_plain: "plain (pk_tempLabel p) \<Longrightarrow> plain_text (peaks_section p)"
  by (simp add: peaks_section_def)

lemma alerts_section_plain:
  "\<forall>a \<in> set (activeList e ks). plain (ac_msg a) \<Longrightarrow> \<forall>en \<in> set (ae_log e). plain (en_msg en) \<Longrightarrow> \<forall>t. plain (hms t) \<Longrightarrow>
    plain_text (alerts_section hms ks e)"
  by (auto simp: alerts_section_def log_line_def Let_def dest: in_set_dropD)

text \<open>C20: The text report moves no cursor and changes no terminal setting: whatever the readings are, it holds
  no control byte but the newlines the report itself writes, as long as the names and messages among them hold
  none. (What \<open>Printable\<close> lets through never does.)\<close>

theorem report_plain:
  assumes "plain_readings ks m" "plain (pn_version pr)" "\<forall>t. plain (pn_stamp pr t) \<and> plain (pn_hms pr t)" "\<forall>s. plain (pn_quote pr s)"
  shows "plain_text (buildReport pr now ks m)"
  using assms unfolding plain_readings_def buildReport_def
  by (simp add: cpu_section_plain mem_section_plain freq_section_plain psi_section_plain power_section_plain
    disk_section_plain storage_section_plain net_section_plain modem_section_plain ping_section_plain
    procs_section_plain peaks_section_plain alerts_section_plain)

text \<open>A root file system on a machine that has just started.\<close>

definition report_model :: Model where
  "report_model = (new_from 0 (\<lambda>s. s) Default)\<lparr>m_disks :=
     [\<lparr>di_Device = ''/dev/mmcblk0p2'', di_MountPoint = ''/'', di_FSType = ''ext4'', di_Total = 64000000000, di_Used = 8000000000, di_Free = 56000000000,
       di_UsedPct = 25 / 2, di_ReadOnly = True, di_RemountedRO = True\<rparr>]\<rparr>"

lemma report_model_plain: "plain_readings [] report_model"
  by (simp add: plain_readings_def report_model_def new_from_def zeroCPU_def noBreakdown_def zeroPower_def noBattery_def
    zeroNet_def noModem_def newPane_def newSessionPeaks_def newAlertEngine_def activeList_def active_conds_def Default_def plain_def plain_char_def)

theorem report_plain_witness:
  "plain_text (buildReport \<lparr>pn_version = ''1.0'', pn_stamp = (\<lambda>_. ''now''), pn_hms = (\<lambda>_. ''now''), pn_quote = (\<lambda>_. [])\<rparr> 0 [] report_model)"
  by (rule report_plain [OF report_model_plain]) (simp_all add: plain_def plain_char_def)

end
