(* ===== verification/Once.thy ===== *)
theory Once
  imports Report Exporter Screen_Runs History "HOL-Library.State_Monad"
begin

text \<open>
  One collection from start to end (\<open>internal/ui/once.go\<close>), which \<open>--once\<close>, \<open>--json\<close> and every scrape of the
  exporter run, the fetches the screen dispatches (\<open>internal/ui/model.go\<close>), and the choice of a mode of
  operation (\<open>cmd/ucmon/main.go\<close>). The world the probes read is a state \<open>'w\<close> they may change:
  the samplers keep their last counters in it, and time passes in it.
\<close>

section \<open>Probes\<close>

record 'w probes =
  pb_cpu :: "('w, string + CPUSnapshot) state"
  pb_mem :: "('w, string + MemSnapshot) state"
  pb_power :: "('w, string + PowerSnapshot) state"
  pb_disk :: "('w, string + DiskInfo list \<times> DiskIOInfo list) state"
  pb_net :: "('w, string + NetSnapshot) state"
  pb_procs :: "('w, string + ProcInfo list) state"
  pb_conns :: "('w, string + ConnInfo list) state"
  pb_psi :: "('w, PSISnapshot) state"
  pb_storage :: "('w, StorageHealth list) state"
  pb_modem :: "('w, ModemInfo) state"
  pb_gpu :: "('w, GPUInfo) state"
  pb_backlight :: "string \<Rightarrow> ('w, BacklightInfo) state"
  pb_iw :: "(string \<Rightarrow> bool) \<Rightarrow> ('w, string \<rightharpoonup> IWLink) state"
  pb_ping :: "duration \<Rightarrow> ('w, PingResult list) state"
  pb_oom :: "('w, 64 word \<times> bool) state"
  pb_kmsg :: "('w, KernelEvent list \<times> string option) state"
  pb_detail :: "int \<Rightarrow> ('w, ProcDetail option) state"
  pb_sleep :: "duration \<Rightarrow> ('w, unit) state"
  pb_now :: "('w, time) state"

section \<open>Fetches\<close>

text \<open>The message a dispatched command sends back when it has run.\<close>

definition or_err :: "fetchKind \<Rightarrow> ('a \<Rightarrow> Msg) \<Rightarrow> string + 'a \<Rightarrow> Msg" where
  "or_err k ok r = (case r of Inl e \<Rightarrow> ErrMsg k e | Inr x \<Rightarrow> ok x)"

definition fetchCPUCmd :: "'w probes \<Rightarrow> ('w, Msg) state" where
  "fetchCPUCmd p = do { r \<leftarrow> pb_cpu p; State_Monad.return (or_err fetchCPU CpuMsg r) }"

definition fetchMemCmd :: "'w probes \<Rightarrow> ('w, Msg) state" where
  "fetchMemCmd p = do { r \<leftarrow> pb_mem p; State_Monad.return (or_err fetchMem MemMsg r) }"

definition fetchOOMCountCmd :: "'w probes \<Rightarrow> ('w, Msg) state" where
  "fetchOOMCountCmd p =
     do { r \<leftarrow> pb_oom p; t \<leftarrow> pb_now p; State_Monad.return (OomCountMsg (fst r) (snd r) t) }"

definition fetchPowerCmd :: "'w probes \<Rightarrow> ('w, Msg) state" where
  "fetchPowerCmd p = do { r \<leftarrow> pb_power p; State_Monad.return (or_err fetchPower PowerMsg r) }"

definition fetchProcsCmd :: "'w probes \<Rightarrow> ('w, Msg) state" where
  "fetchProcsCmd p = do { r \<leftarrow> pb_procs p;
     State_Monad.return (case r of Inl e \<Rightarrow> ProcMsg (Some e) [] | Inr ps \<Rightarrow> ProcMsg None ps) }"

definition fetchDiskCmd :: "'w probes \<Rightarrow> ('w, Msg) state" where
  "fetchDiskCmd p = do { r \<leftarrow> pb_disk p; State_Monad.return (or_err fetchDisk (\<lambda>(ds, ios). DiskMsg ds ios) r) }"

definition fetchPSICmd :: "'w probes \<Rightarrow> ('w, Msg) state" where
  "fetchPSICmd p = do { r \<leftarrow> pb_psi p; State_Monad.return (PsiMsg r) }"

definition fetchLatencyCmd :: "'w probes \<Rightarrow> ('w, Msg) state" where
  "fetchLatencyCmd p = do { r \<leftarrow> pb_ping p second; State_Monad.return (LatencyMsg r) }"

definition fetchNetCmd :: "'w probes \<Rightarrow> ('w, Msg) state" where
  "fetchNetCmd p = do { r \<leftarrow> pb_net p; State_Monad.return (or_err fetchNet NetMsg r) }"

definition fetchConnsCmd :: "'w probes \<Rightarrow> ('w, Msg) state" where
  "fetchConnsCmd p = do { r \<leftarrow> pb_conns p; State_Monad.return (case r of Inl e \<Rightarrow> ConnMsg [] | Inr cs \<Rightarrow> ConnMsg cs) }"

definition fetchSysCmd :: "Config \<Rightarrow> 'w probes \<Rightarrow> ('w, Msg) state" where
  "fetchSysCmd c p =
     do { g \<leftarrow> pb_gpu p; b \<leftarrow> pb_backlight p (BacklightDevice c); iw \<leftarrow> pb_iw p (\<lambda>i. \<not> HideIface c i);
          State_Monad.return (SysMsg g b iw) }"

definition fetchHealthCmd :: "Config \<Rightarrow> 'w probes \<Rightarrow> ('w, Msg) state" where
  "fetchHealthCmd c p =
     do { st \<leftarrow> pb_storage p; mo \<leftarrow> (if ModemEnabled c then pb_modem p else State_Monad.return noModem);
          State_Monad.return (HealthMsg st mo) }"

definition fetchKmsgCmd :: "'w probes \<Rightarrow> ('w, Msg) state" where
  "fetchKmsgCmd p = do { r \<leftarrow> pb_kmsg p; State_Monad.return (KmsgMsg (fst r) (snd r)) }"

definition fetchProcDetailCmd :: "int \<Rightarrow> 'w probes \<Rightarrow> ('w, Msg) state" where
  "fetchProcDetailCmd pid p = do { r \<leftarrow> pb_detail p pid; State_Monad.return (DetailMsg pid r) }"

definition tickEvery :: "duration \<Rightarrow> 'w probes \<Rightarrow> ('w, Msg) state" where
  "tickEvery d p = do { _ \<leftarrow> pb_sleep p d; t \<leftarrow> pb_now p; State_Monad.return (TickMsg t) }"

definition run_cmd :: "Config \<Rightarrow> duration \<Rightarrow> 'w probes \<Rightarrow> Cmd \<Rightarrow> ('w, Msg) state option" where
  "run_cmd c fast p cmd =
     (case cmd of
        CmdCPU \<Rightarrow> Some (fetchCPUCmd p) | CmdMem \<Rightarrow> Some (fetchMemCmd p) | CmdOOMCount \<Rightarrow> Some (fetchOOMCountCmd p)
      | CmdPSI \<Rightarrow> Some (fetchPSICmd p) | CmdNet \<Rightarrow> Some (fetchNetCmd p) | CmdKmsg \<Rightarrow> Some (fetchKmsgCmd p)
      | CmdProcs \<Rightarrow> Some (fetchProcsCmd p) | CmdLatency \<Rightarrow> Some (fetchLatencyCmd p) | CmdConns \<Rightarrow> Some (fetchConnsCmd p)
      | CmdDetail pid \<Rightarrow> Some (fetchProcDetailCmd pid p) | CmdDisk \<Rightarrow> Some (fetchDiskCmd p)
      | CmdPower \<Rightarrow> Some (fetchPowerCmd p) | CmdSys \<Rightarrow> Some (fetchSysCmd c p) | CmdHealth \<Rightarrow> Some (fetchHealthCmd c p)
      | CmdTick \<Rightarrow> Some (tickEvery fast p) | CmdQuit \<Rightarrow> None)"

section \<open>One collection\<close>

definition took_cpu :: "string + CPUSnapshot \<Rightarrow> Model \<Rightarrow> Model" where
  "took_cpu r m =
     (case r of
        Inl _ \<Rightarrow> m
      | Inr s \<Rightarrow>
          let s = s\<lparr>cs_Temperatures := keepTemps (m_cfg m) (cs_Temperatures s)\<rparr>
          in m\<lparr>m_cpuSnap := s, m_peaks := observeCPU (cs_TotalPercent s) (cs_Temperatures s) (m_peaks m)\<rparr>)"

definition took_mem :: "string + MemSnapshot \<Rightarrow> Model \<Rightarrow> Model" where
  "took_mem r m =
     (case r of Inl _ \<Rightarrow> m | Inr s \<Rightarrow> m\<lparr>m_memSnap := s, m_peaks := observeMem (ms_UsedPct s) (m_peaks m)\<rparr>)"

definition took_power :: "string + PowerSnapshot \<Rightarrow> Model \<Rightarrow> Model" where
  "took_power r m =
     (case r of
        Inl _ \<Rightarrow> m
      | Inr s \<Rightarrow> m\<lparr>m_powerSnap := s,
          m_peaks := observeBattery (ba_Capacity (pw_Battery s)) (observeLoad (ld_Load1 (pw_Load s)) (m_peaks m))\<rparr>)"

definition took_disk :: "string + DiskInfo list \<times> DiskIOInfo list \<Rightarrow> Model \<Rightarrow> Model" where
  "took_disk r m =
     (case r of Inl _ \<Rightarrow> m | Inr (ds, ios) \<Rightarrow> m\<lparr>m_disks := keepDisks (m_cfg m) ds, m_diskIOs := ios\<rparr>)"

definition took_net :: "string + NetSnapshot \<Rightarrow> Model \<Rightarrow> Model" where
  "took_net r m =
     (case r of Inl _ \<Rightarrow> m | Inr s \<Rightarrow> m\<lparr>m_netSnap := s\<lparr>ns_Ifaces := keepIfaces (m_cfg m) (ns_Ifaces s)\<rparr>\<rparr>)"

definition took_procs :: "string + ProcInfo list \<Rightarrow> Model \<Rightarrow> Model" where
  "took_procs r m = (case r of Inl _ \<Rightarrow> m | Inr ps \<Rightarrow> m\<lparr>m_pp := (m_pp m)\<lparr>pp_procs := ps\<rparr>\<rparr>)"

definition took_conns :: "string + ConnInfo list \<Rightarrow> Model \<Rightarrow> Model" where
  "took_conns r m = (case r of Inl _ \<Rightarrow> m | Inr cs \<Rightarrow> m\<lparr>m_conns := cs\<rparr>)"

definition took_pings :: "PingResult list \<Rightarrow> Model \<Rightarrow> Model" where
  "took_pings rs m =
     fold (\<lambda>r m. m\<lparr>m_lossWin := (m_lossWin m)(pr_Target r \<mapsto>
         (case m_lossWin m (pr_Target r) of Some w \<Rightarrow> w | None \<Rightarrow> []) @ [pr_OK r])\<rparr>) rs (m\<lparr>m_pings := rs\<rparr>)"

text \<open>
  \<open>order\<close> is the order in which Go walks a map of conditions; the alert engine is new, so the keys
  of the conditions are all it walks.
\<close>

definition took_alerts ::
    "goarch \<Rightarrow> (time \<Rightarrow> string) \<Rightarrow> (string set \<Rightarrow> string list) \<Rightarrow> time \<Rightarrow> time \<Rightarrow> Model \<Rightarrow> Model" where
  "took_alerts arch hms order t1 t2 m =
     (if AlertsEnabled (m_cfg m) then
        let cs = currentAlertConds arch hms t1 m
        in m\<lparr>m_alerts := fst (Alerts.update (m_alerts m) cs t2 (order (dom cs)) (order (dom (ae_active (m_alerts m)) \<union> dom cs)))\<rparr>
      else m)"

definition collectOnce ::
    "nat \<Rightarrow> host \<Rightarrow> time \<Rightarrow> (string \<Rightarrow> string) \<Rightarrow> goarch \<Rightarrow> (time \<Rightarrow> string) \<Rightarrow> (string set \<Rightarrow> string list) \<Rightarrow>
     Config \<Rightarrow> 'w probes \<Rightarrow> ('w, Model) state" where
  "collectOnce fuel h now warn arch hms order cfg p =
     (let m = NewModel fuel h now warn (Sanitize cfg); cfg = m_cfg m in
      do {
        _ \<leftarrow> pb_cpu p;
        _ \<leftarrow> pb_net p;
        _ \<leftarrow> pb_disk p;
        _ \<leftarrow> pb_procs p;
        _ \<leftarrow> pb_sleep p (600 * millisecond);
        cpu \<leftarrow> pb_cpu p;
        mem \<leftarrow> pb_mem p;
        power \<leftarrow> pb_power p;
        disk \<leftarrow> pb_disk p;
        net \<leftarrow> pb_net p;
        procs \<leftarrow> pb_procs p;
        conns \<leftarrow> pb_conns p;
        psi \<leftarrow> pb_psi p;
        storage \<leftarrow> pb_storage p;
        modem \<leftarrow> (if ModemEnabled cfg then pb_modem p else State_Monad.return (m_modem m));
        gpu \<leftarrow> pb_gpu p;
        backlight \<leftarrow> pb_backlight p (BacklightDevice cfg);
        iw \<leftarrow> pb_iw p (\<lambda>i. \<not> HideIface cfg i);
        pings \<leftarrow> (if m_latSampler m then do { rs \<leftarrow> pb_ping p second; State_Monad.return (Some rs) } else State_Monad.return None);
        t1 \<leftarrow> pb_now p;
        t2 \<leftarrow> pb_now p;
        t3 \<leftarrow> pb_now p;
        let m = took_conns conns (took_procs procs (took_net net (took_disk disk (took_power power (took_mem mem (took_cpu cpu m))))));
            m = m\<lparr>m_psi := psi, m_storage := storage, m_modem := modem, m_gpuSnap := gpu, m_backlight := backlight, m_iwLinks := iw\<rparr>;
            m = (case pings of Some rs \<Rightarrow> took_pings rs m | None \<Rightarrow> m);
            m = took_alerts arch hms order t1 t2 m
        in State_Monad.return (recordTrend (order (dom (m_trends m))) t3 t3 m)
      })"

definition RunOnce where
  "RunOnce pr ks fuel h now warn arch hms order cfg p =
     do { m \<leftarrow> collectOnce fuel h now warn arch hms order cfg p; t \<leftarrow> pb_now p; State_Monad.return (buildReport pr t (ks m) m) }"

definition buildJSONReport :: "string \<Rightarrow> (SnapshotJSON \<Rightarrow> string + string) \<Rightarrow> time \<Rightarrow> string list \<Rightarrow> Model \<Rightarrow> string + string" where
  "buildJSONReport version marshal now ks m =
     (case marshal (snapshotJSON version now ks m) of Inl e \<Rightarrow> Inl e | Inr b \<Rightarrow> Inr (b @ [NL]))"

definition RunOnceJSON where
  "RunOnceJSON version marshal ks fuel h now warn arch hms order cfg p =
     do { m \<leftarrow> collectOnce fuel h now warn arch hms order cfg p; t \<leftarrow> pb_now p;
          State_Monad.return (buildJSONReport version marshal t (ks m) m) }"

section \<open>Modes\<close>

record flags =
  fl_version :: bool
  fl_once :: bool
  fl_json :: bool
  fl_metrics :: string
  fl_config :: string
  fl_tab :: string
  fl_doctor :: bool
  fl_check :: bool
  fl_arg0 :: string

datatype mode =
  ShowVersion | RunCheckConfig string | RunDoctor Config string | RunSnapshot Config bool | ServeMetrics Config string | RunTUI Config string

text \<open>
  \<open>load\<close> reads the configuration of a path, \<open>loadDefault\<close> that of the default one; \<open>hostPort\<close> says
  whether an address already has both parts.
\<close>

definition main_mode ::
    "(string \<Rightarrow> Config) \<Rightarrow> Config \<Rightarrow> string \<Rightarrow> (string \<Rightarrow> bool) \<Rightarrow> flags \<Rightarrow> mode" where
  "main_mode load loadDefault defaultPath hostPort fl =
     (if fl_version fl then ShowVersion
      else
        let doctor = fl_doctor fl \<or> fl_arg0 fl = ''doctor'';
            path = (if fl_config fl = [] then defaultPath else fl_config fl)
        in if fl_check fl then RunCheckConfig path
           else
             let cfg = (if fl_config fl \<noteq> [] then load (fl_config fl) else loadDefault);
                 cfg = (if fl_tab fl \<noteq> [] then cfg\<lparr>StartTab := fl_tab fl\<rparr> else cfg)
             in if doctor then RunDoctor cfg path
                else if fl_once fl then RunSnapshot cfg (fl_json fl)
                else
                  let addr = ListenAddr hostPort (fl_metrics fl);
                      addr = (if addr = [] then ListenAddr hostPort (MetricsListen cfg) else addr)
                  in if addr \<noteq> [] \<and> fl_metrics fl \<noteq> [] then ServeMetrics cfg addr
                     else RunTUI cfg addr)"

text \<open>What is written when the screen is left: nothing by a run that never got to its first tick.\<close>

definition finish_tui :: "save_env \<Rightarrow> Model \<Rightarrow> disk_state \<Rightarrow> bool \<times> disk_state list" where
  "finish_tui e m d = (if Ran m then saveHistory e m d else (True, [d]))"

section \<open>Every fetch answers\<close>

lemma fetch_replies:
  "run_cmd c fast p cmd = Some prog \<Longrightarrow> reply_kind (fst (run_state prog w)) = kind_of cmd"
  by (cases cmd) (auto simp: run_cmd_def reply_kind_def kind_of_def or_err_def fetchCPUCmd_def fetchMemCmd_def
    fetchOOMCountCmd_def fetchPowerCmd_def fetchProcsCmd_def fetchDiskCmd_def fetchPSICmd_def fetchLatencyCmd_def
    fetchNetCmd_def fetchConnsCmd_def fetchSysCmd_def fetchHealthCmd_def fetchKmsgCmd_def fetchProcDetailCmd_def tickEvery_def
    split: prod.splits sum.splits)

lemma reply_lowers:
  "reply_kind msg = Some k \<Longrightarrow> m_guards (fst (Update e msg m)) = fetch_done k (m_guards m)"
  by (cases msg) (auto simp: reply_kind_def guard_simps Let_def)

lemma kind_of_none: "kind_of cmd = None \<Longrightarrow> cmd = CmdTick \<or> cmd = CmdQuit"
  by (cases cmd) (simp_all add: kind_of_def)

text \<open>C12: No failure stops a reading for good. Whatever the probe of a dispatched command comes back with, a
  reading or an error, running the command and handing its reply to the reducer lowers exactly the guard the
  command was dispatched under, so the next round is due again. Only quitting has no reply, and only the tick
  runs under no guard.\<close>

theorem fetches_land:
  "case run_cmd c fast p cmd of
     None \<Rightarrow> cmd = CmdQuit
   | Some prog \<Rightarrow>
       (case kind_of cmd of
          None \<Rightarrow> cmd = CmdTick
        | Some k \<Rightarrow> m_guards (fst (Update e (fst (run_state prog w)) m)) = fetch_done k (m_guards m))"
proof (cases "run_cmd c fast p cmd")
  case None
  then show ?thesis by (cases cmd) (simp_all add: run_cmd_def)
next
  case (Some prog)
  have "kind_of cmd = None \<Longrightarrow> cmd = CmdTick" using Some kind_of_none [of cmd] by (auto simp: run_cmd_def)
  moreover have "kind_of cmd = Some k \<Longrightarrow> m_guards (fst (Update e (fst (run_state prog w)) m)) = fetch_done k (m_guards m)" for k
    using fetch_replies [OF Some] by (intro reply_lowers) simp
  ultimately show ?thesis using Some by (simp split: option.split)
qed

section \<open>What a collection reports\<close>

text \<open>One observation of a key has no rate: every point of every series is of the same instant.\<close>

definition flat :: "time \<Rightarrow> trendTracker \<Rightarrow> bool" where
  "flat t0 t \<longleftrightarrow> (\<forall>key pts. t key = Some pts \<longrightarrow> (\<forall>p \<in> set pts. tp_at p = t0))"

lemma flat_series: "flat t0 t \<Longrightarrow> p \<in> set (Trend.series t key) \<Longrightarrow> tp_at p = t0"
  by (cases "t key") (auto simp: flat_def Trend.series_def)

lemma flat_observe: "flat t0 t \<Longrightarrow> flat t0 (Trend.observe key v t0 t)"
  using flat_series [of t0 t _ key]
  by (auto simp: flat_def Trend.observe_def Let_def dest!: in_set_dropD split: if_splits)

lemma flat_rate: "flat t0 t \<Longrightarrow> rate t key = None"
proof -
  assume f: "flat t0 t"
  have "0 < snd (trendSpans key)" by (simp add: trendSpans_def trend_consts)
  moreover have "tp_at (last (Trend.series t key)) = t0" "tp_at (hd (Trend.series t key)) = t0" if "2 \<le> length (Trend.series t key)"
    using flat_series [OF f] that last_in_set hd_in_set by (metis list.size(3) not_numeral_le_zero)+
  ultimately show ?thesis by (auto simp: rate_def Let_def timeSub_def minDuration_def maxDuration_def not_less)
qed

lemma flat_fold: "(\<And>x t. flat t0 t \<Longrightarrow> flat t0 (f x t)) \<Longrightarrow> flat t0 t \<Longrightarrow> flat t0 (fold f xs t)"
  by (induction xs arbitrary: t) auto

lemma recordTrend_flat:
  assumes "m_trends m = Map.empty"
  shows "\<exists>t0. flat t0 (m_trends (recordTrend ks clock now m))"
proof -
  define t0 where "t0 = (if isZero now then clock else now)"
  have "evict ks t0 Map.empty = Map.empty"
    by (induction ks) (simp_all add: evict_def evict_body_def)
  moreover have "flat t0 Map.empty" by (simp add: flat_def)
  ultimately have "flat t0 (m_trends (recordTrend ks clock now m))"
    using assms unfolding recordTrend_def t0_def [symmetric] Let_def
    by (auto intro!: flat_observe flat_fold)
  then show ?thesis by blast
qed

lemma fold_id: "(\<And>x y. f x y = y) \<Longrightarrow> fold f xs y = y"
  by (induction xs) auto

lemma trendConds_flat:
  assumes "\<forall>key. rate (m_trends m) key = None"
  shows "trendConds arch m cs = cs"
proof -
  have none: "etaTo (m_trends m) key a b = None" "sustainedRate (m_trends m) key = None" for key a b
    using assms by (simp_all add: etaTo_def sustainedRate_def)
  have "rise_step arch c (m_trends m) t r = r" for c t r by (simp add: rise_step_def none)
  then have rises: "rises arch c (m_trends m) ts = Map.empty" for c ts by (simp add: rises_def fold_id)
  have "fill_conds c (m_trends m) ds = []" "drain_conds c (m_trends m) b = []" for c ds b
    using assms by (simp_all add: fill_conds_def drain_conds_def none(1) cong: if_cong)
  then show ?thesis
    by (simp add: trendConds_def Let_def rises write_conds_def overlay_def fun_eq_iff split: option.splits)
qed

lemma finite_write_conds: "finite (dom cs) \<Longrightarrow> finite (dom (write_conds es cs))"
  unfolding write_conds_def by (induction es rule: rev_induct) (auto simp: dom_fun_upd)

lemma finite_overlay: "finite (dom cs) \<Longrightarrow> finite {x. f x \<noteq> None} \<Longrightarrow> finite (dom (overlay px f cs))"
proof (rule finite_subset)
  show "dom (overlay px f cs) \<subseteq> dom cs \<union> (@) px ` {x. f x \<noteq> None}"
    by (auto simp: overlay_def after_def hasPrefix_iff split: option.splits if_splits)
qed auto

lemma finite_ping_cond: "finite (dom wins) \<Longrightarrow> finite {x. ping_cond c wins x \<noteq> None}"
  by (erule finite_subset [rotated]) (auto simp: ping_cond_def split: if_splits option.splits)

lemma finite_conds:
  assumes "m_oom m = newOomTracker" "m_klog m = newKernelLog" "finite (dom (m_lossWin m))"
    "\<forall>key. rate (m_trends m) key = None"
  shows "finite (dom (currentAlertConds arch hms now m))"
proof -
  have events: "Kernlog.conds hms (m_klog m) t w mo (Oom.conds hms (m_oom m) t w cs) = cs" for t w mo cs
    using assms(1,2) by (simp add: Kernlog.conds_def Oom.conds_def newOomTracker_def newKernelLog_def fun_eq_iff)
  show ?thesis
    unfolding currentAlertConds_def Let_def events trendConds_flat [OF assms(4)] if_cancel
    by (intro finite_write_conds finite_overlay finite_ping_cond assms(3)) simp
qed

text \<open>The conditions do not depend on the alert engine, nor on trends that have no rate.\<close>

lemma conds_cong:
  assumes "\<forall>key. rate (m_trends m) key = None" "\<forall>key. rate (m_trends m') key = None"
    "m_cfg m' = m_cfg m" "m_cpuSnap m' = m_cpuSnap m" "m_memSnap m' = m_memSnap m" "m_klog m' = m_klog m"
    "m_oom m' = m_oom m" "m_now m' = m_now m" "m_disks m' = m_disks m" "m_powerSnap m' = m_powerSnap m"
    "m_netSnap m' = m_netSnap m" "m_lossWin m' = m_lossWin m" "m_storage m' = m_storage m" "m_modem m' = m_modem m"
    "m_psi m' = m_psi m"
  shows "currentAlertConds arch hms now m' = currentAlertConds arch hms now m"
  using assms(3-) by (simp add: currentAlertConds_def Let_def trendConds_flat assms(1,2) alertNow_def)

text \<open>What the readings leave alone: the engine, the trackers and the settings.\<close>

definition kept :: "Model \<Rightarrow> Config \<times> alertEngine \<times> trendTracker \<times> oomTracker \<times> kernelLog" where
  "kept m = (m_cfg m, m_alerts m, m_trends m, m_oom m, m_klog m)"

lemma took_kept [simp]:
  "kept (took_cpu r1 m) = kept m" "kept (took_mem r2 m) = kept m" "kept (took_power r3 m) = kept m"
  "kept (took_disk r4 m) = kept m" "kept (took_net r5 m) = kept m" "kept (took_procs r6 m) = kept m"
  "kept (took_conns r7 m) = kept m"
  by (simp_all add: kept_def took_cpu_def took_mem_def took_power_def took_disk_def took_net_def took_procs_def
    took_conns_def Let_def split: sum.splits)

lemma took_lossWin [simp]:
  "m_lossWin (took_cpu r1 m) = m_lossWin m" "m_lossWin (took_mem r2 m) = m_lossWin m" "m_lossWin (took_power r3 m) = m_lossWin m"
  "m_lossWin (took_disk r4 m) = m_lossWin m" "m_lossWin (took_net r5 m) = m_lossWin m" "m_lossWin (took_procs r6 m) = m_lossWin m"
  "m_lossWin (took_conns r7 m) = m_lossWin m"
  by (simp_all add: took_cpu_def took_mem_def took_power_def took_disk_def took_net_def took_procs_def
    took_conns_def Let_def split: sum.splits)

lemma took_pings_kept:
  "kept (took_pings rs m) = kept m \<and> (finite (dom (m_lossWin m)) \<longrightarrow> finite (dom (m_lossWin (took_pings rs m))))"
proof -
  let ?step = "\<lambda>r m. m\<lparr>m_lossWin := (m_lossWin m)(pr_Target r \<mapsto>
     (case m_lossWin m (pr_Target r) of Some w \<Rightarrow> w | None \<Rightarrow> []) @ [pr_OK r])\<rparr>"
  have "kept (fold ?step xs m) = kept m \<and> (finite (dom (m_lossWin m)) \<longrightarrow> finite (dom (m_lossWin (fold ?step xs m))))" for xs m
    by (induction xs arbitrary: m) (auto simp: kept_def)
  from this [of rs "m\<lparr>m_pings := rs\<rparr>"] show ?thesis by (simp add: took_pings_def kept_def)
qed

lemma kept_snapshots:
  "kept (m\<lparr>m_psi := a, m_storage := b, m_modem := c, m_gpuSnap := d, m_backlight := e, m_iwLinks := f\<rparr>) = kept m"
  "m_lossWin (m\<lparr>m_psi := a, m_storage := b, m_modem := c, m_gpuSnap := d, m_backlight := e, m_iwLinks := f\<rparr>) = m_lossWin m"
  by (simp_all add: kept_def)

lemma fst_case_prod: "fst (case p of (a, b) \<Rightarrow> f a b) = fst (f (fst p) (snd p))"
  by (simp add: case_prod_beta)

lemma collect_shape:
  fixes fuel h now warn arch hms order cfg p w
  defines "m0 \<equiv> NewModel fuel h now warn (Sanitize cfg)"
  shows "\<exists>m1 t1 t2 t3. kept m1 = kept m0 \<and> (finite (dom (m_lossWin m0)) \<longrightarrow> finite (dom (m_lossWin m1))) \<and>
    fst (run_state (collectOnce fuel h now warn arch hms order cfg p) w) =
      (let m2 = took_alerts arch hms order t1 t2 m1 in recordTrend (order (dom (m_trends m2))) t3 t3 m2)"
proof -
  have pings: "kept (case ps of Some rs \<Rightarrow> took_pings rs m | None \<Rightarrow> m) = kept m \<and>
      (finite (dom (m_lossWin m)) \<longrightarrow> finite (dom (m_lossWin (case ps of Some rs \<Rightarrow> took_pings rs m | None \<Rightarrow> m))))" for ps m
    using took_pings_kept by (cases ps) auto
  show ?thesis
    unfolding collectOnce_def Let_def m0_def [symmetric] State_Monad.run_state_bind fst_case_prod
      State_Monad.run_state_return fst_conv snd_conv
    by (rule exI, rule exI, rule exI, rule exI, rule conjI [OF _ conjI [OF _ refl]])
       (simp_all add: pings kept_snapshots)
qed

lemma recordTrend_frame: "recordTrend ks clock now m = m\<lparr>m_trends := m_trends (recordTrend ks clock now m)\<rparr>"
  by (simp add: recordTrend_def Let_def)

lemma fresh_engine_update:
  assumes "ae_active e = Map.empty" "ae_log e = []" "engine_wf e" "distinct ks" "set ks = dom cs" "distinct as" "set as = dom cs"
  shows "ae_active (fst (Alerts.update e cs t ks as)) k = map_option Alerts.fresh (cs k) \<and>
    ae_log (fst (Alerts.update e cs t ks as)) = last_n (nat (ae_cap e)) (map (\<lambda>k. raise_entry t (the (cs k))) ks)"
proof -
  obtain e' evs where u: "Alerts.update e cs t ks as = (e', evs)" by fastforce
  have o': "orders_ok e cs ks as" using assms by (simp add: orders_ok_def)
  have "ae_active e' k = map_option Alerts.fresh (cs k)"
    using update_key [OF u o', of k] assms(1) by (cases "cs k") auto
  moreover have "evs = map (\<lambda>k. raise_entry t (the (cs k))) ks"
  proof -
    have "concat (map (\<lambda>k. key_events (ae_clearTicks e) t (cs k) None) ks) = map (\<lambda>k. raise_entry t (the (cs k))) ks"
      if "set ks \<subseteq> dom cs" for ks using that by (induction ks) auto
    moreover have "concat (map (\<lambda>k. if cs k = None then [] else []) as) = []" by (simp add: concat_eq_Nil_conv)
    ultimately show ?thesis using update_events [OF u o'] assms(1,5) by (simp cong: if_cong)
  qed
  ultimately show ?thesis using update_log [OF u assms(3)] assms(2) u by simp
qed

text \<open>C17: A one-shot report tells exactly what is wrong at the moment it is taken: the engine starts empty, so
  an alert is active if and only if its condition holds in the very readings the report shows, with that
  condition's severity and message; the log holds one raise for each and nothing else; and no prediction is
  made from a single sample. With alerting disabled there is nothing active.\<close>

theorem one_shot_alerts:
  fixes fuel h now warn arch hms order cfg p w
  assumes order: "\<forall>S. finite S \<longrightarrow> distinct (order S) \<and> set (order S) = S"
  shows "let m = fst (run_state (collectOnce fuel h now warn arch hms order cfg p) w); e = m_alerts m in
    if AlertsEnabled (m_cfg m) then
      \<exists>t1 t2. let cs = currentAlertConds arch hms t1 m in
        (\<forall>k. map_option av_cond (ae_active e k) = cs k) \<and>
        ae_log e = last_n (nat (ae_cap e)) (map (\<lambda>k. raise_entry t2 (the (cs k))) (order (dom cs))) \<and>
        (\<forall>key. rate (m_trends m) key = None)
    else ae_active e = Map.empty \<and> ae_log e = []"
proof -
  define m0 where "m0 = NewModel fuel h now warn (Sanitize cfg)"
  have m0: "m_trends m0 = newTrendTracker" "m_oom m0 = newOomTracker" "m_klog m0 = newKernelLog" "m_lossWin m0 = Map.empty"
      "ae_active (m_alerts m0) = Map.empty" "ae_log (m_alerts m0) = []" "engine_wf (m_alerts m0)"
    by (simp_all add: m0_def NewModel_def new_from_def engine_wf_new) (simp_all add: newAlertEngine_def)
  obtain m1 t1 t2 t3 where m1: "kept m1 = kept m0" "finite (dom (m_lossWin m1))"
    and m: "fst (run_state (collectOnce fuel h now warn arch hms order cfg p) w) =
      (let m2 = took_alerts arch hms order t1 t2 m1 in recordTrend (order (dom (m_trends m2))) t3 t3 m2)"
    using collect_shape [of fuel h now warn cfg arch hms order p w] m0(4) unfolding m0_def by auto
  define m2 where "m2 = took_alerts arch hms order t1 t2 m1"
  define m3 where "m3 = recordTrend (order (dom (m_trends m2))) t3 t3 m2"
  have same: "m_cfg m1 = m_cfg m0" "m_alerts m1 = m_alerts m0" "m_trends m1 = newTrendTracker" "m_oom m1 = newOomTracker"
      "m_klog m1 = newKernelLog" using m1(1) m0 by (simp_all add: kept_def)
  have no_rate: "\<forall>key. rate (m_trends m1) key = None"
    using flat_rate [of 0 Map.empty] same(3) by (simp add: newTrendTracker_def flat_def)
  have m2: "m2 = m1\<lparr>m_alerts := m_alerts m2\<rparr>" by (simp add: m2_def took_alerts_def Let_def)
  have "m_trends m2 = Map.empty" by (subst m2) (simp add: same newTrendTracker_def)
  then have no_rate3: "\<forall>key. rate (m_trends m3) key = None"
    using recordTrend_flat flat_rate unfolding m3_def by metis
  have m3: "m3 = m1\<lparr>m_alerts := m_alerts m2, m_trends := m_trends m3\<rparr>"
    unfolding m3_def by (subst recordTrend_frame) (subst m2, simp)
  have cs: "currentAlertConds arch hms t1 m3 = currentAlertConds arch hms t1 m1"
    by (rule conds_cong [OF no_rate no_rate3]; subst m3; simp)
  have cfg3: "m_cfg m3 = m_cfg m1" "m_alerts m3 = m_alerts m2" by (subst m3; simp)+
  have fin: "finite (dom (currentAlertConds arch hms t1 m1))" by (rule finite_conds [OF same(4,5) m1(2) no_rate])
  show ?thesis
  proof (cases "AlertsEnabled (m_cfg m1)")
    case True
    define cs1 where "cs1 = currentAlertConds arch hms t1 m1"
    have "m_alerts m2 = fst (Alerts.update (m_alerts m0) cs1 t2 (order (dom cs1)) (order (dom cs1)))"
      using True by (simp add: m2_def took_alerts_def same m0 cs1_def Let_def)
    moreover have "distinct (order (dom cs1)) \<and> set (order (dom cs1)) = dom cs1" using fin order by (simp add: cs1_def)
    ultimately have "ae_active (m_alerts m2) k = map_option Alerts.fresh (cs1 k) \<and>
        ae_log (m_alerts m2) = last_n (nat (ae_cap (m_alerts m0))) (map (\<lambda>k. raise_entry t2 (the (cs1 k))) (order (dom cs1))) \<and>
        ae_cap (m_alerts m2) = ae_cap (m_alerts m0)" for k
      using fresh_engine_update [OF m0(5-7)] update_frame(1) by (metis prod.collapse)
    then have "(\<forall>k. map_option av_cond (ae_active (m_alerts m3) k) = cs1 k) \<and>
        ae_log (m_alerts m3) = last_n (nat (ae_cap (m_alerts m3))) (map (\<lambda>k. raise_entry t2 (the (cs1 k))) (order (dom cs1))) \<and>
        (\<forall>key. rate (m_trends m3) key = None)"
      using no_rate3 cfg3(2) by (simp add: option.map_comp comp_def Alerts.fresh_def option.map_ident)
    then have "\<exists>t1 t2. (\<forall>k. map_option av_cond (ae_active (m_alerts m3) k) = currentAlertConds arch hms t1 m3 k) \<and>
        ae_log (m_alerts m3) = last_n (nat (ae_cap (m_alerts m3)))
          (map (\<lambda>k. raise_entry t2 (the (currentAlertConds arch hms t1 m3 k))) (order (dom (currentAlertConds arch hms t1 m3)))) \<and>
        (\<forall>key. rate (m_trends m3) key = None)"
      unfolding cs1_def cs [symmetric] by blast
    then show ?thesis using True
      unfolding m Let_def m2_def [symmetric] m3_def [symmetric] cfg3(1) by (simp only: if_True)
  next
    case False
    then have "m_alerts m2 = m_alerts m0" by (simp add: m2_def took_alerts_def same)
    then show ?thesis using False m0(5,6) unfolding m Let_def m2_def [symmetric] m3_def [symmetric] cfg3 by simp
  qed
qed

lemma collect_cfg: "m_cfg (fst (run_state (collectOnce fuel h now warn arch hms order cfg p) w)) = m_cfg (NewModel fuel h now warn (Sanitize cfg))"
proof -
  obtain m1 t1 t2 t3 where "kept m1 = kept (NewModel fuel h now warn (Sanitize cfg))"
    and m: "fst (run_state (collectOnce fuel h now warn arch hms order cfg p) w) =
      (let m2 = took_alerts arch hms order t1 t2 m1 in recordTrend (order (dom (m_trends m2))) t3 t3 m2)"
    using collect_shape [of fuel h now warn cfg arch hms order p w] by blast
  then show ?thesis by (simp add: m Let_def recordTrend_def took_alerts_def kept_def)
qed

text \<open>A host with one sensor, past critical, and nothing else that answers; its clock stands still.\<close>

definition silent_probes :: "unit probes" where
  "silent_probes =
     (\<lparr>pb_cpu = State_Monad.return (Inr (zeroCPU\<lparr>cs_Temperatures := [\<lparr>tr_Label = ''cpu'', tr_Temp = 85\<rparr>]\<rparr>)),
       pb_mem = State_Monad.return (Inl ''down''), pb_power = State_Monad.return (Inl ''down''), pb_disk = State_Monad.return (Inl ''down''),
       pb_net = State_Monad.return (Inl ''down''), pb_procs = State_Monad.return (Inl ''down''), pb_conns = State_Monad.return (Inl ''down''),
       pb_psi = State_Monad.return zeroPSI, pb_storage = State_Monad.return [], pb_modem = State_Monad.return noModem,
       pb_gpu = State_Monad.return noGPU, pb_backlight = (\<lambda>_. State_Monad.return noBacklight), pb_iw = (\<lambda>_. State_Monad.return Map.empty),
       pb_ping = (\<lambda>_. State_Monad.return []), pb_oom = State_Monad.return (0, False), pb_kmsg = State_Monad.return ([], None),
       pb_detail = (\<lambda>_. State_Monad.return None), pb_sleep = (\<lambda>_. State_Monad.return ()), pb_now = State_Monad.return 7\<rparr>)"

theorem one_shot_alerts_witness:
  "let m = fst (run_state (collectOnce 0 example_host 0 (\<lambda>s. s) AMD64 (\<lambda>_. []) sorted_list_of_set (Default\<lparr>TempFromTripPoints := False\<rparr>) silent_probes) ());
       e = m_alerts m in
   AlertsEnabled (m_cfg m) \<and>
   (\<exists>t1 t2. let cs = currentAlertConds AMD64 (\<lambda>_. []) t1 m in
        (\<forall>k. map_option av_cond (ae_active e k) = cs k) \<and>
        ae_log e = last_n (nat (ae_cap e)) (map (\<lambda>k. raise_entry t2 (the (cs k))) (sorted_list_of_set (dom cs))) \<and>
        (\<forall>key. rate (m_trends m) key = None))"
  using one_shot_alerts [of sorted_list_of_set 0 example_host 0 "\<lambda>s. s" AMD64 "\<lambda>_. []" "Default\<lparr>TempFromTripPoints := False\<rparr>" silent_probes "()"]
  by (simp add: collect_cfg NewModel_def new_from_def calibrateTemps_def Sanitize_def Default_def Let_def)

end
