(* ===== verification/Views.thy ===== *)
theory Views
  imports Text_Fmt
begin

text \<open>
  What the tabs show (\<open>internal/ui/model.go\<close>): the pieces of a line. \<open>look\<close> is what drawing
  takes from outside: the styles and blocks of lipgloss with their widths, the local time, the
  Unicode tables, the orders Go walks its maps in. \<open>panes\<close> is what the screen keeps rendered
  between two updates: the widths, headers and views of its three scrolling panes, and the two search boxes.
\<close>

record look =
  lk_arch :: goarch
  lk_now :: time
  lk_version :: string
  lk_rw :: "nat \<Rightarrow> nat"
  lk_low :: "nat \<Rightarrow> nat"
  lk_upper :: "string \<Rightarrow> string"
  lk_width :: "string \<Rightarrow> int"
  lk_paint :: "string \<Rightarrow> string \<Rightarrow> string"
  lk_title :: "string \<Rightarrow> string"
  lk_subtle :: "string \<Rightarrow> string"
  lk_ok :: "string \<Rightarrow> string"
  lk_warn :: "string \<Rightarrow> string"
  lk_err :: "string \<Rightarrow> string"
  lk_hl :: "string \<Rightarrow> string"
  lk_selected :: "string \<Rightarrow> string"
  lk_tab :: "bool \<Rightarrow> string \<Rightarrow> string"
  lk_fill :: "int \<Rightarrow> string \<Rightarrow> string"
  lk_frame :: "int \<Rightarrow> int \<Rightarrow> string \<Rightarrow> string"
  lk_stack :: "string list \<Rightarrow> string"
  lk_stamp :: "time \<Rightarrow> string"
  lk_hms :: "time \<Rightarrow> string"
  lk_temps :: tempThresholds
  lk_alerts :: "string list"
  lk_ioDevs :: "string list"

record panes =
  pv_procsWidth :: int
  pv_procsHeader :: string
  pv_procsView :: string
  pv_procsInput :: string
  pv_netWidth :: int
  pv_netHeader :: string
  pv_netView :: string
  pv_netInput :: string
  pv_alertsWidth :: int
  pv_alertsView :: string

abbreviation SPOT :: string where "SPOT \<equiv> '' '' @ BULLET @ '' ''"
abbreviation POINTER :: string where "POINTER \<equiv> [CHR 0xE2, CHR 0x96, CHR 0xB8, CHR '' '']"

section \<open>Grades\<close>

definition psiColor :: "f64 \<Rightarrow> string" where
  "psiColor pct = (if pct \<ge> 50 then ''196'' else if pct \<ge> 25 then ''214'' else if pct \<ge> 10 then ''226'' else ''42'')"

definition wifiColor :: "WiFiInfo \<Rightarrow> string" where
  "wifiColor w =
     (if wf_QualityPct w \<ge> 66 \<or> wf_SignalDBm w \<ge> -55 then ''42''
      else if wf_QualityPct w \<ge> 33 \<or> wf_SignalDBm w \<ge> -70 then ''214'' else ''196'')"

definition wearColor :: "f64 \<Rightarrow> string" where
  "wearColor pct = (if pct \<ge> 90 then ''196'' else if pct \<ge> 70 then ''214'' else if pct \<ge> 50 then ''226'' else ''42'')"

definition load_color :: "LoadInfo \<Rightarrow> string" where
  "load_color l =
     (if ld_Load1 l \<ge> of_int (ld_CPUCount l) then ''196''
      else if ld_Load1 l \<ge> of_int (ld_CPUCount l) * (7 / 10) then ''214'' else ''42'')"

definition sev_style :: "look \<Rightarrow> alertSeverity \<Rightarrow> string \<Rightarrow> string" where
  "sev_style lk s = (if s = SevCrit then lk_err lk else lk_warn lk)"

section \<open>Lines\<close>

definition connPID :: "int \<Rightarrow> string" where
  "connPID pid = (if pid \<le> 0 then ''-'' else itoa pid)"

definition psiLine :: "look \<Rightarrow> Model \<Rightarrow> PSIRes \<Rightarrow> bool \<Rightarrow> string" where
  "psiLine lk m r withFull =
     (if \<not> ps_Present (m_psi m) \<or> \<not> HasSome r then []
      else
        lk_subtle lk ''some '' @ lk_paint lk (psiColor (SomeAvg10 r)) (fmt_f 1 (SomeAvg10 r) @ ''%'') @
        lk_subtle lk ('' (10s)  '' @ fmt_f 1 (SomeAvg60 r) @ ''% (60s)'') @
        (if withFull \<and> HasFull r then
           lk_subtle lk (''  '' @ BULLET @ ''  full '') @
           lk_paint lk (psiColor (FullAvg10 r)) (fmt_f 1 (FullAvg10 r) @ ''%'') @
           lk_subtle lk ('' (10s)  '' @ fmt_f 1 (FullAvg60 r) @ ''% (60s)'')
         else []))"

definition wifiSummary :: "look \<Rightarrow> WiFiInfo \<Rightarrow> string" where
  "wifiSummary lk w =
     lk_paint lk (wifiColor w) (''WiFi '' @ fmt_f 0 (wf_QualityPct w) @ ''% '' @ fmt_f 0 (wf_SignalDBm w) @ ''dBm'')"

definition statusStyled :: "look \<Rightarrow> string \<Rightarrow> string" where
  "statusStyled lk s =
     (if s \<in> {''Charging'', ''Full''} then lk_ok lk s
      else if s = ''Discharging'' then lk_warn lk s
      else if s = [] then lk_subtle lk ''Unknown''
      else lk_subtle lk s)"

definition cpuBreakdownLine :: "look \<Rightarrow> CPUBreakdown \<Rightarrow> string" where
  "cpuBreakdownLine lk b =
     (let part = (\<lambda>(name, color, v). if v < 1 / 2 then [] else lk_paint lk color (name @ '' '' @ fmt_f 0 v @ ''%''));
          parts = filter (\<lambda>p. p \<noteq> []) (map part
            [(''user'', ''42'', cb_User b), (''sys'', ''45'', cb_System b), (''nice'', ''245'', cb_Nice b),
             (''iowait'', ''196'', cb_Iowait b), (''irq'', ''214'', cb_IRQ b), (''steal'', ''214'', cb_Steal b)])
      in if parts = [] then lk_subtle lk ''idle''
         else join parts ''  '' @
           (if cb_Busiest b = ''iowait'' \<and> cb_Iowait b \<ge> 10
            then ''  '' @ lk_err lk (LEFT @ '' blocked on I/O, not compute'') else []))"

definition storageHealthLine :: "look \<Rightarrow> StorageHealth \<Rightarrow> string" where
  "storageHealthLine lk h =
     (let style = (if Severity h = 1 then lk_warn lk else if Severity h = 2 then lk_err lk else lk_ok lk)
      in lk_subtle lk (padRight (sh_Device h) 10) @ '' '' @ lk_subtle lk (padRight (sh_Kind h) 5) @
         (if sh_Name h \<noteq> [] then '' '' @ padRight (trunc_s (sh_Name h) 16) 16 else []) @
         (if sh_SizeB h > 0 then '' '' @ lk_subtle lk (padRight (HumanBytes (unat (sh_SizeB h))) 10) else []) @
         (if sh_ReadOnly h then '' '' @ lk_err lk (''READ-ONLY '' @ EMDASH @ '' controller retired it'')
          else
            (case WearPct h of
               Some pct \<Rightarrow> '' '' @ style (''wear '' @ pad_left (CHR '' '') 3 (fmt_f 0 pct) @ ''%'') @ '' '' @
                 RenderBar (lk_arch lk) (lk_paint lk) pct 16 (wearColor pct)
             | None \<Rightarrow> '' '' @ lk_subtle lk ''no wear data'') @
            (if EOLLabel h \<noteq> [] \<and> EOLLabel h \<noteq> ''normal'' then '' '' @ style (''reserve '' @ EOLLabel h) else [])))"

definition ifaceErrTag :: "look \<Rightarrow> IfaceInfo \<Rightarrow> string" where
  "ifaceErrTag lk i =
     (if BadFramesTotal i = 0 then []
      else
        let rate = BadFrames i;
            style = (if rate \<ge> 1 then lk_err lk else if rate > 0 then lk_warn lk else lk_subtle lk)
        in if rate > 0 then style (''err/drop '' @ fmt_u (BadFramesTotal i) @ '' (+'' @ fmt_f 0 rate @ ''/s)'')
           else style (''err/drop '' @ fmt_u (BadFramesTotal i)))"

definition modemLine :: "look \<Rightarrow> ModemInfo \<Rightarrow> string" where
  "modemLine lk mi =
     (let det = (if mo_Operator mi \<noteq> [] then [mo_Operator mi] else []) @
                (if mo_AccessTech mi \<noteq> [] then [lk_upper lk (mo_AccessTech mi)] else []) @
                (if mo_SignalPct mi \<ge> 0 then [itoa (mo_SignalPct mi) @ ''%''] else []) @
                (if mo_HasRSSI mi then [fmt_f 0 (mo_RSSIdBm mi) @ '' dBm''] else []) @
                (if mo_FailedReason mi \<noteq> [] then [''reason: '' @ mo_FailedReason mi] else [])
      in lk_title lk ''Modem'' @ ''  '' @ (if Registered mi then lk_ok lk else lk_err lk) (mo_State mi) @
         (if det \<noteq> [] then ''  '' @ lk_subtle lk (join det (''  '' @ BULLET @ ''  '')) else []))"

text \<open>Called with two policies or more.\<close>

definition freqSummary :: "look \<Rightarrow> PolicyFreq list \<Rightarrow> string" where
  "freqSummary lk fs =
     (let lo = fold (\<lambda>f x. min x (pf_CurMHz f)) fs (pf_CurMHz (hd fs));
          hi = fold (\<lambda>f x. max x (pf_CurMHz f)) fs (pf_CurMHz (hd fs));
          limits = remdups (map (\<lambda>f. fmt_f 0 (pf_MinMHz f) @ ENDASH @ fmt_f 0 (pf_MaxMHz f)) fs);
          govs = remdups (map pf_Governor fs);
          ro = list_ex (\<lambda>f. \<not> pf_Writable f) fs
      in nat_digits (length fs) @ '' policies  '' @ lk_ok lk (fmt_f 0 lo @ ENDASH @ fmt_f 0 hi @ '' MHz'') @
         (if length limits = 1 then ''  '' @ lk_subtle lk (''('' @ hd limits @ '')'') else []) @
         (if length govs = 1 then ''  '' @ lk_title lk (hd govs)
          else ''  '' @ lk_subtle lk (nat_digits (length govs) @ '' governors'')) @
         (if ro then lk_subtle lk '' (ro)'' else []) @ ''  '' @ lk_subtle lk ''(g cycles governor)'')"

definition connSummaryLine :: "look \<Rightarrow> Model \<Rightarrow> string" where
  "connSummaryLine lk m =
     (let listen = length (filter (\<lambda>c. cn_Status c = ''LISTEN'') (m_conns m));
          estab = length (filter (\<lambda>c. cn_Status c = ''ESTABLISHED'') (m_conns m));
          other = length (filter (\<lambda>c. cn_Status c \<notin> {''LISTEN'', ''ESTABLISHED''}) (m_conns m))
      in lk_title lk ''Connections'' @ ''  '' @
         lk_subtle lk (nat_digits (length (m_conns m)) @ '' total'' @ SPOT @ nat_digits listen @ '' listen'' @ SPOT @
           nat_digits estab @ '' estab'' @ SPOT @ nat_digits other @ '' other'') @
         (if m_connFilter m \<noteq> connAll
          then ''  '' @ lk_warn lk (''state: '' @ connState_string (m_connFilter m)) @ lk_subtle lk '' (f cycles)''
          else lk_subtle lk ''  (f filters state)''))"

section \<open>Tabs and banner\<close>

definition renderTab :: "look \<Rightarrow> string \<Rightarrow> bool \<Rightarrow> string" where
  "renderTab lk s active = lk_tab lk active s"

text \<open>\<open>first\<close> is the first tab, which no separator comes before.\<close>

fun tabs_loop :: "look \<Rightarrow> int \<Rightarrow> bool \<Rightarrow> int \<Rightarrow> string list \<Rightarrow> string" where
  "tabs_loop lk maxW first used [] = []"
| "tabs_loop lk maxW first used (t # ts) =
     (let tw = lk_width lk t; sepW = (if first then 0 else lk_width lk '' '')
      in if used + sepW + tw > maxW then
           (let ell = lk_subtle lk ELLIPSIS; ellW = lk_width lk ell
            in if used > 0 \<and> used + sepW + ellW \<le> maxW then '' '' @ ell
               else if used = 0 \<and> ellW \<le> maxW then ell else [])
         else (if first then [] else '' '') @ t @ tabs_loop lk maxW False (used + sepW + tw) ts)"

definition joinTabsWithinWidth :: "look \<Rightarrow> string list \<Rightarrow> int \<Rightarrow> string" where
  "joinTabsWithinWidth lk ts maxW = (if maxW \<le> 0 \<or> ts = [] then [] else tabs_loop lk maxW True 0 ts)"

definition alertsTabLabel :: "look \<Rightarrow> Model \<Rightarrow> string" where
  "alertsTabLabel lk m =
     (case summary (m_alerts m) (lk_alerts lk) of
        Some (_, n) \<Rightarrow> ''8 Alerts('' @ nat_digits n @ '')'' | None \<Rightarrow> ''8 Alerts'')"

definition alertBanner :: "look \<Rightarrow> Model \<Rightarrow> string" where
  "alertBanner lk m =
     (if \<not> AlertsEnabled (m_cfg m) \<or> ae_muted (m_alerts m) then []
      else case summary (m_alerts m) (lk_alerts lk) of
        None \<Rightarrow> []
      | Some (worst, n) \<Rightarrow>
          sev_style lk (ac_sev worst) (WARNSIGN @ '' '' @ label (ac_sev worst) @
            (if n > 1 then '' (+'' @ nat_digits (n - 1) @ '' more)'' else []) @ '': '' @ ac_msg worst))"

text \<open>The scrolling part of the alerts tab: what is active, then the log, newest first.\<close>

definition refreshAlerts :: "look \<Rightarrow> panes \<Rightarrow> Model \<Rightarrow> string" where
  "refreshAlerts lk pv m =
     (let w = (if pv_alertsWidth pv \<le> 0 then 60 else pv_alertsWidth pv);
          active = activeList (m_alerts m) (lk_alerts lk);
          log = ae_log (m_alerts m)
      in lk_title lk (''Active ('' @ nat_digits (length active) @ '')'') @ [NL] @
         (if active = [] then lk_ok lk ''  all clear'' @ [NL]
          else concat (map (\<lambda>a. sev_style lk (ac_sev a)
            (clampToWidthOneLine (lk_rw lk) (''  ['' @ label (ac_sev a) @ ''] '' @ ac_msg a) w) @ [NL]) active)) @
         [NL] @ lk_title lk (''Log ('' @ nat_digits (length log) @ '')'') @ [NL] @
         (if log = [] then lk_subtle lk ''  no events recorded yet'' @ [NL]
          else concat (map (\<lambda>en.
            (if en_cleared en
             then lk_ok lk (clampToWidthOneLine (lk_rw lk) (''  '' @ lk_hms lk (en_when en) @ ''  OK    '' @ en_msg en) w)
             else sev_style lk (en_sev en) (clampToWidthOneLine (lk_rw lk)
               (''  '' @ lk_hms lk (en_when en) @ ''  '' @ padRight (label (en_sev en)) 4 @ ''  '' @ en_msg en) w)) @ [NL])
            (rev log))))"

text \<open>A text in the box of the tab, before the border is drawn.\<close>

definition box :: "look \<Rightarrow> Model \<Rightarrow> string \<Rightarrow> string" where
  "box lk m content = box_content (lk_rw lk) (m_w m) (m_h m) content"

definition viewTooSmall :: "look \<Rightarrow> Model \<Rightarrow> string" where
  "viewTooSmall lk m =
     (if m_w m < 1 \<or> m_h m < 1 then []
      else
        let size = (\<lambda>w h. itoa w @ TIMES @ itoa h);
            msg = ''terminal too small: need '' @ size minWidth minHeight @ '', have '' @ size (m_w m) (m_h m);
            msg = (if m_w m < int (length msg) then ''need '' @ size minWidth minHeight else msg)
        in clampToWidthOneLine (lk_rw lk) (lk_warn lk msg) (m_w m))"

definition alerts_content :: "look \<Rightarrow> panes \<Rightarrow> Model \<Rightarrow> string" where
  "alerts_content lk pv m =
     (let n = (case summary (m_alerts m) (lk_alerts lk) of Some (_, n) \<Rightarrow> n | None \<Rightarrow> 0);
          status = (if n > 0 then lk_warn lk (nat_digits n @ '' active'') else lk_ok lk ''all clear'') @
            (if ae_muted (m_alerts m) then lk_subtle lk (''  '' @ BULLET @ '' banner muted'') else [])
      in lk_title lk ''Alerts'' @ ''  '' @ status @ [NL, NL] @ pv_alertsView pv)"

definition viewAlerts :: "look \<Rightarrow> panes \<Rightarrow> Model \<Rightarrow> string" where
  "viewAlerts lk pv m =
     (if \<not> AlertsEnabled (m_cfg m) then
        box lk m (lk_title lk ''Alerts'' @ [NL, NL] @
          lk_subtle lk ''Alerting is disabled (set alerts_enabled = true in config.toml).'')
      else box lk m (alerts_content lk pv m))"

end
