(* ===== verification/Tabs.thy ===== *)
theory Tabs
  imports Views
begin

text \<open>
  The tabs (\<open>internal/ui/model.go\<close>): what each of them draws from the state of the screen, line by line,
  and the process overlay (\<open>detail.go\<close>).
\<close>

abbreviation pad_to :: "nat \<Rightarrow> string \<Rightarrow> string" where "pad_to n s \<equiv> pad_left (CHR '' '') n s"

definition chart_width :: "Model \<Rightarrow> int" where
  "chart_width m = max 10 (boxWidth (m_w m) - 20)"

section \<open>CPU\<close>

text \<open>
  \<open>cpuBody\<close> in three parts: what comes first, the cores, the temperatures. The level says how much of it
  is folded: 1 the frequencies, 2 the sparklines of the cores, 3 puts the temperatures first.
\<close>

definition cpuCompactLevels :: nat where "cpuCompactLevels = 4"

definition cpu_freqs :: "look \<Rightarrow> Model \<Rightarrow> nat \<Rightarrow> string" where
  "cpu_freqs lk m level =
     (let fs = cs_Freqs (m_cpuSnap m)
      in if length fs > 1 \<and> level \<ge> 1 then lk_title lk ''Frequency'' @ '' '' @ freqSummary lk fs @ [NL, NL]
         else if fs \<noteq> [] then
           lk_title lk ''Frequency'' @ '' '' @ lk_subtle lk ''(g cycles governor)'' @ [NL] @
           concat (map (\<lambda>f.
             ''  '' @ padRight (pf_Policy f) 8 @ '' '' @ lk_ok lk (pad_to 4 (fmt_f 0 (pf_CurMHz f)) @ '' MHz'') @ ''  '' @
             lk_subtle lk (''('' @ fmt_f 0 (pf_MinMHz f) @ ENDASH @ fmt_f 0 (pf_MaxMHz f) @ '')'') @ ''  '' @
             lk_title lk (pf_Governor f @ (if pf_Writable f then [] else lk_subtle lk '' (ro)'')) @ '' '' @
             Spark (lk_arch lk) (m_freqHist m (pf_Policy f)) (min 24 (chart_width m sdiv 3)) @
             (if pf_CPUs f \<noteq> [] then ''  '' @ lk_subtle lk (''cpus '' @ pf_CPUs f) else []) @ [NL]) fs) @
           [NL]
         else [])"

definition cpu_top :: "look \<Rightarrow> Model \<Rightarrow> nat \<Rightarrow> string" where
  "cpu_top lk m level =
     (let s = m_cpuSnap m; tot = cs_TotalPercent s; chartW = chart_width m; la = pw_Load (m_powerSnap m); psi = psiLine lk m (ps_CPU (m_psi m)) False
      in ''Time: '' @ lk_stamp lk (cs_TakenAt s) @ [NL, NL] @
         lk_title lk ''CPU Total'' @ '' '' @
         lk_paint lk (if tot \<ge> 80 then ''196'' else if tot \<ge> 50 then ''214'' else ''42'') (fmt_f 1 tot @ ''%'') @
         (if pk_cpuPct (m_peaks m) > 0 then ''  '' @ lk_subtle lk (''peak '' @ fmt_f 1 (pk_cpuPct (m_peaks m)) @ ''%'') else []) @ [NL] @
         RenderBarWithLabel (lk_arch lk) (lk_paint lk) [] tot (min 40 chartW) @ [NL] @
         SparkPct (lk_arch lk) (m_cpuHist m) (min chartW 60) @ [NL, NL] @
         (if ld_CPUCount la > 0 then
            lk_title lk ''Load'' @ '' '' @ lk_paint lk (load_color la) (fmt_f 2 (ld_Load1 la)) @ '' '' @
            lk_subtle lk (fmt_f 2 (ld_Load5 la) @ '' '' @ fmt_f 2 (ld_Load15 la) @ ''  ('' @ itoa (ld_CPUCount la) @ '' CPUs)'') @ [NL, NL]
          else []) @
         cpu_freqs lk m level @
         (if cb_Valid (cs_Breakdown s) then lk_title lk ''Time'' @ '' '' @ cpuBreakdownLine lk (cs_Breakdown s) @ [NL, NL] else []) @
         (if psi \<noteq> [] then lk_title lk ''Pressure'' @ '' '' @ psi @ [NL, NL] else []))"

text \<open>The grid of the cores, filled column by column; a row ends at the last core.\<close>

definition core_cell :: "look \<Rightarrow> Model \<Rightarrow> int \<Rightarrow> int \<Rightarrow> int \<Rightarrow> nat \<Rightarrow> string" where
  "core_cell lk m labelW coreBarW sparkW i =
     ''  '' @ padRight (''Core '' @ padRight (nat_digits i) (labelW - 5)) labelW @
     RenderBarWithLabel (lk_arch lk) (lk_paint lk) [] (cs_PerCorePercent (m_cpuSnap m) ! i) coreBarW @ '' '' @
     (if i < length (m_coreHists m) \<and> sparkW > 0 then SparkPct (lk_arch lk) (m_coreHists m ! i) sparkW else [])"

definition cpu_cores :: "look \<Rightarrow> Model \<Rightarrow> nat \<Rightarrow> string" where
  "cpu_cores lk m level =
     (let n = length (cs_PerCorePercent (m_cpuSnap m)); chartW = chart_width m
      in if n = 0 then []
         else
           let labelW = (if n \<ge> 100 then 10 else 8);
               sparkW = (if level \<ge> 2 then 0 else min 16 (chartW sdiv 4));
               coreBarW = (if level \<ge> 2 then min 16 (chartW sdiv 4) else min 24 (chartW sdiv 3));
               cols = max 1 (boxWidth (m_w m) sdiv (2 + labelW + coreBarW + 1 + sparkW));
               cols = nat (if cols > 4 then 4 else cols);
               rows = (n + cols - 1) div cols
           in lk_title lk ''Per Core'' @ [NL] @
              concat (map (\<lambda>r.
                concat (map (core_cell lk m labelW coreBarW sparkW) (takeWhile (\<lambda>i. i < n) (map (\<lambda>c. c * rows + r) [0..<cols]))) @ [NL])
                [0..<rows]) @
              [NL])"

definition temp_row :: "look \<Rightarrow> Model \<Rightarrow> TempReading \<Rightarrow> string" where
  "temp_row lk m t =
     (let color = TempColor (lk_temps lk) (tr_Temp t); chartW = chart_width m
      in ''  '' @ padRight (trunc_s (tr_Label t) 20) 20 @ '' '' @ lk_paint lk color (FormatTemp (tr_Temp t)) @ '' '' @
         RenderBar (lk_arch lk) (lk_paint lk) (tr_Temp t) (min 30 (chartW sdiv 2)) color @ '' '' @
         (if m_tempHist m (tr_Label t) \<noteq> [] then Spark (lk_arch lk) (m_tempHist m (tr_Label t)) (min 20 (chartW sdiv 3)) else []) @ [NL])"

definition cpu_temps :: "look \<Rightarrow> Model \<Rightarrow> string" where
  "cpu_temps lk m =
     (let ts = cs_Temperatures (m_cpuSnap m)
      in if ts \<noteq> [] then
           lk_title lk ''Temperatures'' @
           (if tempSummary (m_peaks m) \<noteq> [] then ''  '' @ lk_subtle lk (''session peak '' @ tempSummary (m_peaks m)) else []) @ [NL] @
           concat (map (temp_row lk m) ts)
         else lk_subtle lk ''No temperature sensors detected'' @ [NL])"

definition cpu_host :: "look \<Rightarrow> Model \<Rightarrow> string" where
  "cpu_host lk m =
     (if ns_Hostname (m_netSnap m) \<noteq> [] then
        ''Host: '' @ lk_ok lk (ns_Hostname (m_netSnap m)) @ ''  Uptime: '' @
        duration_string (dur_truncate (ns_Uptime (m_netSnap m)) second) @ [NL]
      else [])"

definition cpuBody :: "look \<Rightarrow> Model \<Rightarrow> nat \<Rightarrow> string" where
  "cpuBody lk m level =
     cpu_host lk m @
     (if isZero (cs_TakenAt (m_cpuSnap m)) then ''Collecting CPU data'' @ ELLIPSIS @ [NL]
      else
        cpu_top lk m level @
        (if level \<ge> 3 then cpu_temps lk m @ [NL] @ cpu_cores lk m level
         else cpu_cores lk m level @ cpu_temps lk m))"

text \<open>The first level whose lines fit, else the last one.\<close>

definition newlines :: "string \<Rightarrow> nat" where
  "newlines s = length (filter (\<lambda>c. c = NL) s)"

definition cpu_level :: "look \<Rightarrow> Model \<Rightarrow> nat" where
  "cpu_level lk m =
     (case find (\<lambda>l. int (newlines (cpuBody lk m l)) \<le> bodyHeight (m_h m)) [0..<cpuCompactLevels] of
        Some l \<Rightarrow> l | None \<Rightarrow> cpuCompactLevels - 1)"

definition viewCPU :: "look \<Rightarrow> Model \<Rightarrow> string" where
  "viewCPU lk m = box lk m (cpuBody lk m (cpu_level lk m))"

section \<open>Memory\<close>

definition viewMem :: "look \<Rightarrow> Model \<Rightarrow> string" where
  "viewMem lk m =
     (let s = m_memSnap m; chartW = chart_width m; barW = min 40 chartW; psi = psiLine lk m (ps_Mem (m_psi m)) True;
          row = (\<lambda>name v. ''  '' @ padRight name 12 @ '' '' @ v @ [NL]);
          bytes = (\<lambda>x. HumanBytes (unat x))
      in box lk m (lk_title lk ''Memory'' @ [NL, NL] @
        (if isZero (ms_TakenAt s) then ''Collecting memory data'' @ ELLIPSIS @ [NL]
         else
           lk_title lk ''RAM'' @ ''  '' @ bytes (ms_Used s) @ '' used of '' @ bytes (ms_Total s) @
           (if pk_memPct (m_peaks m) > 0 then ''  '' @ lk_subtle lk (''(peak '' @ fmt_f 1 (pk_memPct (m_peaks m)) @ ''%)'') else []) @ [NL] @
           RenderBarWithLabel (lk_arch lk) (lk_paint lk) [] (ms_UsedPct s) barW @ [NL] @
           SparkPct (lk_arch lk) (m_memHist m) (min chartW 60) @ [NL, NL] @
           (if psi \<noteq> [] then lk_title lk ''Pressure'' @ '' '' @ psi @ [NL, NL] else []) @
           row ''Available'' (lk_ok lk (bytes (ms_Available s))) @
           row ''Free'' (bytes (ms_Free s)) @ row ''Cached'' (bytes (ms_Cached s)) @ row ''Buffers'' (bytes (ms_Buffers s)) @
           (if ms_OOMKillsOK s then
              row ''OOM kills'' (fmt_u (ms_OOMKills s) @ '' since boot'' @
                (if ot_session (m_oom m) > 0 then lk_err lk ('' '' @ MIDDOT @ '' '' @ fmt_u (ot_session (m_oom m)) @ '' this session'') else [])) @
              (if ot_victims (m_oom m) \<noteq> [] then
                 (let v = last (ot_victims (m_oom m))
                  in row ''last killed'' (lk_err lk (ov_comm v @ '' (pid '' @ itoa (ov_pid v) @ '') at '' @ lk_hms lk (ov_at v))))
               else [])
            else []) @
           [NL] @ lk_title lk ''Swap'' @
           (if ms_SwapTotal s = 0 then ''  '' @ lk_subtle lk ''not configured'' @ [NL]
            else
              ''  '' @ bytes (ms_SwapUsed s) @ '' used of '' @ bytes (ms_SwapTotal s) @ [NL] @
              RenderBarWithLabel (lk_arch lk) (lk_paint lk) [] (ms_SwapUsedPct s) barW @ [NL] @
              SparkPct (lk_arch lk) (m_swapHist m) (min chartW 60) @ [NL]))))"

section \<open>Processes\<close>

definition kill_line :: "look \<Rightarrow> killPrompt \<Rightarrow> string" where
  "kill_line lk kp =
     (if kp_hard kp then lk_err lk else lk_warn lk)
       (''Send '' @ kill_signal kp @ '' to '' @ kp_name kp @ '' (pid '' @ itoa (kp_pid kp) @ '')?'') @
     lk_subtle lk ''  y / N''"

definition filter_line :: "look \<Rightarrow> string \<Rightarrow> string" where
  "filter_line lk query =
     lk_subtle lk ''Filter: '' @ lk_title lk query @ lk_subtle lk ''  (/ change, ctrl+u clear)''"

definition procs_status :: "look \<Rightarrow> panes \<Rightarrow> Model \<Rightarrow> string" where
  "procs_status lk pv m =
     (case m_procsKill m of
        Some kp \<Rightarrow> kill_line lk kp
      | None \<Rightarrow>
          let n = notice_get (lk_now lk) (m_procsNotice m)
          in if n \<noteq> [] \<and> \<not> m_procsSearching m then n
             else if m_procsSearching m then pv_procsInput pv
             else if pp_query (m_pp m) \<noteq> [] then filter_line lk (pp_query (m_pp m))
             else lk_subtle lk ''Press / to search'')"

definition procs_selected :: "look \<Rightarrow> int \<Rightarrow> Model \<Rightarrow> string" where
  "procs_selected lk innerW m =
     (case selectedProc (m_pp m) of
        None \<Rightarrow> lk_subtle lk EMDASH
      | Some p \<Rightarrow>
          let cmd = (if trimSpace (pi_CmdLine p) = [] then pi_Name p else pi_CmdLine p)
          in lk_subtle lk (clampToWidthOneLine (lk_rw lk)
               (''pid '' @ itoa (pi_PID p) @ ''  '' @ pi_User p @ ''  '' @ cmd) innerW))"

definition procs_content :: "look \<Rightarrow> panes \<Rightarrow> Model \<Rightarrow> string" where
  "procs_content lk pv m =
     (let innerW = max 10 (boxWidth (m_w m) - 2)
      in clampToWidthOneLine (lk_rw lk) (procs_status lk pv m) innerW @ [NL] @ procs_selected lk innerW m @ [NL, NL] @
         pv_procsHeader pv @ [NL] @ pv_procsView pv)"

definition viewProcs :: "look \<Rightarrow> panes \<Rightarrow> Model \<Rightarrow> string" where
  "viewProcs lk pv m = box lk m (procs_content lk pv m)"

definition buildProcsHeader :: "look \<Rightarrow> panes \<Rightarrow> Model \<Rightarrow> string" where
  "buildProcsHeader lk pv m =
     (let w = (if pv_procsWidth pv \<le> 0 then 120 else pv_procsWidth pv); p = m_pp m;
          c = procsCols (pv_procsWidth pv) (pp_tree p \<and> pp_query p = []);
          wide = colPID c + colUser c + colName c + colCPU c + colMem c + colRSS c + colStat c + 14 +
            (if colIO c > 0 then colIO c + 2 else 0);
          view = (if pp_tree p then (if pp_query p \<noteq> [] then ''tree (flat while filtered)'' else ''tree'') else ''flat'')
      in ''Processes  sort: '' @ lk_title lk (procSort_string (pp_sort p)) @ ''  view: '' @ lk_title lk view @ ''  '' @
         lk_subtle lk (UP @ DOWN @ '' select'' @ SPOT @ ''s sort'' @ SPOT @ ''t tree'' @ SPOT @ ''k SIGTERM'' @ SPOT @
           ''K SIGKILL'' @ SPOT @ ''/ filter'') @ [NL, NL] @
         ''  '' @ padRight ''PID'' (colPID c) @ ''  '' @ padRight ''USER'' (colUser c) @ ''  '' @ padRight ''NAME'' (colName c) @ ''  '' @
         padRight ''CPU%'' (colCPU c) @ ''  '' @ padRight ''MEM%'' (colMem c) @ ''  '' @ padRight ''RSS'' (colRSS c) @
         (if colIO c > 0 then ''  '' @ padRight ''DISK I/O'' (colIO c) else []) @ ''  '' @ padRight ''S'' (colStat c) @ [NL] @
         rule (min w wide))"

section \<open>Disks\<close>

definition disk_row :: "look \<Rightarrow> int \<Rightarrow> int \<Rightarrow> DiskInfo \<Rightarrow> string" where
  "disk_row lk barW colMount d =
     (let fs = di_FSType d @ (if di_ReadOnly d \<and> length (di_FSType d) + 3 \<le> 8 then '' ro'' else [])
      in padRight (trunc_s (di_Device d) 16) 16 @ ''  '' @ padRight (trunc_s (di_MountPoint d) colMount) colMount @ ''  '' @
         padRight fs 8 @ ''  '' @ padRight (HumanBytes (di_Total d)) 9 @ ''  '' @ padRight (HumanBytes (di_Used d)) 9 @ ''  '' @
         padRight (HumanBytes (di_Free d)) 9 @ ''  '' @
         RenderBarWithLabel (lk_arch lk) (lk_paint lk) [] (di_UsedPct d) barW @ [NL])"

definition remount_warning :: "look \<Rightarrow> DiskInfo \<Rightarrow> string" where
  "remount_warning lk d =
     [NL] @ lk_err lk (WARNSIGN @ '' '' @ di_MountPoint d @ '' ('' @ di_Device d @ '') REMOUNTED READ-ONLY '' @ EMDASH @
       '' the kernel hit I/O errors; back up now'') @ [NL]"

definition viewDisk :: "look \<Rightarrow> Model \<Rightarrow> string" where
  "viewDisk lk m =
     (let w = boxWidth (m_w m); psi = psiLine lk m (ps_IO (m_psi m)) True;
          barW = min 30 (w sdiv 3); colMount = max 12 (min 24 (w sdiv 5));
          io = ioSummary (lk_hms lk) (lk_ioDevs lk) (m_klog m)
      in box lk m (lk_title lk ''Disk Usage'' @ (if psi \<noteq> [] then ''   '' @ lk_subtle lk ''io pressure:'' @ '' '' @ psi else []) @ [NL, NL] @
        (if m_disks m = [] then ''Collecting disk data'' @ ELLIPSIS @ [NL]
         else
           padRight ''DEVICE'' 16 @ ''  '' @ padRight ''MOUNT'' colMount @ ''  '' @ padRight ''FS'' 8 @ ''  '' @ padRight ''TOTAL'' 9 @ ''  '' @
           padRight ''USED'' 9 @ ''  '' @ padRight ''FREE'' 9 @ ''  USAGE'' @ [NL] @
           rule (min (w - 4) (16 + colMount + 8 + 9 + 9 + 9 + barW + 20)) @ [NL] @
           concat (map (disk_row lk barW colMount) (m_disks m)) @
           concat (map (remount_warning lk) (filter di_RemountedRO (m_disks m))) @
           (if io \<noteq> [] then [NL] @ lk_err lk (WARNSIGN @ '' '' @ io) @ [NL] else []) @
           (if m_storage m \<noteq> [] then
              [NL] @ lk_title lk ''Device health'' @ [NL] @ concat (map (\<lambda>h. ''  '' @ storageHealthLine lk h @ [NL]) (m_storage m))
            else []) @
           (if m_diskIOs m \<noteq> [] then
              [NL] @ lk_title lk ''Disk I/O'' @ [NL, NL] @
              padRight ''DEVICE'' 16 @ ''  '' @ padLeft ''READ/s'' 12 @ ''  '' @ padLeft ''WRITE/s'' 12 @ [NL] @
              concat (replicate 44 HLINE) @ [NL] @
              concat (map (\<lambda>i. padRight (trunc_s (io_Device i) 16) 16 @ ''  '' @ padLeft (HumanBytesPerSec (io_ReadBps i)) 12 @ ''  '' @
                  padLeft (HumanBytesPerSec (io_WriteBps i)) 12 @ [NL])
                (filter (\<lambda>i. \<not> (io_ReadBps i = 0 \<and> io_WriteBps i = 0)) (m_diskIOs m)))
            else []))))"

end
