(* ===== verification/Tabs_Net.thy ===== *)
theory Tabs_Net
  imports Tabs
begin

text \<open>
  The network, power and GPU tabs and the process overlay (\<open>internal/ui/model.go\<close>, \<open>detail.go\<close>).
\<close>

section \<open>Network\<close>

definition iface_row :: "look \<Rightarrow> bool \<Rightarrow> IfaceInfo \<Rightarrow> string" where
  "iface_row lk selected i =
     (let rate = (if if_RxBps i > 0 \<or> if_TxBps i > 0 then lk_paint lk ''42'' else lk_subtle lk);
          addr = (case if_Addrs i of a # _ \<Rightarrow> trunc_s a 22 | [] \<Rightarrow> [])
      in (if selected then POINTER else ''  '') @
         (if selected then lk_ok lk else lk_subtle lk) (padRight (if_Name i) 16) @ ''  '' @
         lk_subtle lk (padRight addr 22) @ ''  '' @
         rate (''RX:'' @ padRight (HumanBytesPerSec (if_RxBps i)) 10) @ ''  '' @
         rate (''TX:'' @ padRight (HumanBytesPerSec (if_TxBps i)) 10) @
         (if wf_Present (if_WiFi i) then ''  '' @ wifiSummary lk (if_WiFi i) else []) @
         (if ifaceErrTag lk i \<noteq> [] then ''  '' @ ifaceErrTag lk i else []) @ [NL])"

definition link_details :: "IWLink \<Rightarrow> string list" where
  "link_details l =
     (let det = (if iw_SSID l \<noteq> [] then [''SSID '' @ iw_SSID l] else []) @
                (if iw_Channel l > 0 then [''ch '' @ itoa (iw_Channel l) @ '' ('' @ itoa (iw_FreqMHz l) @ '' MHz)''] else []) @
                (if iw_TxMbps l > 0 then [''tx '' @ fmt_f 0 (iw_TxMbps l) @ '' Mbit/s''] else []) @
                (if iw_RxMbps l > 0 then [''rx '' @ fmt_f 0 (iw_RxMbps l) @ '' Mbit/s''] else [])
      in if det = [] then [''associated''] else det)"

definition iface_details :: "look \<Rightarrow> Model \<Rightarrow> int \<Rightarrow> IfaceInfo \<Rightarrow> string" where
  "iface_details lk m chartW i =
     (let spark = (\<lambda>hs. Spark (lk_arch lk) (case hs (if_Name i) of Some h \<Rightarrow> h | None \<Rightarrow> []) chartW); w = if_WiFi i
      in ''    RX: '' @ padRight (HumanBytesPerSec (if_RxBps i)) 12 @ '' '' @ spark (m_rxHist m) @ [NL] @
         ''    TX: '' @ padRight (HumanBytesPerSec (if_TxBps i)) 12 @ '' '' @ spark (m_txHist m) @ [NL] @
         (if wf_Present w then
            ''    '' @ lk_subtle lk ''WiFi: '' @ lk_paint lk (wifiColor w) (fmt_f 0 (wf_QualityPct w) @ ''% quality'') @ ''  '' @
            lk_paint lk (wifiColor w) (fmt_f 0 (wf_SignalDBm w) @ '' dBm'') @ ''  '' @
            RenderBar (lk_arch lk) (lk_paint lk) (wf_QualityPct w) (min 20 chartW) (wifiColor w) @ [NL] @
            (case m_iwLinks m (if_Name i) of
               Some l \<Rightarrow> ''    '' @ lk_subtle lk (join (link_details l) (''  '' @ BULLET @ ''  '')) @ [NL]
             | None \<Rightarrow> [])
          else []))"

definition net_ifaces :: "look \<Rightarrow> Model \<Rightarrow> string" where
  "net_ifaces lk m =
     (if isZero (ns_TakenAt (m_netSnap m)) then lk_title lk ''Interfaces'' @ ''  Collecting network data'' @ ELLIPSIS @ [NL, NL]
      else
        let up = upIfaces m
        in lk_title lk ''Interfaces'' @ ''  RX: '' @ lk_ok lk (HumanBytesPerSec (sum_list (map if_RxBps up))) @ ''  TX: '' @
           lk_ok lk (HumanBytesPerSec (sum_list (map if_TxBps up))) @ ''  ('' @ nat_digits (length up) @ '' ifaces, j/k select)'' @ [NL, NL] @
           concat (map (\<lambda>(i, ii).
             let selected = (int i = netIfaceIdx m)
             in iface_row lk selected ii @ (if selected then iface_details lk m (min 25 (boxWidth (m_w m) sdiv 4)) ii else []))
             (enumerate 0 up)) @
           [NL])"

definition ping_row :: "look \<Rightarrow> Model \<Rightarrow> PingResult \<Rightarrow> string" where
  "ping_row lk m r =
     (let name = (if pr_Target r = ''gateway'' \<and> pr_Addr r \<noteq> [] then ''gateway '' @ pr_Addr r else pr_Target r);
          ms = ms_of (pr_RTT r);
          rtt = (if pr_OK r
            then lk_paint lk (if ms \<ge> 200 then ''196'' else if ms \<ge> 80 then ''214'' else if ms \<ge> 30 then ''226'' else ''42'')
              (pad_to 6 (fmt_f 1 ms) @ '' ms'')
            else lk_err lk ''  lost  '');
          loss = (case m_lossWin m (pr_Target r) of
              Some win \<Rightarrow> if win \<noteq> [] then
                  lk_paint lk (if lossPct win \<ge> 20 then ''196'' else if lossPct win > 0 then ''214'' else ''42'')
                    (''loss '' @ fmt_f 0 (lossPct win) @ ''%'') @ lk_subtle lk (''/'' @ nat_digits (length win))
                else []
            | None \<Rightarrow> [])
      in lk_title lk ''Ping'' @ '' '' @ lk_subtle lk (padRight (trunc_s name 28) 28) @ ''  '' @ rtt @ ''  '' @
         Spark (lk_arch lk) (m_rttHist m (pr_Target r)) 20 @ '' '' @ loss @ ''  '' @ lk_subtle lk (''('' @ pr_Method r @ '')'') @ [NL])"

definition renderLatency :: "look \<Rightarrow> Model \<Rightarrow> string" where
  "renderLatency lk m =
     (if m_pings m = [] then lk_subtle lk (''Ping: measuring'' @ ELLIPSIS) @ [NL, NL]
      else concat (map (ping_row lk m) (m_pings m)) @ [NL])"

record net_cols =
  nc_w :: int
  nc_local :: int

text \<open>The other columns are constant: 4 for the protocol, 12 for the status, 7 for the PID.\<close>

definition netCols :: "panes \<Rightarrow> net_cols" where
  "netCols pv =
     (let w = (if pv_netWidth pv \<le> 0 then 120 else pv_netWidth pv) in \<lparr>nc_w = w, nc_local = min 28 (max 16 (w sdiv 4))\<rparr>)"

definition buildNetHeader :: "panes \<Rightarrow> string" where
  "buildNetHeader pv =
     (let c = netCols pv
      in padRight ''PR'' 4 @ ''  '' @ padRight ''LOCAL'' (nc_local c) @ ''  '' @ padRight ''REMOTE'' (nc_local c) @ ''  '' @
         padRight ''STATUS'' 12 @ ''  '' @ padRight ''PID'' 7 @ ''  PROCESS'' @ [NL] @
         rule (min (nc_w c) (4 + nc_local c + nc_local c + 12 + 7 + 20)))"

definition conn_proc :: "ConnInfo \<Rightarrow> string" where
  "conn_proc c = (if cn_Process c = [] then ''-'' else cn_Process c)"

definition conn_shown :: "look \<Rightarrow> Model \<Rightarrow> ConnInfo \<Rightarrow> bool" where
  "conn_shown lk m c \<longleftrightarrow>
     conn_match (m_connFilter m) (cn_Status c) \<and>
     (m_netQuery m = [] \<or>
      list_ex (\<lambda>s. containsFold (lk_low lk) s (m_netQuery m))
        [cn_LocalAddr c, cn_RemoteAddr c, conn_proc c, cn_Status c, cn_Proto c])"

definition conn_row :: "look \<Rightarrow> panes \<Rightarrow> string \<Rightarrow> ConnInfo \<Rightarrow> string" where
  "conn_row lk pv q c =
     (let cols = netCols pv; l = nc_local cols;
          rest = max 5 (nc_w cols - (4 + l + l + 12 + 7 + 12));
          hl = (\<lambda>s. highlightFold (lk_low lk) (lk_hl lk) s q)
      in padRight (cn_Proto c) 4 @ ''  '' @ hl (padRight (trunc_s (cn_LocalAddr c) l) l) @ ''  '' @
         hl (padRight (trunc_s (cn_RemoteAddr c) l) l) @ ''  '' @ padRight (cn_Status c) 12 @ ''  '' @
         padRight (connPID (cn_PID c)) 7 @ ''  '' @ hl (trunc_s (conn_proc c) rest) @ [NL])"

definition renderNetText :: "look \<Rightarrow> panes \<Rightarrow> Model \<Rightarrow> string" where
  "renderNetText lk pv m =
     (if m_conns m = [] then ''No data (yet)'' @ ELLIPSIS @ [NL]
      else
        let shown = filter (conn_shown lk m) (m_conns m)
        in if shown = [] then lk_subtle lk ''No connections match the filter.'' @ [NL]
           else concat (map (conn_row lk pv (m_netQuery m)) shown))"

definition net_search_line :: "look \<Rightarrow> panes \<Rightarrow> Model \<Rightarrow> string" where
  "net_search_line lk pv m =
     (if m_netSearching m then pv_netInput pv
      else if m_netQuery m \<noteq> [] then filter_line lk (m_netQuery m)
      else lk_subtle lk ''Press / to search connections'')"

text \<open>The fixed lines above the scrolling table, and the whole tab.\<close>

definition net_fixed :: "look \<Rightarrow> panes \<Rightarrow> Model \<Rightarrow> string" where
  "net_fixed lk pv m =
     net_ifaces lk m @
     (if mo_Present (m_modem m) then modemLine lk (m_modem m) @ [NL, NL] else []) @
     (if m_latSampler m then renderLatency lk m else []) @
     connSummaryLine lk m @ [NL] @
     net_search_line lk pv m @ [NL, NL] @
     pv_netHeader pv @ [NL]"

definition viewNet :: "look \<Rightarrow> panes \<Rightarrow> Model \<Rightarrow> string" where
  "viewNet lk pv m = box lk m (net_fixed lk pv m @ pv_netView pv)"

section \<open>Power\<close>

definition battery_lines :: "look \<Rightarrow> Model \<Rightarrow> bool \<Rightarrow> string" where
  "battery_lines lk m roomy =
     (let b = pw_Battery (m_powerSnap m); chartW = chart_width m;
          col = (if ba_Capacity b \<ge> 0 then (if ba_Capacity b \<le> 15 then ''196'' else if ba_Capacity b \<le> 35 then ''214'' else ''42'') else ''42'');
          low = pk_battMin (m_peaks m);
          charging = (ba_Status b = ''Charging'');
          det = (if ba_VoltageV b > 0 then [fmt_f 2 (ba_VoltageV b) @ '' V''] else []) @
                (if ba_PowerW b > 0 then [fmt_f 2 (ba_PowerW b) @ '' W '' @ (if charging then ''charge'' else ''draw'')] else []) @
                (if ba_TimeLeft b > 0 then
                   [duration_string (dur_truncate (ba_TimeLeft b) minute) @ '' '' @ (if charging then ''to full'' else ''to empty'')] else []) @
                (if ba_HealthPct b > 0 then [''health '' @ fmt_f 0 (ba_HealthPct b) @ ''%''] else []) @
                (if ba_Technology b \<noteq> [] then [ba_Technology b] else [])
      in if \<not> ba_Present b then lk_title lk ''Battery '' @ lk_subtle lk ''no battery detected'' @ [NL]
         else
           lk_title lk ''Battery'' @ '' '' @ lk_subtle lk (ba_Name b) @ ''  '' @
           lk_paint lk col (if ba_Capacity b \<ge> 0 then itoa (ba_Capacity b) @ ''%'' else ''n/a'') @ ''  '' @ statusStyled lk (ba_Status b) @
           (if low \<ge> 0 \<and> low < 100 then ''  '' @ lk_subtle lk (''(session min '' @ itoa low @ ''%)'') else []) @ [NL] @
           (if ba_Capacity b \<ge> 0 then
              ''  '' @ RenderBar (lk_arch lk) (lk_paint lk) (of_int (ba_Capacity b)) (min 40 chartW) col @ [NL] @
              (if roomy then ''  '' @ SparkPct (lk_arch lk) (m_battHist m) (min chartW 60) @ [NL] else [])
            else []) @
           (if det \<noteq> [] then ''  '' @ lk_subtle lk (join det (''  '' @ BULLET @ ''  '')) @ [NL] else []) @
           (if roomy \<and> length (m_battWHist m) > 1 then
              ''  '' @ lk_subtle lk ''power '' @ Spark (lk_arch lk) (m_battWHist m) (min (chartW - 8) 52) @
              lk_subtle lk ('' ('' @ MINUS @ '' discharge / + charge)'') @ [NL]
            else []))"

definition throttle_flag :: "look \<Rightarrow> bool \<Rightarrow> bool \<Rightarrow> string \<Rightarrow> string" where
  "throttle_flag lk now' ever' name =
     (if now' then lk_err lk ([CHR 0xE2, CHR 0x97, CHR 0x8F] @ '' '' @ name @ '' (now)'')
      else if ever' then lk_warn lk ([CHR 0xE2, CHR 0x97, CHR 0x90] @ '' '' @ name @ '' (since boot)'')
      else lk_ok lk ([CHR 0xE2, CHR 0x97, CHR 0x8B] @ '' '' @ name @ '' OK''))"

definition throttle_lines :: "look \<Rightarrow> ThrottleInfo \<Rightarrow> string" where
  "throttle_lines lk t =
     (if \<not> th_Available t then lk_title lk ''Throttle'' @ '' '' @ lk_subtle lk ''vcgencmd unavailable (not a Raspberry Pi)'' @ [NL]
      else
        lk_title lk ''Throttle / Under-voltage'' @ '' '' @ lk_subtle lk (''(raw 0x'' @ fmt_hex True (unat (th_Raw t)) @ '')'') @ [NL] @
        ''  '' @ throttle_flag lk (th_UnderVoltageNow t) (th_UnderVoltageOccurred t) ''Under-voltage'' @ [NL] @
        ''  '' @ throttle_flag lk (th_FreqCappedNow t) (th_FreqCappedOccurred t) ''ARM freq capped'' @ [NL] @
        ''  '' @ throttle_flag lk (th_ThrottledNow t) (th_ThrottledOccurred t) ''Throttled'' @ [NL] @
        ''  '' @ throttle_flag lk (th_SoftTempLimitNow t) (th_SoftTempLimitOccurred t) ''Soft temp limit'' @ [NL])"

definition viewPower :: "look \<Rightarrow> Model \<Rightarrow> string" where
  "viewPower lk m =
     (let p = m_powerSnap m; l = pw_Load p; roomy = (bodyHeight (m_h m) \<ge> 16); volt = underVoltageSummary (lk_hms lk) (m_klog m)
      in box lk m (lk_title lk ''Power & System Health'' @ [NL] @
        (if isZero (pw_TakenAt p) then ''Collecting power data'' @ ELLIPSIS @ [NL]
         else
           battery_lines lk m roomy @
           (if pw_ACKnown p then
              ''  '' @ lk_subtle lk ''AC power '' @ (if pw_ACOnline p then lk_ok lk ''connected'' else lk_err lk ''disconnected'') @ [NL]
            else []) @
           [NL] @
           lk_title lk ''Load'' @ '' '' @ lk_paint lk (if ld_CPUCount l > 0 then load_color l else ''42'') (fmt_f 2 (ld_Load1 l)) @ '' '' @
           lk_subtle lk (fmt_f 2 (ld_Load5 l)) @ '' '' @ lk_subtle lk (fmt_f 2 (ld_Load15 l)) @ ''  '' @
           lk_subtle lk (''(1/5/15m, '' @ itoa (ld_CPUCount l) @ '' CPUs)'') @
           (if pk_load1 (m_peaks m) > 0 then ''  '' @ lk_subtle lk (''peak '' @ fmt_f 2 (pk_load1 (m_peaks m))) else []) @ [NL] @
           (if roomy then ''  '' @ Spark (lk_arch lk) (m_loadHist m) (min (chart_width m) 60) @ [NL] else []) @
           [NL] @
           throttle_lines lk (pw_Throttle p) @
           (if volt \<noteq> [] then lk_warn lk (WARNSIGN @ '' '' @ volt) @ [NL] else []))))"

section \<open>GPU and backlight\<close>

definition backlight_lines :: "look \<Rightarrow> Model \<Rightarrow> string" where
  "backlight_lines lk m =
     (let bl = m_backlight m
      in lk_title lk ''Backlight'' @ [NL] @
         (if \<not> bl_Present bl then ''  '' @ lk_subtle lk ''no backlight device under /sys/class/backlight'' @ [NL]
          else
            ''  '' @ lk_subtle lk (bl_Device bl) @ ''  '' @ lk_ok lk (itoa (bl_Percent bl) @ ''%'') @ ''  '' @
            lk_subtle lk (''('' @ itoa (bl_Brightness bl) @ '' / '' @ itoa (bl_Max bl) @ '')'') @ [NL] @
            ''  '' @ RenderBar (lk_arch lk) (lk_paint lk) (of_int (bl_Percent bl)) (min 40 (chart_width m)) ''42'' @ [NL] @
            (if bl_Writable bl then lk_subtle lk (''  +/- to adjust (step '' @ itoa (BacklightStep (m_cfg m)) @ ''%)'')
             else lk_warn lk ''  read-only (needs root or a udev rule to change)'') @ [NL]) @
         (if notice_get (lk_now lk) (m_sysNotice m) \<noteq> [] then ''  '' @ notice_get (lk_now lk) (m_sysNotice m) @ [NL] else []) @ [NL])"

definition viewGPU :: "look \<Rightarrow> Model \<Rightarrow> string" where
  "viewGPU lk m =
     (let g = m_gpuSnap m; row = (\<lambda>name v. ''  '' @ lk_subtle lk (padRight name 12) @ '' '' @ v @ [NL])
      in box lk m (lk_title lk ''GPU / VideoCore & Display'' @ [NL, NL] @ backlight_lines lk m @ lk_title lk ''VideoCore'' @ [NL] @
        (if \<not> gp_Available g then ''  '' @ lk_subtle lk ''vcgencmd unavailable (not a Raspberry Pi / uConsole)'' @ [NL]
         else
           (if gp_CoreTempC g > 0 then row ''Core temp'' (lk_paint lk (TempColor (lk_temps lk) (gp_CoreTempC g)) (FormatTemp (gp_CoreTempC g))) else []) @
           (if gp_CoreVolts g > 0 then row ''Core volts'' (fmt_f 4 (gp_CoreVolts g) @ '' V'') else []) @
           (if gp_MemARMMB g > 0 \<or> gp_MemGPUMB g > 0
            then row ''Mem split'' (''CPU '' @ itoa (gp_MemARMMB g) @ ''M  /  GPU '' @ itoa (gp_MemGPUMB g) @ ''M'') else []) @
           (if gp_Clocks g \<noteq> [] then
              [NL] @ ''  '' @ lk_title lk ''Clocks'' @ [NL] @
              concat (map (\<lambda>c. ''    '' @ lk_subtle lk (padRight (lk_upper lk (cr_Name c)) 6) @ '' '' @ lk_ok lk (fmt_f 0 (cr_MHz c) @ '' MHz'') @ [NL])
                (gp_Clocks g))
            else []))))"

section \<open>One process\<close>

definition detail_row :: "look \<Rightarrow> int \<Rightarrow> string \<Rightarrow> string \<Rightarrow> string" where
  "detail_row lk innerW name v =
     (if v = [] then [] else ''  '' @ lk_subtle lk (padRight name 10) @ clampToWidthOneLine (lk_rw lk) v (innerW - 12) @ [NL])"

definition detail_status :: "look \<Rightarrow> Model \<Rightarrow> procDetailState \<Rightarrow> string" where
  "detail_status lk m st =
     (case m_procsKill m of
        Some kp \<Rightarrow> kill_line lk kp
      | None \<Rightarrow> if dt_notice st \<noteq> [] then dt_notice st
          else lk_subtle lk (''+/- nice '' @ BULLET @ '' p SIGSTOP '' @ BULLET @ '' c SIGCONT '' @ BULLET @ '' k/K kill '' @ BULLET @ '' esc close''))"

definition detail_body :: "look \<Rightarrow> int \<Rightarrow> ProcDetail \<Rightarrow> string" where
  "detail_body lk innerW d =
     (let row = detail_row lk innerW; bytes = (\<lambda>x. HumanBytes (unat x)); shown = (if length (pd_Conns d) > 8 then take 8 (pd_Conns d) else pd_Conns d);
          started = pd_CreateTime d sdiv 1000 * second
      in row ''user'' (pd_User d) @ row ''status'' (pd_Status d) @
         (if pd_CreateTime d > 0 then
            row ''started'' (lk_stamp lk started @ ''  (up '' @ duration_string (dur_truncate (timeSub (lk_now lk) started) second) @ '')'')
          else []) @
         row ''nice'' (itoa (pd_Nice d)) @ row ''threads'' (itoa (pd_Threads d)) @
         (if pd_FDs d \<ge> 0 then row ''open fds'' (itoa (pd_FDs d)) else []) @
         (if pd_Children d > 0 then row ''children'' (itoa (pd_Children d)) else []) @
         row ''memory'' (''rss '' @ bytes (pd_MemRSS d) @ ''  vms '' @ bytes (pd_MemVMS d) @
           (if pd_MemSwap d > 0 then ''  swap '' @ bytes (pd_MemSwap d) else [])) @
         (if pd_IOOK d then row ''disk io'' (''read '' @ bytes (pd_IORead d) @ ''  written '' @ bytes (pd_IOWrite d)) else []) @
         row ''exe'' (pd_Exe d) @ row ''cwd'' (pd_Cwd d) @
         (if pd_CmdLine d \<noteq> [] then
            [NL] @ ''  '' @ lk_subtle lk ''cmdline'' @ [NL] @
            concat (map (\<lambda>l. ''    '' @ l @ [NL]) (split (lk_fill lk (innerW - 4) (pd_CmdLine d)) NL))
          else []) @
         (if pd_Conns d \<noteq> [] then
            [NL] @ ''  '' @ lk_subtle lk (''sockets ('' @ nat_digits (length (pd_Conns d)) @ '')'') @ [NL] @
            concat (map (\<lambda>c. clampToWidthOneLine (lk_rw lk)
              (''    '' @ padRight (cn_Proto c) 4 @ '' '' @ padRight (trunc_s (cn_LocalAddr c) 24) 24 @ '' '' @
               padRight (trunc_s (cn_RemoteAddr c) 24) 24 @ '' '' @ cn_Status c) innerW @ [NL]) shown) @
            (if length (pd_Conns d) > length shown
             then lk_subtle lk (''    '' @ ELLIPSIS @ '' '' @ nat_digits (length (pd_Conns d) - length shown) @ '' more'') @ [NL] else [])
          else []))"

definition viewProcDetail :: "look \<Rightarrow> Model \<Rightarrow> procDetailState \<Rightarrow> string" where
  "viewProcDetail lk m st =
     (let innerW = max 10 (boxWidth (m_w m) - 4)
      in box lk m (lk_title lk (''Process '' @ itoa (dt_pid st)) @
        (if displayName st \<noteq> [] then ''  '' @ lk_ok lk (displayName st) else []) @ [NL] @
        clampToWidthOneLine (lk_rw lk) (detail_status lk m st) innerW @ [NL, NL] @
        (case dt_d st of None \<Rightarrow> ''Loading details'' @ ELLIPSIS @ [NL] | Some d \<Rightarrow> detail_body lk innerW d)))"

end
