(* ===== verification/Help.thy ===== *)
theory Help
  imports Views
begin

text \<open>
  The key reference (\<open>internal/ui/help.go\<close>): its text, the word wrap, the one-column and the
  two-column layout. No word is lost by the wrap, no line is longer than it has to be, and the two
  columns are split where the taller one is shortest.
\<close>

section \<open>Text\<close>

definition helpSections :: "(string \<times> (string \<times> string) list) list" where
  "helpSections =
     [(''Global'',
       [(''tab / '' @ RIGHT @ '' , shift+tab / '' @ LEFT, ''next / previous tab''),
        (''1'' @ ENDASH @ ''8'', ''jump to tab''),
        (''space'', ''pause sampling (alerts keep running)''),
        (''z'', ''expand a metric to a full-screen graph''),
        (''Z'', ''reset session peaks''),
        (''w'', ''write snapshot report''),
        (''?'', ''toggle this help''),
        (''ctrl+c'', ''quit'')]),
      (''Expanded graph (z)'',
       [(LEFT @ '' '' @ RIGHT @ '' / j k'', ''previous / next metric''),
        (''z / esc / q'', ''close'')]),
      (''CPU tab'',
       [(''g'', ''cycle cpufreq governor'')]),
      (''Processes tab'',
       [(UP @ '' '' @ DOWN @ '' pgup pgdn home end'', ''move cursor''),
        (''s'', ''cycle sort (CPU/MEM/I-O/PID/NAME)''),
        (''t'', ''toggle tree view''),
        (''enter'', ''open process details''),
        (''k / K'', ''SIGTERM / SIGKILL (y confirms)''),
        (''/ then enter'', ''filter (name, pid, user, cmdline)''),
        (''ctrl+u'', ''clear filter'')]),
      (''Process details'',
       [(''+ / -'', ''renice '' @ PLUSMINUS @ ''1''),
        (''p / c'', ''SIGSTOP / SIGCONT''),
        (''k / K'', ''SIGTERM / SIGKILL''),
        (''esc / q / enter'', ''close'')]),
      (''Network tab'',
       [(''j / k'', ''select interface''),
        (''f'', ''cycle connection state filter''),
        (''/'', ''filter connections'')]),
      (''GPU tab'',
       [(''+ / -'', ''backlight brightness'')]),
      (''Alerts tab'',
       [(''m'', ''mute / unmute banner''),
        (''c'', ''clear alert log'')])]"

section \<open>Wrapping\<close>

text \<open>The loop over the words; \<open>acc\<close> is the line so far.\<close>

fun wrap_loop :: "(string \<Rightarrow> int) \<Rightarrow> int \<Rightarrow> string \<Rightarrow> string list \<Rightarrow> string list" where
  "wrap_loop wd width acc [] = [acc]"
| "wrap_loop wd width acc (w # ws) =
     (if acc = [] then wrap_loop wd width w ws
      else if wd acc + 1 + wd w \<le> width then wrap_loop wd width (acc @ '' '' @ w) ws
      else acc # wrap_loop wd width w ws)"

definition wrapWords :: "(string \<Rightarrow> int) \<Rightarrow> string \<Rightarrow> int \<Rightarrow> string list" where
  "wrapWords wd s width = (if width \<le> 0 \<or> wd s \<le> width then [s] else wrap_loop wd width [] (strFields s))"

section \<open>Blocks\<close>

definition help_key :: "look \<Rightarrow> int \<Rightarrow> int \<Rightarrow> string \<times> string \<Rightarrow> string" where
  "help_key lk width keyW = (\<lambda>(key, desc).
     let lead = ''  '' @ padRight key keyW @ ''  '';
         descW = (if width > 0 then max 12 (width - lk_width lk lead) else 0)
     in concat (map (\<lambda>(i, part).
          (if i = 0 then ''  '' @ lk_ok lk (padRight key keyW) @ ''  '' @ lk_subtle lk part @ [NL]
           else spaces (nat (lk_width lk lead)) @ lk_subtle lk part @ [NL]))
          (enumerate (0::nat) (wrapWords (lk_width lk) desc descW))))"

definition helpBlocks :: "look \<Rightarrow> int \<Rightarrow> string list" where
  "helpBlocks lk width =
     map (\<lambda>(title, keys).
       let keyW = fold (\<lambda>(key, _) w. max w (lk_width lk key)) keys 0
       in lk_title lk title @ [NL] @ concat (map (help_key lk width keyW) keys)) helpSections"

definition helpContent :: "look \<Rightarrow> string" where
  "helpContent lk = join (helpBlocks lk 0) [NL]"

section \<open>Two columns\<close>

definition trimRightNL :: "string \<Rightarrow> string" where
  "trimRightNL s = rev (dropWhile (\<lambda>c. c = NL) (rev s))"

text \<open>A block goes under what its column holds, a blank line between them.\<close>

definition put_block :: "string list \<Rightarrow> string list \<Rightarrow> string list" where
  "put_block ls col = (if col = [] then [] else col @ [[]]) @ ls"

definition block_lines :: "string \<Rightarrow> string list" where
  "block_lines bl = split (trimRightNL bl) NL"

definition help_split :: "string list \<Rightarrow> nat \<Rightarrow> string list \<times> string list" where
  "help_split blocks k =
     fold (\<lambda>(i, bl) (l, r). if i < k then (put_block (block_lines bl) l, r) else (l, put_block (block_lines bl) r))
       (enumerate 0 blocks) ([], [])"

definition split_height :: "string list \<Rightarrow> nat \<Rightarrow> nat" where
  "split_height blocks k = (let (l, r) = help_split blocks k in max (length l) (length r))"

definition best_split :: "string list \<Rightarrow> nat" where
  "best_split blocks =
     fold (\<lambda>k best. if split_height blocks k < split_height blocks best then k else best) [1..<length blocks] 1"

definition twoColumns :: "look \<Rightarrow> string list \<Rightarrow> int \<Rightarrow> string" where
  "twoColumns lk blocks colW =
     (let (left, right) = help_split blocks (best_split blocks)
      in concat (map (\<lambda>i.
           let l = (if i < length left then ansiSafeTruncate (lk_rw lk) (left ! i) colW else [])
           in l @ spaces (nat (max 0 (colW - lk_width lk l) + 2)) @
              (if i < length right then ansiSafeTruncate (lk_rw lk) (right ! i) colW else []) @ [NL])
           [0..<max (length left) (length right)]))"

definition viewHelp :: "look \<Rightarrow> Model \<Rightarrow> string" where
  "viewHelp lk m =
     (let w = boxWidth (m_w m);
          head = lk_title lk (''Help '' @ EMDASH @ '' key bindings'') @ ''  '' @ lk_subtle lk ''(esc or ? to close)'';
          content = head @ [NL, NL] @ helpContent lk;
          colW = (w - 2) sdiv 2 - 1
      in box lk m
           (if int (length (filter (\<lambda>c. c = NL) content)) > bodyHeight (m_h m) \<and> w \<ge> 100
            then head @ [NL, NL] @ twoColumns lk (helpBlocks lk colW) colW
            else content))"

section \<open>The wrap\<close>

text \<open>The words of a text cut into lines: each line within the width unless a single word is wider, and no
  line that could have taken the first word of the next.\<close>

definition line_of :: "string list \<Rightarrow> string" where
  "line_of g = join g '' ''"

definition wrapped :: "(string \<Rightarrow> int) \<Rightarrow> int \<Rightarrow> string list \<Rightarrow> string list list \<Rightarrow> bool" where
  "wrapped wd width ws groups \<longleftrightarrow>
     concat groups = ws \<and> [] \<notin> set groups \<and>
     (\<forall>g \<in> set groups. length g = 1 \<or> wd (line_of g) \<le> width) \<and>
     successively (\<lambda>g g'. wd (line_of g) + 1 + wd (hd g') > width) groups"

lemma line_of_snoc: "g \<noteq> [] \<Longrightarrow> line_of (g @ [w]) = line_of g @ '' '' @ w"
  by (simp add: line_of_def join_snoc)

lemma line_of_nonempty: "g \<noteq> [] \<Longrightarrow> [] \<notin> set g \<Longrightarrow> line_of g \<noteq> []"
  by (cases g; cases "tl g") (auto simp: line_of_def neq_Nil_conv)

lemma set_line_of: "\<forall>w \<in> set g. set w \<subseteq> C \<Longrightarrow> CHR '' '' \<in> C \<Longrightarrow> set (line_of g) \<subseteq> C"
  unfolding line_of_def by (induction g "'' ''" rule: join.induct) auto

lemma wrap_loop_groups:
  assumes "g \<noteq> []" "[] \<notin> set (g @ ws)" "length g = 1 \<or> wd (line_of g) \<le> width"
    "\<forall>a b. set a \<union> set b \<subseteq> C \<longrightarrow> wd (a @ '' '' @ b) = wd a + 1 + wd b" "\<forall>w \<in> set (g @ ws). set w \<subseteq> C" "CHR '' '' \<in> C"
  shows "\<exists>g' groups. wrap_loop wd width (line_of g) ws = map line_of ((g @ g') # groups) \<and>
    wrapped wd width (g @ ws) ((g @ g') # groups)"
  using assms(1-3,5)
proof (induction ws arbitrary: g)
  case Nil
  then show ?case by (intro exI [of _ "[]"] exI [of _ "[]"]) (auto simp: wrapped_def)
next
  case (Cons w ws)
  have acc: "line_of g \<noteq> []" using Cons.prems by (simp add: line_of_nonempty)
  have chars: "set (line_of g) \<subseteq> C" using Cons.prems(4) assms(6) by (intro set_line_of) auto
  show ?case
  proof (cases "wd (line_of g) + 1 + wd w \<le> width")
    case True
    have "wd (line_of (g @ [w])) \<le> width"
      using True assms(4) chars Cons.prems by (simp add: line_of_snoc)
    then obtain g' groups where "wrap_loop wd width (line_of (g @ [w])) ws = map line_of (((g @ [w]) @ g') # groups)"
      "wrapped wd width ((g @ [w]) @ ws) (((g @ [w]) @ g') # groups)"
      using Cons.IH [of "g @ [w]"] Cons.prems by auto
    then show ?thesis using acc True Cons.prems(1)
      by (intro exI [of _ "w # g'"] exI [of _ groups]) (simp add: line_of_snoc)
  next
    case False
    obtain g' groups where r: "wrap_loop wd width (line_of [w]) ws = map line_of (([w] @ g') # groups)"
      "wrapped wd width ([w] @ ws) (([w] @ g') # groups)"
      using Cons.IH [of "[w]"] Cons.prems by auto
    have "wrapped wd width (g @ w # ws) (g # ([w] @ g') # groups)"
      using r(2) Cons.prems(1,3) False by (auto simp: wrapped_def)
    then show ?thesis using acc False r(1)
      by (intro exI [of _ "[]"] exI [of _ "([w] @ g') # groups"]) (simp add: line_of_def [of "[w]"])
  qed
qed

lemma fields_from_words: "w \<in> set (strFields_from acc s) \<Longrightarrow> w \<noteq> [] \<and> set w \<subseteq> set acc \<union> set s"
proof (induction acc s rule: strFields_from.induct)
  case (2 acc c s)
  show ?case
  proof (cases "space_at (c # s) = 0")
    case True
    then show ?thesis using 2 by auto
  next
    case False
    then show ?thesis using 2 set_drop_subset [of "space_at (c # s)" "c # s"] by (auto split: if_splits)
  qed
qed (simp split: if_splits)

text \<open>The word wrap of the key reference loses no word and breaks no word: a text that does not fit is cut into
  the lines of its words in order, each within the width unless it is a single wider word, and greedily: no line
  had room for the first word of the next. A text that fits stays as it is.\<close>

theorem help_wrap:
  assumes "\<forall>a b. set a \<union> set b \<subseteq> set s \<union> {CHR '' ''} \<longrightarrow> wd (a @ '' '' @ b) = wd a + 1 + wd b"
  shows "if 0 < width \<and> width < wd s \<and> strFields s \<noteq> []
    then \<exists>groups. wrapWords wd s width = map line_of groups \<and> wrapped wd width (strFields s) groups
    else wrapWords wd s width = [if 0 < width \<and> width < wd s then [] else s]"
proof (cases "0 < width \<and> width < wd s \<and> strFields s \<noteq> []")
  case True
  then obtain w ws where f: "strFields s = w # ws" by (cases "strFields s") auto
  have ws: "v \<noteq> [] \<and> set v \<subseteq> set s \<union> {CHR '' ''}" if "v \<in> set (w # ws)" for v
    using fields_from_words [of v "[]" s] that unfolding f [symmetric] strFields_def by auto
  have "\<exists>g' groups. wrap_loop wd width (line_of [w]) ws = map line_of (([w] @ g') # groups) \<and>
      wrapped wd width ([w] @ ws) (([w] @ g') # groups)"
    by (rule wrap_loop_groups [OF _ _ _ assms]) (use ws in auto)
  moreover have "wrapWords wd s width = wrap_loop wd width (line_of [w]) ws"
    using True f by (simp add: wrapWords_def line_of_def)
  moreover have "strFields s = [w] @ ws" using f by simp
  ultimately show ?thesis using True by metis
next
  case False
  then show ?thesis by (auto simp: wrapWords_def)
qed

theorem help_wrap_witness:
  "\<exists>groups. wrapWords (\<lambda>s. int (length s)) ''pause sampling (alerts keep running)'' 20 = map line_of groups \<and>
     wrapped (\<lambda>s. int (length s)) 20 (strFields ''pause sampling (alerts keep running)'') groups"
  using help_wrap [of "''pause sampling (alerts keep running)''" "\<lambda>s. int (length s)" 20]
  by (simp add: strFields_def space_at_def space_runes_def)

section \<open>The two columns\<close>

definition stacked :: "string list \<Rightarrow> string list" where
  "stacked bls = fold put_block (map block_lines bls) []"

lemma help_split_stacked: "help_split blocks k = (stacked (take k blocks), stacked (drop k blocks))"
proof -
  have "fold (\<lambda>(i, bl) (l, r). if i < k then (put_block (block_lines bl) l, r) else (l, put_block (block_lines bl) r)) (enumerate n bls) (l, r) =
      (fold put_block (map block_lines (take (k - n) bls)) l, fold put_block (map block_lines (drop (k - n) bls)) r)" for n bls l r
    by (induction bls arbitrary: n l r) (simp_all add: take_Cons' drop_Cons' Suc_diff_le)
  from this [of 0] show ?thesis by (simp add: help_split_def stacked_def)
qed

lemma fold_least:
  fixes f :: "nat \<Rightarrow> nat"
  shows "let b = fold (\<lambda>k best. if f k < f best then k else best) ks b0
    in b \<in> insert b0 (set ks) \<and> (\<forall>k \<in> insert b0 (set ks). f b \<le> f k)"
proof (induction ks arbitrary: b0)
  case (Cons k ks)
  show ?case using Cons [of "if f k < f b0 then k else b0"] by (auto simp: Let_def split: if_splits)
qed simp

text \<open>The two columns hold every section whole and in order, and no other cut between sections makes the
  taller column shorter.\<close>

theorem help_columns:
  assumes "2 \<le> length blocks"
  shows "let k = best_split blocks in
    1 \<le> k \<and> k < length blocks \<and> help_split blocks k = (stacked (take k blocks), stacked (drop k blocks)) \<and>
    (\<forall>j. 1 \<le> j \<and> j < length blocks \<longrightarrow> split_height blocks k \<le> split_height blocks j)"
  using fold_least [of "split_height blocks" "[1..<length blocks]" 1] assms
  by (auto simp: best_split_def help_split_stacked Let_def)

end
