(* ===== verification/Frame.thy ===== *)
theory Frame
  imports Tabs_Net Help Graphs Screen_Safety
begin

text \<open>
  The whole screen (\<open>View\<close> and \<open>renderHeader\<close> of \<open>internal/ui/model.go\<close>): header, box and footer, and
  why they are exactly as large as the terminal.
\<close>

section \<open>Header and footer\<close>

abbreviation PAUSE :: string where "PAUSE \<equiv> [CHR 0xE2, CHR 0x8F, CHR 0xB8]"

definition header_tabs :: "look \<Rightarrow> Model \<Rightarrow> string list" where
  "header_tabs lk m =
     map (\<lambda>(s, t). renderTab lk s (m_activeTab m = t))
       [(''1 CPU/Temp'', tabCPU), (''2 Memory'', tabMem), (''3 Processes'', tabProc), (''4 Disk'', tabDisk),
        (''5 Network'', tabNet), (''6 Power'', tabPower), (''7 GPU'', tabGPU), (alertsTabLabel lk m, tabAlerts)]"

definition header_left :: "look \<Rightarrow> Model \<Rightarrow> string" where
  "header_left lk m =
     (let badge = behindBadge (lk_warn lk) (lk_now lk) (m_guards m)
      in lk_title lk (''ucmon '' @ lk_version lk) @
         (if m_w m \<ge> 60 then '' '' @ lk_subtle lk (''('' @ itoa (m_w m) @ ''x'' @ itoa (m_h m) @ '')'') else []) @
         (if m_paused m then '' '' @ lk_warn lk (PAUSE @ '' PAUSED'') else []) @
         (if badge \<noteq> [] then '' '' @ badge else []))"

definition renderHeader :: "look \<Rightarrow> Model \<Rightarrow> string" where
  "renderHeader lk m =
     (let left = clampToWidthOneLine (lk_rw lk) (header_left lk m) (m_w m);
          rem = (if m_w m - lk_width lk left < 0 then 0 else m_w m - lk_width lk left);
          right = joinTabsWithinWidth lk (header_tabs lk m) rem
      in lk_fill lk (m_w m) (clampToWidthOneLine (lk_rw lk) (left @ padTo (lk_width lk) rem right) (m_w m)))"

definition footerText :: "Model \<Rightarrow> string" where
  "footerText m =
     (if m_zoom m \<noteq> None then
        ''Keys: '' @ LEFT @ ''/'' @ RIGHT @ '' metric'' @ SPOT @ ''z/esc close'' @ SPOT @ ''space pause'' @ SPOT @ ''w snapshot'' @ SPOT @ ''ctrl+c quit''
      else if m_activeTab m = tabAlerts then
        ''Keys: '' @ UP @ DOWN @ '' scroll'' @ SPOT @ ''m mute'' @ SPOT @ ''c clear log'' @ SPOT @ ''? help'' @ SPOT @ ''w snapshot'' @ SPOT @ ''ctrl+c quit''
      else if m_activeTab m = tabGPU then
        ''Keys: +/- brightness'' @ SPOT @ ''tab/'' @ LEFT @ ''/'' @ RIGHT @ '' switch'' @ SPOT @ ''? help'' @ SPOT @ ''w snapshot'' @ SPOT @ ''ctrl+c quit''
      else if m_activeTab m = tabCPU then
        ''Keys: g governor'' @ SPOT @ ''z graph'' @ SPOT @ ''tab/'' @ LEFT @ ''/'' @ RIGHT @ '' switch'' @ SPOT @ ''? help'' @ SPOT @ ''space pause'' @ SPOT @ ''w snapshot''
      else if m_activeTab m = tabProc \<and> \<not> m_procsSearching m then
        ''Keys: '' @ UP @ DOWN @ '' select'' @ SPOT @ ''enter details'' @ SPOT @ ''s sort'' @ SPOT @ ''t tree'' @ SPOT @ ''k/K kill'' @ SPOT @ ''/ filter'' @ SPOT @ ''? help''
      else if m_activeTab m = tabNet \<and> \<not> m_netSearching m then
        ''Keys: j/k iface'' @ SPOT @ ''f conn state'' @ SPOT @ ''/ search'' @ SPOT @ ''? help'' @ SPOT @ ''w snapshot'' @ SPOT @ ''ctrl+c quit''
      else
        ''Keys: tab/'' @ LEFT @ ''/'' @ RIGHT @ '' switch'' @ SPOT @ ''1-8 jump'' @ SPOT @ ''z graph'' @ SPOT @ ''? help'' @ SPOT @ ''space pause'' @ SPOT @ ''w snapshot'' @ SPOT @ ''ctrl+c quit'')"

text \<open>A hard error before a notice, a notice before the alert banner, the banner before the keys.\<close>

definition footer_line :: "look \<Rightarrow> Model \<Rightarrow> string" where
  "footer_line lk m =
     (case m_err m of
        Some e \<Rightarrow> lk_err lk (''Error: '' @ e)
      | None \<Rightarrow>
          if notice_get (lk_now lk) (m_notice m) \<noteq> [] then notice_get (lk_now lk) (m_notice m)
          else if alertBanner lk m \<noteq> [] then alertBanner lk m
          else lk_subtle lk (footerText m))"

section \<open>The screen\<close>

definition view_body :: "look \<Rightarrow> panes \<Rightarrow> Model \<Rightarrow> string" where
  "view_body lk pv m =
     (if m_showHelp m then viewHelp lk m
      else if m_zoom m \<noteq> None then
        viewZoom (lk_rw lk) (lk_width lk) (lk_title lk) (lk_subtle lk) (lk_ok lk) (lk_paint lk) m
      else
        case (if m_activeTab m = tabProc then m_detail m else None) of
          Some st \<Rightarrow> viewProcDetail lk m st
        | None \<Rightarrow>
            (case m_activeTab m of
               tabCPU \<Rightarrow> viewCPU lk m | tabMem \<Rightarrow> viewMem lk m | tabProc \<Rightarrow> viewProcs lk pv m | tabDisk \<Rightarrow> viewDisk lk m
             | tabNet \<Rightarrow> viewNet lk pv m | tabPower \<Rightarrow> viewPower lk m | tabGPU \<Rightarrow> viewGPU lk m | tabAlerts \<Rightarrow> viewAlerts lk pv m))"

abbreviation RESET :: string where "RESET \<equiv> [ESC] @ ''[0m''"

definition View :: "look \<Rightarrow> panes \<Rightarrow> Model \<Rightarrow> string" where
  "View lk pv m =
     (if m_w m < minWidth \<or> m_h m < minHeight then viewTooSmall lk m
      else
        lk_stack lk
          [renderHeader lk m,
           lk_frame lk (boxWidth (m_w m)) (bodyHeight (m_h m)) (view_body lk pv m),
           lk_fill lk (m_w m) (clampToWidthOneLine (lk_rw lk) (footer_line lk m) (m_w m))] @ RESET)"

section \<open>What lipgloss is relied on for\<close>

text \<open>
  What \<open>Render\<close> is documented to do, by lipgloss's own measure of a line (\<open>lk_width\<close>, in grapheme clusters):
  it turns every tab into four spaces; then, if what it is given fits, \<open>Width(w)\<close> keeps a line a line that
  fits, and \<open>Width(w).Height(h)\<close> with a rounded border and one column of padding on each side makes text of at
  most \<open>h\<close> lines into \<open>h + 2\<close> lines of at most \<open>w + 2\<close> columns. (A line that does not fit is wrapped; nothing is
  asked of that case.) Stacked blocks keep their lines, padded to the widest.
\<close>

definition expand_tabs :: "string \<Rightarrow> string" where
  "expand_tabs s = concat (map (\<lambda>c. if c = TAB then ''    '' else [c]) s)"

definition fits_in :: "look \<Rightarrow> int \<Rightarrow> string \<Rightarrow> bool" where
  "fits_in lk w s \<longleftrightarrow> (\<forall>l \<in> set (split s NL). lk_width lk l \<le> w)"

definition lipgloss_blocks :: "look \<Rightarrow> bool" where
  "lipgloss_blocks lk \<longleftrightarrow>
     (\<forall>w s. 1 \<le> w \<and> NL \<notin> set s \<and> fits_in lk w (expand_tabs s) \<longrightarrow>
        NL \<notin> set (lk_fill lk w s) \<and> fits_in lk w (lk_fill lk w s)) \<and>
     (\<forall>w h s. 3 \<le> w \<and> 1 \<le> h \<and> fits_in lk (w - 2) (expand_tabs s) \<and> int (length (split s NL)) \<le> h \<longrightarrow>
        int (length (split (lk_frame lk w h s) NL)) = h + 2 \<and> fits_in lk (w + 2) (lk_frame lk w h s)) \<and>
     (\<forall>w bs. bs \<noteq> [] \<and> (\<forall>b \<in> set bs. fits_in lk w b) \<longrightarrow>
        length (split (lk_stack lk bs) NL) = sum_list (map (\<lambda>b. length (split b NL)) bs) \<and> fits_in lk w (lk_stack lk bs))"

text \<open>
  The code clips to the sum of the widths of the runes, tabs taking none. Text is measured alike when lipgloss
  does not find more in any line of it: no tab, and no cluster wider than its runes. (A tab does reach the
  screen: in the name of a mount point.)
\<close>

definition measured_alike :: "look \<Rightarrow> string \<Rightarrow> bool" where
  "measured_alike lk s \<longleftrightarrow> (\<forall>l \<in> set (split s NL). lk_width lk (expand_tabs l) \<le> int (columns (lk_rw lk) l))"

text \<open>The three parts of the frame as they are handed to lipgloss, and the line of a terminal too small for one.\<close>

definition header_line :: "look \<Rightarrow> Model \<Rightarrow> string" where
  "header_line lk m =
     (let left = clampToWidthOneLine (lk_rw lk) (header_left lk m) (m_w m);
          rem = (if m_w m - lk_width lk left < 0 then 0 else m_w m - lk_width lk left)
      in clampToWidthOneLine (lk_rw lk) (left @ padTo (lk_width lk) rem (joinTabsWithinWidth lk (header_tabs lk m) rem)) (m_w m))"

definition shown_alike :: "look \<Rightarrow> panes \<Rightarrow> Model \<Rightarrow> bool" where
  "shown_alike lk pv m \<longleftrightarrow>
     (if m_w m < minWidth \<or> m_h m < minHeight
      then \<forall>l \<in> set (split (viewTooSmall lk m) NL). lk_width lk l \<le> int (columns (lk_rw lk) l)
      else measured_alike lk (header_line lk m) \<and> measured_alike lk (view_body lk pv m) \<and>
        measured_alike lk (clampToWidthOneLine (lk_rw lk) (footer_line lk m) (m_w m)))"

section \<open>The screen is as large as the terminal\<close>

lemma clamped_line: "NL \<notin> set (clampToWidthOneLine rw s w)" "0 \<le> w \<Longrightarrow> int (columns rw (clampToWidthOneLine rw s w)) \<le> w"
proof -
  have "NL \<notin> set (oneLine s)" by (auto simp: oneLine_def)
  then show "NL \<notin> set (clampToWidthOneLine rw s w)"
    using set_trunc_loop [of rw "nat w" "oneLine s"] by (auto simp: clampToWidthOneLine_def ansiSafeTruncate_def)
  show "0 \<le> w \<Longrightarrow> int (columns rw (clampToWidthOneLine rw s w)) \<le> w"
    using columns_trunc_loop [of rw "nat w" "oneLine s"] by (auto simp: clampToWidthOneLine_def ansiSafeTruncate_def le_nat_iff)
qed

lemma one_line_fits: "NL \<notin> set s \<Longrightarrow> fits_in lk w s \<longleftrightarrow> lk_width lk s \<le> w"
  by (simp add: fits_in_def split_none)

lemma expand_tabs_split: "split (expand_tabs s) NL = map expand_tabs (split s NL)"
proof (induction s)
  case (Cons c s)
  obtain p ps where "split s NL = p # ps" by (metis list.exhaust split_Cons_not)
  then show ?case using Cons by (auto simp: expand_tabs_def)
qed (simp add: expand_tabs_def)

text \<open>Text whose lines the code clipped, and that is measured alike, fits when it is rendered.\<close>

lemma clipped_fits:
  assumes "measured_alike lk s" "\<forall>l \<in> set (split s NL). int (columns (lk_rw lk) l) \<le> w"
  shows "fits_in lk w (expand_tabs s)"
  using assms by (fastforce simp: fits_in_def expand_tabs_split measured_alike_def)

definition boxed :: "look \<Rightarrow> Model \<Rightarrow> string \<Rightarrow> bool" where
  "boxed lk m s \<longleftrightarrow> (\<exists>content. s = box lk m content)"

lemma boxedI [intro]: "boxed lk m (box lk m content)" "boxed lk m (box_content (lk_rw lk) (m_w m) (m_h m) content)"
  by (auto simp: boxed_def box_def)

lemma views_boxed:
  "boxed lk m (viewHelp lk m)" "boxed lk m (viewZoom (lk_rw lk) wd t s k p m)" "boxed lk m (viewProcDetail lk m st)"
  "boxed lk m (viewCPU lk m)" "boxed lk m (viewMem lk m)" "boxed lk m (viewProcs lk pv m)" "boxed lk m (viewDisk lk m)"
  "boxed lk m (viewNet lk pv m)" "boxed lk m (viewPower lk m)" "boxed lk m (viewGPU lk m)" "boxed lk m (viewAlerts lk pv m)"
  unfolding viewHelp_def viewZoom_def viewProcDetail_def viewCPU_def viewMem_def viewProcs_def viewDisk_def
    viewNet_def viewPower_def viewGPU_def viewAlerts_def Let_def case_prod_beta
  by (intro boxedI branch [where P = "boxed lk m"])+

lemma body_boxed: "boxed lk m (view_body lk pv m)"
  unfolding view_body_def
  by (cases "m_activeTab m") (simp_all only: tab.case, (intro views_boxed branch [where P = "boxed lk m"])+)

lemma boxed_fits:
  assumes "minWidth \<le> m_w m"
  shows "(\<forall>l \<in> set (split (box lk m content) NL). int (columns (lk_rw lk) l) \<le> boxWidth (m_w m) - 2) \<and>
    int (length (split (box lk m content) NL)) \<le> bodyHeight (m_h m)"
proof -
  have "28 \<le> boxWidth (m_w m)" "1 \<le> bodyHeight (m_h m)" using assms by (simp_all add: boxWidth_def minWidth_def bodyHeight_def Let_def)
  then show ?thesis
    using frame_fits [of "boxWidth (m_w m) - 2" "bodyHeight (m_h m)", OF _ _ refl, of "lk_rw lk" content]
    by (auto simp: box_def box_content_def)
qed

lemma lipgloss_laws:
  assumes "lipgloss_blocks lk"
  shows "1 \<le> w \<Longrightarrow> NL \<notin> set s \<Longrightarrow> fits_in lk w (expand_tabs s) \<Longrightarrow> NL \<notin> set (lk_fill lk w s) \<and> fits_in lk w (lk_fill lk w s)"
    "3 \<le> w \<Longrightarrow> 1 \<le> h \<Longrightarrow> fits_in lk (w - 2) (expand_tabs s) \<Longrightarrow> int (length (split s NL)) \<le> h \<Longrightarrow>
      int (length (split (lk_frame lk w h s) NL)) = h + 2 \<and> fits_in lk (w + 2) (lk_frame lk w h s)"
    "bs \<noteq> [] \<Longrightarrow> \<forall>b \<in> set bs. fits_in lk w b \<Longrightarrow>
      length (split (lk_stack lk bs) NL) = sum_list (map (\<lambda>b. length (split b NL)) bs) \<and> fits_in lk w (lk_stack lk bs)"
  using assms unfolding lipgloss_blocks_def by blast+

lemma fits_in_mono: "fits_in lk w s \<Longrightarrow> w \<le> w' \<Longrightarrow> fits_in lk w' s"
  by (force simp: fits_in_def)

text \<open>C8: The frame never overflows the terminal: from the smallest size up it is exactly as many lines as the
  terminal has rows and no line takes more columns than the terminal has, whatever the readings, notices and
  styles are, as long as lipgloss does not measure the clipped text wider than the code did when it clipped it;
  a terminal too small for a frame gets a single line that fits. (One row too many and the alternate screen
  is blanked, which is what a tab in the name of a mount point can do.)\<close>

theorem screen_fits:
  assumes "lipgloss_blocks lk" "shown_alike lk pv m" "1 \<le> m_w m" "1 \<le> m_h m"
  shows "\<exists>frame reset. View lk pv m = frame @ reset \<and> reset \<in> {[], RESET} \<and> fits_in lk (m_w m) frame \<and>
    int (length (split frame NL)) = (if m_w m < minWidth \<or> m_h m < minHeight then 1 else m_h m)"
proof (cases "m_w m < minWidth \<or> m_h m < minHeight")
  case True
  obtain t where t: "viewTooSmall lk m = clampToWidthOneLine (lk_rw lk) t (m_w m)"
    using assms(3,4) by (simp add: viewTooSmall_def Let_def)
  then have "NL \<notin> set (viewTooSmall lk m)" "int (columns (lk_rw lk) (viewTooSmall lk m)) \<le> m_w m"
    using clamped_line assms(3) by simp_all
  then show ?thesis
    using True assms(2) by (intro exI [of _ "View lk pv m"] exI [of _ "[]"])
      (auto simp: View_def one_line_fits split_none shown_alike_def)
next
  case False
  let ?footer = "clampToWidthOneLine (lk_rw lk) (footer_line lk m) (m_w m)"
  define body where "body = lk_frame lk (boxWidth (m_w m)) (bodyHeight (m_h m)) (view_body lk pv m)"
  have alike: "measured_alike lk (header_line lk m)" "measured_alike lk (view_body lk pv m)" "measured_alike lk ?footer"
    using assms(2) False by (simp_all add: shown_alike_def)
  have size: "3 \<le> boxWidth (m_w m)" "boxWidth (m_w m) + 2 \<le> m_w m" "1 \<le> bodyHeight (m_h m)" "bodyHeight (m_h m) + 4 = m_h m"
    using False by (simp_all add: boxWidth_def minWidth_def minHeight_def bodyHeight_def headerH_def footerH_def Let_def)
  have fill: "fits_in lk (m_w m) (lk_fill lk (m_w m) s) \<and> length (split (lk_fill lk (m_w m) s) NL) = 1"
    if "measured_alike lk s" "s = clampToWidthOneLine (lk_rw lk) t (m_w m)" for s t
  proof -
    have s: "NL \<notin> set s" "int (columns (lk_rw lk) s) \<le> m_w m" using that(2) clamped_line assms(3) by simp_all
    then have "fits_in lk (m_w m) (expand_tabs s)" using clipped_fits [OF that(1)] by (simp add: split_none)
    then show ?thesis using lipgloss_laws(1) [OF assms(1,3) s(1)] by (simp add: split_none)
  qed
  have lines: "fits_in lk (m_w m) (lk_fill lk (m_w m) (header_line lk m))" "length (split (lk_fill lk (m_w m) (header_line lk m)) NL) = 1"
    "fits_in lk (m_w m) (lk_fill lk (m_w m) ?footer)" "length (split (lk_fill lk (m_w m) ?footer) NL) = 1"
    using fill [OF alike(1)] fill [OF alike(3) refl] by (simp_all add: header_line_def Let_def)
  have small: "fits_in lk (boxWidth (m_w m) - 2) (expand_tabs (view_body lk pv m))"
      "int (length (split (view_body lk pv m) NL)) \<le> bodyHeight (m_h m)"
    using boxed_fits [of m lk] body_boxed [of lk m pv] False clipped_fits [OF alike(2)] by (auto simp: boxed_def)
  have "int (length (split body NL)) = bodyHeight (m_h m) + 2 \<and> fits_in lk (boxWidth (m_w m) + 2) body"
    unfolding body_def by (rule lipgloss_laws(2) [OF assms(1)]) (use small size in auto)
  then have body: "fits_in lk (m_w m) body" "int (length (split body NL)) = bodyHeight (m_h m) + 2"
    using size(2) fits_in_mono by auto
  let ?parts = "[lk_fill lk (m_w m) (header_line lk m), body, lk_fill lk (m_w m) ?footer]"
  have view: "View lk pv m = lk_stack lk ?parts @ RESET"
    using False by (simp add: View_def renderHeader_def header_line_def body_def Let_def)
  have "fits_in lk (m_w m) (lk_stack lk ?parts) \<and> length (split (lk_stack lk ?parts) NL) = 1 + length (split body NL) + 1"
    using lipgloss_laws(3) [OF assms(1), of ?parts "m_w m"] lines body(1) by simp
  then show ?thesis
    using view body(2) size(4) False by (intro exI [of _ "lk_stack lk ?parts"] exI [of _ RESET]) simp
qed

text \<open>Plain text in one-column runes, tabs as four blanks, boxed by dashes.\<close>

definition plain_look :: look where
  "plain_look = \<lparr>lk_arch = AMD64, lk_now = 0, lk_version = ''1.0'', lk_rw = (\<lambda>_. 1), lk_low = (\<lambda>r. r), lk_upper = (\<lambda>s. s),
     lk_width = (\<lambda>s. int (columns (\<lambda>_. 1) s)), lk_paint = (\<lambda>_ s. s), lk_title = (\<lambda>s. s), lk_subtle = (\<lambda>s. s), lk_ok = (\<lambda>s. s),
     lk_warn = (\<lambda>s. s), lk_err = (\<lambda>s. s), lk_hl = (\<lambda>s. s), lk_selected = (\<lambda>s. s), lk_tab = (\<lambda>_ s. s), lk_fill = (\<lambda>_ s. expand_tabs s),
     lk_frame = (\<lambda>w h s.
       let edge = replicate (nat (w + 2)) (CHR ''-''); ls = split (expand_tabs s) NL
       in join (edge # ls @ replicate (nat h - length ls) [] @ [edge]) [NL]),
     lk_stack = (\<lambda>bs. join bs [NL]), lk_stamp = (\<lambda>_. ''now''), lk_hms = (\<lambda>_. ''now''),
     lk_temps = \<lparr>tt_warn = 60, tt_hot = 70, tt_crit = 80\<rparr>, lk_alerts = [], lk_ioDevs = []\<rparr>"

lemma columns_dashes: "columns (\<lambda>_. 1) (replicate n (CHR ''-'')) = n"
proof (induction n)
  case (Suc n)
  then show ?case by (subst columns.simps) (simp add: esc_len_def decodeRune_def)
qed simp

lemma split_at: "split (x @ b # y) b = split x b @ split y b"
  by (induction x) (auto simp: Cons_eq_append_conv split: list.splits)

lemma split_lines: "bs \<noteq> [] \<Longrightarrow> split (join bs [NL]) NL = concat (map (\<lambda>b. split b NL) bs)"
  by (induction bs rule: induct_list012) (simp_all add: split_at)

lemma plain_look_blocks: "lipgloss_blocks plain_look"
proof -
  have stack: "length (split (lk_stack plain_look bs) NL) = sum_list (map (\<lambda>b. length (split b NL)) bs) \<and> fits_in plain_look w (lk_stack plain_look bs)"
    if "bs \<noteq> []" "\<forall>b \<in> set bs. fits_in plain_look w b" for w bs
    using that by (simp add: plain_look_def fits_in_def split_lines length_concat comp_def)
  have frame: "int (length (split (lk_frame plain_look w h s) NL)) = h + 2 \<and> fits_in plain_look (w + 2) (lk_frame plain_look w h s)"
    if "3 \<le> w" "1 \<le> h" "fits_in plain_look (w - 2) (expand_tabs s)" "int (length (split s NL)) \<le> h" for w h s
  proof -
    define edge where "edge = replicate (nat (w + 2)) (CHR ''-'')"
    define body where "body = split (expand_tabs s) NL"
    define ls where "ls = edge # body @ replicate (nat h - length body) [] @ [edge]"
    have "NL \<notin> set l" if "l \<in> set ls" for l using that split_mem by (force simp: ls_def edge_def body_def)
    then have "split (lk_frame plain_look w h s) NL = ls"
      using split_join [of ls NL] by (simp add: plain_look_def Let_def ls_def edge_def body_def)
    moreover have "\<forall>l \<in> set ls. int (columns (\<lambda>_. 1) l) \<le> w + 2"
      using that(1,3) by (auto simp: ls_def edge_def body_def columns_dashes [simplified] fits_in_def plain_look_def)
    moreover have "length body = length (split s NL)" by (simp add: body_def expand_tabs_split)
    ultimately show ?thesis using that(2,4) by (simp add: fits_in_def ls_def) (simp add: plain_look_def)
  qed
  have "NL \<notin> set (expand_tabs s)" if "NL \<notin> set s" for s using that by (auto simp: expand_tabs_def split: if_splits)
  then show ?thesis
    unfolding lipgloss_blocks_def using stack frame by (auto simp: plain_look_def [THEN arg_cong [where f = lk_fill]])
qed

definition plain_panes :: panes where
  "plain_panes = \<lparr>pv_procsWidth = 0, pv_procsHeader = [], pv_procsView = [], pv_procsInput = [], pv_netWidth = 0, pv_netHeader = [],
     pv_netView = [], pv_netInput = [], pv_alertsWidth = 0, pv_alertsView = []\<rparr>"

text \<open>Without a tab, the plain look measures text as the code does.\<close>

lemma alike_plain:
  assumes "TAB \<notin> set s"
  shows "measured_alike plain_look s"
proof -
  have "TAB \<notin> set l" if "l \<in> set (split s NL)" for l
    using that assms
  proof (induction s arbitrary: l)
    case (Cons c s)
    obtain q qs where "split s NL = q # qs" by (metis list.exhaust split_Cons_not)
    then show ?case using Cons by (auto split: if_splits)
  qed simp
  moreover have "expand_tabs l = l" if "TAB \<notin> set l" for l
    using that by (induction l) (auto simp: expand_tabs_def)
  ultimately show ?thesis by (simp add: measured_alike_def plain_look_def)
qed

lemma no_tab_clamp: "TAB \<notin> set s \<Longrightarrow> TAB \<notin> set (clampToWidthOneLine rw s w)"
  using set_trunc_loop [of rw "nat w" "oneLine s"] by (auto simp: clampToWidthOneLine_def ansiSafeTruncate_def oneLine_def)

lemma set_join: "set (join ls sep) \<subseteq> set sep \<union> (\<Union>l \<in> set ls. set l)"
  by (induction ls sep rule: join.induct) auto

lemma set_split: "l \<in> set (split s b) \<Longrightarrow> set l \<subseteq> set s"
proof (induction s arbitrary: l)
  case (Cons c s)
  obtain q qs where "split s b = q # qs" by (metis list.exhaust split_Cons_not)
  then show ?case using Cons by (fastforce split: if_splits)
qed simp

lemma no_tab_box:
  assumes "TAB \<notin> set s"
  shows "TAB \<notin> set (box lk m s)"
proof -
  have cut: "set (ansiSafeTruncate rw l w) \<subseteq> set l" for rw l w
    using set_trunc_loop by (auto simp: ansiSafeTruncate_def)
  have lines: "set (join ls [NL]) \<subseteq> insert NL (set t)" if "\<And>l. l \<in> set ls \<Longrightarrow> set l \<subseteq> set t" for ls t
    using set_join [of ls "[NL]"] that by fastforce
  have clip: "set (hardClipLinesToWidth rw s w) \<subseteq> insert NL (set s)" for rw w
  proof -
    have "set l \<subseteq> set s" if "l \<in> set (map (\<lambda>l. ansiSafeTruncate rw l w) (split s NL))" for l
      using that cut set_split by fastforce
    then show ?thesis using lines [of "map (\<lambda>l. ansiSafeTruncate rw l w) (split s NL)" s]
      by (auto simp: hardClipLinesToWidth_def)
  qed
  have "set (clipHeight t n) \<subseteq> insert NL (set t)" for t n
  proof -
    have "set l \<subseteq> set t" if "l \<in> set (take (nat n) (split t NL))" for l
      using set_split [OF in_set_takeD [OF that]] .
    then show ?thesis using lines [of "take (nat n) (split t NL)" t] by (auto simp: clipHeight_def)
  qed
  then have "set (box lk m s) \<subseteq> insert NL (set s)" using clip unfolding box_def box_content_def by fast
  then show ?thesis using assms by auto
qed

definition disk_model :: Model where
  "disk_model = fresh_model\<lparr>m_w := 80, m_h := 24, m_activeTab := tabDisk\<rparr>"

lemma disk_model_fields:
  "m_w disk_model = 80" "m_h disk_model = 24" "m_activeTab disk_model = tabDisk" "m_showHelp disk_model = False"
  "m_zoom disk_model = None" "m_err disk_model = None" "m_notice disk_model = noNotice" "m_paused disk_model = False"
  "m_guards disk_model = newGuards" "m_disks disk_model = []" "m_diskIOs disk_model = []" "m_storage disk_model = []"
  "m_psi disk_model = zeroPSI" "m_procsSearching disk_model = False" "m_netSearching disk_model = False"
proof -
  have "unknownKeysNotice Default = []" by (simp add: unknownKeysNotice_def UnknownKeyNames_def Default_def Let_def)
  then show "m_notice disk_model = noNotice" by (simp add: disk_model_def fresh_model_def new_from_def)
qed (simp_all add: disk_model_def fresh_model_def new_from_def)

lemma no_tab_digits: "TAB \<notin> set (itoa i)" "TAB \<notin> set (nat_digits n)"
  using nat_digits_no [of TAB] by (auto simp: itoa_def is_digit_def)

lemma no_tab_tabs: "\<forall>t \<in> set ts. TAB \<notin> set t \<Longrightarrow> TAB \<notin> set (tabs_loop plain_look w first used ts)"
  by (induction ts arbitrary: first used) (simp_all add: Let_def, simp add: plain_look_def)

lemma disk_model_alike: "shown_alike plain_look plain_panes disk_model"
proof -
  have none: "summary e (lk_alerts plain_look) = None" for e
    by (simp add: plain_look_def summary_def active_conds_def)
  have w: "TAB \<notin> set (viewDisk plain_look disk_model)"
    unfolding viewDisk_def Let_def
    by (rule no_tab_box) (simp add: disk_model_fields psiLine_def zeroPSI_def plain_look_def ioSummary_def)
  have body: "view_body plain_look plain_panes disk_model = viewDisk plain_look disk_model"
    by (simp add: view_body_def disk_model_fields)
  have footer: "TAB \<notin> set (footer_line plain_look disk_model)"
    by (simp add: footer_line_def disk_model_fields alertBanner_def none noNotice_def footerText_def notice_get_def)
      (simp add: plain_look_def)
  have left: "TAB \<notin> set (header_left plain_look disk_model)"
    by (simp add: header_left_def disk_model_fields behindBadge_def newGuards_def isZero_def)
      (simp add: plain_look_def no_tab_digits)
  have tabs: "\<forall>t \<in> set (header_tabs plain_look disk_model). TAB \<notin> set t"
    by (simp add: header_tabs_def renderTab_def alertsTabLabel_def none) (simp add: plain_look_def)
  have "TAB \<notin> set (padTo (lk_width plain_look) k (joinTabsWithinWidth plain_look (header_tabs plain_look disk_model) k))" for k
    using no_tab_tabs [OF tabs] by (auto simp: padTo_def Let_def joinTabsWithinWidth_def)
  then have header: "TAB \<notin> set (header_line plain_look disk_model)"
    using no_tab_clamp [OF left] unfolding header_line_def Let_def by (intro no_tab_clamp) auto
  show ?thesis
    using alike_plain [OF header] alike_plain [OF w] alike_plain [OF no_tab_clamp [OF footer]] body
    by (simp add: shown_alike_def disk_model_fields minWidth_def minHeight_def)
qed

theorem screen_fits_witness:
  "\<exists>frame reset. View plain_look plain_panes disk_model = frame @ reset \<and> reset \<in> {[], RESET} \<and>
     fits_in plain_look 80 frame \<and> length (split frame NL) = 24"
  using screen_fits [OF plain_look_blocks disk_model_alike]
  by (simp add: disk_model_fields minWidth_def minHeight_def)

end
