(* ===== verification/Layout.thy ===== *)
theory Layout
  imports Frame History
begin

text \<open>
  Why nothing is cut off at the bottom of a tab: the heights the screen reserves for its scrolling panes
  are kept equal to what the fixed lines around them leave, along every run, and the fixed lines a tab
  draws are exactly as many as the arithmetic of the layout counts.
\<close>

section \<open>Reserved heights\<close>

definition fitted :: "Model \<Rightarrow> bool" where
  "fitted m \<longleftrightarrow> m_netVPHeight m = calcNetVPHeight m \<and> pp_height (m_pp m) = max 1 (bodyHeight (m_h m) - 7) \<and>
     m_alertsVPHeight m = max 1 (bodyHeight (m_h m) - 2)"

text \<open>The fields the heights depend on, and the heights.\<close>

definition fit_view where
  "fit_view m = (m_h m, m_netSnap m, m_netIfaceName m, m_iwLinks m, mo_Present (m_modem m), m_latSampler m,
     length (m_pings m), m_netVPHeight m, pp_height (m_pp m), m_alertsVPHeight m)"

lemma fit_view_fitted: "fit_view m' = fit_view m \<Longrightarrow> fitted m' = fitted m"
proof -
  assume v: "fit_view m' = fit_view m"
  then have "upIfaces m' = upIfaces m" "netIfaceIdx m' = netIfaceIdx m" by (simp_all add: fit_view_def upIfaces_def netIfaceIdx_def)
  then have "netVPOverhead m' = netVPOverhead m"
    using v by (simp add: fit_view_def netVPOverhead_def netIfaceLines_def modemLines_def latencyLines_def Let_def)
  then show ?thesis using v by (simp add: fit_view_def fitted_def calcNetVPHeight_def)
qed

named_theorems fit_simps \<open>handlers that keep every field the layout reads\<close>

lemma pane_height [simp]:
  "pp_height (ensureProcVisible sY p) = pp_height p" "pp_height (rerenderProcs sY kY p) = pp_height p"
  "pp_height (clamp_sel p) = pp_height p" "pp_height (renderProcs sY kY p) = pp_height p"
  "pp_height (refreshProcsFollow low rcap sY kY p) = pp_height p" "pp_height (move_sel k p) = pp_height p"
  "pp_height (cursor_move sY kY k p) = pp_height p" "pp_height (restart low rcap sY kY p) = pp_height p"
  by (simp_all add: ensureProcVisible_def rerenderProcs_def clamp_sel_def renderProcs_def refreshProcsFollow_def
      cursor_move_def restart_def refreshProcs_def Let_def split: option.split)
    (cases k; simp add: move_sel_def Let_def)+

lemma small_fits [fit_simps]:
  "fit_view (setNotice e s m) = fit_view m" "fit_view (setProcsNotice e s m) = fit_view m"
  "fit_view (setSysNotice e s m) = fit_view m" "fit_view (landed k m) = fit_view m"
  "fit_view (detail_notice s m) = fit_view m" "fit_view (recordTrend ks c t m) = fit_view m"
  "fit_view (fst (ask k cmd m)) = fit_view m" "fit_view (follow_procs e m) = fit_view m"
  "fit_view (ask_kill pid st n h m) = fit_view m" "fit_view (kill_selected hard m) = fit_view m"
  by (auto simp: fit_view_def setNotice_def setProcsNotice_def setSysNotice_def landed_def follow_procs_def
      detail_notice_def recordTrend_def ask_def ask_kill_def kill_selected_def case_prod_beta Let_def split: option.split)

lemma field_fits [fit_simps]:
  "fit_view (m\<lparr>m_oom := o'\<rparr>) = fit_view m" "fit_view (m\<lparr>m_klog := kl\<rparr>) = fit_view m" "fit_view (m\<lparr>m_kmsg := b\<rparr>) = fit_view m"
  "fit_view (m\<lparr>m_alerts := al\<rparr>) = fit_view m" "fit_view (m\<lparr>m_now := t\<rparr>) = fit_view m" "fit_view (m\<lparr>m_tickCount := n\<rparr>) = fit_view m"
  "fit_view (m\<lparr>m_guards := g\<rparr>) = fit_view m" "fit_view (m\<lparr>m_detail := d\<rparr>) = fit_view m" "fit_view (m\<lparr>m_psi := p\<rparr>) = fit_view m"
  "fit_view (m\<lparr>m_conns := cs\<rparr>) = fit_view m" "fit_view (m\<lparr>m_err := x\<rparr>) = fit_view m" "fit_view (m\<lparr>m_paused := b\<rparr>) = fit_view m"
  "fit_view (m\<lparr>m_showHelp := b\<rparr>) = fit_view m" "fit_view (m\<lparr>m_backlight := bl\<rparr>) = fit_view m" "fit_view (m\<lparr>m_cpuSnap := c\<rparr>) = fit_view m"
  "fit_view (m\<lparr>m_powerSnap := pw\<rparr>) = fit_view m" "fit_view (m\<lparr>m_peaks := pk\<rparr>) = fit_view m" "fit_view (m\<lparr>m_trends := tr\<rparr>) = fit_view m"
  "fit_view (m\<lparr>m_peaksReset := t\<rparr>) = fit_view m" "fit_view (m\<lparr>m_procsNotice := nt\<rparr>) = fit_view m"
  "fit_view (m\<lparr>m_procsSearch := s\<rparr>) = fit_view m" "fit_view (m\<lparr>m_netSearch := s\<rparr>) = fit_view m" "fit_view (m\<lparr>m_netQuery := s\<rparr>) = fit_view m"
  "fit_view (m\<lparr>m_connFilter := cf\<rparr>) = fit_view m" "fit_view (m\<lparr>m_zoom := z\<rparr>) = fit_view m" "fit_view (m\<lparr>m_activeTab := tb\<rparr>) = fit_view m"
  "fit_view (m\<lparr>m_procsKill := kp\<rparr>) = fit_view m" "fit_view (m\<lparr>m_procsSearching := b\<rparr>) = fit_view m"
  "fit_view (m\<lparr>m_netSearching := b\<rparr>) = fit_view m" "fit_view (m\<lparr>m_notice := nt\<rparr>) = fit_view m"
  "fit_view (m\<lparr>m_pp := (m_pp m)\<lparr>pp_yoff := y\<rparr>\<rparr>) = fit_view m" "fit_view (m\<lparr>m_pp := cursor_move sY kY k (m_pp m)\<rparr>) = fit_view m"
  by (simp_all add: fit_view_def)

lemma more_fields [fit_simps]:
  "fit_view (m\<lparr>m_peaks := pk, m_trends := tr, m_peaksReset := t\<rparr>) = fit_view m"
  "fit_view (m\<lparr>m_procsSearch := s, m_procsNotice := nt\<rparr>) = fit_view m" "fit_view (m\<lparr>m_netQuery := s, m_netSearch := s'\<rparr>) = fit_view m"
  by (simp_all add: fit_view_def)

lemma restart_fits [fit_simps]:
  "pp_height (f (m_pp m)) = pp_height (m_pp m) \<Longrightarrow> fit_view (restart_procs e f m) = fit_view m"
  by (simp add: fit_view_def restart_procs_def)

lemma data_fits [fit_simps]:
  "fit_view (on_cpu s m) = fit_view m" "fit_view (on_mem e ms m) = fit_view m" "fit_view (on_power p m) = fit_view m"
  "fit_view (on_detail e pid r m) = fit_view m" "fit_view (on_procs e err ps m) = fit_view m" "fit_view (on_disks ds ios m) = fit_view m"
  by (auto simp: on_cpu_def on_mem_def on_power_def on_detail_def on_procs_def on_disks_def fit_view_def landed_def follow_procs_def Let_def
      split: option.split)

lemma round_fits [fit_simps]:
  "fit_view (fst (handleKmsg e evs err m)) = fit_view m" "fit_view (fst (delivered e al m)) = fit_view m"
  by (auto simp: handleKmsg_def delivered_def Let_def fit_simps split: option.split)

lemma tick_fits [fit_simps]: "fit_view (fst (alert_round e t m)) = fit_view m" "fit_view (fst (on_tick e t m)) = fit_view m"
  by (simp_all add: on_tick_def alert_round_def Let_def case_prod_beta fit_simps)

lemma key_fits [fit_simps]:
  "fit_view (fst (snapshot e m)) = fit_view m" "fit_view (fst (openProcDetail m)) = fit_view m"
  "fit_view (fst (reniceDetail e st d m)) = fit_view m" "fit_view (fst (detail_signal s a st m)) = fit_view m"
  "fit_view (fst (adjustBacklight e d m)) = fit_view m" "fit_view (toggleZoom t style m) = fit_view m" "fit_view (cycleZoom d m) = fit_view m"
  by (auto simp: snapshot_def openProcDetail_def reniceDetail_def detail_signal_def adjustBacklight_def toggleZoom_def cycleZoom_def
      Let_def case_prod_beta fit_simps split: sum.split option.split)

lemma governor_fits [fit_simps]: "fit_view (fst (cycleGovernor e m)) = fit_view m"
  by (auto simp: cycleGovernor_def Let_def case_prod_beta fit_simps simp del: set_governors.simps
      split: list.split option.split)

lemma search_fits [fit_simps]: "fit_view (focus_key e key m) = fit_view m"
  by (simp add: focus_key_def proc_search_key_def net_search_key_def Let_def fit_simps)

section \<open>Every message keeps the heights\<close>

text \<open>The heights a resize alone sets.\<close>

definition panes_fitted :: "Model \<Rightarrow> bool" where
  "panes_fitted m \<longleftrightarrow> pp_height (m_pp m) = max 1 (bodyHeight (m_h m) - 7) \<and> m_alertsVPHeight m = max 1 (bodyHeight (m_h m) - 2)"

lemma fit_net_fitted: "panes_fitted m \<Longrightarrow> fitted (fit_net m)"
proof -
  have "netVPOverhead (fit_net m) = netVPOverhead m"
    by (simp add: netVPOverhead_def netIfaceLines_def modemLines_def latencyLines_def fit_net_def upIfaces_def netIfaceIdx_def Let_def)
  moreover assume "panes_fitted m"
  ultimately show ?thesis by (simp add: fitted_def panes_fitted_def calcNetVPHeight_def) (simp add: fit_net_def calcNetVPHeight_def)
qed

lemma resize_fitted: "fitted (on_resize e w h m)"
proof -
  have "fitted (follow_procs e (fit_net (m\<lparr>m_w := w, m_h := h, m_pp := (m_pp m)\<lparr>pp_height := max 1 (bodyHeight h - 7)\<rparr>,
      m_alertsVPHeight := max 1 (bodyHeight h - 2)\<rparr>)))"
    by (simp add: fit_view_fitted [OF small_fits(8)] fit_net_fitted panes_fitted_def)
  then show ?thesis by (simp add: on_resize_def Let_def)
qed

lemma fold_pane:
  "(\<And>x m. m_pp (f x m) = m_pp m \<and> m_h (f x m) = m_h m \<and> m_alertsVPHeight (f x m) = m_alertsVPHeight m) \<Longrightarrow>
    m_pp (fold f xs m) = m_pp m \<and> m_h (fold f xs m) = m_h m \<and> m_alertsVPHeight (fold f xs m) = m_alertsVPHeight m"
  by (induction xs arbitrary: m) auto

lemma sample_fitted:
  assumes "fitted m"
  shows "fitted (on_latency rs m)" "fitted (on_net s m)" "fitted (on_sys g b iw m)" "fitted (on_health st mo m)"
proof -
  have p: "panes_fitted m" using assms by (simp add: fitted_def panes_fitted_def)
  have "m_pp (fold on_ping rs m') = m_pp m' \<and> m_h (fold on_ping rs m') = m_h m' \<and>
      m_alertsVPHeight (fold on_ping rs m') = m_alertsVPHeight m'" for m'
    by (rule fold_pane) (simp add: on_ping_def Let_def)
  then show "fitted (on_latency rs m)" using p unfolding on_latency_def by (intro fit_net_fitted) (simp add: landed_def panes_fitted_def)
  have "m_pp (fold on_iface xs m') = m_pp m' \<and> m_h (fold on_iface xs m') = m_h m' \<and>
      m_alertsVPHeight (fold on_iface xs m') = m_alertsVPHeight m'" for xs m'
    by (rule fold_pane) (simp add: on_iface_def)
  then show "fitted (on_net s m)"
    using p unfolding on_net_def Let_def by (intro fit_net_fitted) (simp add: evictIfaceHistory_def landed_def panes_fitted_def Let_def)
  show "fitted (on_sys g b iw m)" using p unfolding on_sys_def by (intro fit_net_fitted) (simp add: landed_def panes_fitted_def)
  let ?m = "(landed fetchHealth m)\<lparr>m_storage := st, m_modem := mo\<rparr>"
  have "fitted ?m" if "mo_Present (m_modem m) = mo_Present mo"
    using assms that fit_view_fitted [of ?m m] by (simp add: fit_view_def landed_def)
  moreover have "fitted (fit_net ?m)" using p by (intro fit_net_fitted) (simp add: landed_def panes_fitted_def)
  ultimately show "fitted (on_health st mo m)" by (simp add: on_health_def Let_def)
qed

lemma no_iface: "iface_index [] name < 0"
  by simp

lemma iface_fitted: "fitted m \<Longrightarrow> fitted (moveIfaceSel d m)"
proof (cases "upIfaces m = []")
  case True
  assume "fitted m"
  then show ?thesis
    using True by (simp add: moveIfaceSel_def fitted_def calcNetVPHeight_def netVPOverhead_def netIfaceLines_def netIfaceIdx_def
      upIfaces_def modemLines_def latencyLines_def Let_def)
next
  case False
  assume "fitted m"
  then have "fitted (fit_net (m\<lparr>m_netIfaceName := name\<rparr>))" for name by (intro fit_net_fitted) (simp add: fitted_def panes_fitted_def)
  then show ?thesis using False by (simp add: moveIfaceSel_def Let_def)
qed

lemma fitted_same: "fitted m' \<Longrightarrow> fitted (fst (m', acts))"
  by simp

lemmas fitted_views = small_fits [THEN fit_view_fitted] field_fits [THEN fit_view_fitted] key_fits [THEN fit_view_fitted]
  governor_fits [THEN fit_view_fitted] search_fits [THEN fit_view_fitted] restart_fits [THEN fit_view_fitted]
  data_fits [THEN fit_view_fitted] round_fits [THEN fit_view_fitted] tick_fits [THEN fit_view_fitted]

lemma key_handlers [fit_simps]:
  "fit_view (fst (on_kill_key e kp key m)) = fit_view m" "fit_view (fst (on_zoom_key e key m)) = fit_view m"
  "fit_view (fst (updateProcDetail e st key m)) = fit_view m"
  by (auto simp: on_kill_key_def on_zoom_key_def updateProcDetail_def Let_def case_prod_beta fit_simps split: option.split)

lemmas fit_map_intros = map_branch [where P = "\<lambda>r. fitted (fst r)"]

lemma proc_key_fits: "fitted m \<Longrightarrow> map_post (\<lambda>r. fitted (fst r)) (proc_key e key m)"
  unfolding proc_key_def by (intro fit_map_intros) (simp_all add: fitted_views more_fields [THEN fit_view_fitted])

lemma net_key_fits: "fitted m \<Longrightarrow> map_post (\<lambda>r. fitted (fst r)) (net_key key m)"
  unfolding net_key_def by (intro fit_map_intros fitted_same iface_fitted) (simp_all add: fitted_views)

lemma alerts_key_fits: "fitted m \<Longrightarrow> map_post (\<lambda>r. fitted (fst r)) (alerts_key e key m)"
  unfolding alerts_key_def Let_def by (intro fit_map_intros) (simp_all add: fitted_views)

lemma tab_key_fits: "fitted m \<Longrightarrow> map_post (\<lambda>r. fitted (fst r)) (tab_key e key m)"
  by (rule tab_key_post) (simp_all add: proc_key_fits net_key_fits alerts_key_fits fitted_views)

lemma global_key_fits: "fitted m \<Longrightarrow> map_post (\<lambda>r. fitted (fst r)) (global_key e key m)"
  unfolding global_key_def Let_def by (intro fit_map_intros tab_key_fits) (simp_all add: fitted_views more_fields [THEN fit_view_fitted])

lemma key_fitted: "fitted m \<Longrightarrow> fitted (fst (on_key e key m))"
  by (rule on_key_post) (simp_all add: global_key_fits fitted_views key_handlers [THEN fit_view_fitted])

lemma step_fitted: "fitted m \<Longrightarrow> fitted (fst (Update e msg m))"
  by (cases msg) (simp_all add: Let_def resize_fitted sample_fitted key_fitted fitted_views)

lemma run_fitted: "fitted m \<Longrightarrow> fitted (run steps m)"
proof (induction steps arbitrary: m)
  case (Cons step steps)
  then show ?case using step_fitted by (cases step) (simp del: Update.simps)
qed simp

lemma sized_fitted: "fitted (run (pre @ (e, WindowSizeMsg w h) # post) m)"
  by (simp add: run_append run_fitted resize_fitted)

section \<open>Counting lines\<close>

text \<open>A style makes one line of one line, and so does upper case.\<close>

definition line_styles :: "look \<Rightarrow> bool" where
  "line_styles lk \<longleftrightarrow>
     (\<forall>s. NL \<notin> set s \<longrightarrow>
        NL \<notin> set (lk_title lk s) \<and> NL \<notin> set (lk_subtle lk s) \<and> NL \<notin> set (lk_ok lk s) \<and> NL \<notin> set (lk_warn lk s) \<and>
        NL \<notin> set (lk_err lk s) \<and> NL \<notin> set (lk_upper lk s) \<and> (\<forall>c. NL \<notin> set (lk_paint lk c s)))"

lemma newlines_simps [simp]:
  "newlines [] = 0" "newlines (c # s) = (if c = NL then 1 else 0) + newlines s" "newlines (s @ t) = newlines s + newlines t"
  by (simp_all add: newlines_def)

lemma newlines_flat [simp]: "NL \<notin> set s \<Longrightarrow> newlines s = 0"
  by (auto simp: newlines_def filter_empty_conv)

lemma length_split: "length (split s NL) = newlines s + 1"
  by (induction s) (auto split: list.splits)

lemma newlines_rows: "\<forall>x \<in> set xs. newlines (f x) = k \<Longrightarrow> newlines (concat (map f xs)) = k * length xs"
  by (induction xs) auto

lemma plain_flat [simp]: "plain s \<Longrightarrow> NL \<notin> set s"
  by (auto simp: plain_list)

lemma flat_cells [simp]:
  "NL \<in> set (padRight s n) \<longleftrightarrow> NL \<in> set s" "NL \<in> set (spaces k) \<longleftrightarrow> False"
  by (auto simp: padRight_def spaces_def Let_def)

lemma ascii_rune: "r \<in> set (runes s) \<Longrightarrow> r < 0x80 \<Longrightarrow> char_of r \<in> set s"
proof (induction s rule: runes.induct)
  case (1 s)
  obtain q n where d: "decodeRune s = (q, n)" by fastforce
  have "s \<noteq> []" using 1 by auto
  have "char_of q \<in> set s" if "q < 0x80"
  proof -
    have "encodeRune q = take n s" using encode_decode [OF d \<open>s \<noteq> []\<close>] that by auto
    then have "take n s = [char_of q]" using that by (simp add: encodeRune_def)
    then show ?thesis by (metis in_set_takeD list.set_intros(1))
  qed
  moreover have "r = q \<or> r \<in> set (runes (drop n s))" using \<open>s \<noteq> []\<close> 1(2) d by (simp add: runes.simps [of s])
  ultimately show ?case using 1(1) [OF \<open>s \<noteq> []\<close> d [symmetric] refl] 1(3) in_set_dropD by auto
qed

lemma flat_trunc [simp]: "NL \<notin> set s \<Longrightarrow> NL \<notin> set (trunc_s s n)"
proof -
  assume "NL \<notin> set s"
  have "NL \<notin> set (encodeRune r)" if "r \<in> set (runes s)" for r
  proof
    assume nl: "NL \<in> set (encodeRune r)"
    then have "r = 10" using encodeRune_bytes [of NL r] by (auto simp: encodeRune_def split: if_splits)
    then have "char_of (10 :: nat) \<in> set s" using ascii_rune [OF that] by simp
    then show False using \<open>NL \<notin> set s\<close> by (simp add: char_of_def bit_0)
  qed
  then show ?thesis using \<open>NL \<notin> set s\<close> by (auto simp: trunc_s_def encode_def dest: in_set_takeD)
qed

lemma flat_join [simp]: "(\<And>s. s \<in> set ss \<Longrightarrow> NL \<notin> set s) \<Longrightarrow> NL \<notin> set sep \<Longrightarrow> NL \<notin> set (join ss sep)"
  by (induction ss sep rule: join.induct) auto

lemma flat_block [simp]: "i \<le> 7 \<Longrightarrow> NL \<notin> set (block i)"
proof -
  assume "i \<le> 7"
  then have "code (char_of (0x81 + i)) \<noteq> code NL" by simp
  then have "char_of (0x81 + i) \<noteq> NL" by metis
  then show ?thesis by (auto simp: block_def)
qed

lemma flat_spark [simp]: "NL \<notin> set (Spark arch vs n)" "NL \<notin> set (SparkPct arch vs n)"
proof -
  have r: "NL \<notin> set (renderSpark arch vs w lo hi)" for vs w lo hi
    using flat_block [OF spark_level_bound] by (auto simp: renderSpark_def)
  have "NL \<notin> set (concat (replicate k (block 0)))" for k using flat_block [of 0] by auto
  then show "NL \<notin> set (Spark arch vs n)" for n vs using r by (auto simp: Spark_def Let_def)
  then show "NL \<notin> set (SparkPct arch vs n)" using r by (auto simp: SparkPct_def SparkRange_def)
qed

lemma flat_rule [simp]: "NL \<notin> set (rule n)"
  by (auto simp: rule_def)

lemma flat_bar [simp]: "line_styles lk \<Longrightarrow> NL \<notin> set (RenderBar arch (lk_paint lk) pct n color)"
  by (auto simp: RenderBar_def line_styles_def Let_def)

lemma flat_styles [simp]:
  assumes "line_styles lk" "NL \<notin> set s"
  shows "NL \<notin> set (lk_title lk s)" "NL \<notin> set (lk_subtle lk s)" "NL \<notin> set (lk_ok lk s)" "NL \<notin> set (lk_warn lk s)"
    "NL \<notin> set (lk_err lk s)" "NL \<notin> set (lk_upper lk s)" "NL \<notin> set (lk_paint lk c s)"
  using assms by (simp_all add: line_styles_def)

section \<open>The network tab\<close>

text \<open>No name among the readings of the tab holds a newline, and neither does a search line.\<close>

definition flat_net :: "panes \<Rightarrow> Model \<Rightarrow> bool" where
  "flat_net pv m \<longleftrightarrow>
     (\<forall>i \<in> set (ns_Ifaces (m_netSnap m)). NL \<notin> set (if_Name i) \<and> (\<forall>a \<in> set (if_Addrs i). NL \<notin> set a)) \<and>
     (\<forall>l \<in> ran (m_iwLinks m). NL \<notin> set (iw_SSID l)) \<and>
     NL \<notin> set (mo_State (m_modem m)) \<and> NL \<notin> set (mo_Operator (m_modem m)) \<and> NL \<notin> set (mo_AccessTech (m_modem m)) \<and>
     NL \<notin> set (mo_FailedReason (m_modem m)) \<and>
     (\<forall>r \<in> set (m_pings m). NL \<notin> set (pr_Target r) \<and> NL \<notin> set (pr_Addr r) \<and> NL \<notin> set (pr_Method r)) \<and>
     NL \<notin> set (m_netQuery m) \<and> NL \<notin> set (pv_netInput pv)"

lemma iface_row_lines:
  assumes [simp]: "line_styles lk" "NL \<notin> set (if_Name i)" "\<forall>a \<in> set (if_Addrs i). NL \<notin> set a"
  shows "newlines (iface_row lk selected i) = 1"
  by (auto simp: iface_row_def wifiSummary_def ifaceErrTag_def Let_def split: list.split)

lemma link_details_flat: "NL \<notin> set (iw_SSID l) \<Longrightarrow> s \<in> set (link_details l) \<Longrightarrow> NL \<notin> set s"
  by (auto simp: link_details_def Let_def split: if_splits)

lemma iface_details_lines:
  assumes [simp]: "line_styles lk" and "\<forall>l \<in> ran (m_iwLinks m). NL \<notin> set (iw_SSID l)"
  shows "newlines (iface_details lk m w i) =
    2 + (if wf_Present (if_WiFi i) then 1 + (if m_iwLinks m (if_Name i) \<noteq> None then 1 else 0) else 0)"
proof -
  have [simp]: "NL \<notin> set (join (link_details l) sep)" if "m_iwLinks m (if_Name i) = Some l" "NL \<notin> set sep" for l sep
  proof (rule flat_join)
    show "NL \<notin> set s" if "s \<in> set (link_details l)" for s
      by (rule link_details_flat [OF _ that]) (use assms(2) \<open>m_iwLinks m (if_Name i) = Some l\<close> in \<open>auto simp: ran_def\<close>)
  qed fact
  show ?thesis by (cases "m_iwLinks m (if_Name i)") (simp_all add: iface_details_def Let_def)
qed

lemma modem_line_flat:
  assumes [simp]: "line_styles lk" "NL \<notin> set (mo_State mi)" "NL \<notin> set (mo_Operator mi)" "NL \<notin> set (mo_AccessTech mi)"
    "NL \<notin> set (mo_FailedReason mi)"
  shows "NL \<notin> set (modemLine lk mi)"
proof -
  define det where "det = (if mo_Operator mi \<noteq> [] then [mo_Operator mi] else []) @
      (if mo_AccessTech mi \<noteq> [] then [lk_upper lk (mo_AccessTech mi)] else []) @
      (if mo_SignalPct mi \<ge> 0 then [itoa (mo_SignalPct mi) @ ''%''] else []) @
      (if mo_HasRSSI mi then [fmt_f 0 (mo_RSSIdBm mi) @ '' dBm''] else []) @
      (if mo_FailedReason mi \<noteq> [] then [''reason: '' @ mo_FailedReason mi] else [])"
  have [simp]: "NL \<notin> set sep \<Longrightarrow> NL \<notin> set (join det sep)" for sep by (rule flat_join) (auto simp: det_def split: if_splits)
  show ?thesis unfolding modemLine_def det_def [symmetric] Let_def by auto
qed

lemma ping_row_lines:
  assumes [simp]: "line_styles lk" "NL \<notin> set (pr_Target r)" "NL \<notin> set (pr_Addr r)" "NL \<notin> set (pr_Method r)"
  shows "newlines (ping_row lk m r) = 1"
proof -
  have [simp]: "NL \<notin> set (if b then lk_paint lk c s else lk_err lk t)" if "NL \<notin> set s" "NL \<notin> set t" for b c s t
    using that by simp
  have [simp]: "NL \<notin> set (case o' of Some win \<Rightarrow> if win \<noteq> [] then lk_paint lk (c win) (''loss '' @ fmt_f 0 (lossPct win) @ ''%'') @
      lk_subtle lk (''/'' @ nat_digits (length win)) else [] | None \<Rightarrow> [])" for o' c
    by (cases o') simp_all
  show ?thesis unfolding ping_row_def Let_def newlines_simps by simp
qed

lemma conn_line_flat:
  assumes [simp]: "line_styles lk"
  shows "NL \<notin> set (connSummaryLine lk m)"
  by (cases "m_connFilter m") (auto simp: connSummaryLine_def connState_string_def Let_def)

lemma filter_line_flat: "line_styles lk \<Longrightarrow> NL \<notin> set q \<Longrightarrow> NL \<notin> set (filter_line lk q)"
  by (simp add: filter_line_def)

lemma ifaces_lines:
  assumes [simp]: "line_styles lk" and names: "flat_net pv m"
  shows "int (newlines (net_ifaces lk m)) = netIfaceLines m"
proof (cases "isZero (ns_TakenAt (m_netSnap m))")
  case True
  then show ?thesis by (simp add: net_ifaces_def netIfaceLines_def)
next
  case False
  let ?up = "upIfaces m" and ?w = "min 25 (boxWidth (m_w m) sdiv 4)"
  have up: "newlines (iface_row lk b i) = 1" if "i \<in> set ?up" for b i
    using that names by (intro iface_row_lines) (auto simp: flat_net_def upIfaces_def)
  define extra :: "IfaceInfo \<Rightarrow> nat" where "extra i = (if wf_Present (if_WiFi i) then 1 + (if m_iwLinks m (if_Name i) \<noteq> None then 1 else 0) else 0)" for i
  have details: "newlines (iface_details lk m ?w i) = 2 + extra i" for i
    unfolding extra_def by (rule iface_details_lines) (use names in \<open>simp_all add: flat_net_def\<close>)
  have rows: "newlines (concat (map (\<lambda>(j, i). let selected = (int j = k) in iface_row lk selected i @
        (if selected then iface_details lk m ?w i else [])) (enumerate n is))) =
      length is + (if int n \<le> k \<and> k < int (n + length is) then 2 + extra (is ! nat (k - int n)) else 0)"
    if "\<forall>i \<in> set is. \<forall>b. newlines (iface_row lk b i) = 1" for k n "is"
    using that
  proof (induction "is" arbitrary: n)
    case (Cons i "is")
    have "nat (k - int n) = Suc (nat (k - int (Suc n)))" if "int (Suc n) \<le> k" using that by simp
    then show ?case using Cons by (auto simp: details Let_def)
  qed simp
  have bound: "netIfaceIdx m < int (length ?up)"
  proof -
    have "iface_index is name < int (length is)" for "is" name by (induction "is") (auto simp: Let_def)
    then show ?thesis by (simp add: netIfaceIdx_def)
  qed
  have "newlines (net_ifaces lk m) = 2 + (length ?up + (if 0 \<le> netIfaceIdx m then 2 + extra (?up ! nat (netIfaceIdx m)) else 0)) + 1"
    using False bound rows [of ?up "netIfaceIdx m" 0] up by (simp add: net_ifaces_def Let_def)
  then show ?thesis using False by (simp add: netIfaceLines_def extra_def Let_def)
qed

lemma fixed_lines:
  assumes [simp]: "line_styles lk" and names: "flat_net pv m" and header: "pv_netHeader pv = buildNetHeader pv"
  shows "int (newlines (net_fixed lk pv m)) = netVPOverhead m"
proof -
  have "newlines (concat (map (ping_row lk m) (m_pings m))) = 1 * length (m_pings m)"
    by (rule newlines_rows) (use names in \<open>simp add: flat_net_def ping_row_lines\<close>)
  then have ping: "int (newlines (renderLatency lk m)) = (let n = int (length (m_pings m)) in if n = 0 then 1 else n) + 1"
    by (simp add: renderLatency_def Let_def)
  have modem: "NL \<notin> set (modemLine lk (m_modem m))"
    by (rule modem_line_flat) (use names in \<open>simp_all add: flat_net_def\<close>)
  have search: "NL \<notin> set (net_search_line lk pv m)"
    using names by (simp add: net_search_line_def filter_line_flat flat_net_def)
  have "newlines (pv_netHeader pv) = 1" by (simp add: header buildNetHeader_def Let_def)
  then show ?thesis
    using ifaces_lines [OF assms(1,2)] ping modem search conn_line_flat [OF assms(1)]
    by (simp add: net_fixed_def netVPOverhead_def modemLines_def latencyLines_def)
qed

lemma procs_lines:
  assumes [simp]: "line_styles lk" and header: "pv_procsHeader pv = buildProcsHeader lk pv m"
  shows "newlines (procs_content lk pv m) = 7 + newlines (pv_procsView pv)"
proof -
  have "NL \<notin> set (procs_selected lk n m)" for n
    using clamped_line(1) by (auto simp: procs_selected_def Let_def split: option.split)
  moreover have "newlines (buildProcsHeader lk pv m) = 3"
    by (cases "pp_sort (m_pp m)") (simp_all add: buildProcsHeader_def procSort_string_def Let_def)
  ultimately show ?thesis using header clamped_line(1) by (simp add: procs_content_def Let_def)
qed

lemma alerts_lines:
  assumes [simp]: "line_styles lk"
  shows "newlines (alerts_content lk pv m) = 2 + newlines (pv_alertsView pv)"
  by (simp add: alerts_content_def Let_def)

text \<open>A box filled with a text of at least least lines: the text has a line for every row of the box, or its least number if
  the box has fewer rows; and if it has not, the box shows every line of the text, cut at most to the width.\<close>

definition filled :: "look \<Rightarrow> Model \<Rightarrow> string \<Rightarrow> string \<Rightarrow> int \<Rightarrow> bool" where
  "filled lk m drawn content least \<longleftrightarrow>
     int (length (split content NL)) = max (bodyHeight (m_h m)) least \<and>
     (least \<le> bodyHeight (m_h m) \<longrightarrow>
        split drawn NL = map (trunc_loop (lk_rw lk) (nat (max 1 (boxWidth (m_w m) - 2)))) (split content NL))"

lemma box_filled:
  assumes "int (newlines content) + 1 = max (bodyHeight (m_h m)) least"
  shows "filled lk m (box lk m content) content least"
proof -
  have "0 < bodyHeight (m_h m)" by (simp add: bodyHeight_def)
  then have "split (box lk m content) NL =
      take (nat (bodyHeight (m_h m))) (map (trunc_loop (lk_rw lk) (nat (max 1 (boxWidth (m_w m) - 2)))) (split content NL))"
    unfolding box_def box_content_def by (simp add: clipHeight_lines clipped_lines)
  then show ?thesis using assms by (auto simp: filled_def length_split)
qed

text \<open>C9: The three scrolling tabs fill their box. After a resize, whatever messages follow - samples, links that come and go,
  a modem appearing, interfaces selected or gone - the fixed lines of the network, the processes and the alerts tab and
  the pane below them are together exactly as many lines as the box has rows, and all of them are drawn, whenever the
  fixed lines and the pane's least height (three rows, one and one) fit in the box; in a shorter box they are the fixed
  lines and the least pane.\<close>

theorem tabs_fill_box:
  assumes "m = run (pre @ (e, WindowSizeMsg w h) # post) m0" "line_styles lk" "flat_net pv m"
    "pv_netHeader pv = buildNetHeader pv" "int (newlines (pv_netView pv)) + 1 = m_netVPHeight m"
    "pv_procsHeader pv = buildProcsHeader lk pv m" "int (newlines (pv_procsView pv)) + 1 = pp_height (m_pp m)"
    "int (newlines (pv_alertsView pv)) + 1 = m_alertsVPHeight m" "AlertsEnabled (m_cfg m)"
  shows "filled lk m (viewNet lk pv m) (net_fixed lk pv m @ pv_netView pv) (netVPOverhead m + 3) \<and>
    filled lk m (viewProcs lk pv m) (procs_content lk pv m) 8 \<and>
    filled lk m (viewAlerts lk pv m) (alerts_content lk pv m) 3"
proof -
  have "fitted m" unfolding assms(1) by (rule sized_fitted)
  then show ?thesis
    using fixed_lines [OF assms(2-4)] procs_lines [OF assms(2,6)] alerts_lines [OF assms(2)] assms(5,7-9)
    unfolding viewNet_def viewProcs_def viewAlerts_def
    by (auto intro!: box_filled simp: fitted_def calcNetVPHeight_def max_def split: if_splits)
qed

definition sized_model :: Model where
  "sized_model = run [(quiet_env, WindowSizeMsg 80 24)] fresh_model"

definition sized_panes :: panes where
  "sized_panes = plain_panes\<lparr>pv_netHeader := buildNetHeader plain_panes, pv_netView := replicate (nat (m_netVPHeight sized_model - 1)) NL,
     pv_procsHeader := buildProcsHeader plain_look plain_panes sized_model,
     pv_procsView := replicate (nat (pp_height (m_pp sized_model) - 1)) NL,
     pv_alertsView := replicate (nat (m_alertsVPHeight sized_model - 1)) NL\<rparr>"

lemma sized_fields:
  "m_netSnap sized_model = zeroNet" "m_modem sized_model = noModem" "m_iwLinks sized_model = Map.empty" "m_pings sized_model = []"
  "m_netQuery sized_model = []" "m_cfg sized_model = Default"
  "1 \<le> pp_height (m_pp sized_model)" "3 \<le> m_netVPHeight sized_model" "1 \<le> m_alertsVPHeight sized_model"
  using resize_fitted [of quiet_env 80 24 fresh_model]
  by (simp_all add: sized_model_def fitted_def calcNetVPHeight_def)
    (simp_all add: on_resize_def follow_procs_def fit_net_def fresh_model_def new_from_def Let_def)

theorem tabs_fill_box_witness:
  "filled plain_look sized_model (viewNet plain_look sized_panes sized_model)
     (net_fixed plain_look sized_panes sized_model @ pv_netView sized_panes) (netVPOverhead sized_model + 3) \<and>
   filled plain_look sized_model (viewProcs plain_look sized_panes sized_model) (procs_content plain_look sized_panes sized_model) 8 \<and>
   filled plain_look sized_model (viewAlerts plain_look sized_panes sized_model) (alerts_content plain_look sized_panes sized_model) 3"
proof (rule tabs_fill_box [of sized_model "[]" quiet_env 80 24 "[]" fresh_model])
  have reps: "newlines (replicate n NL) = n" for n by (induction n) simp_all
  show "int (newlines (pv_netView sized_panes)) + 1 = m_netVPHeight sized_model"
    "int (newlines (pv_procsView sized_panes)) + 1 = pp_height (m_pp sized_model)"
    "int (newlines (pv_alertsView sized_panes)) + 1 = m_alertsVPHeight sized_model"
    using sized_fields by (simp_all add: sized_panes_def reps)
  show "flat_net sized_panes sized_model"
    by (simp add: flat_net_def sized_fields) (simp add: zeroNet_def noModem_def sized_panes_def plain_panes_def)
  show "AlertsEnabled (m_cfg sized_model)" by (simp add: sized_fields Default_def)
qed (simp_all add: sized_model_def line_styles_def plain_look_def sized_panes_def buildNetHeader_def netCols_def buildProcsHeader_def plain_panes_def)

section \<open>The CPU tab\<close>

text \<open>Text made of whole lines.\<close>

definition whole :: "string \<Rightarrow> bool" where
  "whole s \<longleftrightarrow> s = [] \<or> last s = NL"

lemma whole_simps:
  "whole []" "whole (c # s) \<longleftrightarrow> (if s = [] then c = NL else whole s)" "whole (s @ t) \<longleftrightarrow> (if t = [] then whole s else whole t)"
  by (auto simp: whole_def)

lemma whole_rows: "(\<And>x. x \<in> set xs \<Longrightarrow> whole (f x)) \<Longrightarrow> whole (concat (map f xs))"
  by (induction xs) (simp_all add: whole_simps)

lemma whole_split: "whole s \<Longrightarrow> s \<noteq> [] \<Longrightarrow> \<exists>s'. s = s' @ [NL] \<and> newlines s' + 1 = newlines s \<and> butlast (split s NL) = split s' NL"
  using split_at [of _ NL "[]"] by (cases s rule: rev_cases) (auto simp: whole_def)

text \<open>The lines of a part of the text that ends inside the box are all in it.\<close>

lemma shown_part:
  assumes "whole a" "whole t" "t \<noteq> []" "newlines (a @ t) \<le> n"
  shows "set (butlast (split t NL)) \<subseteq> set (take n (split (a @ t @ b) NL))"
proof -
  obtain t' where t: "t = t' @ [NL]" "newlines t' + 1 = newlines t" "butlast (split t NL) = split t' NL"
    using whole_split [OF assms(2,3)] by blast
  have "\<exists>as. split (a @ t @ b) NL = as @ split t' NL @ split b NL \<and> length as = newlines a"
  proof (cases "a = []")
    case False
    then obtain a' where "a = a' @ [NL]" "newlines a' + 1 = newlines a" using whole_split [OF assms(1)] by blast
    then show ?thesis by (simp add: t(1) split_at length_split)
  qed (simp add: t(1) split_at)
  then obtain as where as: "split (a @ t @ b) NL = as @ split t' NL @ split b NL" "length as = newlines a" by blast
  have "length as + length (split t' NL) \<le> n" using assms(4) as(2) t(2) by (simp add: length_split)
  then show ?thesis using as(1) t(3) by auto
qed

lemma cpu_parts_whole:
  "whole (cpu_host lk m)" "whole (cpu_top lk m level)" "whole (cpu_cores lk m level)" "whole (cpu_temps lk m)" "cpu_temps lk m \<noteq> []"
proof -
  show "whole (cpu_host lk m)" by (simp add: cpu_host_def whole_simps)
  have if_whole: "whole (if b then s else t) \<longleftrightarrow> (if b then whole s else whole t)" for b s t by simp
  show "whole (cpu_cores lk m level)"
    unfolding cpu_cores_def Let_def if_whole by (simp only: whole_simps append_is_Nil_conv list.distinct simp_thms if_True if_False if_cancel)
  have "whole (concat (map (temp_row lk m) ts))" for ts by (rule whole_rows) (simp add: temp_row_def whole_simps Let_def)
  then show "whole (cpu_temps lk m)" by (simp add: cpu_temps_def whole_simps Let_def)
  show "cpu_temps lk m \<noteq> []" by (simp add: cpu_temps_def Let_def)
  have "whole (cpu_freqs lk m level)" by (simp add: cpu_freqs_def whole_simps Let_def)
  then show "whole (cpu_top lk m level)" by (simp add: cpu_top_def whole_simps Let_def)
qed

text \<open>C25: The CPU tab is folded only as far as it has to be, and its temperatures are never what is cut off: the level
  drawn is the first whose lines fit, the last one if none does; and as long as the lines above the temperatures
  and the temperatures fit without the cores, every temperature line is on screen, cut at most to the width.\<close>

theorem cpu_temps_shown:
  assumes "minWidth \<le> m_w m" "\<not> isZero (cs_TakenAt (m_cpuSnap m))"
    "int (newlines (cpu_host lk m @ cpu_top lk m 3 @ cpu_temps lk m)) \<le> bodyHeight (m_h m)"
  shows "(\<forall>l < cpu_level lk m. int (newlines (cpuBody lk m l)) > bodyHeight (m_h m)) \<and>
    (cpu_level lk m < 3 \<longrightarrow> int (newlines (cpuBody lk m (cpu_level lk m))) \<le> bodyHeight (m_h m)) \<and>
    trunc_loop (lk_rw lk) (nat (boxWidth (m_w m) - 2)) ` set (butlast (split (cpu_temps lk m) NL)) \<subseteq> set (split (viewCPU lk m) NL)"
proof -
  let ?fits = "\<lambda>l. int (newlines (cpuBody lk m l)) \<le> bodyHeight (m_h m)" and ?l = "cpu_level lk m"
  have level: "\<forall>l < ?l. \<not> ?fits l" "?l < 3 \<longrightarrow> ?fits ?l" "?l \<le> 3"
    by (auto simp: cpu_level_def cpuCompactLevels_def upt_conv_Cons numeral_eq_Suc less_Suc_eq)
  define n where "n = nat (bodyHeight (m_h m))"
  have view: "split (viewCPU lk m) NL = take n (map (trunc_loop (lk_rw lk) (nat (boxWidth (m_w m) - 2))) (split (cpuBody lk m ?l) NL))"
    using assms(1) clipHeight_lines clipped_lines
    by (simp add: viewCPU_def box_def box_content_def n_def boxWidth_def minWidth_def bodyHeight_def Let_def)
  have "set (butlast (split (cpu_temps lk m) NL)) \<subseteq> set (take n (split (cpuBody lk m ?l) NL))"
  proof (cases "?l < 3")
    case True
    then have "cpuBody lk m ?l = (cpu_host lk m @ cpu_top lk m ?l @ cpu_cores lk m ?l) @ cpu_temps lk m @ []"
      using assms(2) by (simp add: cpuBody_def)
    moreover have "newlines (cpuBody lk m ?l) \<le> n" using level(2) True by (simp add: n_def nat_le_iff)
    ultimately show ?thesis using shown_part [of "cpu_host lk m @ cpu_top lk m ?l @ cpu_cores lk m ?l" "cpu_temps lk m" n "[]"]
      by (simp add: whole_simps cpu_parts_whole)
  next
    case False
    then have l: "?l = 3" using level(3) by simp
    have "cpuBody lk m 3 = (cpu_host lk m @ cpu_top lk m 3) @ cpu_temps lk m @ [NL] @ cpu_cores lk m 3"
      using assms(2) by (simp add: cpuBody_def)
    moreover have "newlines ((cpu_host lk m @ cpu_top lk m 3) @ cpu_temps lk m) \<le> n" using assms(3) by (simp add: n_def)
    ultimately show ?thesis unfolding l
      using shown_part [of "cpu_host lk m @ cpu_top lk m 3" "cpu_temps lk m" n "[NL] @ cpu_cores lk m 3"]
      by (simp add: whole_simps cpu_parts_whole)
  qed
  then have "trunc_loop (lk_rw lk) (nat (boxWidth (m_w m) - 2)) ` set (butlast (split (cpu_temps lk m) NL)) \<subseteq> set (split (viewCPU lk m) NL)"
    unfolding view take_map by auto
  with level(1,2) show ?thesis by (simp add: not_le)
qed

definition warm_model :: Model where
  "warm_model = fresh_model\<lparr>m_w := 80, m_h := 24,
     m_cpuSnap := zeroCPU\<lparr>cs_TakenAt := 1, cs_Temperatures := [\<lparr>tr_Label = ''cpu'', tr_Temp = 50\<rparr>]\<rparr>\<rparr>"

lemma warm_fields:
  "m_w warm_model = 80" "m_h warm_model = 24" "cs_TakenAt (m_cpuSnap warm_model) = 1" "cs_Freqs (m_cpuSnap warm_model) = []"
  "cs_Temperatures (m_cpuSnap warm_model) = [\<lparr>tr_Label = ''cpu'', tr_Temp = 50\<rparr>]" "\<not> cb_Valid (cs_Breakdown (m_cpuSnap warm_model))"
  "ns_Hostname (m_netSnap warm_model) = []" "ld_CPUCount (pw_Load (m_powerSnap warm_model)) = 0" "\<not> ps_Present (m_psi warm_model)"
  "m_peaks warm_model = newSessionPeaks"
  by (simp_all add: warm_model_def fresh_model_def new_from_def zeroCPU_def noBreakdown_def zeroNet_def zeroPower_def zeroPSI_def)

theorem cpu_temps_shown_witness:
  "trunc_loop (lk_rw plain_look) 76 ` set (butlast (split (cpu_temps plain_look warm_model) NL)) \<subseteq>
     set (split (viewCPU plain_look warm_model) NL)"
proof -
  have [simp]: "line_styles plain_look" by (simp add: line_styles_def plain_look_def)
  have look: "NL \<notin> set (lk_stamp plain_look t)" for t by (simp add: plain_look_def)
  have bar: "NL \<notin> set (RenderBarWithLabel arch (lk_paint plain_look) [] x k)" for arch x k
    by (simp add: RenderBarWithLabel_def Let_def)
  have "int (newlines (cpu_host plain_look warm_model @ cpu_top plain_look warm_model 3 @ cpu_temps plain_look warm_model)) \<le>
      bodyHeight (m_h warm_model)"
    by (simp add: cpu_host_def cpu_top_def cpu_temps_def cpu_freqs_def temp_row_def psiLine_def warm_fields look bar tempSummary_def
      newSessionPeaks_def bodyHeight_def headerH_def footerH_def Let_def)
  then show ?thesis
    using cpu_temps_shown [of warm_model plain_look] by (simp add: warm_fields minWidth_def isZero_def zeroTime_def boxWidth_def)
qed

end
