(* ===== verification/Doctor.thy ===== *)
theory Doctor
  imports Text_Fmt
begin

text \<open>
  The capability report (\<open>internal/ui/doctor.go\<close>, with the list of checks of
  \<open>internal/probe/capability.go\<close> and the check of the kernel log of \<open>internal/probe/kmsg.go\<close>) and the check
  of a configuration file (\<open>internal/ui/config_check.go\<close>). The version and the texts of the errors of the
  operating system are arguments.
\<close>

section \<open>Opening the kernel log\<close>

text \<open>
  The calls on the log: \<open>seekErr\<close> tells a descriptor that cannot seek from any other failure. Beside its result
  \<open>OpenKmsgAt\<close> says whether it left a descriptor open. A watcher starts with nothing carried over.
\<close>

datatype seekErr = ESPIPE | SeekFailed sockErr

record pathErr =
  pe_Op :: string
  pe_Path :: string
  pe_Err :: sockErr

definition pathErr_text :: "pathErr \<Rightarrow> string" where
  "pathErr_text e = pe_Op e @ '' '' @ pe_Path e @ '': '' @ sockErr_text (pe_Err e)"

record kmsg_file =
  kf_open :: "sockErr option"
  kf_seek :: "seekErr option"

definition OpenKmsgAt :: "kmsg_file \<Rightarrow> string \<Rightarrow> (pathErr + string) \<times> bool" where
  "OpenKmsgAt f path =
     (case kf_open f of
        Some e \<Rightarrow> (Inl \<lparr>pe_Op = ''open'', pe_Path = path, pe_Err = e\<rparr>, False)
      | None \<Rightarrow>
          (case kf_seek f of
             Some (SeekFailed e) \<Rightarrow> (Inl \<lparr>pe_Op = ''seek'', pe_Path = path, pe_Err = e\<rparr>, False)
           | _ \<Rightarrow> (Inr [], True)))"

definition kmsgPath :: string where "kmsgPath = ''/dev/kmsg''"

definition OpenKmsg :: "kmsg_file \<Rightarrow> (pathErr + string) \<times> bool" where
  "OpenKmsg f = OpenKmsgAt f kmsgPath"

definition CheckKernelLog :: "kmsg_file \<Rightarrow> Capability" where
  "CheckKernelLog f =
     (let c = cap ''kernel log'' kmsgPath
            ''kernel-log alerts (under-voltage, storage I/O errors, OOM victim names)''
      in case fst (OpenKmsg f) of
           Inr w \<Rightarrow> c\<lparr>cap_Status := CapPresent, cap_Detail := ''readable; followed from startup''\<rparr>
         | Inl e \<Rightarrow>
             if pe_Err e = EACCES \<or> pe_Err e = S_EPERM then
               c\<lparr>cap_Status := CapDenied,
                 cap_Detail := pathErr_text e @ '' '' @ EMDASH @ '' kernel.dmesg_restrict is set'',
                 cap_Fix := ''echo kernel.dmesg_restrict=0 | sudo tee /etc/sysctl.d/50-ucmon-dmesg.conf && sudo sysctl --system '' @
                   EMDASH @ '' or run ucmon with CAP_SYSLOG''\<rparr>
             else c\<lparr>cap_Status := CapAbsent, cap_Detail := pathErr_text e\<rparr>)"

section \<open>The checks\<close>

text \<open>What the checks ask for beside the files of the host.\<close>

record machine =
  mc_arch :: goarch
  mc_sensors :: "(string \<times> f64) list option"
  mc_kmsg :: kmsg_file
  mc_icmp :: "sockErr option"
  mc_pid :: int
  mc_gid :: int

definition CheckTempSensors :: "machine \<Rightarrow> host \<Rightarrow> Capability" where
  "CheckTempSensors mc h = checkTempSensors h (readTemperatures (mc_sensors mc) h)"

definition Capabilities :: "machine \<Rightarrow> host \<Rightarrow> string \<Rightarrow> Capability list" where
  "Capabilities mc h backlightDevice =
     [CheckTempSensors mc h, CheckCPUFreq h, CheckGovernorWrite h, CheckPSI h, CheckOOMKills h,
      CheckKernelLog (mc_kmsg mc), CheckProcIO h (mc_pid mc), CheckBattery (mc_arch mc) h,
      CheckBatteryHealth (mc_arch mc) h, CheckVideoCore h, CheckBacklightWrite h backlightDevice, CheckIW h,
      CheckModemManager h, CheckUnprivilegedICMP h (mc_icmp mc) (mc_gid mc), CheckStorageWear h]"

section \<open>The report\<close>

definition doctorIndent :: string where "doctorIndent = replicate 13 (CHR '' '')"

definition field_line :: "string \<Rightarrow> nat \<times> string \<Rightarrow> string" where
  "field_line lbl il =
     (case il of (i, l) \<Rightarrow>
        if i = 0 then doctorIndent @ padRight lbl 8 @ l @ [NL]
        else if l = [] then [NL]
        else doctorIndent @ replicate 8 (CHR '' '') @ l @ [NL])"

definition doctorField :: "string \<Rightarrow> string \<Rightarrow> string" where
  "doctorField lbl val =
     (if val = [] then [] else concat (map (field_line lbl) (enumerate 0 (split val NL))))"

definition doctor_cap :: "Capability \<Rightarrow> string" where
  "doctor_cap c =
     padRight (''['' @ cap_string (cap_Status c) @ '']'') 12 @ '' '' @ cap_Name c @ [NL] @
     doctorField ''source'' (cap_Source c) @
     (if cap_OK c then doctorField ''found'' (cap_Detail c)
      else doctorField ''why'' (cap_Detail c) @ doctorField ''hides'' (cap_Affects c)) @
     doctorField ''fix'' (cap_Fix c) @ [NL]"

definition status_count :: "Capability list \<Rightarrow> CapStatus \<Rightarrow> nat" where
  "status_count caps st = length (filter (\<lambda>c. cap_Status c = st) caps)"

text \<open>The settings that hide a reading, and the text for each.\<close>

definition doctor_off :: "Config \<Rightarrow> (string \<times> string) list" where
  "doctor_off cfg =
     (if \<not> PingEnabled cfg then [(''ping_enabled'', ''false '' @ EMDASH @ '' the Network tab shows no latency block'')] else []) @
     (if \<not> ModemEnabled cfg then [(''modem_enabled'', ''false '' @ EMDASH @ '' ModemManager is never polled'')] else []) @
     (if \<not> AlertsEnabled cfg then [(''alerts_enabled'', ''false '' @ EMDASH @ '' no banner, no Alerts tab entries'')] else []) @
     (if NetIgnore cfg \<noteq> [] then
        [(''net_ignore'', join (NetIgnore cfg) '', '' @ '' '' @ EMDASH @ '' matching interfaces are hidden'')] else []) @
     (if DiskIgnore cfg \<noteq> [] then
        [(''disk_ignore'', join (DiskIgnore cfg) '', '' @ '' '' @ EMDASH @ '' matching mounts are hidden'')] else []) @
     (if TempIgnore cfg \<noteq> [] then
        [(''temp_ignore'', join (TempIgnore cfg) '', '' @ '' '' @ EMDASH @ '' matching sensors are hidden'')] else [])"

definition config_row :: "string \<Rightarrow> string \<Rightarrow> string" where
  "config_row key val = padRight key 16 @ '' '' @ val @ [NL]"

definition doctorConfig :: "host \<Rightarrow> Config \<Rightarrow> string \<Rightarrow> string" where
  "doctorConfig h cfg cfgPath =
     ''Config'' @ [NL] @
     config_row ''  file''
       (if cfgPath = [] then ''(none '' @ EMDASH @ '' built-in defaults)''
        else if \<not> h_stat h cfgPath then cfgPath @ '' (not present '' @ EMDASH @ '' built-in defaults)''
        else cfgPath) @
     (if Unknown cfg \<noteq> [] then
        config_row ''  unknown keys''
          (join (map (\<lambda>u. uk_Key u @ '' (line '' @ itoa (uk_Line u) @ '')'') (Unknown cfg)) '', '' @
           '' '' @ EMDASH @ '' ignored; run ucmon --check-config'')
      else []) @
     (let off = doctor_off cfg; ks = sort (map fst off)
      in concat (map (\<lambda>k. config_row (''  '' @ k) (the (map_of off k))) ks) @
         (if ks = [] \<and> Unknown cfg = []
          then ''  nothing in the config is suppressing a reading'' @ [NL] else []))"

definition doctorReport :: "string \<Rightarrow> host \<Rightarrow> Capability list \<Rightarrow> Config \<Rightarrow> string \<Rightarrow> string" where
  "doctorReport version h caps cfg cfgPath =
     (let hr = concat (replicate 72 HLINE)
      in ''ucmon '' @ version @ '' '' @ EMDASH @ '' capability report'' @ [NL] @ hr @ [NL] @
         ''What this host can measure, and why the rest of the screen is empty.'' @ [NL, NL] @
         concat (map doctor_cap caps) @
         hr @ [NL] @ nat_digits (length caps) @ '' sources: '' @
         nat_digits (status_count caps CapPresent) @ '' present, '' @
         nat_digits (status_count caps CapAbsent) @ '' absent, '' @
         nat_digits (status_count caps CapDenied) @ '' denied, '' @
         nat_digits (status_count caps CapReadOnly) @ '' read-only'' @ [NL] @
         ''An absent source is not a failure: ucmon hides the row it would have'' @ [NL] @
         ''filled and keeps every other reading.'' @ [NL] @
         [NL] @ doctorConfig h cfg cfgPath)"

definition Doctor :: "string \<Rightarrow> machine \<Rightarrow> host \<Rightarrow> Config \<Rightarrow> string \<Rightarrow> string" where
  "Doctor version mc h cfg cfgPath =
     doctorReport version h (Capabilities mc h (BacklightDevice cfg)) cfg cfgPath"

section \<open>Checking a configuration file\<close>

text \<open>
  The file is looked at three times: its status, a read, and the read of the loader. \<open>home\<close> is what the loader
  knows of the home directory.
\<close>

datatype statRes = Stat_ok | Stat_missing | Stat_failed

definition unknown_row :: "unknownKey \<Rightarrow> string" where
  "unknown_row u = ''    line '' @ padRight (itoa (uk_Line u)) 4 @ '' '' @ uk_Key u @ [NL]"

definition CheckConfig ::
    "string option \<Rightarrow> statRes \<Rightarrow> string + string \<Rightarrow> string option \<Rightarrow> string \<Rightarrow> string \<times> bool" where
  "CheckConfig home st rd content path =
     (if path = [] then
        (''ucmon: no config path (and no home directory to derive one)'' @ [NL] @
         ''built-in defaults apply'' @ [NL], True)
      else
        let b = ''config: '' @ path @ [NL]
        in if st = Stat_missing then
             (b @ ''  not present '' @ EMDASH @ '' built-in defaults apply'' @ [NL], True)
           else case rd of
             Inl e \<Rightarrow> (b @ ''  unreadable: '' @ e @ '' '' @ EMDASH @ '' ucmon would run on built-in defaults'' @ [NL], False)
           | Inr _ \<Rightarrow>
               let cfg = LoadFrom home content path
               in if Unknown cfg = [] then (b @ ''  no unrecognised keys'' @ [NL], True)
                  else
                    (b @ ''  '' @ pluralKeys (int (length (Unknown cfg))) @ '', ignored:'' @ [NL] @
                     concat (map unknown_row (Unknown cfg)) @
                     ''  ucmon runs anyway: unknown keys are never fatal, so a config'' @ [NL] @
                     ''  written for a newer release keeps working. Check the spelling'' @ [NL] @
                     ''  against the Configuration section of README.md.'' @ [NL], False))"

text \<open>The path of the file: the user's configuration directory, or one derived from the home directory.\<close>

definition Path :: "string option \<Rightarrow> string option \<Rightarrow> string" where
  "Path userConfigDir userHomeDir =
     (let below = (\<lambda>dir. joinPath [dir, ''ucmon'', ''config.toml''])
      in if userConfigDir = None \<or> userConfigDir = Some [] then
           (case userHomeDir of None \<Rightarrow> [] | Some home \<Rightarrow> below (joinPath [home, ''.config'']))
         else below (the userConfigDir))"

definition Load :: "string option \<Rightarrow> (string \<Rightarrow> string option) \<Rightarrow> string option \<Rightarrow> string option \<Rightarrow> Config" where
  "Load home content userConfigDir userHomeDir =
     (let path = Path userConfigDir userHomeDir in LoadFrom home (content path) path)"


section \<open>Lemmas\<close>

text \<open>A check says what it looked at, what it found and what is lost without it; a source that is only readable comes with a remedy.\<close>

definition well_told :: "Capability \<Rightarrow> bool" where
  "well_told c \<longleftrightarrow> cap_Name c \<noteq> [] \<and> cap_Source c \<noteq> [] \<and> cap_Detail c \<noteq> [] \<and> cap_Affects c \<noteq> [] \<and>
     (cap_Status c = CapReadOnly \<longrightarrow> cap_Fix c \<noteq> [])"

definition errors_named :: "host \<Rightarrow> bool" where
  "errors_named h \<longleftrightarrow> (\<forall>p. h_open h p \<noteq> O_denied [] \<and> h_open h p \<noteq> O_absent [])"

lemma pathStatus_named:
  "errors_named h \<Longrightarrow> pathStatus h p = (st, why) \<Longrightarrow> st \<noteq> CapPresent \<Longrightarrow> why \<noteq> []"
  "pathStatus h p = (CapReadOnly, why) \<Longrightarrow> False"
  by (auto simp: errors_named_def pathStatus_def split: openRes.splits)

lemma cleanPath_ne [simp]: "cleanPath p \<noteq> []"
  by (simp add: cleanPath_def Let_def)

lemma joinPath_ne [simp]: "e \<noteq> [] \<Longrightarrow> joinPath (e # es) \<noteq> []"
  by (simp add: joinPath_def)

lemma plural_ne [simp]: "plural n a b \<noteq> []"
  by (simp add: plural_def)

lemma cap_fields [simp]:
  "cap_Name (cap a b c) = a" "cap_Source (cap a b c) = b" "cap_Status (cap a b c) = CapAbsent"
  "cap_Affects (cap a b c) = c" "cap_Fix (cap a b c) = []" "cap_Detail (cap a b c) = []"
  by (simp_all add: cap_def)

lemma space_runes_opaque: "list_all (list_all (\<lambda>c. \<not> graphic c)) space_runes"
  by code_simp

lemma space_at_before: "graphic c \<Longrightarrow> space_at (s @ [c]) \<le> length s"
proof (cases "find (hasPrefix (s @ [c])) space_runes")
  case (Some r)
  assume c: "graphic c"
  have "hasPrefix (s @ [c]) r" "r \<in> set space_runes" using Some find_mem by fast+
  moreover from this(2) have "c \<notin> set r" using space_runes_opaque c by (auto simp: list_all_iff)
  ultimately obtain t where "s @ [c] = r @ t" "t \<noteq> []"
    unfolding hasPrefix_iff by (metis append_Nil2 in_set_conv_decomp)
  then have "length r \<le> length s" by (cases t rule: rev_cases) auto
  then show ?thesis using Some by (simp add: space_at_def)
qed (simp add: space_at_def)

lemma trimLeft_keeps: "graphic c \<Longrightarrow> \<exists>s'. trimLeft (s @ [c]) = s' @ [c]"
proof (induction "length s" arbitrary: s rule: less_induct)
  case less
  show ?case
  proof (cases "space_at (s @ [c]) = 0")
    case True
    then show ?thesis by (subst trimLeft.simps) auto
  next
    case False
    let ?k = "space_at (s @ [c])"
    have "drop ?k (s @ [c]) = drop ?k s @ [c]" using space_at_before [OF less.prems] by simp
    moreover have "length (drop ?k s) < length s" using False space_at_before [OF less.prems, of s] by simp
    ultimately show ?thesis using less.hyps less.prems False by (subst trimLeft.simps) simp
  qed
qed

lemma trimSpace_ne: "graphic c \<Longrightarrow> trimSpace (s @ [c]) \<noteq> []"
  unfolding trimSpace_def using trimLeft_keeps [of c s] trimRight_graphic by force

lemma trimSpace_paren: "trimSpace (a @ b @ c @ d @ e @ '')'') \<noteq> []"
  using trimSpace_ne [of "CHR '')''" "a @ b @ c @ d @ e"] by (simp add: graphic_def)

lemmas told_simps = well_told_def Let_def
lemmas told_splits = option.splits prod.splits CapStatus.splits

lemma told_temps: "errors_named h \<Longrightarrow> well_told (CheckTempSensors mc h)"
  by (auto simp: told_simps CheckTempSensors_def checkTempSensors_def thermalBase_def dest: pathStatus_named split: told_splits)

lemma told_freq: "errors_named h \<Longrightarrow> well_told (CheckCPUFreq h)"
  by (auto simp: told_simps CheckCPUFreq_def cpufreqBase_def dest: pathStatus_named split: told_splits)

lemma told_governor: "well_told (CheckGovernorWrite h)"
  by (auto simp: told_simps CheckGovernorWrite_def cpufreqBase_def GovernorUdevRule_def split: told_splits)

lemma told_psi: "errors_named h \<Longrightarrow> well_told (CheckPSI h)"
  by (auto simp: told_simps CheckPSI_def psiBase_def dest: pathStatus_named split: told_splits)

lemma told_oom: "errors_named h \<Longrightarrow> well_told (CheckOOMKills h)"
  by (auto simp: told_simps CheckOOMKills_def vmstatPath_def dest: pathStatus_named split: told_splits)

lemma told_kmsg: "well_told (CheckKernelLog f)"
  by (auto simp: told_simps CheckKernelLog_def kmsgPath_def pathErr_text_def split: sum.splits)

lemma told_io: "errors_named h \<Longrightarrow> well_told (CheckProcIO h pid)"
  by (auto simp: told_simps CheckProcIO_def procBase_def dest: pathStatus_named split: told_splits)

lemma told_battery: "errors_named h \<Longrightarrow> well_told (CheckBattery arch h)"
  by (auto simp: told_simps CheckBattery_def powerSupplyBase_def dest: pathStatus_named split: told_splits)

lemma told_health: "well_told (CheckBatteryHealth arch h)"
  by (auto simp: told_simps CheckBatteryHealth_def powerSupplyBase_def split: told_splits)

lemma told_gpu: "well_told (CheckVideoCore h)"
  by (auto simp: told_simps CheckVideoCore_def vcgencmdPaths_def split: told_splits)

lemma told_backlight: "errors_named h \<Longrightarrow> well_told (CheckBacklightWrite h dev)"
  by (auto simp: told_simps CheckBacklightWrite_def backlightBase_def BacklightUdevRule_def bl_dir_def
      dest: pathStatus_named split: told_splits)

lemma told_iw: "well_told (CheckIW h)"
  by (auto simp: told_simps CheckIW_def iwPaths_def split: told_splits)

lemma told_modem: "well_told (CheckModemManager h)"
  by (auto simp: told_simps CheckModemManager_def mmcliPaths_def trimSpace_paren simp del: append_Cons append_Nil
      split: told_splits)

lemma told_icmp: "well_told (CheckUnprivilegedICMP h e gid)"
  by (auto simp: told_simps CheckUnprivilegedICMP_def checkICMP_def pingGroupRangePath_def split: told_splits)

lemma told_wear: "errors_named h \<Longrightarrow> well_told (CheckStorageWear h)"
  by (auto simp: told_simps CheckStorageWear_def blockBase_def dest: pathStatus_named split: told_splits)

text \<open>The checks, by name, in the order of the report.\<close>

lemma capability_names:
  "map cap_Name (Capabilities mc h dev) =
     [''temperature sensors'', ''cpufreq policies'', ''cpufreq governor write'', ''pressure stall (PSI)'',
      ''OOM-kill counter'', ''kernel log'', ''per-process disk I/O'', ''battery'', ''battery design capacity'',
      ''GPU / VideoCore (vcgencmd)'', ''backlight brightness'', ''wireless link details (iw)'', ''WWAN modem (mmcli)'',
      ''unprivileged ICMP ping'', ''storage wear (eMMC life time)'']"
proof -
  note s = Let_def and t = told_splits sum.splits
  have "cap_Name (CheckTempSensors mc h) = ''temperature sensors''"
    by (simp add: s CheckTempSensors_def checkTempSensors_def split: t)
  moreover have "cap_Name (CheckCPUFreq h) = ''cpufreq policies''" by (simp add: s CheckCPUFreq_def split: t)
  moreover have "cap_Name (CheckGovernorWrite h) = ''cpufreq governor write''" by (simp add: s CheckGovernorWrite_def split: t)
  moreover have "cap_Name (CheckPSI h) = ''pressure stall (PSI)''" by (simp add: s CheckPSI_def split: t)
  moreover have "cap_Name (CheckOOMKills h) = ''OOM-kill counter''" by (simp add: s CheckOOMKills_def split: t)
  moreover have "cap_Name (CheckKernelLog (mc_kmsg mc)) = ''kernel log''" by (simp add: s CheckKernelLog_def split: t)
  moreover have "cap_Name (CheckProcIO h (mc_pid mc)) = ''per-process disk I/O''" by (simp add: s CheckProcIO_def split: t)
  moreover have "cap_Name (CheckBattery (mc_arch mc) h) = ''battery''" by (simp add: s CheckBattery_def split: t)
  moreover have "cap_Name (CheckBatteryHealth (mc_arch mc) h) = ''battery design capacity''"
    by (simp add: s CheckBatteryHealth_def split: t)
  moreover have "cap_Name (CheckVideoCore h) = ''GPU / VideoCore (vcgencmd)''" by (simp add: s CheckVideoCore_def split: t)
  moreover have "cap_Name (CheckBacklightWrite h dev) = ''backlight brightness''" by (simp add: s CheckBacklightWrite_def split: t)
  moreover have "cap_Name (CheckIW h) = ''wireless link details (iw)''" by (simp add: s CheckIW_def split: t)
  moreover have "cap_Name (CheckModemManager h) = ''WWAN modem (mmcli)''" by (simp add: s CheckModemManager_def split: t)
  moreover have "cap_Name (CheckUnprivilegedICMP h (mc_icmp mc) (mc_gid mc)) = ''unprivileged ICMP ping''"
    by (simp add: s CheckUnprivilegedICMP_def checkICMP_def split: t)
  moreover have "cap_Name (CheckStorageWear h) = ''storage wear (eMMC life time)''" by (simp add: s CheckStorageWear_def split: t)
  ultimately show ?thesis by (simp add: Capabilities_def)
qed

lemma capabilities_told: "errors_named h \<Longrightarrow> list_all well_told (Capabilities mc h dev)"
  by (simp add: Capabilities_def told_temps told_freq told_governor told_psi told_oom told_kmsg told_io told_battery
    told_health told_gpu told_backlight told_iw told_modem told_icmp told_wear)

text \<open>What is printed, as a part of the text it is printed in.\<close>

lemma sublist_within: "sublist a b \<Longrightarrow> sublist a (p @ b @ q)"
  unfolding sublist_def by (metis append.assoc)

lemma sublist_skip: "sublist a b \<Longrightarrow> sublist a (p @ b)"
  using sublist_within [of a b p "[]"] by simp

lemma sublist_here: "sublist a (a @ q)"
  by (simp add: sublist_def) blast

lemma sublist_self: "sublist a a"
  by (auto simp: sublist_def)

lemma sublist_trans: "sublist a b \<Longrightarrow> sublist b c \<Longrightarrow> sublist a c"
  unfolding sublist_def by (metis append.assoc)

lemmas sublist_walk = sublist_self sublist_here sublist_skip

lemma sublist_concat: "x \<in> set xs \<Longrightarrow> sublist x (concat xs)"
proof (induction xs)
  case (Cons y ys)
  then show ?case using sublist_here [of x "concat ys"] sublist_skip [of x "concat ys" y] by auto
qed simp

lemma sublist_part: "sublist a x \<Longrightarrow> x \<in> set xs \<Longrightarrow> sublist a (concat xs)"
  using sublist_concat sublist_trans by blast

lemma doctor_report_parts:
  "sublist (doctorConfig h cfg path) (doctorReport version h caps cfg path)"
  unfolding doctorReport_def Let_def by (rule sublist_walk)+

lemma doctor_config_parts:
  "sublist (concat (map (\<lambda>k. config_row (''  '' @ k) (the (map_of (doctor_off cfg) k))) (sort (map fst (doctor_off cfg)))))
     (doctorConfig h cfg path)"
  unfolding doctorConfig_def Let_def by (rule sublist_walk)+

lemma doctor_off_shows:
  assumes "(k, v) \<in> set (doctor_off cfg)"
  shows "sublist (config_row (''  '' @ k) v) (doctorReport version h caps cfg path)"
proof -
  let ?row = "\<lambda>k. config_row (''  '' @ k) (the (map_of (doctor_off cfg) k))"
  have "distinct (map fst (doctor_off cfg))" by (simp add: doctor_off_def)
  then have v: "?row k = config_row (''  '' @ k) v" using assms by simp
  have "k \<in> set (sort (map fst (doctor_off cfg)))" using assms by force
  then have "?row k \<in> set (map ?row (sort (map fst (doctor_off cfg))))" by simp
  from sublist_trans [OF sublist_concat [OF this] doctor_config_parts] show ?thesis
    unfolding v using sublist_trans doctor_report_parts by blast
qed

subsection \<open>The report, read back\<close>

text \<open>
  A reader of the report: below the title and its rule each line that starts with a status in brackets opens
  a source, the lines up to the next one belong to it, a second rule ends them and the summary follows.
\<close>

definition rule_line :: string where "rule_line = concat (replicate 72 HLINE)"

fun header_of :: "string \<Rightarrow> (string \<times> string) option" where
  "header_of [] = None"
| "header_of (c # s) =
     (if c = CHR ''['' then map_option (\<lambda>(st, nm). (st, dropWhile (\<lambda>c. c = CHR '' '') nm)) (cut s (CHR '']'')) else None)"

fun sections :: "string list \<Rightarrow> (string \<times> string \<times> string list) list" where
  "sections [] = []"
| "sections (l # ls) =
     (case header_of l of
        None \<Rightarrow> sections ls
      | Some (st, nm) \<Rightarrow> (st, nm, takeWhile (\<lambda>l. header_of l = None) ls) # sections ls)"

definition report_sections :: "string \<Rightarrow> (string \<times> string \<times> string list) list" where
  "report_sections r = sections (takeWhile (\<lambda>l. l \<noteq> rule_line) (drop 2 (split r NL)))"

definition report_summary :: "string \<Rightarrow> string" where
  "report_summary r = hd (tl (dropWhile (\<lambda>l. l \<noteq> rule_line) (drop 2 (split r NL))))"

definition sections_with :: "string \<Rightarrow> (string \<times> string \<times> string list) list \<Rightarrow> string" where
  "sections_with st secs = nat_digits (length (filter (\<lambda>s. fst s = st) secs))"

text \<open>The lines a source owes: each field under its label, further lines of it in the same column.\<close>

definition labelled :: "string \<Rightarrow> string \<Rightarrow> string list" where
  "labelled lbl val =
     (if val = [] then []
      else (doctorIndent @ padRight lbl 8 @ hd (split val NL)) #
        map (\<lambda>l. if l = [] then [] else doctorIndent @ ''        '' @ l) (tl (split val NL)))"

definition told_lines :: "Capability \<Rightarrow> string list" where
  "told_lines c =
     labelled ''source'' (cap_Source c) @
     (if cap_Status c = CapPresent then labelled ''found'' (cap_Detail c)
      else labelled ''why'' (cap_Detail c) @ labelled ''hides'' (cap_Affects c)) @
     labelled ''fix'' (cap_Fix c) @ [[]]"

definition line_ends :: "string list \<Rightarrow> string" where
  "line_ends ls = concat (map (\<lambda>l. l @ [NL]) ls)"

lemma line_ends_simps [simp]: "line_ends [] = []" "line_ends (l # ls) = l @ NL # line_ends ls" "line_ends (ls @ ls') = line_ends ls @ line_ends ls'"
  by (simp_all add: line_ends_def)

lemma split_line_ends: "list_all (\<lambda>l. NL \<notin> set l) ls \<Longrightarrow> split (line_ends ls @ s) NL = ls @ split s NL"
  by (induction ls) (simp_all add: split_sep)

lemma field_lines:
  "concat (map (field_line lbl) (enumerate (Suc n) ls)) =
    line_ends (map (\<lambda>l. if l = [] then [] else doctorIndent @ ''        '' @ l) ls)"
proof (induction ls arbitrary: n)
  case (Cons l ls)
  have "replicate 8 (CHR '' '') = ''        ''" by code_simp
  then show ?case using Cons by (simp add: field_line_def)
qed simp

lemma doctorField_lines: "doctorField lbl val = line_ends (labelled lbl val)"
proof (cases "split val NL")
  case (Cons l ls)
  then show ?thesis
    using field_lines [of lbl 0 ls] by (simp add: doctorField_def labelled_def) (simp add: field_line_def)
qed (simp add: labelled_def)

definition cap_lines :: "Capability \<Rightarrow> string list" where
  "cap_lines c = (padRight (''['' @ cap_string (cap_Status c) @ '']'') 12 @ '' '' @ cap_Name c) # told_lines c"

lemma doctor_cap_lines: "doctor_cap c = line_ends (cap_lines c)"
  by (simp add: doctor_cap_def cap_lines_def told_lines_def doctorField_lines cap_OK_def)

lemma doctorIndent_blank: "doctorIndent = CHR '' '' # replicate 12 (CHR '' '')" "NL \<notin> set doctorIndent"
  by code_simp+

lemma indented:
  "l \<in> set (labelled lbl val) \<Longrightarrow> l = [] \<or> hd l = CHR '' ''"
  by (auto simp: labelled_def doctorIndent_blank split: if_splits)

lemma labelled_no_NL: "NL \<notin> set lbl \<Longrightarrow> l \<in> set (labelled lbl val) \<Longrightarrow> NL \<notin> set l"
  using split_mem [of _ val NL] list.set_sel(2) [of "split val NL"]
  by (auto simp: labelled_def padRight_def Let_def doctorIndent_blank(2) split: if_splits)

lemma told_indented: "l \<in> set (told_lines c) \<Longrightarrow> (l = [] \<or> hd l = CHR '' '') \<and> NL \<notin> set l"
  unfolding told_lines_def
  by (auto dest: indented labelled_no_NL [rotated] split: if_splits)

lemma indented_no_header: "l = [] \<or> hd l = CHR '' '' \<Longrightarrow> header_of l = None \<and> l \<noteq> rule_line"
proof -
  have "hd rule_line \<noteq> CHR '' ''" "rule_line \<noteq> []" by code_simp+
  moreover have "l = [] \<or> hd l = CHR '' '' \<Longrightarrow> header_of l = None" by (cases l) auto
  ultimately show "l = [] \<or> hd l = CHR '' '' \<Longrightarrow> header_of l = None \<and> l \<noteq> rule_line" by metis
qed

text \<open>A name a header can carry.\<close>

definition plain_name :: "string \<Rightarrow> bool" where
  "plain_name n \<longleftrightarrow> n \<noteq> [] \<and> hd n \<noteq> CHR '' '' \<and> NL \<notin> set n"

lemma cut_at: "b \<notin> set x \<Longrightarrow> cut (x @ b # y) b = Some (x, y)"
  by (simp add: cut_def indexByte_append)

lemma cap_string_plain: "CHR '']'' \<notin> set (cap_string st)" "NL \<notin> set (cap_string st)"
  by (cases st; simp add: cap_string_def)+

lemma drop_blanks: "dropWhile (\<lambda>c. c = CHR '' '') (replicate k (CHR '' '') @ s) = dropWhile (\<lambda>c. c = CHR '' '') s"
  by (induction k) simp_all

lemma cap_header:
  assumes "plain_name (cap_Name c)"
  shows "header_of (hd (cap_lines c)) = Some (cap_string (cap_Status c), cap_Name c)"
    "NL \<notin> set (hd (cap_lines c))" "hd (cap_lines c) \<noteq> rule_line"
proof -
  obtain k where k: "padRight (''['' @ cap_string (cap_Status c) @ '']'') 12 =
      ''['' @ cap_string (cap_Status c) @ '']'' @ replicate k (CHR '' '')"
    unfolding padRight_def Let_def by (metis append.assoc append_Nil2 replicate_0)
  have name: "dropWhile (\<lambda>c. c = CHR '' '') (cap_Name c) = cap_Name c"
    using assms by (cases "cap_Name c") (simp_all add: plain_name_def)
  show "header_of (hd (cap_lines c)) = Some (cap_string (cap_Status c), cap_Name c)"
    using cap_string_plain(1) name drop_blanks [of k]
    unfolding cap_lines_def list.sel k by (simp add: cut_at)
  show "NL \<notin> set (hd (cap_lines c))"
    using cap_string_plain(2) assms unfolding cap_lines_def list.sel k by (auto simp: plain_name_def)
  have "hd rule_line \<noteq> CHR ''[''" by code_simp
  moreover have "hd (hd (cap_lines c)) = CHR ''[''" unfolding cap_lines_def list.sel k by simp
  ultimately show "hd (cap_lines c) \<noteq> rule_line" by metis
qed

lemma takeWhile_told:
  "list_all (\<lambda>c. plain_name (cap_Name c)) caps \<Longrightarrow>
   takeWhile (\<lambda>l. header_of l = None) (told_lines c @ concat (map cap_lines caps)) = told_lines c"
proof -
  assume caps: "list_all (\<lambda>c. plain_name (cap_Name c)) caps"
  have t: "\<forall>l \<in> set (told_lines c). header_of l = None" using told_indented indented_no_header by blast
  have "takeWhile (\<lambda>l. header_of l = None) (concat (map cap_lines caps)) = []"
    using caps cap_header(1) by (cases caps) (auto simp: cap_lines_def)
  then show ?thesis using t by (simp add: takeWhile_append2)
qed

lemma sections_told: "sections (told_lines c @ ls) = sections ls"
proof -
  have "sections (xs @ ls) = sections ls" if "\<forall>l \<in> set xs. header_of l = None" for xs
    using that by (induction xs) simp_all
  then show ?thesis using told_indented indented_no_header by blast
qed

lemma sections_caps:
  "list_all (\<lambda>c. plain_name (cap_Name c)) caps \<Longrightarrow>
   sections (concat (map cap_lines caps)) = map (\<lambda>c. (cap_string (cap_Status c), cap_Name c, told_lines c)) caps"
proof (induction caps)
  case (Cons c caps)
  then have "header_of (hd (cap_lines c)) = Some (cap_string (cap_Status c), cap_Name c)" by (intro cap_header) simp
  then show ?case
    using Cons takeWhile_told [of caps c]
    by (simp add: cap_lines_def [of c] sections_told)
qed simp

lemma ruled_off:
  "\<forall>l \<in> set ls. l \<noteq> r \<Longrightarrow> takeWhile (\<lambda>l. l \<noteq> r) (ls @ r # x) = ls"
  "\<forall>l \<in> set ls. l \<noteq> r \<Longrightarrow> dropWhile (\<lambda>l. l \<noteq> r) (ls @ r # x) = r # x"
  by (induction ls) simp_all

text \<open>The lines of a report down to its summary.\<close>

lemma report_lines:
  assumes "NL \<notin> set version" "list_all (\<lambda>c. plain_name (cap_Name c)) caps"
  shows "\<exists>rest. split (doctorReport version h caps cfg path) NL =
    [''ucmon '' @ version @ '' '' @ EMDASH @ '' capability report'', rule_line,
     ''What this host can measure, and why the rest of the screen is empty.'', []] @
    concat (map cap_lines caps) @ [rule_line,
     nat_digits (length caps) @ '' sources: '' @
       nat_digits (status_count caps CapPresent) @ '' present, '' @ nat_digits (status_count caps CapAbsent) @ '' absent, '' @
       nat_digits (status_count caps CapDenied) @ '' denied, '' @ nat_digits (status_count caps CapReadOnly) @ '' read-only''] @ rest"
proof -
  let ?top = "[''ucmon '' @ version @ '' '' @ EMDASH @ '' capability report'', rule_line,
     ''What this host can measure, and why the rest of the screen is empty.'', []]"
  let ?sum = "nat_digits (length caps) @ '' sources: '' @
       nat_digits (status_count caps CapPresent) @ '' present, '' @ nat_digits (status_count caps CapAbsent) @ '' absent, '' @
       nat_digits (status_count caps CapDenied) @ '' denied, '' @ nat_digits (status_count caps CapReadOnly) @ '' read-only''"
  let ?ls = "?top @ concat (map cap_lines caps) @ [rule_line, ?sum]"
  have caps: "concat (map doctor_cap caps) = line_ends (concat (map cap_lines caps))"
    by (induction caps) (simp_all add: doctor_cap_lines)
  obtain rest where r: "doctorReport version h caps cfg path = line_ends ?ls @ rest"
    unfolding doctorReport_def Let_def caps rule_line_def [symmetric]
    by (simp only: line_ends_simps append.assoc append_Cons append_Nil)
  have nl: "NL \<notin> set (nat_digits n)" for n by (rule nat_digits_no) (simp add: is_digit_def)
  have "NL \<notin> set rule_line" by code_simp
  moreover have "NL \<notin> set l" if "c \<in> set caps" "l \<in> set (cap_lines c)" for c l
    using that assms(2) cap_header(2) [of c] told_indented [of l c] by (auto simp: cap_lines_def list_all_iff)
  ultimately have "list_all (\<lambda>l. NL \<notin> set l) ?ls"
    using assms(1) nl by (auto simp: list_all_iff)
  then show ?thesis
    unfolding r by (intro exI [of _ "split rest NL"]) (simp only: split_line_ends append.assoc)
qed


lemma check_config_rows:
  assumes "path \<noteq> []" "st \<noteq> Stat_missing" "rd = Inr s" "u \<in> set (Unknown (LoadFrom home content path))"
  shows "sublist (unknown_row u) (fst (CheckConfig home st rd content path))"
proof -
  have "Unknown (LoadFrom home content path) \<noteq> []" using assms(4) by auto
  then have "sublist (concat (map unknown_row (Unknown (LoadFrom home content path)))) (fst (CheckConfig home st rd content path))"
    unfolding CheckConfig_def Let_def assms(3) sum.case if_not_P [OF assms(1)] if_not_P [OF assms(2)] fst_conv
    by (simp only: if_False fst_conv) (rule sublist_walk)+
  moreover have "sublist (unknown_row u) (concat (map unknown_row (Unknown (LoadFrom home content path))))"
    using assms(4) by (intro sublist_concat) simp
  ultimately show ?thesis using sublist_trans by blast
qed

text \<open>A machine with nothing on it.\<close>

definition bare_host :: host where
  "bare_host =
     \<lparr>h_read = \<lambda>_. None, h_dir = \<lambda>_. None, h_open = \<lambda>_. O_absent ''no such file or directory'',
      h_canWrite = \<lambda>_. W_denied, h_stat = \<lambda>_. False, h_look = \<lambda>_. None, h_exec = \<lambda>_ _. None\<rparr>"

definition bare_machine :: machine where
  "bare_machine =
     \<lparr>mc_arch = AMD64, mc_sensors = None, mc_kmsg = \<lparr>kf_open = Some EACCES, kf_seek = None\<rparr>,
      mc_icmp = Some EACCES, mc_pid = 7, mc_gid = 100\<rparr>"


text \<open>The verdict on a configuration file is what the program will make of it: it is fine exactly when there is
  none, or it can be read and all its keys are known; otherwise every unknown key is named with its line.\<close>

theorem check_config_verdict:
  assumes "\<And>s. rd = Inr s \<Longrightarrow> content = Some s"
  shows "(snd (CheckConfig home st rd content path) \<longleftrightarrow>
      path = [] \<or> st = Stat_missing \<or> (\<exists>s. rd = Inr s \<and> Unknown (LoadFrom home (Some s) path) = [])) \<and>
    (\<forall>s u. rd = Inr s \<and> u \<in> set (Unknown (LoadFrom home (Some s) path)) \<and> st \<noteq> Stat_missing \<longrightarrow>
       sublist (unknown_row u) (fst (CheckConfig home st rd content path)))"
proof (cases "path = [] \<or> st = Stat_missing")
  case True
  then show ?thesis by (auto simp: CheckConfig_def Let_def LoadFrom_def Default_def)
next
  case False
  then show ?thesis using assms check_config_rows [of path st rd _ _ home content]
    by (cases rd) (auto simp: CheckConfig_def Let_def simp del: append.simps)
qed

lemma check_config_verdict_witness: "snd (CheckConfig None Stat_ok (Inr []) (Some []) ''c'')"
proof -
  have "Unknown (LoadFrom None (Some []) ''c'') = []" by (simp add: LoadFrom_def scan_lines_def Default_def)
  then show ?thesis using check_config_verdict [of "Inr []" "Some []" None Stat_ok "''c''"] by simp
qed

text \<open>No descriptor is left behind by a log that could not be followed.\<close>

lemma open_kmsg_descriptor: "snd (OpenKmsgAt f path) \<longleftrightarrow> fst (OpenKmsgAt f path) = Inr []"
  by (auto simp: OpenKmsgAt_def split: option.split seekErr.split)

end
