(* ===== verification/Service.thy ===== *)
theory Service
  imports Once Doctor
begin

text \<open>
  What leaves the program beside the screen: the responses of the HTTP exporter (\<open>Handler\<close> and \<open>Serve\<close> of
  \<open>internal/ui/exporter.go\<close>), and the alert log and alert hooks of \<open>internal/ui/alerts.go\<close>. The texts of the
  library's errors and \<open>encoding/json\<close> are arguments.
\<close>

section \<open>HTTP\<close>

definition http_ok :: "string \<Rightarrow> string \<Rightarrow> response" where
  "http_ok ctype body = \<lparr>re_status = 200, re_type = ctype, re_body = body\<rparr>"

abbreviation TEXT :: string where "TEXT \<equiv> ''text/plain; charset=utf-8''"

definition serve_index :: "string \<Rightarrow> response" where
  "serve_index version =
     http_ok TEXT
       (''ucmon '' @ version @ [NL, NL] @ ''  /metrics   Prometheus exposition'' @ [NL] @
        ''  /snapshot  JSON snapshot'' @ [NL] @ ''  /healthz   liveness'' @ [NL])"

text \<open>
  The routes, for a path in clean form (the library redirects any other to it first). \<open>a\<close> is what
  \<open>snapshot\<close> answers the two that ask for it; a body of text with no content type set is sent as such.
\<close>

definition Handler ::
    "string \<Rightarrow> (SnapshotJSON \<Rightarrow> string + string) \<Rightarrow> (f64 \<Rightarrow> string) \<Rightarrow> string list \<Rightarrow> string \<Rightarrow>
     Model answer \<Rightarrow> time \<Rightarrow> string \<Rightarrow> response" where
  "Handler version marshal num ks ctxErr a now path =
     (if path = ''/metrics'' then metrics_reply num ks ctxErr now a
      else if path = ''/snapshot'' then snapshot_reply marshal version ks ctxErr now a
      else if path = ''/healthz'' then http_ok TEXT (''ok'' @ [NL])
      else if path \<noteq> ''/'' then http_error ''404 page not found'' 404
      else serve_index version)"

text \<open>
  \<open>Serve\<close>: the error of listening, else what the server ends with, whether it ended by itself or was shut down;
  a server closed on purpose is no error. The second component says whether \<open>Shutdown\<close> was called.
\<close>

datatype serveErr = ErrServerClosed | ServeFailed string

definition Serve :: "string option \<Rightarrow> bool \<Rightarrow> serveErr \<Rightarrow> string option \<times> bool" where
  "Serve listenErr signalled ended =
     (case listenErr of
        Some e \<Rightarrow> (Some e, False)
      | None \<Rightarrow> (case ended of ErrServerClosed \<Rightarrow> None | ServeFailed e \<Rightarrow> Some e, signalled))"

section \<open>The alert log\<close>

text \<open>What a write to the log does: all of it, or the first bytes and an error.\<close>

datatype logWrite = LogOk | LogShort nat string

fun append_lines :: "(alertEntry \<Rightarrow> string) \<Rightarrow> alertEntry list \<Rightarrow> logWrite list \<Rightarrow> string \<Rightarrow> string \<times> string option" where
  "append_lines f [] ws content = (content, None)"
| "append_lines f (ev # evs) ws content =
     (case ws of
        LogShort n e # _ \<Rightarrow> (content @ take n (f ev), Some e)
      | _ \<Rightarrow> append_lines f evs (tl ws) (content @ f ev))"

definition appendAlertLog ::
    "(time \<Rightarrow> string) \<Rightarrow> string option \<Rightarrow> logWrite list \<Rightarrow> alertEntry list \<Rightarrow> string \<Rightarrow> string \<times> string option" where
  "appendAlertLog ymdhms openErr ws events content =
     (case openErr of
        Some e \<Rightarrow> (content, Some e)
      | None \<Rightarrow> append_lines (formatAlertLogLine ymdhms) events ws content)"

text \<open>
  Whatever fails, the log keeps what it had and gains whole lines of the first events, in order, and at most
  one cut short, the last; without an error it has them all.
\<close>

definition log_grown :: "(alertEntry \<Rightarrow> string) \<Rightarrow> alertEntry list \<Rightarrow> string \<Rightarrow> string \<times> string option \<Rightarrow> nat \<Rightarrow> string \<Rightarrow> bool" where
  "log_grown f events content r k torn \<longleftrightarrow>
     fst r = content @ concat (map f (take k events)) @ torn \<and> k \<le> length events \<and>
     (torn \<noteq> [] \<longrightarrow> k < length events \<and> prefix torn (f (events ! k)) \<and> snd r \<noteq> None) \<and>
     (snd r = None \<longrightarrow> k = length events)"

lemma log_grown_Suc: "log_grown f evs (content @ f ev) r k torn \<Longrightarrow> log_grown f (ev # evs) content r (Suc k) torn"
  by (simp add: log_grown_def)

lemma append_lines_grows: "\<exists>k torn. log_grown f events content (append_lines f events ws content) k torn"
proof (induction events arbitrary: ws content)
  case (Cons ev evs)
  show ?case
  proof (cases "\<exists>n e ws'. ws = LogShort n e # ws'")
    case True
    then obtain n e ws' where "ws = LogShort n e # ws'" by blast
    then have "log_grown f (ev # evs) content (append_lines f (ev # evs) ws content) 0 (take n (f ev))"
      by (simp add: log_grown_def take_is_prefix)
    then show ?thesis by blast
  next
    case False
    then have "append_lines f (ev # evs) ws content = append_lines f evs (tl ws) (content @ f ev)"
      by (auto split: list.split logWrite.split)
    then show ?thesis using Cons.IH [of "content @ f ev" "tl ws"] log_grown_Suc by metis
  qed
next
  case Nil
  have "log_grown f [] content (append_lines f [] ws content) 0 []" by (simp add: log_grown_def)
  then show ?case by blast
qed

text \<open>So does the log itself, whatever fails: an open that is refused leaves it as it was.\<close>

lemma alert_log_grows:
  "\<exists>k torn. log_grown (formatAlertLogLine ymdhms) events content (appendAlertLog ymdhms openErr ws events content) k torn"
proof (cases openErr)
  case (Some e)
  then have "log_grown (formatAlertLogLine ymdhms) events content (appendAlertLog ymdhms openErr ws events content) 0 []"
    by (simp add: appendAlertLog_def log_grown_def)
  then show ?thesis by blast
qed (simp add: appendAlertLog_def append_lines_grows)

section \<open>The alert hooks\<close>

text \<open>
  A hook's command line, its environment, and how long it is waited for: one that has not ended in
  \<open>alertCmdTimeout\<close> is killed, and what then holds its end up is waited for a second at most.
\<close>

definition alertCmdTimeout :: duration where "alertCmdTimeout = 10 * second"

record hook_process =
  hp_argv :: "string list"
  hp_env :: "string list"
  hp_time :: duration

definition runAlertCmd :: "string list \<Rightarrow> duration option \<Rightarrow> duration \<Rightarrow> string \<Rightarrow> alertEntry \<Rightarrow> hook_process" where
  "runAlertCmd environ ends afterKill cmdline ev =
     \<lparr>hp_argv = [''/bin/sh'', ''-c'', cmdline], hp_env = environ @ alertCmdEnv ev,
      hp_time = (case ends of
          Some d \<Rightarrow> if d \<le> alertCmdTimeout then d else alertCmdTimeout + min afterKill second
        | None \<Rightarrow> alertCmdTimeout + min afterKill second)\<rparr>"

text \<open>The queue and its worker, with the events offered and accepted and the hooks started, in order.\<close>

record hooks =
  hk_queue :: "(string \<times> alertEntry) list"
  hk_running :: "(string \<times> alertEntry) option"
  hk_accepted :: "(string \<times> alertEntry) list"
  hk_started :: "(string \<times> alertEntry) list"

inductive hook_run :: "hooks \<Rightarrow> bool" where
  idle: "hook_run \<lparr>hk_queue = [], hk_running = None, hk_accepted = [], hk_started = []\<rparr>"
| offered: "hook_run h \<Longrightarrow> hook_enqueue job (hk_queue h) = (q, ok) \<Longrightarrow>
    hook_run (h\<lparr>hk_queue := q, hk_accepted := hk_accepted h @ (if ok then [job] else [])\<rparr>)"
| picked: "hook_run h \<Longrightarrow> hk_running h = None \<Longrightarrow> hk_queue h = job # q \<Longrightarrow>
    hook_run (h\<lparr>hk_queue := q, hk_running := Some job, hk_started := hk_started h @ [job]\<rparr>)"
| ended: "hook_run h \<Longrightarrow> hook_run (h\<lparr>hk_running := None\<rparr>)"

lemma hooks_in_order:
  "hook_run h \<Longrightarrow> hk_accepted h = hk_started h @ hk_queue h \<and> length (hk_queue h) \<le> hookQueueLen \<and>
     (\<forall>job. hk_running h = Some job \<longrightarrow> hk_started h \<noteq> [] \<and> last (hk_started h) = job)"
  by (induction rule: hook_run.induct) (auto simp: hook_enqueue_def hookQueueLen_def split: if_splits)

section \<open>The program\<close>

text \<open>What a run prints and exits with, given what its parts return.\<close>

record outcome =
  oc_out :: string
  oc_err :: string
  oc_exit :: int

record program =
  pg_check :: "string \<Rightarrow> string \<times> bool"
  pg_doctor :: "Config \<Rightarrow> string \<Rightarrow> string"
  pg_once :: "Config \<Rightarrow> string + string"
  pg_json :: "Config \<Rightarrow> string + string"
  pg_serve :: "Config \<Rightarrow> string \<Rightarrow> string option"
  pg_tui :: "Config \<Rightarrow> string \<Rightarrow> string \<times> string option"

definition run_snapshot :: "program \<Rightarrow> Config \<Rightarrow> bool \<Rightarrow> string + string" where
  "run_snapshot pg cfg asJSON = (if asJSON then pg_json pg cfg else pg_once pg cfg)"

definition serveMetrics :: "string \<Rightarrow> program \<Rightarrow> Config \<Rightarrow> string \<Rightarrow> string \<times> string option" where
  "serveMetrics version pg cfg addr =
     (''ucmon '' @ version @ '': serving metrics on '' @ addr @ [NL], pg_serve pg cfg addr)"

definition exit_with :: "string \<times> string option \<Rightarrow> outcome" where
  "exit_with r =
     (case r of (err, None) \<Rightarrow> \<lparr>oc_out = [], oc_err = err, oc_exit = 0\<rparr>
      | (err, Some e) \<Rightarrow> \<lparr>oc_out = [], oc_err = err @ ''ucmon: '' @ e @ [NL], oc_exit = 1\<rparr>)"

definition run_mode :: "string \<Rightarrow> program \<Rightarrow> mode \<Rightarrow> outcome" where
  "run_mode version pg md =
     (case md of
        ShowVersion \<Rightarrow> \<lparr>oc_out = ''ucmon '' @ version @ [NL], oc_err = [], oc_exit = 0\<rparr>
      | RunCheckConfig path \<Rightarrow>
          let (report, ok) = pg_check pg path in \<lparr>oc_out = report, oc_err = [], oc_exit = (if ok then 0 else 1)\<rparr>
      | RunDoctor cfg path \<Rightarrow> \<lparr>oc_out = pg_doctor pg cfg path, oc_err = [], oc_exit = 0\<rparr>
      | RunSnapshot cfg asJSON \<Rightarrow>
          (case run_snapshot pg cfg asJSON of
             Inl e \<Rightarrow> exit_with ([], Some e)
           | Inr report \<Rightarrow> \<lparr>oc_out = report, oc_err = [], oc_exit = 0\<rparr>)
      | ServeMetrics cfg addr \<Rightarrow> exit_with (serveMetrics version pg cfg addr)
      | RunTUI cfg addr \<Rightarrow> exit_with (pg_tui pg cfg addr))"

text \<open>
  The end of the screen: the history is saved if it ran, and what could not be saved or served is told once the
  terminal is back.
\<close>

definition runTUI :: "save_env \<Rightarrow> string \<Rightarrow> string option \<Rightarrow> Model \<Rightarrow> disk_state \<Rightarrow> string option \<Rightarrow> string \<times> string option" where
  "runTUI e saveErr exporterErr m d err =
     ((if fst (finish_tui e m d) then [] else ''ucmon: could not save history: '' @ saveErr @ [NL]) @
      (case exporterErr of None \<Rightarrow> [] | Some x \<Rightarrow> ''ucmon: metrics exporter: '' @ x @ [NL]), err)"

text \<open>
  A failed run prints no report: what is on standard output is complete, and the exit code is 1 exactly when an
  error was printed or the configuration check found something.
\<close>

lemma run_mode_output:
  "oc_exit (run_mode version pg md) \<in> {0, 1}"
  "oc_exit (run_mode version pg md) = 1 \<and> (\<forall>path. md \<noteq> RunCheckConfig path) \<Longrightarrow> oc_out (run_mode version pg md) = []"
  "oc_exit (run_mode version pg md) = 1 \<and> (\<forall>path. md \<noteq> RunCheckConfig path) \<Longrightarrow> oc_err (run_mode version pg md) \<noteq> []"
  by (cases md; auto simp: run_mode_def exit_with_def split: sum.split option.splits prod.splits)+

section \<open>What a scrape is served\<close>

definition age_rows :: "duration \<Rightarrow> family" where
  "age_rows age =
     gauge ''snapshot_age_seconds'' ''Age of the readings served, in seconds.'' [([], fmt_f 3 (seconds_of age))]"

lemma age_rows_ok: "family_ok (age_rows age)"
proof -
  have "NL \<notin> set (fmt_f 3 x)" for x using plain_fmt_f [of 3 x] by (auto simp: plain_def plain_char_def list_all_iff)
  then show ?thesis by (simp add: age_rows_def family_ok_def gauge_def plain_key_def sample_ok_def)
qed

lemma metrics_body:
  "re_body (metrics_reply num ks ctxErr now (Served m at')) =
     concat (map family_text (prom_families num ks m @ [age_rows (timeSub now at')]))"
  by (simp add: metrics_reply_def buildPrometheus_def age_family_def age_rows_def family_text_def gauge_def
      sample_line_def labels_text_def)

lemma age_name_new: "fa_name (age_rows age) \<notin> set (map fa_name (prom_families num ks m))"
proof
  assume "fa_name (age_rows age) \<in> set (map fa_name (prom_families num ks m))"
  then have "fa_name (age_rows age) \<in> set family_order"
    using list_emb_set [OF family_names_order [of num ks m]] by metis
  then show False by (simp add: age_rows_def gauge_def family_order_def)
qed

text \<open>C11: Every request is answered with what its status says. A scrape of readings parses: read back by the
  exposition format's own rules it is exactly the samples of the families, every label as it was, and their
  age, and no family occurs twice; without readings, metrics and snapshot alike say 503, never 200; the snapshot is the
  marshalled one or a 500; and any other path than the four routes is a 404.\<close>

theorem scrape_answers:
  assumes "\<And>v. NL \<notin> set (num v)"
  shows "(\<forall>m at'. a = Served m at' \<longrightarrow>
      (let r = Handler version marshal num ks ctxErr a now ''/metrics''
       in re_status r = 200 \<and>
          map parse_sample (filter (\<lambda>l. \<not> hasPrefix l ''# '') (exposition_lines (re_body r))) =
            map Some (concat (map family_rows (prom_families num ks m)) @
              [(''ucmon_snapshot_age_seconds'', [], fmt_f 3 (seconds_of (timeSub now at')))]) \<and>
          distinct (map fa_name (prom_families num ks m @ [age_rows (timeSub now at')])))) \<and>
    (re_status (Handler version marshal num ks ctxErr a now ''/metrics'') = 503 \<longleftrightarrow> (\<forall>m at'. a \<noteq> Served m at')) \<and>
    (re_status (Handler version marshal num ks ctxErr a now ''/snapshot'') =
      (case a of Served m at' \<Rightarrow> (case marshal (snapshotJSON version now ks m) of Inl e \<Rightarrow> 500 | Inr b \<Rightarrow> 200) | _ \<Rightarrow> 503)) \<and>
    (re_status (Handler version marshal num ks ctxErr a now path) = 404 \<longleftrightarrow>
      path \<notin> {''/'', ''/metrics'', ''/snapshot'', ''/healthz''})"
proof (intro conjI allI impI)
  fix m at' assume a: "a = Served m at'"
  let ?age = "timeSub now at'"
  have ok: "list_all family_ok (prom_families num ks m @ [age_rows ?age])"
    using prom_families_ok [OF assms] age_rows_ok by simp
  have r: "family_rows (age_rows ?age) = [(''ucmon_snapshot_age_seconds'', [], fmt_f 3 (seconds_of ?age))]"
    by (simp add: family_rows_def age_rows_def gauge_def)
  have h: "Handler version marshal num ks ctxErr a now ''/metrics'' = metrics_reply num ks ctxErr now (Served m at')"
    by (simp add: Handler_def a)
  have "re_status (metrics_reply num ks ctxErr now (Served m at')) = 200" by (simp add: metrics_reply_def)
  moreover have "distinct (map fa_name (prom_families num ks m @ [age_rows ?age]))"
    using family_names [of num ks m] age_name_new [of ?age num ks m] by simp
  ultimately show "let r = Handler version marshal num ks ctxErr a now ''/metrics''
       in re_status r = 200 \<and>
          map parse_sample (filter (\<lambda>l. \<not> hasPrefix l ''# '') (exposition_lines (re_body r))) =
            map Some (concat (map family_rows (prom_families num ks m)) @
              [(''ucmon_snapshot_age_seconds'', [], fmt_f 3 (seconds_of ?age))]) \<and>
          distinct (map fa_name (prom_families num ks m @ [age_rows ?age]))"
    unfolding Let_def h metrics_body families_parse [OF ok] by (simp add: r)
qed (auto simp: Handler_def metrics_reply_def snapshot_reply_def http_ok_def http_error_def serve_index_def
    split: answer.splits sum.splits)

lemma scrape_answers_witness:
  "re_status (Handler ''1.0'' (\<lambda>_. Inl ''no'') (\<lambda>_. ''1'') [] [] (NoSnapshot :: Model answer) 5 ''/metrics'') = 503 \<and>
   re_status (Handler ''1.0'' (\<lambda>_. Inl ''no'') (\<lambda>_. ''1'') [] [] (NoSnapshot :: Model answer) 5 ''/x'') = 404"
proof -
  have "NL \<notin> set ((\<lambda>_ :: f64. ''1'') v)" for v by simp
  from scrape_answers [OF this, of "NoSnapshot" "''1.0''" "\<lambda>_. Inl ''no''" "[]" "[]" 5 "''/x''"] show ?thesis by simp
qed

end
